(* ===== verification/Prelude.thy ===== *)
theory Prelude
  imports Main "HOL-Library.Char_ord" "HOL-Library.List_Lexorder" "HOL-Library.AList"
    "HOL-Library.Code_Target_Nat"
begin

text \<open>
  The shared vocabulary of the development: byte strings, results, the collections of
  simplification rules, generic facts about lists, and the interfaces that several
  components implement: a codec (what is written reads back), an enumeration with a spelling
  (the macro \<^verbatim>\<open>str_enum!\<close>), a finite map, and a component whose operations keep an
  invariant.

  A Rust \<^verbatim>\<open>Vec<u8>\<close>, \<^verbatim>\<open>&[u8]\<close>, \<^verbatim>\<open>String\<close> or \<^verbatim>\<open>&str\<close> is a HOL \<^typ>\<open>string\<close>: a HOL
  character is one byte, and a Rust string is its UTF-8 bytes, so \<^verbatim>\<open>len()\<close> is
  \<^const>\<open>length\<close> and \<^verbatim>\<open>as_bytes()\<close> is the identity.
\<close>

type_synonym bytes = string
type_synonym ('e, 'a) result = "'e + 'a"

named_theorems opdef \<open>definitions of the operations of a component\<close>
named_theorems invs \<open>preservation of component invariants\<close>

section \<open>Results\<close>

text \<open>The \<^verbatim>\<open>?\<close> operator, \<^verbatim>\<open>ok()\<close> and \<^verbatim>\<open>ok_or\<close>.\<close>

definition and_then :: "('e, 'a) result \<Rightarrow> ('a \<Rightarrow> ('e, 'b) result) \<Rightarrow> ('e, 'b) result" where
  "and_then r f = (case r of Inl e \<Rightarrow> Inl e | Inr x \<Rightarrow> f x)"

definition ok :: "('e, 'a) result \<Rightarrow> 'a option" where
  "ok r = (case r of Inl _ \<Rightarrow> None | Inr x \<Rightarrow> Some x)"

definition ok_or :: "'a option \<Rightarrow> 'e \<Rightarrow> ('e, 'a) result" where
  "ok_or x e = (case x of None \<Rightarrow> Inl e | Some y \<Rightarrow> Inr y)"

lemma and_then_simps [simp]: "and_then (Inl e) f = Inl e" "and_then (Inr x) f = f x"
  by (simp_all add: and_then_def)

lemma and_then_eq_Inr [simp]: "and_then r f = Inr y \<longleftrightarrow> (\<exists>x. r = Inr x \<and> f x = Inr y)"
  by (cases r) auto

lemma and_then_eq_Inl: "and_then r f = Inl e \<longleftrightarrow> r = Inl e \<or> (\<exists>x. r = Inr x \<and> f x = Inl e)"
  by (cases r) auto

lemma ok_simps [simp]: "ok (Inl e) = None" "ok (Inr x) = Some x"
  by (simp_all add: ok_def)

lemma ok_eq_Some [simp]: "ok r = Some x \<longleftrightarrow> r = Inr x"
  by (cases r) auto

lemma ok_or_simps [simp]: "ok_or None e = Inl e" "ok_or (Some x) e = Inr x"
  by (simp_all add: ok_or_def)

lemma ok_or_eq_Inr [simp]: "ok_or x e = Inr y \<longleftrightarrow> x = Some y"
  by (cases x) auto

text \<open>\<^verbatim>\<open>collect()\<close> into a \<^verbatim>\<open>Result\<close> or an \<^verbatim>\<open>Option\<close>: the first failure wins.\<close>

fun collect_result :: "('a \<Rightarrow> ('e, 'b) result) \<Rightarrow> 'a list \<Rightarrow> ('e, 'b list) result" where
  "collect_result f [] = Inr []"
| "collect_result f (x # xs) = and_then (f x) (\<lambda>y. and_then (collect_result f xs) (\<lambda>ys. Inr (y # ys)))"

fun collect_option :: "('a \<Rightarrow> 'b option) \<Rightarrow> 'a list \<Rightarrow> 'b list option" where
  "collect_option f [] = Some []"
| "collect_option f (x # xs) =
     (case f x of None \<Rightarrow> None | Some y \<Rightarrow> map_option (Cons y) (collect_option f xs))"

lemma collect_result_map: "(\<And>x. x \<in> set xs \<Longrightarrow> f (g x) = Inr x) \<Longrightarrow> collect_result f (map g xs) = Inr xs"
  by (induction xs) auto

lemma collect_result_Inr_iff:
  "collect_result f xs = Inr ys \<longleftrightarrow> list_all2 (\<lambda>x y. f x = Inr y) xs ys"
  by (induction xs arbitrary: ys) (auto simp: list_all2_Cons1)

section \<open>Bytes\<close>

definition is_digit :: "char \<Rightarrow> bool" where
  "is_digit c \<longleftrightarrow> CHR ''0'' \<le> c \<and> c \<le> CHR ''9''"

abbreviation code :: "char \<Rightarrow> nat" where
  "code c \<equiv> of_char c"

lemma is_digit_code: "is_digit c \<longleftrightarrow> 48 \<le> code c \<and> code c \<le> 57"
  by (simp add: is_digit_def less_eq_char_def)

text \<open>\<^verbatim>\<open>position(|b| b == x)\<close>: the index of the first occurrence.\<close>

fun position :: "char \<Rightarrow> string \<Rightarrow> nat option" where
  "position c [] = None"
| "position c (x # xs) = (if x = c then Some 0 else map_option Suc (position c xs))"

lemma position_append: "c \<notin> set xs \<Longrightarrow> position c (xs @ c # ys) = Some (length xs)"
  by (induction xs) auto

lemma position_Some_bound: "position c xs = Some n \<Longrightarrow> n < length xs"
  by (induction xs arbitrary: n) (auto split: if_splits)

lemma position_Some_nth: "position c xs = Some n \<Longrightarrow> xs ! n = c"
  by (induction xs arbitrary: n) (auto split: if_splits)

lemma position_Some_split:
  "position c xs = Some n \<Longrightarrow> xs = take n xs @ c # drop (Suc n) xs \<and> c \<notin> set (take n xs)"
  by (induction xs arbitrary: n) (auto split: if_splits)

lemma position_None [simp]: "position c xs = None \<longleftrightarrow> c \<notin> set xs"
  by (induction xs) auto

text \<open>\<^verbatim>\<open>split(|b| b == x)\<close>: the pieces between occurrences, at least one of them.\<close>

fun split_on :: "char \<Rightarrow> string \<Rightarrow> string list" where
  "split_on c [] = [[]]"
| "split_on c (x # xs) =
     (if x = c then [] # split_on c xs
      else (case split_on c xs of [] \<Rightarrow> [[x]] | p # ps \<Rightarrow> (x # p) # ps))"

lemma split_on_not_Nil [simp]: "split_on c xs \<noteq> []"
  by (induction xs) (auto split: list.splits)

lemma split_on_append: "split_on c (xs @ c # ys) = split_on c xs @ split_on c ys"
  by (induction xs) (auto split: list.splits)

lemma split_on_single: "c \<notin> set xs \<Longrightarrow> split_on c xs = [xs]"
  by (induction xs) auto

lemma split_on_no_sep: "p \<in> set (split_on c xs) \<Longrightarrow> c \<notin> set p"
  by (induction xs arbitrary: p) (auto split: list.splits if_splits)

section \<open>Generic list facts\<close>

lemma take_append_le: "length xs \<le> n \<Longrightarrow> take n (xs @ ys) = xs @ take (n - length xs) ys"
  by simp

lemma drop_length_append [simp]: "drop (length xs + n) (xs @ ys) = drop n ys"
  by simp

lemma nth_length_append [simp]: "(xs @ ys) ! (length xs + n) = ys ! n"
  by (simp add: nth_append)

lemma filter_take_length: "length (take n (filter P xs)) \<le> n"
  by simp

lemma distinct_map_filter_fst: "distinct (map fst xs) \<Longrightarrow> distinct (map fst (filter P xs))"
  by (induction xs) auto

lemma map_of_filter_Some:
  assumes "distinct (map fst es)"
  shows "map_of (filter keep es) key = Option.bind (map_of es key) (\<lambda>v. if keep (key, v) then Some v else None)"
  using assms
proof (induction es)
  case (Cons e es)
  have "key \<notin> fst ` set es \<Longrightarrow> map_of (filter keep es) key = None"
    by (auto simp: map_of_eq_None_iff)
  with Cons show ?case
    by (cases e) (auto split: bind_splits simp: map_of_eq_None_iff)
qed simp

lemma set_map_filter: "set (List.map_filter f xs) = {y. \<exists>x \<in> set xs. f x = Some y}"
  by (force simp: map_filter_def)

lemma map_filter_Nil_iff: "List.map_filter f xs = [] \<longleftrightarrow> (\<forall>x \<in> set xs. f x = None)"
  by (auto simp: map_filter_def filter_empty_conv)

lemma find_eq_Some: "v \<in> set xs \<Longrightarrow> find (\<lambda>w. w = v) xs = Some v"
  by (induction xs) auto

section \<open>Codecs\<close>

text \<open>
  A writer and the reader that inverts it on well-formed values. What follows from that alone
  (the writer is injective, so distinct values never share a spelling) is proved once here.
  A \<^emph>\<open>strict\<close> codec also reads nothing but what the writer produces.
\<close>

locale codec =
  fixes enc :: "'a \<Rightarrow> 'b"
    and dec :: "'b \<Rightarrow> 'a option"
    and wf :: "'a \<Rightarrow> bool"
  assumes dec_enc: "wf x \<Longrightarrow> dec (enc x) = Some x"
begin

lemma enc_eq_iff: "wf x \<Longrightarrow> wf y \<Longrightarrow> enc x = enc y \<longleftrightarrow> x = y"
  by (metis dec_enc option.inject)

lemma enc_inj_on: "inj_on enc {x. wf x}"
  by (auto simp: inj_on_def enc_eq_iff)

lemma dec_onto: "wf x \<Longrightarrow> \<exists>b. dec b = Some x"
  using dec_enc by blast

end

locale strict_codec = codec +
  assumes enc_dec: "dec b = Some x \<Longrightarrow> wf x \<and> enc x = b"
begin

lemma dec_iff: "dec b = Some x \<longleftrightarrow> wf x \<and> enc x = b"
  using dec_enc enc_dec by blast

lemma dec_unambiguous: "dec b = Some x \<Longrightarrow> dec b' = Some x \<Longrightarrow> b = b'"
  by (metis enc_dec)

end

section \<open>Enumerations with a spelling\<close>

text \<open>
  \<^verbatim>\<open>str_enum!\<close>: \<^verbatim>\<open>parse\<close> is derived from \<^verbatim>\<open>as_str\<close> by scanning \<^verbatim>\<open>ALL\<close>; the lenient form
  falls back to a default variant.
\<close>

definition str_enum_parse :: "'a list \<Rightarrow> ('a \<Rightarrow> string) \<Rightarrow> string \<Rightarrow> 'a option" where
  "str_enum_parse all as_str value = find (\<lambda>v. as_str v = value) all"

definition str_enum_parse_lenient :: "'a list \<Rightarrow> ('a \<Rightarrow> string) \<Rightarrow> 'a \<Rightarrow> string \<Rightarrow> 'a" where
  "str_enum_parse_lenient all as_str dflt value =
     (case find (\<lambda>v. as_str v = value) all of None \<Rightarrow> dflt | Some v \<Rightarrow> v)"

locale str_enum =
  fixes all :: "'a list"
    and as_str :: "'a \<Rightarrow> string"
  assumes exhaustive: "v \<in> set all"
    and spellings_distinct: "distinct (map as_str all)"
begin

lemma as_str_eq_iff: "as_str v = as_str w \<longleftrightarrow> v = w"
  using spellings_distinct exhaustive by (auto simp: distinct_map inj_on_def)

lemma parse_as_str: "str_enum_parse all as_str (as_str v) = Some v"
proof -
  have "find (\<lambda>w. as_str w = as_str v) all = find (\<lambda>w. w = v) all"
    by (simp add: as_str_eq_iff)
  also have "\<dots> = Some v"
    using exhaustive [of v] by (rule find_eq_Some)
  finally show ?thesis by (simp add: str_enum_parse_def)
qed

lemma parse_Some_iff: "str_enum_parse all as_str s = Some v \<longleftrightarrow> as_str v = s"
  using parse_as_str by (auto simp: str_enum_parse_def find_Some_iff)

lemma lenient_as_str: "str_enum_parse_lenient all as_str d (as_str v) = v"
  using parse_as_str by (simp add: str_enum_parse_def str_enum_parse_lenient_def)

lemma lenient_unknown: "s \<notin> range as_str \<Longrightarrow> str_enum_parse_lenient all as_str d s = d"
  by (auto simp: str_enum_parse_lenient_def find_Some_iff split: option.split)

end

sublocale str_enum \<subseteq> sc: strict_codec as_str "str_enum_parse all as_str" "\<lambda>_. True"
  by unfold_locales (auto simp: parse_Some_iff)

section \<open>Finite maps\<close>

text \<open>
  What the code relies on of \<^verbatim>\<open>BTreeMap\<close> and \<^verbatim>\<open>HashMap\<close>: lookup after insertion, removal and
  filtering. The two models below implement it, one as a strictly sorted association list
  (iteration in key order), one as an association list with distinct keys (iteration in an
  order of its own).
\<close>

locale finite_map =
  fixes get :: "'m \<Rightarrow> 'k \<Rightarrow> 'v option"
    and put :: "'k \<Rightarrow> 'v \<Rightarrow> 'm \<Rightarrow> 'm"
    and del :: "'k \<Rightarrow> 'm \<Rightarrow> 'm"
    and mok :: "'m \<Rightarrow> bool"
  assumes get_put: "mok m \<Longrightarrow> get (put k v m) = (get m)(k := Some v)"
    and get_del: "mok m \<Longrightarrow> get (del k m) = (get m)(k := None)"
    and mok_put: "mok m \<Longrightarrow> mok (put k v m)"
    and mok_del: "mok m \<Longrightarrow> mok (del k m)"
begin

lemma get_put_same: "mok m \<Longrightarrow> get (put k v m) k = Some v"
  by (simp add: get_put)

lemma get_put_other: "mok m \<Longrightarrow> k' \<noteq> k \<Longrightarrow> get (put k v m) k' = get m k'"
  by (simp add: get_put)

lemma get_put_commute:
  "mok m \<Longrightarrow> k \<noteq> k' \<Longrightarrow> get (put k v (put k' v' m)) = get (put k' v' (put k v m))"
  by (simp add: get_put mok_put fun_upd_twist)

lemma get_del_put: "mok m \<Longrightarrow> get (del k (put k v m)) = get (del k m)"
  by (simp add: get_put get_del mok_put)

lemma mok_foldr_put: "mok m \<Longrightarrow> mok (foldr (\<lambda>(k, v). put k v) kvs m)"
  by (induction kvs) (auto simp: mok_put)

end

section \<open>Components that keep an invariant\<close>

text \<open>
  A component is its initial states and its operations as one step function over a type of
  events. If the initial states satisfy an invariant and every operation keeps it, it holds
  after every sequence of operations.
\<close>

locale component =
  fixes start :: "'s \<Rightarrow> bool"
    and step :: "'s \<Rightarrow> 'e \<Rightarrow> 's"
    and inv :: "'s \<Rightarrow> bool"
  assumes start_inv: "start s \<Longrightarrow> inv s"
    and step_inv: "inv s \<Longrightarrow> inv (step s e)"
begin

inductive reachable :: "'s \<Rightarrow> bool" where
  initial: "start s \<Longrightarrow> reachable s"
| next_state: "reachable s \<Longrightarrow> reachable (step s e)"

lemma reachable_inv: "reachable s \<Longrightarrow> inv s"
  by (induction rule: reachable.induct) (auto intro: start_inv step_inv)

lemma run_inv: "inv s \<Longrightarrow> inv (foldl step s es)"
  by (induction es arbitrary: s) (auto intro: step_inv)

lemma run_from_start: "start s \<Longrightarrow> inv (foldl step s es)"
  by (rule run_inv) (rule start_inv)

lemma run_reachable: "reachable s \<Longrightarrow> reachable (foldl step s es)"
  by (induction es arbitrary: s) (auto intro: reachable.intros)

end

text \<open>
  A relation between an earlier and a later state that every admitted operation respects is
  respected by every run of admitted operations: what is fixed once stays fixed.
\<close>

locale evolution =
  fixes step :: "'s \<Rightarrow> 'e \<Rightarrow> 's"
    and later :: "'s \<Rightarrow> 's \<Rightarrow> bool"
    and admitted :: "'e \<Rightarrow> bool"
  assumes later_refl: "later s s"
    and later_trans: "later s s' \<Longrightarrow> later s' s'' \<Longrightarrow> later s s''"
    and step_later: "admitted e \<Longrightarrow> later s (step s e)"
begin

lemma run_later: "list_all admitted es \<Longrightarrow> later s (foldl step s es)"
  by (induction es arbitrary: s) (auto intro: later_refl later_trans step_later)

end

end
