(* ===== verification/Rust_Std.thy ===== *)
theory Rust_Std
  imports Prelude
begin

text \<open>
  What the modelled code uses of Rust's standard library: integers of a fixed width printed
  by \<^verbatim>\<open>to_string\<close> and read by \<^verbatim>\<open>str::parse\<close>, checked and saturating arithmetic, and the two
  map types. Integers are \<^typ>\<open>int\<close> or \<^typ>\<open>nat\<close> with their range written out wherever
  the code can leave it.
\<close>

section \<open>Integer ranges\<close>

definition i64_ok :: "int \<Rightarrow> bool" where
  "i64_ok n \<longleftrightarrow> - (2 ^ 63) \<le> n \<and> n < 2 ^ 63"

abbreviation (input) i64_max :: int where "i64_max \<equiv> 2 ^ 63 - 1"
abbreviation (input) i64_min :: int where "i64_min \<equiv> - (2 ^ 63)"
abbreviation (input) u64_max :: nat where "u64_max \<equiv> 2 ^ 64 - 1"
abbreviation (input) u32_max :: nat where "u32_max \<equiv> 2 ^ 32 - 1"
abbreviation (input) u16_max :: nat where "u16_max \<equiv> 2 ^ 16 - 1"
abbreviation (input) u8_max :: nat where "u8_max \<equiv> 2 ^ 8 - 1"

text \<open>\<^verbatim>\<open>usize\<close> is 64 bits wide on every platform the program is shipped for.\<close>

abbreviation (input) usize_max :: nat where "usize_max \<equiv> 2 ^ 64 - 1"

definition checked_add_i64 :: "int \<Rightarrow> int \<Rightarrow> int option" where
  "checked_add_i64 a b = (if i64_ok (a + b) then Some (a + b) else None)"

definition saturating_add_i64 :: "int \<Rightarrow> int \<Rightarrow> int" where
  "saturating_add_i64 a b = max i64_min (min i64_max (a + b))"

definition saturating_sub_i64 :: "int \<Rightarrow> int \<Rightarrow> int" where
  "saturating_sub_i64 a b = max i64_min (min i64_max (a - b))"

definition saturating_add_u64 :: "nat \<Rightarrow> nat \<Rightarrow> nat" where
  "saturating_add_u64 a b = min u64_max (a + b)"

definition checked_sub_nat :: "nat \<Rightarrow> nat \<Rightarrow> nat option" where
  "checked_sub_nat a b = (if b \<le> a then Some (a - b) else None)"

text \<open>\<^verbatim>\<open>i64::try_from(u64)\<close> and \<^verbatim>\<open>u64::try_from(i64)\<close>.\<close>

definition i64_try_from :: "nat \<Rightarrow> int option" where
  "i64_try_from n = (if int n \<le> i64_max then Some (int n) else None)"

definition u64_try_from :: "int \<Rightarrow> nat option" where
  "u64_try_from n = (if 0 \<le> n then Some (nat n) else None)"

text \<open>\<^verbatim>\<open>n as i64\<close> for an unsigned 64-bit \<open>n\<close>: two's complement.\<close>

definition as_i64 :: "nat \<Rightarrow> int" where
  "as_i64 n = (if n < 2 ^ 63 then int n else int n - 2 ^ 64)"

lemma i64_ok_as_i64: "n \<le> u64_max \<Longrightarrow> i64_ok (as_i64 n)"
  by (auto simp: as_i64_def i64_ok_def)

lemma i64_ok_saturating [simp]:
  "i64_ok (saturating_add_i64 a b)" "i64_ok (saturating_sub_i64 a b)"
  by (auto simp: i64_ok_def saturating_add_i64_def saturating_sub_i64_def)

section \<open>Decimal text\<close>

definition digit_char :: "nat \<Rightarrow> char" where
  "digit_char d = char_of (48 + d)"

fun show_nat :: "nat \<Rightarrow> string" where
  "show_nat n = (if n < 10 then [digit_char n] else show_nat (n div 10) @ [digit_char (n mod 10)])"

declare show_nat.simps [simp del]

definition show_int :: "int \<Rightarrow> string" where
  "show_int n = (if n < 0 then CHR ''-'' # show_nat (nat (- n)) else show_nat (nat n))"

definition digits_val :: "string \<Rightarrow> nat" where
  "digits_val ds = foldl (\<lambda>a c. 10 * a + (code c - 48)) 0 ds"

text \<open>
  \<^verbatim>\<open>str::parse\<close> on an unsigned type accepts one leading \<^verbatim>\<open>+\<close>, needs at least one digit and
  nothing but digits, and fails when the value does not fit. On \<^verbatim>\<open>i64\<close> a leading \<^verbatim>\<open>-\<close> is
  accepted as well.
\<close>

definition parse_digits :: "string \<Rightarrow> nat option" where
  "parse_digits ds = (if ds \<noteq> [] \<and> list_all is_digit ds then Some (digits_val ds) else None)"

definition parse_unsigned :: "nat \<Rightarrow> string \<Rightarrow> nat option" where
  "parse_unsigned mx s =
     (case parse_digits (case s of [] \<Rightarrow> [] | c # cs \<Rightarrow> if c = CHR ''+'' then cs else s) of
        None \<Rightarrow> None
      | Some n \<Rightarrow> if n \<le> mx then Some n else None)"

abbreviation parse_u64 :: "string \<Rightarrow> nat option" where "parse_u64 \<equiv> parse_unsigned u64_max"
abbreviation parse_usize :: "string \<Rightarrow> nat option" where "parse_usize \<equiv> parse_unsigned usize_max"
abbreviation parse_u32 :: "string \<Rightarrow> nat option" where "parse_u32 \<equiv> parse_unsigned u32_max"
abbreviation parse_u16 :: "string \<Rightarrow> nat option" where "parse_u16 \<equiv> parse_unsigned u16_max"
abbreviation parse_u8 :: "string \<Rightarrow> nat option" where "parse_u8 \<equiv> parse_unsigned u8_max"

definition parse_i64 :: "string \<Rightarrow> int option" where
  "parse_i64 s =
     (let (sgn, ds) = (case s of [] \<Rightarrow> (1, [])
                       | c # cs \<Rightarrow> if c = CHR ''-'' then (-1, cs)
                                  else if c = CHR ''+'' then (1, cs) else (1, s))
      in case parse_digits ds of
           None \<Rightarrow> None
         | Some n \<Rightarrow> if i64_ok (sgn * int n) then Some (sgn * int n) else None)"

lemma code_digit_char: "d < 10 \<Longrightarrow> code (digit_char d) = 48 + d"
  by (simp add: digit_char_def)

lemma is_digit_digit_char: "d < 10 \<Longrightarrow> is_digit (digit_char d)"
  by (simp add: is_digit_code code_digit_char)

lemma digits_val_append: "digits_val (xs @ [c]) = 10 * digits_val xs + (code c - 48)"
  by (simp add: digits_val_def)

lemma show_nat_all_digits: "list_all is_digit (show_nat n)"
proof (induction n rule: show_nat.induct)
  case (1 n)
  then show ?case
    by (subst show_nat.simps) (auto simp: is_digit_digit_char)
qed

lemma show_nat_not_Nil [simp]: "show_nat n \<noteq> []"
  by (subst show_nat.simps) simp

lemma digits_val_show_nat [simp]: "digits_val (show_nat n) = n"
proof (induction n rule: show_nat.induct)
  case (1 n)
  show ?case
  proof (cases "n < 10")
    case True
    then show ?thesis
      by (subst show_nat.simps) (simp add: digits_val_def code_digit_char)
  next
    case False
    with 1 have "digits_val (show_nat (n div 10)) = n div 10" by simp
    with False show ?thesis
      by (subst show_nat.simps) (simp add: digits_val_append code_digit_char)
  qed
qed

lemma hd_show_nat_digit: "is_digit (hd (show_nat n))"
  using show_nat_all_digits [of n] by (cases "show_nat n") auto

lemma show_nat_Cons: obtains c cs where "show_nat n = c # cs" "is_digit c"
  using hd_show_nat_digit [of n] by (cases "show_nat n") auto

lemma digit_not_sign [simp]: "\<not> is_digit (CHR ''-'')" "\<not> is_digit (CHR ''+'')"
    "\<not> is_digit (CHR ''e'')" "\<not> is_digit (CHR '':'')" "\<not> is_digit (CHR ''i'')"
    "\<not> is_digit (CHR ''l'')" "\<not> is_digit (CHR ''d'')"
  by (simp_all add: is_digit_code)

lemma non_digit_notin: "\<not> is_digit c \<Longrightarrow> c \<notin> set (show_nat n)"
  using show_nat_all_digits [of n] by (auto simp: list_all_iff)

lemma parse_digits_show [simp]: "parse_digits (show_nat n) = Some n"
  by (simp add: parse_digits_def show_nat_all_digits)

lemma parse_unsigned_show: "n \<le> mx \<Longrightarrow> parse_unsigned mx (show_nat n) = Some n"
proof -
  assume "n \<le> mx"
  moreover obtain c cs where "show_nat n = c # cs" "is_digit c"
    by (rule show_nat_Cons)
  moreover from this have "parse_digits (c # cs) = Some n"
    by (metis parse_digits_show)
  ultimately show ?thesis by (auto simp: parse_unsigned_def)
qed

lemma parse_unsigned_bound: "parse_unsigned mx s = Some n \<Longrightarrow> n \<le> mx"
  by (auto simp: parse_unsigned_def split: option.splits if_splits)

lemma parse_i64_show: "i64_ok n \<Longrightarrow> parse_i64 (show_int n) = Some n"
proof (cases "n < 0")
  case True
  moreover assume "i64_ok n"
  ultimately show ?thesis by (simp add: parse_i64_def show_int_def)
next
  case False
  moreover assume "i64_ok n"
  moreover obtain c cs where "show_nat (nat n) = c # cs" "is_digit c"
    by (rule show_nat_Cons)
  moreover from this have "parse_digits (c # cs) = Some (nat n)"
    by (metis parse_digits_show)
  ultimately show ?thesis by (auto simp: parse_i64_def show_int_def)
qed

lemma parse_i64_range: "parse_i64 s = Some n \<Longrightarrow> i64_ok n"
  by (auto simp: parse_i64_def Let_def split: option.splits if_splits list.splits)

lemma digits_val_bound: "list_all is_digit ds \<Longrightarrow> digits_val ds < 10 ^ length ds"
proof (induction ds rule: rev_induct)
  case (snoc c ds)
  then have "digits_val ds < 10 ^ length ds" "code c - 48 < 10" by (auto simp: is_digit_code)
  then show ?case by (simp add: digits_val_append)
qed (simp add: digits_val_def)

lemma length_show_nat_le: "n < 10 ^ k \<Longrightarrow> 0 < k \<Longrightarrow> length (show_nat n) \<le> k"
proof (induction k arbitrary: n)
  case (Suc k)
  show ?case
  proof (cases "n < 10")
    case False
    then have "n div 10 < 10 ^ k" "0 < k" using Suc.prems by (auto intro: gr0I)
    then have "length (show_nat (n div 10)) \<le> k" by (rule Suc.IH)
    with False show ?thesis by (subst show_nat.simps) simp
  qed (subst show_nat.simps, simp)
qed simp

lemma hd_show_nat_nonzero: "0 < n \<Longrightarrow> hd (show_nat n) \<noteq> CHR ''0''"
proof (induction n rule: show_nat.induct)
  case (1 n)
  show ?case
  proof (cases "n < 10")
    case True
    have "code (digit_char n) \<noteq> code CHR ''0''"
      using True 1(2) by (simp add: code_digit_char)
    then have "digit_char n \<noteq> CHR ''0''" by metis
    with True show ?thesis by (subst show_nat.simps) simp
  next
    case False
    then show ?thesis using 1 by (subst show_nat.simps) simp
  qed
qed

text \<open>
  Read and print back, refusing any spelling other than the printed one: the strict decimal
  codec of bencode's integers.
\<close>

definition parse_canonical_i64 :: "string \<Rightarrow> int option" where
  "parse_canonical_i64 s = (case parse_i64 s of None \<Rightarrow> None | Some n \<Rightarrow> if show_int n = s then Some n else None)"

interpretation i64_text: strict_codec show_int parse_canonical_i64 i64_ok
  by unfold_locales
    (auto simp: parse_canonical_i64_def parse_i64_show dest: parse_i64_range split: option.splits if_splits)

section \<open>BTreeMap\<close>

text \<open>A \<^verbatim>\<open>BTreeMap\<close> is the list of its entries in iteration order, that is, strictly sorted by key.\<close>

type_synonym ('k, 'v) btree = "('k \<times> 'v) list"

definition bt_ok :: "('k::linorder, 'v) btree \<Rightarrow> bool" where
  "bt_ok m \<longleftrightarrow> sorted_wrt (<) (map fst m)"

fun bt_insert :: "'k::linorder \<Rightarrow> 'v \<Rightarrow> ('k, 'v) btree \<Rightarrow> ('k, 'v) btree" where
  "bt_insert k v [] = [(k, v)]"
| "bt_insert k v ((k', v') # m) =
     (if k < k' then (k, v) # (k', v') # m
      else if k = k' then (k, v) # m
      else (k', v') # bt_insert k v m)"

definition bt_remove :: "'k \<Rightarrow> ('k, 'v) btree \<Rightarrow> ('k, 'v) btree" where
  "bt_remove k m = filter (\<lambda>e. fst e \<noteq> k) m"

definition bt_from :: "('k::linorder \<times> 'v) list \<Rightarrow> ('k, 'v) btree" where
  "bt_from es = foldl (\<lambda>m (k, v). bt_insert k v m) [] es"

lemma bt_ok_Nil [simp]: "bt_ok []"
  by (simp add: bt_ok_def)

lemma bt_ok_Cons [simp]: "bt_ok ((k, v) # m) \<longleftrightarrow> (\<forall>e \<in> set m. k < fst e) \<and> bt_ok m"
  by (auto simp: bt_ok_def)

lemma bt_ok_distinct: "bt_ok m \<Longrightarrow> distinct (map fst m)"
  by (induction m) fastforce+

lemma map_of_bt_insert [simp]: "map_of (bt_insert k v m) = (map_of m)(k \<mapsto> v)"
  by (induction m) auto

lemma fst_set_bt_insert: "fst ` set (bt_insert k v m) = insert k (fst ` set m)"
  by (simp flip: dom_map_of_conv_image_fst)

lemma set_bt_insert_subset: "set (bt_insert k v m) \<subseteq> insert (k, v) (set m)"
  by (induction m) (auto split: if_splits)

lemma bt_ok_insert [simp]: "bt_ok m \<Longrightarrow> bt_ok (bt_insert k v m)"
proof (induction m)
  case (Cons e m)
  obtain k' v' where e: "e = (k', v')" by fastforce
  show ?case
  proof (cases "k' < k")
    case True
    have "\<forall>x \<in> fst ` set (bt_insert k v m). k' < x"
      using Cons.prems True by (auto simp: e fst_set_bt_insert)
    then show ?thesis using Cons True by (auto simp: e)
  next
    case False
    then show ?thesis using Cons by (auto simp: e)
  qed
qed simp

lemma map_of_bt_remove [simp]: "map_of (bt_remove k m) = (map_of m)(k := None)"
  by (induction m) (auto simp: bt_remove_def fun_eq_iff)

lemma bt_ok_filter: "bt_ok m \<Longrightarrow> bt_ok (filter P m)"
  by (induction m) auto

lemma bt_ok_remove [simp]: "bt_ok m \<Longrightarrow> bt_ok (bt_remove k m)"
  by (simp add: bt_remove_def bt_ok_filter)

interpretation btree: finite_map map_of bt_insert bt_remove bt_ok
  by unfold_locales (simp_all)

text \<open>The sorted representation is canonical: maps with the same lookups are the same list.\<close>

lemma bt_ok_map_of_eq_imp:
  assumes "bt_ok m" "bt_ok m'" "map_of m = map_of m'"
  shows "m = m'"
proof -
  have keys: "set (map fst m) = set (map fst m')"
    using assms(3) by (metis dom_map_of_conv_image_fst set_map)
  have "sorted (map fst m)" "sorted (map fst m')"
    using assms(1,2) by (auto simp: bt_ok_def intro: sorted_wrt_mono_rel [of _ "(<)"] order.strict_implies_order)
  then have "map fst m = map fst m'"
    using keys bt_ok_distinct assms(1,2) by (metis sorted_distinct_set_unique)
  moreover have "map snd m = map (the \<circ> map_of m) (map fst m)"
    using bt_ok_distinct [OF assms(1)] by (auto simp: comp_def map_of_is_SomeI)
  moreover have "map snd m' = map (the \<circ> map_of m) (map fst m')"
    using bt_ok_distinct [OF assms(2)] assms(3) by (auto simp: comp_def map_of_is_SomeI)
  ultimately show ?thesis by (metis zip_map_fst_snd)
qed

lemma bt_insert_last: "\<forall>e \<in> set m. fst e < k \<Longrightarrow> bt_insert k v m = m @ [(k, v)]"
  by (induction m) fastforce+

lemma bt_ok_append:
  "bt_ok (xs @ ys) \<longleftrightarrow> bt_ok xs \<and> bt_ok ys \<and> (\<forall>x \<in> set xs. \<forall>y \<in> set ys. fst x < fst y)"
  by (auto simp: bt_ok_def sorted_wrt_append)

lemma bt_from_ok [simp]: "bt_ok (bt_from es)"
proof -
  have "bt_ok m \<Longrightarrow> bt_ok (foldl (\<lambda>m (k, v). bt_insert k v m) m es)" for m :: "('a, 'b) btree"
    by (induction es arbitrary: m) auto
  then show ?thesis by (simp add: bt_from_def)
qed

section \<open>HashMap\<close>

text \<open>
  A \<^verbatim>\<open>HashMap\<close> is an association list with distinct keys. Its iteration order is not
  specified by Rust: where the code iterates, the model takes the order as a parameter.
\<close>

type_synonym ('k, 'v) hashmap = "('k \<times> 'v) list"

definition hm_ok :: "('k, 'v) hashmap \<Rightarrow> bool" where
  "hm_ok m \<longleftrightarrow> distinct (map fst m)"

definition hm_insert :: "'k \<Rightarrow> 'v \<Rightarrow> ('k, 'v) hashmap \<Rightarrow> ('k, 'v) hashmap" where
  "hm_insert k v m = AList.update k v m"

definition hm_remove :: "'k \<Rightarrow> ('k, 'v) hashmap \<Rightarrow> ('k, 'v) hashmap" where
  "hm_remove k m = filter (\<lambda>e. fst e \<noteq> k) m"

lemma hm_ok_Nil [simp]: "hm_ok []"
  by (simp add: hm_ok_def)

lemma map_of_hm_insert [simp]: "map_of (hm_insert k v m) = (map_of m)(k \<mapsto> v)"
  by (simp add: hm_insert_def update_conv')

lemma map_of_hm_remove [simp]: "map_of (hm_remove k m) = (map_of m)(k := None)"
  by (induction m) (auto simp: hm_remove_def fun_eq_iff)

lemma hm_ok_insert [simp]: "hm_ok m \<Longrightarrow> hm_ok (hm_insert k v m)"
  by (simp add: hm_ok_def hm_insert_def distinct_update)

lemma hm_ok_filter [simp]: "hm_ok m \<Longrightarrow> hm_ok (filter P m)"
  by (simp add: hm_ok_def distinct_map_filter_fst)

lemma hm_ok_remove [simp]: "hm_ok m \<Longrightarrow> hm_ok (hm_remove k m)"
  by (simp add: hm_remove_def)

interpretation hashmap: finite_map map_of hm_insert hm_remove hm_ok
  by unfold_locales simp_all

lemma hm_insert_fresh: "k \<notin> fst ` set m \<Longrightarrow> hm_insert k v m = m @ [(k, v)]"
  by (induction m) (auto simp: hm_insert_def)

lemma set_hm_insert: "hm_ok m \<Longrightarrow> set (hm_insert k v m) = insert (k, v) {e \<in> set m. fst e \<noteq> k}"
proof (induction m)
  case (Cons e m)
  then show ?case by (cases e) (auto simp: hm_insert_def hm_ok_def rev_image_eqI)
qed (simp add: hm_insert_def)

lemma hm_insert_keys: "fst ` set (hm_insert k v m) = insert k (fst ` set m)"
  by (simp add: hm_insert_def dom_update)

lemma hm_remove_keys: "fst ` set (hm_remove k m) = fst ` set m - {k}"
  by (auto simp: hm_remove_def)

end
