(* ===== verification/Bencode.thy ===== *)
theory Bencode
  imports Rust_Std
begin

text \<open>
  \<^verbatim>\<open>sharerr-torrent/src/bencode.rs\<close>: the bencode encoder and the recursive-descent decoder.
  A dictionary is a \<^verbatim>\<open>BTreeMap\<close>, so its entries are strictly sorted by key; the decoder keeps
  its input and position explicit and every error carries the offset the code reports.
\<close>

section \<open>Values\<close>

datatype bvalue =
    BInt int
  | BBytes bytes
  | BList "bvalue list"
  | BDict "(bytes \<times> bvalue) list"

type_synonym bdict = "(bytes, bvalue) btree"

datatype bencode_error =
    Truncated
  | Unexpected char nat
  | MalformedInteger nat
  | MalformedLength nat
  | KeyNotAString nat
  | TooDeep nat
  | TrailingBytes nat

abbreviation (input) MAX_DEPTH :: nat where "MAX_DEPTH \<equiv> 32"

definition as_int :: "bvalue \<Rightarrow> int option" where
  "as_int v = (case v of BInt n \<Rightarrow> Some n | _ \<Rightarrow> None)"

definition as_bytes :: "bvalue \<Rightarrow> bytes option" where
  "as_bytes v = (case v of BBytes b \<Rightarrow> Some b | _ \<Rightarrow> None)"

definition as_list :: "bvalue \<Rightarrow> bvalue list option" where
  "as_list v = (case v of BList vs \<Rightarrow> Some vs | _ \<Rightarrow> None)"

definition as_dict :: "bvalue \<Rightarrow> bdict option" where
  "as_dict v = (case v of BDict es \<Rightarrow> Some es | _ \<Rightarrow> None)"

text \<open>\<^verbatim>\<open>std::str::from_utf8\<close> succeeds on exactly the byte sequences of Unicode's Table 3-7.\<close>

definition in_range :: "nat \<Rightarrow> nat \<Rightarrow> char \<Rightarrow> bool" where
  "in_range lo hi c \<longleftrightarrow> lo \<le> code c \<and> code c \<le> hi"

fun utf8_valid :: "bytes \<Rightarrow> bool" where
  "utf8_valid [] = True"
| "utf8_valid (a # as) =
     (if code a < 0x80 then utf8_valid as
      else if in_range 0xC2 0xDF a then
        (case as of b # r \<Rightarrow> in_range 0x80 0xBF b \<and> utf8_valid r | _ \<Rightarrow> False)
      else if in_range 0xE0 0xEF a then
        (case as of b # c # r \<Rightarrow>
            in_range (if code a = 0xE0 then 0xA0 else 0x80) (if code a = 0xED then 0x9F else 0xBF) b
            \<and> in_range 0x80 0xBF c \<and> utf8_valid r
         | _ \<Rightarrow> False)
      else if in_range 0xF0 0xF4 a then
        (case as of b # c # d # r \<Rightarrow>
            in_range (if code a = 0xF0 then 0x90 else 0x80) (if code a = 0xF4 then 0x8F else 0xBF) b
            \<and> in_range 0x80 0xBF c \<and> in_range 0x80 0xBF d \<and> utf8_valid r
         | _ \<Rightarrow> False)
      else False)"

definition as_str :: "bvalue \<Rightarrow> string option" where
  "as_str v = Option.bind (as_bytes v) (\<lambda>b. if utf8_valid b then Some b else None)"

section \<open>Encoding\<close>

definition write_len :: "nat \<Rightarrow> bytes" where
  "write_len n = show_nat n @ '':''"

definition write_bytes :: "bytes \<Rightarrow> bytes" where
  "write_bytes b = write_len (length b) @ b"

definition write_int :: "int \<Rightarrow> bytes" where
  "write_int n = ''i'' @ show_int n @ ''e''"

fun encode :: "bvalue \<Rightarrow> bytes" where
  "encode (BInt n) = write_int n"
| "encode (BBytes b) = write_bytes b"
| "encode (BList vs) = ''l'' @ concat (map encode vs) @ ''e''"
| "encode (BDict es) = ''d'' @ concat (map (\<lambda>(k, v). write_bytes k @ encode v) es) @ ''e''"

definition write_dict :: "bdict \<Rightarrow> bytes" where
  "write_dict es = ''d'' @ concat (map (\<lambda>(k, v). write_bytes k @ encode v) es) @ ''e''"

datatype field = FValue bvalue | FDict bdict

definition write_fields :: "(bytes, field) btree \<Rightarrow> bytes" where
  "write_fields fs =
     ''d'' @ concat (map (\<lambda>(k, f). write_bytes k @
               (case f of FValue v \<Rightarrow> encode v | FDict es \<Rightarrow> write_dict es)) fs) @ ''e''"

section \<open>Decoding\<close>

definition peek :: "bytes \<Rightarrow> nat \<Rightarrow> (bencode_error, char) result" where
  "peek inp pos = (if pos < length inp then Inr (inp ! pos) else Inl Truncated)"

definition p_integer :: "bytes \<Rightarrow> nat \<Rightarrow> (bencode_error, bvalue \<times> nat) result" where
  "p_integer inp offset =
     (let pos = offset + 1 in
      case position CHR ''e'' (drop pos inp) of
        None \<Rightarrow> Inl Truncated
      | Some end \<Rightarrow>
          (let digits = take end (drop pos inp) in
           if \<not> utf8_valid digits then Inl (MalformedInteger offset)
           else (case parse_canonical_i64 digits of
                   None \<Rightarrow> Inl (MalformedInteger offset)
                 | Some n \<Rightarrow> Inr (BInt n, pos + end + 1))))"

definition p_bytes :: "bytes \<Rightarrow> nat \<Rightarrow> (bencode_error, bytes \<times> nat) result" where
  "p_bytes inp offset =
     (case position CHR '':'' (drop offset inp) of
        None \<Rightarrow> Inl Truncated
      | Some colon \<Rightarrow>
          (let digits = take colon (drop offset inp) in
           case (if utf8_valid digits then parse_usize digits else None) of
             None \<Rightarrow> Inl (MalformedLength offset)
           | Some len \<Rightarrow>
               (let start = offset + colon + 1 in
                if start + len > usize_max then Inl Truncated
                else if start + len > length inp then Inl Truncated
                else Inr (take len (drop start inp), start + len))))"

lemma p_integer_pos: "p_integer inp pos = Inr (v, pos') \<Longrightarrow> pos < pos' \<and> pos' \<le> length inp"
  by (auto simp: p_integer_def Let_def split: option.splits if_splits dest!: position_Some_bound)

lemma p_bytes_pos: "p_bytes inp pos = Inr (b, pos') \<Longrightarrow> pos < pos' \<and> pos' \<le> length inp"
  by (auto simp: p_bytes_def Let_def split: option.splits if_splits)

lemma peek_Inr [simp]: "peek inp pos = Inr c \<longleftrightarrow> pos < length inp \<and> c = inp ! pos"
  by (auto simp: peek_def)

lemma peek_append [simp]: "peek (pre @ c # post) (length pre) = Inr c"
  by (simp add: peek_def)

text \<open>
  \<^verbatim>\<open>Parser::value\<close> and its two loops. Each loop calls the value parser and continues where it
  stopped, so termination rests on every successful call having moved forward.
\<close>

function (sequential)
  p_value :: "bytes \<Rightarrow> nat \<Rightarrow> nat \<Rightarrow> (bencode_error, bvalue \<times> nat) result"
and p_items :: "bytes \<Rightarrow> nat \<Rightarrow> nat \<Rightarrow> bvalue list \<Rightarrow> (bencode_error, bvalue list \<times> nat) result"
and p_entries :: "bytes \<Rightarrow> nat \<Rightarrow> nat \<Rightarrow> bdict \<Rightarrow> (bencode_error, bdict \<times> nat) result"
where
  "p_value inp depth pos =
     (if depth > MAX_DEPTH then Inl (TooDeep MAX_DEPTH)
      else (case peek inp pos of
              Inl e \<Rightarrow> Inl e
            | Inr b \<Rightarrow>
                if b = CHR ''i'' then p_integer inp pos
                else if is_digit b then
                  (case p_bytes inp pos of Inl e \<Rightarrow> Inl e | Inr (s, pos') \<Rightarrow> Inr (BBytes s, pos'))
                else if b = CHR ''l'' then
                  (case p_items inp depth (pos + 1) [] of
                     Inl e \<Rightarrow> Inl e | Inr (vs, pos') \<Rightarrow> Inr (BList vs, pos' + 1))
                else if b = CHR ''d'' then
                  (case p_entries inp depth (pos + 1) [] of
                     Inl e \<Rightarrow> Inl e | Inr (es, pos') \<Rightarrow> Inr (BDict es, pos' + 1))
                else Inl (Unexpected b pos)))"
| "p_items inp depth pos items =
     (case peek inp pos of
        Inl e \<Rightarrow> Inl e
      | Inr b \<Rightarrow>
          if b = CHR ''e'' then Inr (items, pos)
          else (case p_value inp (depth + 1) pos of
                  Inl e \<Rightarrow> Inl e
                | Inr (v, pos') \<Rightarrow> p_items inp depth pos' (items @ [v])))"
| "p_entries inp depth pos entries =
     (case peek inp pos of
        Inl e \<Rightarrow> Inl e
      | Inr b \<Rightarrow>
          if b = CHR ''e'' then Inr (entries, pos)
          else if \<not> is_digit b then Inl (KeyNotAString pos)
          else (case p_bytes inp pos of
                  Inl e \<Rightarrow> Inl e
                | Inr (key, pos1) \<Rightarrow>
                    (case p_value inp (depth + 1) pos1 of
                       Inl e \<Rightarrow> Inl e
                     | Inr (v, pos2) \<Rightarrow> p_entries inp depth pos2 (bt_insert key v entries))))"
  by pat_completeness auto

lemma p_progress:
  "p_value_p_items_p_entries_dom (Inl (inp, d, pos)) \<Longrightarrow>
     p_value inp d pos = Inr (v, pos') \<Longrightarrow> pos < pos' \<and> pos' \<le> length inp"
  "p_value_p_items_p_entries_dom (Inr (Inl (inp, d, pos, items))) \<Longrightarrow>
     p_items inp d pos items = Inr (vs, pos') \<Longrightarrow> pos \<le> pos' \<and> pos' < length inp"
  "p_value_p_items_p_entries_dom (Inr (Inr (inp, d, pos, entries))) \<Longrightarrow>
     p_entries inp d pos entries = Inr (es, pos') \<Longrightarrow> pos \<le> pos' \<and> pos' < length inp"
proof (induction arbitrary: v pos' and vs pos' and es pos' rule: p_value_p_items_p_entries.pinduct)
  case (1 inp depth pos)
  note step = 1(4) [unfolded p_value.psimps [OF 1(1)]]
  have deep: "\<not> MAX_DEPTH < depth" and len: "pos < length inp"
    using step by (auto simp: peek_def split: if_splits)
  then have pk: "peek inp pos = Inr (inp ! pos)" by simp
  consider (i) "inp ! pos = CHR ''i''"
    | (digit) "inp ! pos \<noteq> CHR ''i''" "is_digit (inp ! pos)"
    | (l) "inp ! pos = CHR ''l''" "inp ! pos \<noteq> CHR ''i''" "\<not> is_digit (inp ! pos)"
    | (d) "inp ! pos = CHR ''d''" "inp ! pos \<noteq> CHR ''i''" "\<not> is_digit (inp ! pos)" "inp ! pos \<noteq> CHR ''l''"
    using step deep pk by (auto split: if_splits)
  then show ?case
  proof cases
    case i
    then show ?thesis using step deep pk by (auto dest: p_integer_pos)
  next
    case digit
    then show ?thesis using step deep pk by (auto split: sum.splits dest: p_bytes_pos)
  next
    case l
    obtain vs q where q: "p_items inp depth (pos + 1) [] = Inr (vs, q)" "pos' = q + 1"
      using step deep pk l by (auto split: sum.splits)
    with 1(2) [OF deep pk l(2,3,1) q(1)] show ?thesis by simp
  next
    case d
    obtain es q where q: "p_entries inp depth (pos + 1) [] = Inr (es, q)" "pos' = q + 1"
      using step deep pk d by (auto split: sum.splits)
    with 1(3) [OF deep pk d(2,3,4,1) q(1)] show ?thesis by simp
  qed
next
  case (2 inp depth pos items)
  note step = 2(4) [unfolded p_items.psimps [OF 2(1)]]
  have len: "pos < length inp" using step by (auto simp: peek_def split: if_splits)
  then have pk: "peek inp pos = Inr (inp ! pos)" by simp
  show ?case
  proof (cases "inp ! pos = CHR ''e''")
    case True
    then show ?thesis using step pk len by auto
  next
    case False
    then obtain w q where q: "p_value inp (depth + 1) pos = Inr (w, q)"
        "p_items inp depth q (items @ [w]) = Inr (vs, pos')"
      using step pk by (auto split: sum.splits)
    have "pos < q" using 2(2) [OF pk False q(1)] by simp
    moreover have "q \<le> pos' \<and> pos' < length inp" using 2(3) [OF pk False q(1) refl q(2)] .
    ultimately show ?thesis by simp
  qed
next
  case (3 inp depth pos entries)
  note step = 3(4) [unfolded p_entries.psimps [OF 3(1)]]
  have len: "pos < length inp" using step by (auto simp: peek_def split: if_splits)
  then have pk: "peek inp pos = Inr (inp ! pos)" by simp
  show ?case
  proof (cases "inp ! pos = CHR ''e''")
    case True
    then show ?thesis using step pk len by auto
  next
    case False
    then have dig: "\<not> \<not> is_digit (inp ! pos)" using step pk by (auto split: if_splits)
    with False obtain k r w q where q: "p_bytes inp pos = Inr (k, r)"
        "p_value inp (depth + 1) r = Inr (w, q)"
        "p_entries inp depth q (bt_insert k w entries) = Inr (es, pos')"
      using step pk by (auto split: sum.splits)
    have "pos < r" using p_bytes_pos [OF q(1)] by simp
    moreover have "r < q" using 3(2) [OF pk False dig q(1) refl q(2)] by simp
    moreover have "q \<le> pos' \<and> pos' < length inp" using 3(3) [OF pk False dig q(1) refl q(2) refl q(3)] .
    ultimately show ?thesis by simp
  qed
qed

termination p_value
proof (relation "measure (\<lambda>x. case x of
    Inl (inp, d, pos) \<Rightarrow> 2 * (length inp - pos)
  | Inr (Inl (inp, d, pos, _)) \<Rightarrow> 2 * (length inp - pos) + 1
  | Inr (Inr (inp, d, pos, _)) \<Rightarrow> 2 * (length inp - pos) + 1)", goal_cases)
  case (7 inp depth pos entries b kp key pos1 vp v pos2)
  then show ?case
    using p_bytes_pos [of inp pos key pos1] p_progress(1) [of inp "depth + 1" pos1 v pos2] by auto
qed (auto dest: p_progress p_bytes_pos)

declare p_value.simps [simp del] p_items.simps [simp del] p_entries.simps [simp del]

definition decode :: "bytes \<Rightarrow> (bencode_error, bvalue) result" where
  "decode inp =
     (case p_value inp 0 0 of
        Inl e \<Rightarrow> Inl e
      | Inr (v, pos) \<Rightarrow> if pos \<noteq> length inp then Inl (TrailingBytes (length inp - pos)) else Inr v)"


section \<open>The grammar the decoder accepts\<close>

text \<open>
  The abstract specification: which byte strings spell which value at nesting depth \<open>d\<close>.
  Dictionary entries may come in any order and the last of a repeated key wins; the length of a
  string is any non-empty run of digits; an integer has exactly one spelling.
\<close>

definition bstring :: "bytes \<Rightarrow> bytes \<Rightarrow> bool" where
  "bstring s b \<longleftrightarrow> (\<exists>ds. s = ds @ CHR '':'' # b \<and> ds \<noteq> [] \<and> list_all is_digit ds \<and> digits_val ds = length b)"

inductive bgram :: "nat \<Rightarrow> bytes \<Rightarrow> bvalue \<Rightarrow> bool"
  and bitems :: "nat \<Rightarrow> bytes \<Rightarrow> bvalue list \<Rightarrow> bool"
  and bentries :: "nat \<Rightarrow> bytes \<Rightarrow> (bytes \<times> bvalue) list \<Rightarrow> bool"
where
  g_int: "d \<le> MAX_DEPTH \<Longrightarrow> i64_ok n \<Longrightarrow> bgram d (''i'' @ show_int n @ ''e'') (BInt n)"
| g_bytes: "d \<le> MAX_DEPTH \<Longrightarrow> bstring s b \<Longrightarrow> bgram d s (BBytes b)"
| g_list: "d \<le> MAX_DEPTH \<Longrightarrow> bitems (Suc d) s vs \<Longrightarrow> bgram d (''l'' @ s @ ''e'') (BList vs)"
| g_dict: "d \<le> MAX_DEPTH \<Longrightarrow> bentries (Suc d) s es \<Longrightarrow> bgram d (''d'' @ s @ ''e'') (BDict (bt_from es))"
| g_no_items: "bitems d [] []"
| g_item: "bgram d s v \<Longrightarrow> bitems d t vs \<Longrightarrow> bitems d (s @ t) (v # vs)"
| g_no_entries: "bentries d [] []"
| g_entry: "bstring s k \<Longrightarrow> bgram d t v \<Longrightarrow> bentries d u es \<Longrightarrow> bentries d (s @ t @ u) ((k, v) # es)"

inductive_cases bgram_intE: "bgram d s (BInt n)"
inductive_cases bgram_bytesE: "bgram d s (BBytes b)"

lemma g_list_Cons: "d \<le> MAX_DEPTH \<Longrightarrow> bitems (Suc d) s vs \<Longrightarrow> bgram d (CHR ''l'' # s @ ''e'') (BList vs)"
  using g_list by simp

lemma g_dict_Cons:
  "d \<le> MAX_DEPTH \<Longrightarrow> bentries (Suc d) s es \<Longrightarrow> bgram d (CHR ''d'' # s @ ''e'') (BDict (bt_from es))"
  using g_dict by simp

lemmas bgram_rules = bgram_bitems_bentries.intros
lemmas bgram_induct = bgram_bitems_bentries.inducts

subsection \<open>Tokens\<close>

lemma utf8_valid_ascii: "list_all (\<lambda>c. code c < 128) s \<Longrightarrow> utf8_valid s"
  by (induction s) auto

lemma utf8_valid_digits: "list_all is_digit s \<Longrightarrow> utf8_valid s"
  by (rule utf8_valid_ascii) (auto simp: list_all_iff is_digit_code)

lemma show_int_chars: "c \<in> set (show_int n) \<Longrightarrow> is_digit c \<or> c = CHR ''-''"
  using show_nat_all_digits by (auto simp: show_int_def list_all_iff split: if_splits)

lemma utf8_valid_show_int: "utf8_valid (show_int n)"
  by (rule utf8_valid_ascii) (auto simp: list_all_iff is_digit_code dest!: show_int_chars)

lemma p_integer_complete:
  assumes "i64_ok n"
  shows "p_integer (pre @ write_int n @ post) (length pre) = Inr (BInt n, length pre + length (write_int n))"
proof -
  have "CHR ''e'' \<notin> set (show_int n)" by (auto dest: show_int_chars)
  then have "position CHR ''e'' (show_int n @ CHR ''e'' # post) = Some (length (show_int n))"
    by (rule position_append)
  then show ?thesis
    using assms by (simp add: p_integer_def write_int_def utf8_valid_show_int i64_text.dec_enc)
qed

lemma p_integer_sound:
  assumes "p_integer inp pos = Inr (v, pos')" "pos < length inp" "inp ! pos = CHR ''i''"
  shows "\<exists>n. v = BInt n \<and> i64_ok n \<and> drop pos inp = write_int n @ drop pos' inp"
proof -
  obtain e n where e: "position CHR ''e'' (drop (Suc pos) inp) = Some e"
      and n: "parse_canonical_i64 (take e (drop (Suc pos) inp)) = Some n"
      and v: "v = BInt n" "pos' = Suc pos + e + 1"
    using assms(1) by (auto simp: p_integer_def Let_def split: option.splits if_splits)
  have shown: "i64_ok n" "show_int n = take e (drop (Suc pos) inp)"
    using n by (auto simp: i64_text.dec_iff)
  have "drop pos inp = CHR ''i'' # drop (Suc pos) inp"
    using assms(2,3) by (simp flip: Cons_nth_drop_Suc)
  also have "drop (Suc pos) inp = show_int n @ CHR ''e'' # drop pos' inp"
    using position_Some_split [OF e] v(2) shown(2) by (simp add: add.commute)
  finally show ?thesis using v shown(1) by (simp add: write_int_def)
qed

lemma parse_usize_digits:
  "ds \<noteq> [] \<Longrightarrow> list_all is_digit ds \<Longrightarrow> digits_val ds \<le> mx \<Longrightarrow> parse_unsigned mx ds = Some (digits_val ds)"
  by (cases ds) (auto simp: parse_unsigned_def parse_digits_def)

lemma parse_unsigned_Nil [simp]: "parse_unsigned mx [] = None"
  by (simp add: parse_unsigned_def parse_digits_def)

lemma p_bytes_complete:
  assumes "bstring s b" "length (pre @ s @ post) \<le> usize_max"
  shows "p_bytes (pre @ s @ post) (length pre) = Inr (b, length pre + length s)"
proof -
  obtain ds where ds: "s = ds @ CHR '':'' # b" "ds \<noteq> []" "list_all is_digit ds" "digits_val ds = length b"
    using assms(1) by (auto simp: bstring_def)
  have "CHR '':'' \<notin> set ds" using ds(3) by (auto simp: list_all_iff)
  then have "position CHR '':'' (ds @ CHR '':'' # b @ post) = Some (length ds)"
    by (rule position_append)
  moreover have "parse_usize ds = Some (length b)"
    using ds assms(2) by (subst parse_usize_digits) auto
  ultimately show ?thesis
    using ds assms(2) by (simp add: p_bytes_def utf8_valid_digits)
qed

lemma p_bytes_sound:
  assumes "p_bytes inp pos = Inr (b, pos')" "pos < length inp" "is_digit (inp ! pos)"
  shows "\<exists>s. bstring s b \<and> drop pos inp = s @ drop pos' inp"
proof -
  obtain m n where m: "position CHR '':'' (drop pos inp) = Some m"
      and n: "parse_usize (take m (drop pos inp)) = Some n"
      and b: "b = take n (drop (pos + m + 1) inp)" "pos' = pos + m + 1 + n" "pos + m + 1 + n \<le> length inp"
    using assms(1) by (auto simp: p_bytes_def Let_def split: option.splits if_splits)
  let ?ds = "take m (drop pos inp)"
  have split: "drop pos inp = ?ds @ CHR '':'' # drop (pos + m + 1) inp"
    using position_Some_split [OF m] by (simp add: add.commute)
  have "?ds \<noteq> []"
    using n by (metis parse_unsigned_Nil option.distinct(1))
  then have "hd ?ds = inp ! pos"
    using assms(2) by (simp add: hd_drop_conv_nth)
  then have "parse_digits ?ds = Some n"
    using n \<open>?ds \<noteq> []\<close> assms(3)
    by (cases ?ds) (auto simp: parse_unsigned_def split: option.splits if_splits)
  then have ds: "list_all is_digit ?ds" "digits_val ?ds = n"
    by (auto simp: parse_digits_def split: if_splits)
  have "drop (pos + m + 1) inp = b @ drop pos' inp"
    using append_take_drop_id [of n "drop (pos + m + 1) inp"] by (simp add: b(1,2) add_ac)
  with split have "drop pos inp = (?ds @ CHR '':'' # b) @ drop pos' inp" by simp
  moreover have "bstring (?ds @ CHR '':'' # b) b"
    using ds \<open>?ds \<noteq> []\<close> b by (auto simp: bstring_def)
  ultimately show ?thesis by blast
qed

subsection \<open>The decoder accepts exactly the grammar\<close>

lemma bstring_head: "bstring s b \<Longrightarrow> \<exists>c cs. s = c # cs \<and> is_digit c"
  by (auto simp: bstring_def neq_Nil_conv)

lemma bgram_head: "bgram d s v \<Longrightarrow> \<exists>c cs. s = c # cs \<and> c \<noteq> CHR ''e''"
  by (induction rule: bgram.cases) (use bstring_head in fastforce)+

lemma p_complete:
  "bgram d s v \<Longrightarrow> length (pre @ s @ post) \<le> usize_max \<Longrightarrow>
     p_value (pre @ s @ post) d (length pre) = Inr (v, length pre + length s)"
  "bitems d s vs \<Longrightarrow> d = Suc d' \<Longrightarrow> length (pre @ s @ CHR ''e'' # post) \<le> usize_max \<Longrightarrow>
     p_items (pre @ s @ CHR ''e'' # post) d' (length pre) items = Inr (items @ vs, length pre + length s)"
  "bentries d s es \<Longrightarrow> d = Suc d' \<Longrightarrow> length (pre @ s @ CHR ''e'' # post) \<le> usize_max \<Longrightarrow>
     p_entries (pre @ s @ CHR ''e'' # post) d' (length pre) entries =
       Inr (foldl (\<lambda>m (k, v). bt_insert k v m) entries es, length pre + length s)"
proof (induction arbitrary: pre post and d' pre post items and d' pre post entries rule: bgram_induct)
  case (g_int d n)
  then show ?case
    using p_integer_complete [of n pre post] by (simp add: p_value.simps write_int_def)
next
  case (g_bytes d s b)
  obtain c cs where "s = c # cs" "is_digit c" using bstring_head [OF g_bytes(2)] by blast
  moreover from this have "c \<noteq> CHR ''i''" by auto
  ultimately show ?case
    using g_bytes(1) p_bytes_complete [OF g_bytes(2,3)] by (simp add: p_value.simps)
next
  case (g_list d s vs)
  then show ?case
    using g_list.IH [of d "pre @ ''l''" post "[]"] by (simp add: p_value.simps)
next
  case (g_dict d s es)
  then show ?case
    using g_dict.IH [of d "pre @ ''d''" post "[]"] by (simp add: p_value.simps bt_from_def)
next
  case (g_item d s v t vs)
  obtain c cs where "s = c # cs" "c \<noteq> CHR ''e''" using bgram_head [OF g_item(1)] by blast
  then show ?case
    using g_item.IH(1) [of pre "t @ CHR ''e'' # post"]
      g_item.IH(2) [of d' "pre @ s" post "items @ [v]"] g_item.prems
    by (simp add: p_items.simps [of _ _ "length pre"])
next
  case (g_entry s k d t v u es)
  obtain c cs where "s = c # cs" "is_digit c" using bstring_head [OF g_entry(1)] by blast
  moreover from this have "c \<noteq> CHR ''e''" by auto
  moreover have "p_bytes (pre @ s @ t @ u @ CHR ''e'' # post) (length pre) = Inr (k, length pre + length s)"
    using p_bytes_complete [OF g_entry(1), of pre "t @ u @ CHR ''e'' # post"] g_entry.prems by simp
  ultimately show ?case
    using g_entry.IH(1) [of "pre @ s" "u @ CHR ''e'' # post"]
      g_entry.IH(2) [of d' "pre @ s @ t" post "bt_insert k v entries"] g_entry.prems
    by (simp add: p_entries.simps [of _ _ "length pre"] add_ac)
qed (simp_all add: p_items.simps p_entries.simps)

lemma p_sound:
  "p_value inp d pos = Inr (v, pos') \<Longrightarrow> \<exists>s. bgram d s v \<and> drop pos inp = s @ drop pos' inp"
  "p_items inp d pos items = Inr (vs, pos') \<Longrightarrow>
     \<exists>s us. bitems (Suc d) s us \<and> vs = items @ us \<and> drop pos inp = s @ CHR ''e'' # drop (Suc pos') inp"
  "p_entries inp d pos entries = Inr (es, pos') \<Longrightarrow>
     \<exists>s us. bentries (Suc d) s us \<and> es = foldl (\<lambda>m (k, v). bt_insert k v m) entries us \<and>
       drop pos inp = s @ CHR ''e'' # drop (Suc pos') inp"
proof (induction inp d pos and inp d pos items and inp d pos entries
    arbitrary: v pos' and vs pos' and es pos' rule: p_value_p_items_p_entries.induct)
  case (1 inp depth pos)
  note step = 1(3) [unfolded p_value.simps [of inp depth pos]]
  have deep: "\<not> MAX_DEPTH < depth" and len: "pos < length inp"
    using step by (auto simp: peek_def split: if_splits)
  then have pk: "peek inp pos = Inr (inp ! pos)" by simp
  have cons: "drop pos inp = (inp ! pos) # drop (Suc pos) inp"
    using len by (simp add: Cons_nth_drop_Suc)
  consider (i) "inp ! pos = CHR ''i''"
    | (digit) "inp ! pos \<noteq> CHR ''i''" "is_digit (inp ! pos)"
    | (l) "inp ! pos = CHR ''l''" "inp ! pos \<noteq> CHR ''i''" "\<not> is_digit (inp ! pos)"
    | (d) "inp ! pos = CHR ''d''" "inp ! pos \<noteq> CHR ''i''" "\<not> is_digit (inp ! pos)" "inp ! pos \<noteq> CHR ''l''"
    using step deep pk by (auto split: if_splits)
  then show ?case
  proof cases
    case i
    then have "p_integer inp pos = Inr (v, pos')" using step deep pk by simp
    then obtain n where "v = BInt n" "i64_ok n" "drop pos inp = write_int n @ drop pos' inp"
      using p_integer_sound len i by blast
    moreover have "bgram depth (write_int n) (BInt n)"
      using deep \<open>i64_ok n\<close> unfolding write_int_def by (intro g_int) auto
    ultimately show ?thesis by blast
  next
    case digit
    then obtain b where "p_bytes inp pos = Inr (b, pos')" "v = BBytes b"
      using step deep pk by (auto split: sum.splits)
    with p_bytes_sound [OF this(1) len digit(2)] deep show ?thesis
      by (auto intro!: g_bytes)
  next
    case l
    obtain vs q where q: "p_items inp depth (pos + 1) [] = Inr (vs, q)" "pos' = q + 1" "v = BList vs"
      using step deep pk l by (auto split: sum.splits)
    from 1(1) [OF deep pk l(2,3,1) q(1)] obtain s where
      "bitems (Suc depth) s vs" "drop (pos + 1) inp = s @ CHR ''e'' # drop (Suc q) inp" by auto
    then have "bgram depth (''l'' @ s @ ''e'') v" "drop pos inp = (''l'' @ s @ ''e'') @ drop pos' inp"
      using deep cons l(1) q by (auto intro!: g_list_Cons)
    then show ?thesis by blast
  next
    case d
    obtain es q where q: "p_entries inp depth (pos + 1) [] = Inr (es, q)" "pos' = q + 1" "v = BDict es"
      using step deep pk d by (auto split: sum.splits)
    from 1(2) [OF deep pk d(2,3,4,1) q(1)] obtain s us where
      "bentries (Suc depth) s us" "es = bt_from us" "drop (pos + 1) inp = s @ CHR ''e'' # drop (Suc q) inp"
      by (auto simp: bt_from_def)
    then have "bgram depth (''d'' @ s @ ''e'') v" "drop pos inp = (''d'' @ s @ ''e'') @ drop pos' inp"
      using deep cons d(1) q by (auto intro!: g_dict_Cons)
    then show ?thesis by blast
  qed
next
  case (2 inp depth pos items)
  note step = 2(3) [unfolded p_items.simps [of inp depth pos]]
  have len: "pos < length inp" using step by (auto simp: peek_def split: if_splits)
  then have pk: "peek inp pos = Inr (inp ! pos)" by simp
  show ?case
  proof (cases "inp ! pos = CHR ''e''")
    case True
    then have "vs = items @ []" "drop pos inp = [] @ CHR ''e'' # drop (Suc pos') inp"
      using step pk len by (auto simp flip: Cons_nth_drop_Suc)
    then show ?thesis using g_no_items by blast
  next
    case False
    then obtain w q where q: "p_value inp (depth + 1) pos = Inr (w, q)"
        "p_items inp depth q (items @ [w]) = Inr (vs, pos')"
      using step pk by (auto split: sum.splits)
    from 2(1) [OF pk False q(1)] 2(2) [OF pk False q(1) refl q(2)]
    obtain s t us where "bgram (Suc depth) s w" "bitems (Suc depth) t us" "vs = items @ w # us"
        "drop pos inp = (s @ t) @ CHR ''e'' # drop (Suc pos') inp"
      by auto
    then show ?thesis by (blast intro: g_item)
  qed
next
  case (3 inp depth pos entries)
  note step = 3(3) [unfolded p_entries.simps [of inp depth pos]]
  have len: "pos < length inp" using step by (auto simp: peek_def split: if_splits)
  then have pk: "peek inp pos = Inr (inp ! pos)" by simp
  show ?case
  proof (cases "inp ! pos = CHR ''e''")
    case True
    then have "es = foldl (\<lambda>m (k, v). bt_insert k v m) entries []"
        "drop pos inp = [] @ CHR ''e'' # drop (Suc pos') inp"
      using step pk len by (auto simp flip: Cons_nth_drop_Suc)
    then show ?thesis using g_no_entries by blast
  next
    case False
    then have dig: "\<not> \<not> is_digit (inp ! pos)" using step pk by (auto split: if_splits)
    with False obtain k r w q where q: "p_bytes inp pos = Inr (k, r)"
        "p_value inp (depth + 1) r = Inr (w, q)"
        "p_entries inp depth q (bt_insert k w entries) = Inr (es, pos')"
      using step pk by (auto split: sum.splits)
    from dig p_bytes_sound [OF q(1) len] obtain s where s: "bstring s k" "drop pos inp = s @ drop r inp"
      by blast
    from 3(1) [OF pk False dig q(1) refl q(2)] 3(2) [OF pk False dig q(1) refl q(2) refl q(3)]
    obtain t u us where "bgram (Suc depth) t w" "bentries (Suc depth) u us"
        "es = foldl (\<lambda>m (k, v). bt_insert k v m) entries ((k, w) # us)"
        "drop r inp = (t @ u) @ CHR ''e'' # drop (Suc pos') inp"
      by auto
    moreover from this s have "bentries (Suc depth) (s @ t @ u) ((k, w) # us)"
        "drop pos inp = (s @ t @ u) @ CHR ''e'' # drop (Suc pos') inp"
      by (auto intro: g_entry)
    ultimately show ?thesis by blast
  qed
qed

lemma decode_eq_grammar:
  assumes "length inp \<le> usize_max"
  shows "decode inp = Inr v \<longleftrightarrow> bgram 0 inp v"
proof
  assume "bgram 0 inp v"
  from p_complete(1) [OF this, of "[]" "[]"] assms show "decode inp = Inr v"
    by (simp add: decode_def)
next
  assume "decode inp = Inr v"
  then have "p_value inp 0 0 = Inr (v, length inp)"
    by (auto simp: decode_def split: sum.splits if_splits)
  from p_sound(1) [OF this] show "bgram 0 inp v" by auto
qed

section \<open>Well-formed values\<close>

text \<open>The values the Rust type can hold: integers within \<^verbatim>\<open>i64\<close>, dictionaries sorted.\<close>

fun bv_ok :: "bvalue \<Rightarrow> bool" where
  "bv_ok (BInt n) = i64_ok n"
| "bv_ok (BBytes b) = True"
| "bv_ok (BList vs) = list_all bv_ok vs"
| "bv_ok (BDict es) = (bt_ok es \<and> list_all (\<lambda>(k, v). bv_ok v) es)"

fun nesting :: "bvalue \<Rightarrow> nat" where
  "nesting (BInt n) = 0"
| "nesting (BBytes b) = 0"
| "nesting (BList vs) = foldr max (map (\<lambda>v. Suc (nesting v)) vs) 0"
| "nesting (BDict es) = foldr max (map (\<lambda>(k, v). Suc (nesting v)) es) 0"

lemma foldr_max_le: "foldr max ns (b::nat) \<le> m \<longleftrightarrow> b \<le> m \<and> (\<forall>n \<in> set ns. n \<le> m)"
  by (induction ns) auto

lemma nesting_list_le: "nesting (BList vs) \<le> m \<longleftrightarrow> (\<forall>v \<in> set vs. Suc (nesting v) \<le> m)"
  by (simp add: foldr_max_le)

lemma nesting_dict_le: "nesting (BDict es) \<le> m \<longleftrightarrow> (\<forall>(k, v) \<in> set es. Suc (nesting v) \<le> m)"
  by (auto simp: foldr_max_le)

lemma bt_from_sorted: "bt_ok es \<Longrightarrow> bt_from es = es"
proof -
  have "bt_ok (xs @ es) \<Longrightarrow> foldl (\<lambda>m (k, v). bt_insert k v m) xs es = xs @ es"
    for xs es :: "('k::linorder, 'v) btree"
  proof (induction es arbitrary: xs)
    case (Cons e es)
    obtain k v where e: "e = (k, v)" by fastforce
    have "bt_insert k v xs = xs @ [e]"
      using Cons.prems by (auto simp: e bt_ok_append intro!: bt_insert_last)
    with Cons.IH [of "xs @ [e]"] Cons.prems show ?case by (simp add: e)
  qed simp
  from this [of "[]"] show "bt_ok es \<Longrightarrow> bt_from es = es" by (simp add: bt_from_def)
qed

lemma bstring_write_bytes: "bstring (write_bytes b) b"
  unfolding bstring_def write_bytes_def write_len_def
  by (intro exI [of _ "show_nat (length b)"]) (simp add: show_nat_all_digits)

lemma bitems_encode:
  "(\<And>v. v \<in> set vs \<Longrightarrow> bgram d (encode v) v) \<Longrightarrow> bitems d (concat (map encode vs)) vs"
  by (induction vs) (auto intro: bgram_rules)

lemma bentries_encode:
  "(\<And>k v. (k, v) \<in> set es \<Longrightarrow> bgram d (encode v) v) \<Longrightarrow>
     bentries d (concat (map (\<lambda>(k, v). write_bytes k @ encode v) es)) es"
proof (induction es)
  case (Cons e es)
  obtain k v where e: "e = (k, v)" by fastforce
  have "bentries d (write_bytes k @ encode v @ concat (map (\<lambda>(k, v). write_bytes k @ encode v) es)) ((k, v) # es)"
    using Cons by (intro g_entry bstring_write_bytes) (auto simp: e)
  then show ?case by (simp add: e)
qed (simp add: g_no_entries)

lemma bgram_encode: "bv_ok v \<Longrightarrow> d + nesting v \<le> MAX_DEPTH \<Longrightarrow> bgram d (encode v) v"
proof (induction v arbitrary: d)
  case (BInt n)
  then show ?case using g_int [of d n] by (simp add: write_int_def)
next
  case (BBytes b)
  then show ?case by (auto intro: g_bytes bstring_write_bytes)
next
  case (BList vs)
  have "bitems (Suc d) (concat (map encode vs)) vs"
  proof (rule bitems_encode)
    fix v assume v: "v \<in> set vs"
    have "nesting (BList vs) \<le> MAX_DEPTH - d" using BList.prems(2) by linarith
    then have "Suc (nesting v) \<le> MAX_DEPTH - d" using v by (simp only: nesting_list_le)
    with BList.IH [OF v, of "Suc d"] BList.prems(1) v show "bgram (Suc d) (encode v) v"
      by (auto simp: list_all_iff)
  qed
  then show ?case using g_list [of d] BList.prems(2) by simp
next
  case (BDict es)
  have "bentries (Suc d) (concat (map (\<lambda>(k, v). write_bytes k @ encode v) es)) es"
  proof (rule bentries_encode)
    fix k v assume v: "(k, v) \<in> set es"
    have "nesting (BDict es) \<le> MAX_DEPTH - d" using BDict.prems(2) by linarith
    then have "Suc (nesting v) \<le> MAX_DEPTH - d" using v unfolding nesting_dict_le by blast
    with BDict.IH [OF v, of v "Suc d"] BDict.prems(1) v show "bgram (Suc d) (encode v) v"
      by (auto simp: list_all_iff)
  qed
  then show ?case
    using g_dict_Cons [of d _ es] BDict.prems bt_from_sorted [of es] by auto
qed

interpretation bencode: codec encode "\<lambda>b. ok (decode b)"
  "\<lambda>v. bv_ok v \<and> nesting v \<le> MAX_DEPTH \<and> length (encode v) \<le> usize_max"
  by unfold_locales (simp add: decode_eq_grammar bgram_encode)

section \<open>What the decoder returns\<close>

lemma bt_from_values: "(k, v) \<in> set (bt_from es) \<Longrightarrow> v \<in> snd ` set es"
proof -
  have "(k, v) \<in> set (foldl (\<lambda>m (k, v). bt_insert k v m) m es) \<Longrightarrow> v \<in> snd ` (set m \<union> set es)" for m
  proof (induction es arbitrary: m)
    case (Cons e es)
    then show ?case using set_bt_insert_subset [of "fst e" "snd e" m] by (cases e) fastforce
  qed force
  from this [of "[]"] show "(k, v) \<in> set (bt_from es) \<Longrightarrow> v \<in> snd ` set es" by (simp add: bt_from_def)
qed

lemma bgram_ok:
  "bgram d s v \<Longrightarrow> bv_ok v \<and> d + nesting v \<le> MAX_DEPTH"
  "bitems d s vs \<Longrightarrow> \<forall>v \<in> set vs. bv_ok v \<and> d + nesting v \<le> MAX_DEPTH"
  "bentries d s es \<Longrightarrow> \<forall>(k, v) \<in> set es. bv_ok v \<and> d + nesting v \<le> MAX_DEPTH"
proof (induction rule: bgram_induct)
  case (g_list d s vs)
  then have "nesting (BList vs) \<le> MAX_DEPTH - d"
    unfolding nesting_list_le by fastforce
  with g_list show ?case by (auto simp: list_all_iff)
next
  case (g_dict d s es)
  have vals: "bv_ok v \<and> Suc d + nesting v \<le> MAX_DEPTH" if "(k, v) \<in> set (bt_from es)" for k v
    using bt_from_values [OF that] g_dict.IH by fastforce
  then have "nesting (BDict (bt_from es)) \<le> MAX_DEPTH - d"
    unfolding nesting_dict_le by fastforce
  with g_dict vals show ?case by (auto simp: list_all_iff)
qed auto

text \<open>Re-encoding never grows: the writer picks the shortest spelling of everything it writes.\<close>

lemma bstring_length: "bstring s b \<Longrightarrow> length (write_bytes b) \<le> length s"
  by (auto simp: bstring_def write_bytes_def write_len_def intro!: length_show_nat_le dest!: digits_val_bound)

definition entry_size :: "bytes \<times> bvalue \<Rightarrow> nat" where
  "entry_size e = length (write_bytes (fst e)) + length (encode (snd e))"

lemma length_encode_dict: "length (encode (BDict es)) = sum_list (map entry_size es) + 2"
  by (simp add: entry_size_def [abs_def] length_concat case_prod_unfold comp_def)

lemma bt_insert_size: "sum_list (map entry_size (bt_insert k v m)) \<le> entry_size (k, v) + sum_list (map entry_size m)"
  by (induction m) auto

lemma bt_from_size: "sum_list (map entry_size (bt_from es)) \<le> sum_list (map entry_size es)"
proof -
  have "sum_list (map entry_size (foldl (\<lambda>m (k, v). bt_insert k v m) m es))
      \<le> sum_list (map entry_size m) + sum_list (map entry_size es)" for m
  proof (induction es arbitrary: m)
    case (Cons e es)
    obtain k v where e: "e = (k, v)" by fastforce
    have "sum_list (map entry_size (foldl (\<lambda>m (k, v). bt_insert k v m) m (e # es)))
        \<le> sum_list (map entry_size (bt_insert k v m)) + sum_list (map entry_size es)"
      using Cons [of "bt_insert k v m"] by (simp add: e)
    also have "\<dots> \<le> sum_list (map entry_size m) + sum_list (map entry_size (e # es))"
      using bt_insert_size [of k v m] by (simp add: e)
    finally show ?case .
  qed simp
  from this [of "[]"] show ?thesis by (simp add: bt_from_def)
qed

lemma bgram_length:
  "bgram d s v \<Longrightarrow> length (encode v) \<le> length s"
  "bitems d s vs \<Longrightarrow> length (concat (map encode vs)) \<le> length s"
  "bentries d s es \<Longrightarrow> sum_list (map entry_size es) \<le> length s"
proof (induction rule: bgram_induct)
  case (g_dict d s es)
  then show ?case
    using bt_from_size [of es] length_encode_dict [of "bt_from es"] by simp
next
  case (g_entry s k d t v u es)
  then show ?case using bstring_length by (fastforce simp: entry_size_def)
qed (auto simp: write_int_def dest: bstring_length)

section \<open>Depth\<close>

lemma p_value_too_deep:
  "d \<le> Suc MAX_DEPTH \<Longrightarrow> pos + (34 - d) \<le> n \<Longrightarrow>
     p_value (replicate n CHR ''l'' @ post) d pos = Inl (TooDeep MAX_DEPTH)"
proof (induction "Suc MAX_DEPTH - d" arbitrary: d pos)
  case 0
  then show ?case by (simp add: p_value.simps)
next
  case (Suc k)
  let ?inp = "replicate n CHR ''l'' @ post"
  have at_pos: "peek ?inp pos = Inr CHR ''l''" "peek ?inp (pos + 1) = Inr CHR ''l''"
    using Suc.prems Suc.hyps(2) by (auto simp: nth_append)
  have deep: "\<not> MAX_DEPTH < d" using Suc.hyps(2) by simp
  have "p_value ?inp (d + 1) (pos + 1) = Inl (TooDeep MAX_DEPTH)"
    using Suc by (intro Suc.hyps(1)) auto
  with at_pos have "p_items ?inp d (pos + 1) [] = Inl (TooDeep MAX_DEPTH)"
    by (subst p_items.simps) (simp del: peek_Inr)
  with at_pos(1) deep show ?case
    by (subst p_value.simps) (simp del: peek_Inr)
qed

section \<open>Properties\<close>

text \<open>
  C1: What the encoder writes, the decoder reads back: for every value the Rust type can hold
  whose nesting is within the decoder's limit, \<^verbatim>\<open>Value::decode(&v.encode()) == Ok(v)\<close>.
\<close>

theorem bencode_roundtrip:
  assumes "bv_ok v" "nesting v \<le> MAX_DEPTH" "length (encode v) \<le> usize_max"
  shows "decode (encode v) = Inr v"
  using bencode.dec_enc [of v] assms by simp

text \<open>Witness of C1 on a dictionary that holds a negative integer, a list and a string.\<close>

theorem bencode_roundtrip_witness:
  "decode (encode (BDict [(''a'', BInt (-7)), (''b'', BList [BBytes ''xy'', BInt 0])])) =
     Inr (BDict [(''a'', BInt (-7)), (''b'', BList [BBytes ''xy'', BInt 0])])"
  by (rule bencode_roundtrip)
    (simp_all add: i64_ok_def write_bytes_def write_len_def write_int_def show_int_def show_nat.simps)

text \<open>
  C2: The decoder accepts exactly the lenient bencode grammar: it returns a value precisely when
  the grammar derives the whole input for that value at depth 0, and an error otherwise.
\<close>

theorem decode_accepts_grammar:
  assumes "length inp \<le> usize_max"
  shows "decode inp = Inr v \<longleftrightarrow> bgram 0 inp v"
  using assms by (rule decode_eq_grammar)

text \<open>Witness of C2 on a small integer.\<close>

theorem decode_accepts_grammar_witness: "bgram 0 ''i5e'' (BInt 5)"
proof -
  have "decode ''i5e'' = Inr (BInt 5)"
    by code_simp
  then show ?thesis using decode_accepts_grammar [of "''i5e''" "BInt 5"] by simp
qed

text \<open>
  Decoding then encoding canonicalises: a decoded value is one the Rust type can hold, nests
  within the limit, re-encodes to no more bytes than were read, and decodes again to itself.
\<close>

lemma decode_canonicalises:
  assumes "decode inp = Inr v" "length inp \<le> usize_max"
  shows "bv_ok v \<and> nesting v \<le> MAX_DEPTH \<and> length (encode v) \<le> length inp \<and> decode (encode v) = Inr v"
proof -
  have g: "bgram 0 inp v" using assms decode_eq_grammar by simp
  then have "bv_ok v" "nesting v \<le> MAX_DEPTH" "length (encode v) \<le> length inp"
    using bgram_ok(1) bgram_length(1) by fastforce+
  with assms(2) show ?thesis using bencode.dec_enc [of v] by simp
qed

text \<open>An instance: a string whose length carries a leading zero re-encodes shorter.\<close>

lemma decode_canonicalises_witness:
  "decode ''03:abc'' = Inr (BBytes ''abc'') \<and> decode (encode (BBytes ''abc'')) = Inr (BBytes ''abc'')"
proof -
  have "decode ''03:abc'' = Inr (BBytes ''abc'')"
    by (simp add: decode_def p_value.simps p_bytes_def peek_def parse_unsigned_def
        parse_digits_def digits_val_def is_digit_code)
  then show ?thesis using decode_canonicalises [of "''03:abc''" "BBytes ''abc''"] by simp
qed

text \<open>
  Nesting is bounded: an input that opens 34 lists is refused as too deep whatever follows,
  so the parser's recursion never exceeds the limit.
\<close>

lemma decode_refuses_deep_nesting:
  "34 \<le> n \<Longrightarrow> decode (replicate n CHR ''l'' @ rest) = Inl (TooDeep MAX_DEPTH)"
  by (simp add: decode_def p_value_too_deep)

text \<open>Thirty-four opened lists and nothing else.\<close>

lemma decode_refuses_deep_nesting_witness:
  "decode (replicate 40 CHR ''l'' @ ''x'') = Inl (TooDeep MAX_DEPTH)"
  by (rule decode_refuses_deep_nesting) simp

end
