(* ===== verification/Net.thy ===== *)
theory Net
  imports Rust_Std
begin

text \<open>
  What the code uses of \<^verbatim>\<open>std::net\<close>: addresses, their classification, their canonical form, and
  their text (the parser of \<^verbatim>\<open>core::net::parser\<close> and the two \<^verbatim>\<open>Display\<close> instances). An IPv4 address
  is its four octets, an IPv6 address its eight segments.
\<close>

section \<open>Addresses\<close>

datatype ip_addr = V4 "nat list" | V6 "nat list"

type_synonym socket_addr = "ip_addr \<times> nat"

definition ip_ok :: "ip_addr \<Rightarrow> bool" where
  "ip_ok ip =
     (case ip of
        V4 os \<Rightarrow> length os = 4 \<and> list_all (\<lambda>b. b < 256) os
      | V6 ss \<Rightarrow> length ss = 8 \<and> list_all (\<lambda>s. s < 65536) ss)"

definition is_ipv4 :: "socket_addr \<Rightarrow> bool" where
  "is_ipv4 a = (case fst a of V4 _ \<Rightarrow> True | V6 _ \<Rightarrow> False)"

definition is_ipv6 :: "socket_addr \<Rightarrow> bool" where
  "is_ipv6 a = (case fst a of V4 _ \<Rightarrow> False | V6 _ \<Rightarrow> True)"

definition v4_private :: "nat list \<Rightarrow> bool" where
  "v4_private os \<longleftrightarrow>
     os ! 0 = 10 \<or> os ! 0 = 172 \<and> 16 \<le> os ! 1 \<and> os ! 1 \<le> 31 \<or> os ! 0 = 192 \<and> os ! 1 = 168"

definition v4_loopback :: "nat list \<Rightarrow> bool" where
  "v4_loopback os \<longleftrightarrow> os ! 0 = 127"

definition v4_link_local :: "nat list \<Rightarrow> bool" where
  "v4_link_local os \<longleftrightarrow> os ! 0 = 169 \<and> os ! 1 = 254"

definition v6_loopback :: "nat list \<Rightarrow> bool" where
  "v6_loopback ss \<longleftrightarrow> ss = [0, 0, 0, 0, 0, 0, 0, 1]"

text \<open>\<^verbatim>\<open>to_ipv4_mapped\<close> and \<^verbatim>\<open>IpAddr::to_canonical\<close>: \<^verbatim>\<open>::ffff:a.b.c.d\<close> is \<^verbatim>\<open>a.b.c.d\<close>.\<close>

definition to_ipv4_mapped :: "nat list \<Rightarrow> nat list option" where
  "to_ipv4_mapped ss =
     (if take 6 ss = [0, 0, 0, 0, 0, 65535]
      then Some [ss ! 6 div 256, ss ! 6 mod 256, ss ! 7 div 256, ss ! 7 mod 256] else None)"

definition to_canonical :: "ip_addr \<Rightarrow> ip_addr" where
  "to_canonical ip =
     (case ip of
        V4 os \<Rightarrow> V4 os
      | V6 ss \<Rightarrow> (case to_ipv4_mapped ss of None \<Rightarrow> V6 ss | Some os \<Rightarrow> V4 os))"

lemma to_canonical_idem [simp]: "to_canonical (to_canonical ip) = to_canonical ip"
  by (auto simp: to_canonical_def split: ip_addr.splits option.splits)

lemma to_canonical_ok: "ip_ok ip \<Longrightarrow> ip_ok (to_canonical ip)"
proof (cases ip)
  case (V6 ss)
  moreover assume "ip_ok ip"
  ultimately have "length ss = 8" "\<forall>i < 8. ss ! i < 65536"
    by (auto simp: ip_ok_def list_all_length)
  then have "ss ! 6 < 65536" "ss ! 7 < 65536" by auto
  with V6 \<open>ip_ok ip\<close> show ?thesis
    by (auto simp: to_canonical_def to_ipv4_mapped_def ip_ok_def split: option.splits if_splits)
qed (simp add: to_canonical_def)

text \<open>\<^verbatim>\<open>octets()\<close>: network byte order.\<close>

definition be16 :: "nat \<Rightarrow> bytes" where
  "be16 n = [char_of (n div 256), char_of (n mod 256)]"

definition octets :: "ip_addr \<Rightarrow> bytes" where
  "octets ip = (case ip of V4 os \<Rightarrow> map char_of os | V6 ss \<Rightarrow> concat (map be16 ss))"

lemma length_octets: "ip_ok ip \<Longrightarrow> length (octets ip) = (case ip of V4 _ \<Rightarrow> 4 | V6 _ \<Rightarrow> 16)"
  by (auto simp: ip_ok_def octets_def length_concat be16_def comp_def sum_list_triv split: ip_addr.splits)

section \<open>Text\<close>

text \<open>The parser works on the remaining input; \<^verbatim>\<open>read_atomically\<close> is that a failed read consumes nothing.\<close>

type_synonym 'a reader = "string \<Rightarrow> ('a \<times> string) option"

definition to_digit :: "nat \<Rightarrow> char \<Rightarrow> nat option" where
  "to_digit radix c =
     (let d = (if is_digit c then Some (code c - 48)
               else if CHR ''a'' \<le> c \<and> c \<le> CHR ''f'' then Some (code c - 87)
               else if CHR ''A'' \<le> c \<and> c \<le> CHR ''F'' then Some (code c - 55) else None)
      in case d of None \<Rightarrow> None | Some n \<Rightarrow> if n < radix then Some n else None)"

fun span_digits :: "nat \<Rightarrow> string \<Rightarrow> nat list \<times> string" where
  "span_digits radix [] = ([], [])"
| "span_digits radix (c # cs) =
     (case to_digit radix c of
        None \<Rightarrow> ([], c # cs)
      | Some d \<Rightarrow> (case span_digits radix cs of (ds, rest) \<Rightarrow> (d # ds, rest)))"

definition read_number :: "nat \<Rightarrow> nat \<Rightarrow> nat \<Rightarrow> bool \<Rightarrow> nat reader" where
  "read_number radix max_digits limit allow_zero_prefix s =
     (case span_digits radix s of (ds, rest) \<Rightarrow>
        (let n = foldl (\<lambda>a d. a * radix + d) 0 ds in
         if ds = [] \<or> length ds > max_digits \<or> n > limit then None
         else if \<not> allow_zero_prefix \<and> hd ds = 0 \<and> length ds > 1 then None
         else Some (n, rest)))"

definition read_separator :: "char \<Rightarrow> nat \<Rightarrow> 'a reader \<Rightarrow> 'a reader" where
  "read_separator sep i inner s =
     (if i > 0 then (case s of c # cs \<Rightarrow> if c = sep then inner cs else None | [] \<Rightarrow> None) else inner s)"

definition read_octet :: "nat \<Rightarrow> nat reader" where
  "read_octet i = read_separator CHR ''.'' i (read_number 10 3 255 False)"

definition read_ipv4_addr :: "nat list reader" where
  "read_ipv4_addr s =
     Option.bind (read_octet 0 s) (\<lambda>(a, s). Option.bind (read_octet 1 s) (\<lambda>(b, s).
     Option.bind (read_octet 2 s) (\<lambda>(c, s). Option.bind (read_octet 3 s) (\<lambda>(d, s). Some ([a, b, c, d], s)))))"

text \<open>Up to \<open>limit\<close> groups from index \<open>i\<close>; the flag says the last two came from an embedded IPv4 address.\<close>

function read_groups :: "nat \<Rightarrow> nat \<Rightarrow> string \<Rightarrow> nat list \<times> bool \<times> string" where
  "read_groups limit i s =
     (if i \<ge> limit then ([], False, s)
      else (case (if i + 1 < limit then read_separator CHR '':'' i read_ipv4_addr s else None) of
              Some (os, rest) \<Rightarrow>
                ([os ! 0 * 256 + os ! 1, os ! 2 * 256 + os ! 3], True, rest)
            | None \<Rightarrow>
                (case read_separator CHR '':'' i (read_number 16 4 65535 True) s of
                   None \<Rightarrow> ([], False, s)
                 | Some (g, rest) \<Rightarrow>
                     (case read_groups limit (i + 1) rest of (gs, v4, rest') \<Rightarrow> (g # gs, v4, rest')))))"
  by pat_completeness auto

termination read_groups
  by (relation "measure (\<lambda>(limit, i, s). limit - i)") auto

declare read_groups.simps [simp del]

definition read_ipv6_addr :: "nat list reader" where
  "read_ipv6_addr s =
     (case read_groups 8 0 s of (head, head_v4, rest) \<Rightarrow>
        if length head = 8 then Some (head, rest)
        else if head_v4 then None
        else (case rest of
                CHR 0x3A # CHR 0x3A # rest' \<Rightarrow>
                  (case read_groups (8 - (length head + 1)) 0 rest' of (tl_gs, _, rest'') \<Rightarrow>
                     Some (head @ replicate (8 - length head - length tl_gs) 0 @ tl_gs, rest''))
              | _ \<Rightarrow> None))"

definition parse_with :: "'a reader \<Rightarrow> string \<Rightarrow> 'a option" where
  "parse_with r s = (case r s of Some (x, []) \<Rightarrow> Some x | _ \<Rightarrow> None)"

definition parse_ipv6 :: "string \<Rightarrow> nat list option" where
  "parse_ipv6 = parse_with read_ipv6_addr"

definition parse_ip :: "string \<Rightarrow> ip_addr option" where
  "parse_ip = parse_with (\<lambda>s. case read_ipv4_addr s of
     Some (os, rest) \<Rightarrow> Some (V4 os, rest)
   | None \<Rightarrow> map_option (\<lambda>(ss, rest). (V6 ss, rest)) (read_ipv6_addr s))"

definition hex_digit :: "nat \<Rightarrow> char" where
  "hex_digit d = (if d < 10 then char_of (48 + d) else char_of (87 + d))"

fun show_hex :: "nat \<Rightarrow> string" where
  "show_hex n = (if n < 16 then [hex_digit n] else show_hex (n div 16) @ [hex_digit (n mod 16)])"

declare show_hex.simps [simp del]

definition show_ipv4 :: "nat list \<Rightarrow> string" where
  "show_ipv4 os = show_nat (os ! 0) @ ''.'' @ show_nat (os ! 1) @ ''.'' @ show_nat (os ! 2) @ ''.'' @ show_nat (os ! 3)"

text \<open>The longest run of zero segments, the first of that length: start and length.\<close>

fun longest_zeros :: "nat list \<Rightarrow> nat \<Rightarrow> nat \<times> nat \<Rightarrow> nat \<times> nat \<Rightarrow> nat \<times> nat" where
  "longest_zeros [] i cur best = best"
| "longest_zeros (s # ss) i (cstart, clen) best =
     (if s = 0 then
        (let cur = (if clen = 0 then i else cstart, clen + 1) in
         longest_zeros ss (i + 1) cur (if snd cur > snd best then cur else best))
      else longest_zeros ss (i + 1) (0, 0) best)"

fun show_groups :: "nat list \<Rightarrow> string" where
  "show_groups [] = []"
| "show_groups [s] = show_hex s"
| "show_groups (s # t # ss) = show_hex s @ '':'' @ show_groups (t # ss)"

definition show_ipv6 :: "nat list \<Rightarrow> string" where
  "show_ipv6 ss =
     (case to_ipv4_mapped ss of
        Some os \<Rightarrow> ''::ffff:'' @ show_ipv4 os
      | None \<Rightarrow>
          (case longest_zeros ss 0 (0, 0) (0, 0) of (start, len) \<Rightarrow>
             if len > 1 then show_groups (take start ss) @ ''::'' @ show_groups (drop (start + len) ss)
             else show_groups ss))"

definition show_ip :: "ip_addr \<Rightarrow> string" where
  "show_ip ip = (case ip of V4 os \<Rightarrow> show_ipv4 os | V6 ss \<Rightarrow> show_ipv6 ss)"

subsection \<open>Reading back a printed IPv4 address\<close>

lemma to_digit_10: "to_digit 10 c = (if is_digit c then Some (code c - 48) else None)"
  by (auto simp: to_digit_def is_digit_code Let_def less_eq_char_def)

lemma span_digits_10:
  "list_all is_digit ds \<Longrightarrow> (\<forall>c cs. rest = c # cs \<longrightarrow> \<not> is_digit c) \<Longrightarrow>
     span_digits 10 (ds @ rest) = (map (\<lambda>c. code c - 48) ds, rest)"
proof (induction ds)
  case Nil
  then show ?case by (cases rest) (auto simp: to_digit_10)
qed (simp add: to_digit_10)

lemma read_number_show_nat:
  assumes "n < 256" "\<forall>c cs. rest = c # cs \<longrightarrow> \<not> is_digit c"
  shows "read_number 10 3 255 False (show_nat n @ rest) = Some (n, rest)"
proof -
  let ?ds = "map (\<lambda>c. code c - 48) (show_nat n)"
  have "foldl (\<lambda>a d. a * 10 + d) 0 ?ds = digits_val (show_nat n)"
    by (simp add: digits_val_def foldl_map mult.commute)
  moreover have "length (show_nat n) \<le> 3"
    using assms(1) by (intro length_show_nat_le) auto
  moreover have "hd ?ds \<noteq> 0 \<or> length ?ds = 1"
  proof (cases "n < 10")
    case False
    then have "hd (show_nat n) \<noteq> CHR ''0''" by (intro hd_show_nat_nonzero) simp
    then have "code (hd (show_nat n)) \<noteq> code CHR ''0''" by (metis char_of_char)
    moreover have "48 \<le> code (hd (show_nat n))"
      using hd_show_nat_digit [of n] by (auto simp: is_digit_code)
    ultimately show ?thesis by (simp add: hd_map)
  qed (simp add: show_nat.simps)
  ultimately show ?thesis
    using assms by (auto simp: read_number_def span_digits_10 show_nat_all_digits)
qed

lemma ipv4_cases:
  assumes "ip_ok (V4 os)"
  obtains a b c d where "os = [a, b, c, d]" "a < 256" "b < 256" "c < 256" "d < 256"
  using assms by (auto simp: ip_ok_def length_Suc_conv numeral_eq_Suc)

lemma parse_show_ipv4: "ip_ok (V4 os) \<Longrightarrow> parse_ip (show_ipv4 os) = Some (V4 os)"
proof -
  assume "ip_ok (V4 os)"
  then obtain a b c d where os: "os = [a, b, c, d]" "a < 256" "b < 256" "c < 256" "d < 256"
    by (rule ipv4_cases)
  have dot: "\<not> is_digit CHR ''.''" by (simp add: is_digit_code)
  have "read_ipv4_addr (show_ipv4 os) = Some (os, [])"
    using os read_number_show_nat [of d "[]"]
    by (simp add: read_ipv4_addr_def show_ipv4_def read_octet_def read_separator_def read_number_show_nat dot)
  then show ?thesis by (simp add: parse_ip_def parse_with_def)
qed

end
