(* ===== verification/Endpoint.thy ===== *)
theory Endpoint
  imports Net
begin

text \<open>
  \<^verbatim>\<open>sharerr-core/src/endpoint.rs\<close>: the address friends reach this instance on. A \<^verbatim>\<open>url::Url\<close> is its
  serialisation (what \<^verbatim>\<open>as_str\<close> returns and \<^verbatim>\<open>Eq\<close> compares); \<^verbatim>\<open>Url::parse\<close> is a parameter. The clock is
  an argument. No operation can panic while it holds the lock, so the lock is never poisoned
  and its error branches are unreachable.
\<close>

type_synonym url = string

unbundle bit_operations_syntax

section \<open>Configured base\<close>

definition is_private_ip :: "ip_addr \<Rightarrow> bool" where
  "is_private_ip ip =
     (case ip of
        V4 v4 \<Rightarrow> v4_private v4 \<or> v4_loopback v4 \<or> v4_link_local v4
      | V6 v6 \<Rightarrow> v6_loopback v6 \<or> ((v6 ! 0) AND 0xfe00) = 0xfc00)"

record tracker_config =
  advertised_host :: "string option"
  tc_port :: "nat option"
  advertised_url :: "url option"

datatype 'p endpoint_error = BadHost string nat 'p

definition bracket_ipv6 :: "string \<Rightarrow> string" where
  "bracket_ipv6 host =
     (if take 1 host \<noteq> ''['' \<and> parse_ipv6 host \<noteq> None then ''['' @ host @ '']'' else host)"

definition advertised_base ::
    "(string \<Rightarrow> ('p, url) result) \<Rightarrow> tracker_config \<Rightarrow> nat \<Rightarrow> ('p endpoint_error, url option) result" where
  "advertised_base url_parse tracker server_port =
     (case advertised_url tracker of
        Some url \<Rightarrow> Inr (Some url)
      | None \<Rightarrow>
          (case advertised_host tracker of
             None \<Rightarrow> Inr None
           | Some host0 \<Rightarrow>
               (let port = (case tc_port tracker of None \<Rightarrow> server_port | Some p \<Rightarrow> p);
                    host = bracket_ipv6 host0
                in case url_parse (''http://'' @ host @ '':'' @ show_nat port) of
                     Inl source \<Rightarrow> Inl (BadHost host port source)
                   | Inr url \<Rightarrow> Inr (Some url))))"

definition trim_end_matches :: "char \<Rightarrow> string \<Rightarrow> string" where
  "trim_end_matches c s = rev (dropWhile (\<lambda>x. x = c) (rev s))"

definition base_string :: "url \<Rightarrow> string" where
  "base_string base = trim_end_matches CHR ''/'' base"

definition join_path :: "url \<Rightarrow> string \<Rightarrow> string" where
  "join_path base path = base_string base @ path"

section \<open>The live endpoint\<close>

abbreviation (input) MAX_DYNAMIC_HISTORY :: nat where "MAX_DYNAMIC_HISTORY \<equiv> 4"

record observed_base =
  base :: url
  observed_at :: int

record advertised_endpoint =
  static_base :: "url option"
  dynamic :: "observed_base list"

definition endpoint_new :: "url option \<Rightarrow> advertised_endpoint" where
  "endpoint_new st = \<lparr>static_base = st, dynamic = []\<rparr>"

definition set_static :: "url option \<Rightarrow> advertised_endpoint \<Rightarrow> advertised_endpoint" where
  "set_static st e = e\<lparr>static_base := st\<rparr>"

definition current :: "advertised_endpoint \<Rightarrow> url option" where
  "current e = (case dynamic e of o1 # _ \<Rightarrow> Some (base o1) | [] \<Rightarrow> static_base e)"

definition last_observed :: "advertised_endpoint \<Rightarrow> observed_base option" where
  "last_observed e = (case dynamic e of o1 # _ \<Rightarrow> Some o1 | [] \<Rightarrow> None)"

text \<open>\<^verbatim>\<open>truncate\<close> keeps the first entries; the result is the new state and the reported change.\<close>

definition observe :: "int \<Rightarrow> url \<Rightarrow> advertised_endpoint \<Rightarrow> advertised_endpoint \<times> bool" where
  "observe now u e =
     (let insert_front =
        (e\<lparr>dynamic := take MAX_DYNAMIC_HISTORY
              (\<lparr>base = u, observed_at = now\<rparr> # filter (\<lambda>o'. base o' \<noteq> u) (dynamic e))\<rparr>, True)
      in case dynamic e of
           front # older \<Rightarrow>
             if base front = u then (e\<lparr>dynamic := front\<lparr>observed_at := now\<rparr> # older\<rparr>, False)
             else insert_front
         | [] \<Rightarrow> insert_front)"

definition forget_dynamic :: "advertised_endpoint \<Rightarrow> advertised_endpoint" where
  "forget_dynamic e = e\<lparr>dynamic := []\<rparr>"

definition recent :: "advertised_endpoint \<Rightarrow> url list" where
  "recent e =
     (let bases = map base (dynamic e) in
      case static_base e of
        None \<Rightarrow> bases
      | Some st \<Rightarrow> if st \<in> set bases then bases else bases @ [st])"

abbreviation (input) MAX_FUTURE_SKEW_SECS :: int where "MAX_FUTURE_SKEW_SECS \<equiv> 5 * 60"

text \<open>The system clock as seconds relative to the epoch.\<close>

definition now_epoch :: "int \<Rightarrow> int" where
  "now_epoch clock =
     (if clock < 0 then 0 else (case i64_try_from (nat clock) of None \<Rightarrow> i64_max | Some n \<Rightarrow> n))"

lemma now_epoch_bounds: "0 \<le> now_epoch clock" "i64_ok (now_epoch clock)"
  by (auto simp: now_epoch_def i64_try_from_def i64_ok_def)

lemma now_epoch_mono: "c \<le> c' \<Longrightarrow> now_epoch c \<le> now_epoch c'"
  by (auto simp: now_epoch_def i64_try_from_def)

section \<open>Sequences of operations\<close>

datatype endpoint_event = Observe int url | SetStatic "url option" | ForgetDynamic

fun endpoint_step :: "advertised_endpoint \<Rightarrow> endpoint_event \<Rightarrow> advertised_endpoint" where
  "endpoint_step e (Observe now u) = fst (observe now u e)"
| "endpoint_step e (SetStatic st) = set_static st e"
| "endpoint_step e ForgetDynamic = forget_dynamic e"

definition endpoint_inv :: "advertised_endpoint \<Rightarrow> bool" where
  "endpoint_inv e \<longleftrightarrow> distinct (map base (dynamic e)) \<and> length (dynamic e) \<le> MAX_DYNAMIC_HISTORY"

lemma distinct_map_take: "distinct (map f xs) \<Longrightarrow> distinct (map f (take n xs))"
  by (simp flip: take_map)

lemma distinct_map_base_filter: "distinct (map f xs) \<Longrightarrow> distinct (map f (filter P xs))"
  by (induction xs) auto

lemma observe_cases:
  "observe now u e =
     (if map_option base (last_observed e) = Some u
      then (e\<lparr>dynamic := \<lparr>base = u, observed_at = now\<rparr> # tl (dynamic e)\<rparr>, False)
      else (e\<lparr>dynamic := take MAX_DYNAMIC_HISTORY
              (\<lparr>base = u, observed_at = now\<rparr> # filter (\<lambda>o'. base o' \<noteq> u) (dynamic e))\<rparr>, True))"
  by (auto simp: observe_def last_observed_def Let_def split: list.splits)

lemma observe_inv [invs]: "endpoint_inv e \<Longrightarrow> endpoint_inv (fst (observe now u e))"
proof -
  assume inv: "endpoint_inv e"
  have "distinct (map base (filter (\<lambda>o'. base o' \<noteq> u) (dynamic e)))"
    using inv by (simp add: endpoint_inv_def distinct_map_base_filter)
  then have "distinct (map base (take MAX_DYNAMIC_HISTORY
      (\<lparr>base = u, observed_at = now\<rparr> # filter (\<lambda>o'. base o' \<noteq> u) (dynamic e))))"
    by (intro distinct_map_take) auto
  with inv show ?thesis
    unfolding observe_cases by (cases "dynamic e") (auto simp: endpoint_inv_def last_observed_def simp del: take_Suc_Cons)
qed

lemma set_static_inv [invs]: "endpoint_inv e \<Longrightarrow> endpoint_inv (set_static st e)"
  by (simp add: endpoint_inv_def set_static_def)

lemma forget_dynamic_inv [invs]: "endpoint_inv (forget_dynamic e)"
  by (simp add: endpoint_inv_def forget_dynamic_def)

interpretation endpoint: component "\<lambda>e. \<exists>st. e = endpoint_new st" endpoint_step endpoint_inv
proof
  show "\<exists>st. e = endpoint_new st \<Longrightarrow> endpoint_inv e" for e
    by (auto simp: endpoint_inv_def endpoint_new_def)
  show "endpoint_inv e \<Longrightarrow> endpoint_inv (endpoint_step e ev)" for e ev
    by (cases ev) (auto intro: invs)
qed

lemma recent_distinct: "endpoint_inv e \<Longrightarrow> distinct (recent e)"
  by (auto simp: endpoint_inv_def recent_def Let_def split: option.split)

lemma recent_length: "endpoint_inv e \<Longrightarrow> length (recent e) \<le> Suc MAX_DYNAMIC_HISTORY"
  by (auto simp: endpoint_inv_def recent_def Let_def split: option.split)

lemma recent_head: "current e = (case recent e of [] \<Rightarrow> None | u # _ \<Rightarrow> Some u)"
  by (auto simp: current_def recent_def Let_def split: option.split list.split)

lemma recent_empty_iff: "recent e = [] \<longleftrightarrow> current e = None"
  by (simp add: recent_head split: list.split)

section \<open>Properties\<close>

text \<open>
  After any sequence of observations, configuration changes and resets, from any configured
  base: the history holds at most four bases and none twice, the announce list built from it has
  no duplicates and at most five entries, and its first entry is the base advertised right now.
\<close>

lemma endpoint_history_invariant:
  "let e = foldl endpoint_step (endpoint_new st) evs in
     distinct (map base (dynamic e)) \<and> length (dynamic e) \<le> MAX_DYNAMIC_HISTORY \<and>
     distinct (recent e) \<and> length (recent e) \<le> 5 \<and>
     current e = (case recent e of [] \<Rightarrow> None | u # _ \<Rightarrow> Some u)"
proof -
  have "endpoint_inv (foldl endpoint_step (endpoint_new st) evs)"
    by (rule endpoint.run_from_start) blast
  then show ?thesis
    using recent_distinct recent_length recent_head by (auto simp: Let_def endpoint_inv_def)
qed

text \<open>
  What one observation does: the observed base becomes the current one and carries the new
  timestamp; the three most recent other bases survive; and the reported flag
  says exactly that the most recent observation was of another base.
\<close>

lemma observe_makes_current:
  assumes "endpoint_inv e" "observe now u e = (e', changed)"
  shows "current e' = Some u \<and> last_observed e' = Some \<lparr>base = u, observed_at = now\<rparr> \<and>
    (changed \<longleftrightarrow> map_option base (last_observed e) \<noteq> Some u) \<and> static_base e' = static_base e \<and>
    set (take 3 (filter (\<lambda>o'. base o' \<noteq> u) (dynamic e))) \<subseteq> set (dynamic e')"
proof (cases "map_option base (last_observed e) = Some u")
  case True
  then obtain front older where "dynamic e = front # older" "base front = u"
    by (auto simp: last_observed_def split: list.splits)
  moreover from this assms(1) have "filter (\<lambda>o'. base o' \<noteq> u) older = older"
    by (auto simp: endpoint_inv_def filter_id_conv rev_image_eqI)
  ultimately show ?thesis
    using assms(2) by (auto simp: observe_def current_def last_observed_def dest: in_set_takeD)
next
  case False
  then have "e' = e\<lparr>dynamic := take MAX_DYNAMIC_HISTORY
      (\<lparr>base = u, observed_at = now\<rparr> # filter (\<lambda>o'. base o' \<noteq> u) (dynamic e))\<rparr>" "changed"
    using assms(2) unfolding observe_cases if_not_P [OF False] by auto
  with False show ?thesis
    by (simp add: current_def last_observed_def numeral_eq_Suc subset_insertI)
qed

text \<open>An instance on an endpoint with one older observation.\<close>

lemma observe_makes_current_witness:
  "current \<lparr>static_base = None, dynamic = [\<lparr>base = ''http://b/'', observed_at = 9\<rparr>, \<lparr>base = ''http://a/'', observed_at = 5\<rparr>]\<rparr>
     = Some ''http://b/''"
  using observe_makes_current [of "\<lparr>static_base = None, dynamic = [\<lparr>base = ''http://a/'', observed_at = 5\<rparr>]\<rparr>"
      9 "''http://b/''" "\<lparr>static_base = None, dynamic = [\<lparr>base = ''http://b/'', observed_at = 9\<rparr>,
        \<lparr>base = ''http://a/'', observed_at = 5\<rparr>]\<rparr>" True]
  by (simp add: observe_def endpoint_inv_def)

end
