(* ===== verification/Announce.thy ===== *)
theory Announce
  imports Bencode Endpoint "HOL-Library.Multiset"
begin

text \<open>
  \<^verbatim>\<open>sharerr-torrent/src/announce.rs\<close>: the tracker protocol without HTTP. The query parser, the swarms
  and the bencoded answers. \<^verbatim>\<open>percent_encoding::percent_decode\<close> and \<^verbatim>\<open>hex::decode_to_slice\<close> are
  parameters, \<^verbatim>\<open>Instant\<close> is a number of nanoseconds passed as an argument, and the iteration order of a
  \<^verbatim>\<open>HashMap\<close> is a parameter \<open>iter\<close> that permutes its entries.
\<close>

abbreviation (input) INTERVAL :: nat where "INTERVAL \<equiv> 1800"
abbreviation (input) MIN_INTERVAL :: nat where "MIN_INTERVAL \<equiv> 900"
abbreviation (input) PEER_TTL :: nat where "PEER_TTL \<equiv> (INTERVAL * 2 + 60) * 1000000000"
abbreviation (input) MAX_NUMWANT :: nat where "MAX_NUMWANT \<equiv> 50"
abbreviation (input) HASH_LEN :: nat where "HASH_LEN \<equiv> 20"

datatype announce_error =
    Missing string
  | BadLength string nat
  | NotANumber string
  | UnknownTorrent
  | BadToken

datatype event = Started | Stopped | Completed | Periodic

record announce_request =
  ar_info_hash :: bytes
  ar_peer_id :: bytes
  ar_port :: nat
  ar_left :: nat
  ar_uploaded :: nat
  ar_downloaded :: nat
  ar_event :: event
  ar_compact :: bool
  ar_numwant :: nat
  ar_declared_ip :: "ip_addr option"

section \<open>Query parsing\<close>

definition event_parse :: "bytes \<Rightarrow> event" where
  "event_parse raw =
     (if raw = ''started'' then Started
      else if raw = ''stopped'' then Stopped
      else if raw = ''completed'' then Completed
      else Periodic)"

definition percent_decode :: "(bytes \<Rightarrow> bytes) \<Rightarrow> bytes \<Rightarrow> bytes" where
  "percent_decode pdec raw =
     (if CHR ''+'' \<in> set raw then pdec (map (\<lambda>b. if b = CHR ''+'' then CHR '' '' else b) raw)
      else pdec raw)"

definition split_pair :: "bytes \<Rightarrow> bytes \<times> bytes" where
  "split_pair pair =
     (case position CHR ''='' pair of
        Some at \<Rightarrow> (take at pair, drop (at + 1) pair)
      | None \<Rightarrow> (pair, []))"

definition insert_pair :: "(bytes \<Rightarrow> bytes) \<Rightarrow> (string, bytes) hashmap \<Rightarrow> bytes \<Rightarrow> (string, bytes) hashmap" where
  "insert_pair pdec params pair =
     (if pair = [] then params
      else (case split_pair pair of (key, value) \<Rightarrow>
              if \<not> utf8_valid key then params else hm_insert key (percent_decode pdec value) params))"

definition parse_query :: "(bytes \<Rightarrow> bytes) \<Rightarrow> bytes \<Rightarrow> (string, bytes) hashmap" where
  "parse_query pdec query = foldl (insert_pair pdec) [] (split_on CHR ''&'' query)"

definition get_param :: "(string, bytes) hashmap \<Rightarrow> string \<Rightarrow> (announce_error, bytes) result" where
  "get_param params key = ok_or (map_of params key) (Missing key)"

definition hash_param :: "(string, bytes) hashmap \<Rightarrow> string \<Rightarrow> (announce_error, bytes) result" where
  "hash_param params key =
     and_then (get_param params key)
       (\<lambda>raw. if length raw = HASH_LEN then Inr raw else Inl (BadLength key (length raw)))"

definition number_param :: "(string, bytes) hashmap \<Rightarrow> string \<Rightarrow> nat \<Rightarrow> (announce_error, nat) result" where
  "number_param params key dflt =
     (case map_of params key of
        None \<Rightarrow> Inr dflt
      | Some raw \<Rightarrow> ok_or (if utf8_valid raw then parse_u64 raw else None) (NotANumber key))"

definition announce_parse :: "(bytes \<Rightarrow> bytes) \<Rightarrow> bytes \<Rightarrow> (announce_error, announce_request) result" where
  "announce_parse pdec query =
     (let params = parse_query pdec query in
      and_then (number_param params ''port'' 0) (\<lambda>port.
      if port > u16_max then Inl (NotANumber ''port'')
      else if port = 0 then Inl (Missing ''port'')
      else
        and_then (hash_param params ''info_hash'') (\<lambda>info_hash.
        and_then (hash_param params ''peer_id'') (\<lambda>peer_id.
        and_then (number_param params ''left'' 0) (\<lambda>left.
        and_then (number_param params ''uploaded'' 0) (\<lambda>uploaded.
        and_then (number_param params ''downloaded'' 0) (\<lambda>downloaded.
        and_then (number_param params ''numwant'' MAX_NUMWANT) (\<lambda>numwant.
        Inr \<lparr>ar_info_hash = info_hash, ar_peer_id = peer_id, ar_port = port, ar_left = left,
             ar_uploaded = uploaded, ar_downloaded = downloaded,
             ar_event = (case map_of params ''event'' of None \<Rightarrow> Periodic | Some e \<Rightarrow> event_parse e),
             ar_compact = (case map_of params ''compact'' of None \<Rightarrow> True | Some v \<Rightarrow> v \<noteq> ''0''),
             ar_numwant = min (if numwant \<le> usize_max then numwant else MAX_NUMWANT) MAX_NUMWANT,
             ar_declared_ip = Option.bind (map_of params ''ip'') (\<lambda>raw. if utf8_valid raw then parse_ip raw else None)\<rparr>))))))))"

definition resolve_addr :: "announce_request \<Rightarrow> ip_addr \<Rightarrow> socket_addr" where
  "resolve_addr r remote0 =
     (let remote = to_canonical remote0;
          ip = (case map_option to_canonical (ar_declared_ip r) of
                  Some declared \<Rightarrow> if is_private_ip remote then declared else remote
                | None \<Rightarrow> remote)
      in (ip, ar_port r))"

definition info_hash_from_hex :: "(string \<Rightarrow> bytes option) \<Rightarrow> string \<Rightarrow> bytes option" where
  "info_hash_from_hex hex_decode raw =
     (case hex_decode raw of None \<Rightarrow> None | Some b \<Rightarrow> if length b = HASH_LEN then Some b else None)"

section \<open>Swarms\<close>

record swarm_peer =
  addr :: socket_addr
  left_bytes :: nat
  up_total :: nat
  down_total :: nat
  last_seen :: nat

type_synonym swarm = "(bytes, swarm_peer) hashmap"
type_synonym swarms = "(bytes, swarm) hashmap"

text \<open>\<^verbatim>\<open>duration_since\<close> saturates at zero, as subtraction on \<^typ>\<open>nat\<close> does.\<close>

definition is_live :: "nat \<Rightarrow> swarm_peer \<Rightarrow> bool" where
  "is_live now p \<longleftrightarrow> now - last_seen p < PEER_TTL"

definition live :: "swarm \<Rightarrow> nat \<Rightarrow> swarm" where
  "live sw now = filter (\<lambda>(_, p). is_live now p) sw"

definition tally :: "swarm \<Rightarrow> nat \<Rightarrow> nat \<times> nat" where
  "tally sw now =
     foldl (\<lambda>(complete, incomplete) (_, p).
       if left_bytes p = 0 then (complete + 1, incomplete) else (complete, incomplete + 1)) (0, 0) (live sw now)"

record transfer =
  tr_uploaded :: nat
  tr_downloaded :: nat

definition transfer_default :: transfer where
  "transfer_default = \<lparr>tr_uploaded = 0, tr_downloaded = 0\<rparr>"

definition transfer_is_empty :: "transfer \<Rightarrow> bool" where
  "transfer_is_empty t \<longleftrightarrow> tr_uploaded t = 0 \<and> tr_downloaded t = 0"

definition counter_step :: "nat \<Rightarrow> nat \<Rightarrow> nat" where
  "counter_step before now = (case checked_sub_nat now before of None \<Rightarrow> now | Some d \<Rightarrow> d)"

definition transfer_since :: "nat \<times> nat \<Rightarrow> nat \<times> nat \<Rightarrow> transfer" where
  "transfer_since prev cur =
     \<lparr>tr_uploaded = counter_step (fst prev) (fst cur),
      tr_downloaded = counter_step (snd prev) (snd cur)\<rparr>"

record announce_response =
  resp_peers :: "socket_addr list"
  resp_complete :: nat
  resp_incomplete :: nat
  resp_transferred :: transfer

definition swarm_record :: "nat \<Rightarrow> announce_request \<Rightarrow> socket_addr \<Rightarrow> swarm \<Rightarrow> swarm" where
  "swarm_record now r a sw =
     (if ar_event r = Stopped then hm_remove (ar_peer_id r) sw
      else hm_insert (ar_peer_id r)
             \<lparr>addr = a, left_bytes = ar_left r, up_total = ar_uploaded r, down_total = ar_downloaded r,
              last_seen = now\<rparr> sw)"

definition swarms_announce ::
    "(swarm \<Rightarrow> swarm) \<Rightarrow> nat \<Rightarrow> announce_request \<Rightarrow> socket_addr \<Rightarrow> swarms \<Rightarrow> swarms \<times> announce_response" where
  "swarms_announce iter now r a swarms =
     (let sw0 = (case map_of swarms (ar_info_hash r) of None \<Rightarrow> [] | Some sw \<Rightarrow> sw);
          sw1 = filter (\<lambda>(_, p). is_live now p) sw0;
          transferred = (case map_of sw1 (ar_peer_id r) of
                           None \<Rightarrow> transfer_default
                         | Some previous \<Rightarrow>
                             transfer_since (up_total previous, down_total previous) (ar_uploaded r, ar_downloaded r));
          sw2 = swarm_record now r a sw1;
          (complete, incomplete) = tally sw2 now;
          peers = map (\<lambda>(_, p). addr p) (take (ar_numwant r) (filter (\<lambda>(i, _). i \<noteq> ar_peer_id r) (iter sw2)));
          swarms' = (if sw2 = [] then hm_remove (ar_info_hash r) swarms else hm_insert (ar_info_hash r) sw2 swarms)
      in (swarms', \<lparr>resp_peers = peers, resp_complete = complete, resp_incomplete = incomplete,
                    resp_transferred = transferred\<rparr>))"

record swarm_stats =
  st_swarms :: nat
  st_peers :: nat
  st_seeders :: nat

definition stats :: "swarms \<Rightarrow> nat \<Rightarrow> swarm_stats" where
  "stats swarms now =
     foldl (\<lambda>st (_, sw).
       (case tally sw now of (seeders, leechers) \<Rightarrow>
          if seeders + leechers > 0
          then \<lparr>st_swarms = st_swarms st + 1, st_peers = st_peers st + (seeders + leechers),
                st_seeders = st_seeders st + seeders\<rparr>
          else st)) \<lparr>st_swarms = 0, st_peers = 0, st_seeders = 0\<rparr> swarms"

record swarm_view =
  sv_info_hash :: bytes
  sv_peers :: "socket_addr list"
  sv_complete :: nat
  sv_incomplete :: nat

definition view_of :: "(swarm \<Rightarrow> swarm) \<Rightarrow> nat \<Rightarrow> bytes \<Rightarrow> swarm \<Rightarrow> swarm_view option" where
  "view_of iter now h sw =
     (let peers = map (\<lambda>(_, p). addr p) (live (iter sw) now) in
      if peers = [] then None
      else (case tally sw now of (complete, incomplete) \<Rightarrow>
              Some \<lparr>sv_info_hash = h, sv_peers = peers, sv_complete = complete, sv_incomplete = incomplete\<rparr>))"

definition snapshots :: "(swarms \<Rightarrow> swarms) \<Rightarrow> (swarm \<Rightarrow> swarm) \<Rightarrow> swarms \<Rightarrow> nat \<Rightarrow> swarm_view list" where
  "snapshots iter_all iter swarms now = List.map_filter (\<lambda>(h, sw). view_of iter now h sw) (iter_all swarms)"

definition snapshot :: "(swarm \<Rightarrow> swarm) \<Rightarrow> swarms \<Rightarrow> nat \<Rightarrow> bytes \<Rightarrow> swarm_view option" where
  "snapshot iter swarms now h = Option.bind (map_of swarms h) (view_of iter now h)"

definition counts :: "swarms \<Rightarrow> nat \<Rightarrow> (bytes, nat \<times> nat) hashmap" where
  "counts swarms now = filter (\<lambda>(_, c). c \<noteq> (0, 0)) (map (\<lambda>(h, sw). (h, tally sw now)) swarms)"

definition scrape :: "swarms \<Rightarrow> nat \<Rightarrow> bytes \<Rightarrow> nat \<times> nat" where
  "scrape swarms now h = (case map_of swarms h of None \<Rightarrow> (0, 0) | Some sw \<Rightarrow> tally sw now)"

section \<open>Bencoded answers\<close>

definition put_int :: "string \<Rightarrow> int \<Rightarrow> bytes" where
  "put_int key value = write_bytes key @ write_int value"

definition pack_compact :: "socket_addr \<Rightarrow> bytes" where
  "pack_compact a = octets (fst a) @ be16 (snd a)"

definition peer_dict_bytes :: "socket_addr \<Rightarrow> bytes" where
  "peer_dict_bytes a =
     ''d'' @ write_bytes ''ip'' @ write_bytes (show_ip (fst a)) @
     write_bytes ''port'' @ write_int (int (snd a)) @ ''e''"

definition to_bencode :: "announce_response \<Rightarrow> bool \<Rightarrow> bytes" where
  "to_bencode resp compact =
     (let v4 = filter is_ipv4 (resp_peers resp);
          v6 = filter is_ipv6 (resp_peers resp);
          v6_count = length v6;
          v4_count = length (resp_peers resp) - v6_count
      in ''d'' @
         put_int ''complete'' (as_i64 (resp_complete resp)) @
         put_int ''incomplete'' (as_i64 (resp_incomplete resp)) @
         put_int ''interval'' (int INTERVAL) @
         put_int ''min interval'' (int MIN_INTERVAL) @
         write_bytes ''peers'' @
         (if compact then write_len (v4_count * 6) @ concat (map pack_compact v4)
          else ''l'' @ concat (map peer_dict_bytes (v4 @ v6)) @ ''e'') @
         (if compact \<and> v6_count > 0
          then write_bytes ''peers6'' @ write_len (v6_count * 18) @ concat (map pack_compact v6) else []) @
         ''e'')"

definition failure_bencode :: "string \<Rightarrow> bytes" where
  "failure_bencode reason = encode (BDict [(''failure reason'', BBytes reason)])"

definition scrape_entry :: "bytes \<times> nat \<times> nat \<Rightarrow> bytes \<times> bvalue" where
  "scrape_entry f =
     (case f of (h, complete, incomplete) \<Rightarrow>
        (h, BDict [(''complete'', BInt (as_i64 complete)), (''downloaded'', BInt (as_i64 complete)),
                   (''incomplete'', BInt (as_i64 incomplete))]))"

definition scrape_bencode :: "(bytes \<times> nat \<times> nat) list \<Rightarrow> bytes" where
  "scrape_bencode files = encode (BDict [(''files'', BDict (bt_from (map scrape_entry files)))])"

section \<open>The swarm as a map from torrent and peer to what is known of it\<close>

text \<open>
  The abstract view: which peer entry, if any, a torrent's swarm holds under a peer id. The
  invariant says no swarm lingers empty and no key is held twice.
\<close>

definition peer_at :: "swarms \<Rightarrow> bytes \<Rightarrow> bytes \<Rightarrow> swarm_peer option" where
  "peer_at swarms h i = (case map_of swarms h of None \<Rightarrow> None | Some sw \<Rightarrow> map_of sw i)"

definition swarms_inv :: "swarms \<Rightarrow> bool" where
  "swarms_inv swarms \<longleftrightarrow> hm_ok swarms \<and> (\<forall>(h, sw) \<in> set swarms. sw \<noteq> [] \<and> hm_ok sw)"

definition swarm_of :: "swarms \<Rightarrow> bytes \<Rightarrow> swarm" where
  "swarm_of swarms h = (case map_of swarms h of None \<Rightarrow> [] | Some sw \<Rightarrow> sw)"

definition swarm_after :: "nat \<Rightarrow> announce_request \<Rightarrow> socket_addr \<Rightarrow> swarms \<Rightarrow> swarm" where
  "swarm_after now r a swarms = swarm_record now r a (live (swarm_of swarms (ar_info_hash r)) now)"

definition peer_of :: "nat \<Rightarrow> announce_request \<Rightarrow> socket_addr \<Rightarrow> swarm_peer" where
  "peer_of now r a =
     \<lparr>addr = a, left_bytes = ar_left r, up_total = ar_uploaded r, down_total = ar_downloaded r, last_seen = now\<rparr>"

lemma peer_at_swarm_of: "peer_at swarms h i = map_of (swarm_of swarms h) i"
  by (simp add: peer_at_def swarm_of_def split: option.split)

lemma swarm_of_ok: "swarms_inv swarms \<Longrightarrow> hm_ok (swarm_of swarms h)"
  by (auto simp: swarms_inv_def swarm_of_def split: option.split dest: map_of_SomeD)

lemma hm_ok_live [simp]: "hm_ok sw \<Longrightarrow> hm_ok (live sw now)"
  by (simp add: live_def)

lemma swarm_record_ok: "hm_ok sw \<Longrightarrow> hm_ok (swarm_record now r a sw)"
  by (simp add: swarm_record_def)

lemma swarms_announce_state:
  "fst (swarms_announce iter now r a swarms) =
     (if swarm_after now r a swarms = [] then hm_remove (ar_info_hash r) swarms
      else hm_insert (ar_info_hash r) (swarm_after now r a swarms) swarms)"
  by (simp add: swarms_announce_def swarm_after_def swarm_of_def live_def Let_def split: prod.split)

lemma swarms_announce_inv [invs]:
  assumes "swarms_inv swarms"
  shows "swarms_inv (fst (swarms_announce iter now r a swarms))"
proof -
  have "hm_ok (swarm_after now r a swarms)"
    using assms by (simp add: swarm_after_def swarm_record_ok swarm_of_ok)
  with assms show ?thesis
    by (auto simp: swarms_inv_def swarms_announce_state set_hm_insert hm_remove_def)
qed

type_synonym announce_event = "nat \<times> announce_request \<times> socket_addr"

definition swarms_step :: "(swarm \<Rightarrow> swarm) \<Rightarrow> swarms \<Rightarrow> announce_event \<Rightarrow> swarms" where
  "swarms_step iter swarms e = (case e of (now, r, a) \<Rightarrow> fst (swarms_announce iter now r a swarms))"

interpretation tracker: component "\<lambda>s. s = []" "swarms_step iter" swarms_inv for iter
  by unfold_locales (simp add: swarms_inv_def, simp add: swarms_step_def swarms_announce_inv split: prod.split)

lemma map_of_live:
  "hm_ok sw \<Longrightarrow> map_of (live sw now) i = Option.bind (map_of sw i) (\<lambda>p. if is_live now p then Some p else None)"
  by (simp add: live_def hm_ok_def map_of_filter_Some)

lemma peer_at_announce:
  assumes "swarms_inv swarms"
  shows "peer_at (fst (swarms_announce iter now r a swarms)) h i =
    (if h \<noteq> ar_info_hash r then peer_at swarms h i
     else if i = ar_peer_id r then (if ar_event r = Stopped then None else Some (peer_of now r a))
     else Option.bind (peer_at swarms h i) (\<lambda>p. if is_live now p then Some p else None))"
proof -
  have "swarm_of (fst (swarms_announce iter now r a swarms)) h =
      (if h = ar_info_hash r then swarm_after now r a swarms else swarm_of swarms h)"
    by (simp add: swarms_announce_state swarm_of_def)
  then show ?thesis
    using swarm_of_ok [OF assms]
    by (simp add: peer_at_swarm_of swarm_after_def swarm_record_def map_of_live peer_of_def)
qed

subsection \<open>Counting\<close>

lemma tally_eq:
  "tally sw now = (length (filter (\<lambda>(_, p). left_bytes p = 0) (live sw now)),
                   length (filter (\<lambda>(_, p). left_bytes p \<noteq> 0) (live sw now)))"
proof -
  have "foldl (\<lambda>(c, i) (_, p). if left_bytes p = 0 then (c + 1, i) else (c, i + 1)) (c, i) xs =
      (c + length (filter (\<lambda>(_, p). left_bytes p = 0) xs), i + length (filter (\<lambda>(_, p). left_bytes p \<noteq> 0) xs))"
    for xs :: swarm and c i :: nat
    by (induction xs arbitrary: c i) auto
  from this [of 0 0] show ?thesis by (simp add: tally_def)
qed

lemma tally_sum: "fst (tally sw now) + snd (tally sw now) = length (live sw now)"
proof -
  have "length (filter (\<lambda>(_, p). left_bytes p = 0) xs) + length (filter (\<lambda>(_, p). left_bytes p \<noteq> 0) xs) = length xs"
    for xs :: swarm by (induction xs) auto
  then show ?thesis by (simp add: tally_eq)
qed

lemma live_idem [simp]: "live (live sw now) now = live sw now"
  by (simp add: live_def)

text \<open>After the sweep and the record every peer of the swarm is live.\<close>

lemma live_swarm_after: "swarms_inv swarms \<Longrightarrow> live (swarm_after now r a swarms) now = swarm_after now r a swarms"
proof -
  assume inv: "swarms_inv swarms"
  let ?sw = "live (swarm_of swarms (ar_info_hash r)) now"
  have "hm_ok ?sw" using inv by (simp add: swarm_of_ok)
  then have "\<forall>(i, p) \<in> set (swarm_record now r a ?sw). is_live now p"
    by (auto simp: swarm_record_def set_hm_insert hm_remove_def live_def is_live_def)
  then show ?thesis
    unfolding swarm_after_def by (auto simp: live_def filter_id_conv)
qed

lemma card_hm_keys:
  assumes "hm_ok xs"
  shows "card {i. P i \<and> map_of xs i \<noteq> None} = length (filter (\<lambda>(i, _). P i) xs)"
proof -
  have "{i. P i \<and> map_of xs i \<noteq> None} = set (map fst (filter (\<lambda>(i, _). P i) xs))"
    by (force simp: map_of_eq_None_iff)
  moreover have "distinct (map fst (filter (\<lambda>(i, _). P i) xs))"
    using assms by (simp add: hm_ok_def distinct_map_filter_fst)
  ultimately show ?thesis by (metis distinct_card length_map)
qed

lemma swarms_announce_response:
  assumes "swarms_inv swarms"
  shows "snd (swarms_announce iter now r a swarms) =
    \<lparr>resp_peers = map (\<lambda>(_, p). addr p)
       (take (ar_numwant r) (filter (\<lambda>(i, _). i \<noteq> ar_peer_id r) (iter (swarm_after now r a swarms)))),
     resp_complete = fst (tally (swarm_after now r a swarms) now),
     resp_incomplete = snd (tally (swarm_after now r a swarms) now),
     resp_transferred =
       (case Option.bind (peer_at swarms (ar_info_hash r) (ar_peer_id r)) (\<lambda>p. if is_live now p then Some p else None) of
          None \<Rightarrow> transfer_default
        | Some p \<Rightarrow> transfer_since (up_total p, down_total p) (ar_uploaded r, ar_downloaded r))\<rparr>"
proof -
  have "map_of (filter (\<lambda>(_, p). is_live now p) (swarm_of swarms (ar_info_hash r))) (ar_peer_id r) =
      Option.bind (peer_at swarms (ar_info_hash r) (ar_peer_id r)) (\<lambda>p. if is_live now p then Some p else None)"
    using map_of_live [OF swarm_of_ok [OF assms]] by (simp add: peer_at_swarm_of live_def)
  then show ?thesis
    by (simp add: swarms_announce_def swarm_after_def live_def Let_def case_prod_beta flip: swarm_of_def)
qed

subsection \<open>Transfer accounting\<close>

text \<open>
  What a peer is credited with over a run of announces, its own and everybody else's:
  the sum of the deltas of its own announces.
\<close>

fun credited :: "(swarm \<Rightarrow> swarm) \<Rightarrow> bytes \<Rightarrow> bytes \<Rightarrow> announce_event list \<Rightarrow> swarms \<Rightarrow> nat \<times> nat" where
  "credited iter h i [] swarms = (0, 0)"
| "credited iter h i ((now, r, a) # evs) swarms =
     (case swarms_announce iter now r a swarms of (swarms', resp) \<Rightarrow>
        (case credited iter h i evs swarms' of (u, d) \<Rightarrow>
           if ar_info_hash r = h \<and> ar_peer_id r = i
           then (u + tr_uploaded (resp_transferred resp), d + tr_downloaded (resp_transferred resp))
           else (u, d)))"

text \<open>
  A steady run from a baseline: the peer never stops, its counters never go back, and
  no announce of the run comes a TTL or more after the peer's previous one.
\<close>

fun steady :: "bytes \<Rightarrow> bytes \<Rightarrow> nat \<Rightarrow> nat \<times> nat \<Rightarrow> announce_event list \<Rightarrow> bool" where
  "steady h i seen (u, d) [] = True"
| "steady h i seen (u, d) ((now, r, a) # evs) =
     (now - seen < PEER_TTL \<and>
      (if ar_info_hash r = h \<and> ar_peer_id r = i
       then ar_event r \<noteq> Stopped \<and> u \<le> ar_uploaded r \<and> d \<le> ar_downloaded r \<and>
            steady h i now (ar_uploaded r, ar_downloaded r) evs
       else steady h i seen (u, d) evs))"

fun final_counters :: "bytes \<Rightarrow> bytes \<Rightarrow> nat \<times> nat \<Rightarrow> announce_event list \<Rightarrow> nat \<times> nat" where
  "final_counters h i c [] = c"
| "final_counters h i c ((now, r, a) # evs) =
     final_counters h i (if ar_info_hash r = h \<and> ar_peer_id r = i then (ar_uploaded r, ar_downloaded r) else c) evs"

lemma counter_step_mono: "before \<le> now \<Longrightarrow> counter_step before now = now - before"
  by (simp add: counter_step_def checked_sub_nat_def)

lemma counter_step_reset: "now < before \<Longrightarrow> counter_step before now = now"
  by (simp add: counter_step_def checked_sub_nat_def)

lemma credited_telescopes:
  assumes "swarms_inv swarms" "peer_at swarms h i = Some p"
    and "steady h i (last_seen p) (up_total p, down_total p) evs"
  shows "case credited iter h i evs swarms of (u, d) \<Rightarrow>
    final_counters h i (up_total p, down_total p) evs = (up_total p + u, down_total p + d)"
  using assms
proof (induction evs arbitrary: swarms p)
  case (Cons e evs)
  obtain now r a where e: "e = (now, r, a)" by (metis prod_cases3)
  define swarms' where "swarms' = fst (swarms_announce iter now r a swarms)"
  have inv': "swarms_inv swarms'" using Cons.prems(1) by (simp add: swarms'_def swarms_announce_inv)
  have lv: "is_live now p" using Cons.prems(3) by (simp add: e is_live_def)
  show ?case
  proof (cases "ar_info_hash r = h \<and> ar_peer_id r = i")
    case True
    then have "peer_at swarms' h i = Some (peer_of now r a)"
      using Cons.prems(1,3) by (auto simp: swarms'_def peer_at_announce e)
    from Cons.IH [OF inv' this] True Cons.prems have
      IH: "case credited iter h i evs swarms' of (u, d) \<Rightarrow>
        final_counters h i (ar_uploaded r, ar_downloaded r) evs = (ar_uploaded r + u, ar_downloaded r + d)"
      by (simp add: e peer_of_def)
    have "resp_transferred (snd (swarms_announce iter now r a swarms)) =
        transfer_since (up_total p, down_total p) (ar_uploaded r, ar_downloaded r)"
      using Cons.prems(1,2) lv True by (simp add: swarms_announce_response)
    with IH True Cons.prems(3) show ?thesis
      by (auto simp: e swarms'_def transfer_since_def counter_step_mono split: prod.splits)
  next
    case False
    then have "peer_at swarms' h i = Some p"
      using Cons.prems(1,2) lv by (auto simp: swarms'_def peer_at_announce)
    from Cons.IH [OF inv' this] False Cons.prems(3) show ?thesis
      by (auto simp: e swarms'_def split: prod.splits if_splits)
  qed
qed simp

section \<open>Properties of the swarms\<close>

text \<open>
  After any sequence of announces to a tracker that started empty, no torrent is held twice, no peer
  id is held twice within a swarm, and no swarm lingers once its last peer is gone.
\<close>

lemma swarms_never_linger:
  assumes "(h, sw) \<in> set (foldl (swarms_step iter) [] evs)"
  shows "sw \<noteq> [] \<and> distinct (map fst sw) \<and> distinct (map fst (foldl (swarms_step iter) [] evs))"
proof -
  have "swarms_inv (foldl (swarms_step iter) [] evs)"
    by (rule tracker.run_from_start) simp
  with assms show ?thesis by (auto simp: swarms_inv_def hm_ok_def)
qed

text \<open>An instance: one started announce leaves one swarm of one peer.\<close>

lemma swarms_never_linger_witness:
  "snd (hd (foldl (swarms_step id) []
      [(5, \<lparr>ar_info_hash = ''h'', ar_peer_id = ''p'', ar_port = 1, ar_left = 0, ar_uploaded = 0, ar_downloaded = 0,
            ar_event = Started, ar_compact = True, ar_numwant = 50, ar_declared_ip = None\<rparr>, (V4 [1, 2, 3, 4], 1))])) \<noteq> []"
  using swarms_never_linger [of "''h''" "[(''p'', \<lparr>addr = (V4 [1, 2, 3, 4], 1), left_bytes = 0, up_total = 0, down_total = 0, last_seen = 5\<rparr>)]" id
      "[(5, \<lparr>ar_info_hash = ''h'', ar_peer_id = ''p'', ar_port = 1, ar_left = 0, ar_uploaded = 0, ar_downloaded = 0,
            ar_event = Started, ar_compact = True, ar_numwant = 50, ar_declared_ip = None\<rparr>, (V4 [1, 2, 3, 4], 1))]"]
  by (simp add: swarms_step_def swarms_announce_def swarm_record_def hm_insert_def tally_def live_def is_live_def)

text \<open>
  C5: One announce changes exactly what it should: the announcing peer's entry in its own swarm
  (written, or removed when it stops), and the other peers of that swarm past their TTL; no
  other torrent's swarm is touched, so peers are never introduced across swarms.
\<close>

theorem announce_refines_peer_map:
  assumes "swarms_inv swarms"
  shows "peer_at (fst (swarms_announce iter now r a swarms)) =
    (peer_at swarms)(ar_info_hash r := (\<lambda>i.
       if i = ar_peer_id r
       then (if ar_event r = Stopped then None
             else Some \<lparr>addr = a, left_bytes = ar_left r, up_total = ar_uploaded r,
                        down_total = ar_downloaded r, last_seen = now\<rparr>)
       else (case peer_at swarms (ar_info_hash r) i of
               None \<Rightarrow> None
             | Some p \<Rightarrow> if now - last_seen p < PEER_TTL then Some p else None)))"
  using peer_at_announce [OF assms]
  by (auto simp: fun_eq_iff peer_of_def is_live_def split: option.split)

text \<open>Witness of C5 on an empty tracker.\<close>

theorem announce_refines_peer_map_witness:
  "peer_at (fst (swarms_announce id 5 \<lparr>ar_info_hash = ''h'', ar_peer_id = ''p'', ar_port = 1, ar_left = 3,
      ar_uploaded = 7, ar_downloaded = 8, ar_event = Periodic, ar_compact = True, ar_numwant = 50,
      ar_declared_ip = None\<rparr> (V4 [1, 2, 3, 4], 1) [])) ''h'' ''p'' =
     Some \<lparr>addr = (V4 [1, 2, 3, 4], 1), left_bytes = 3, up_total = 7, down_total = 8, last_seen = 5\<rparr>"
  by (subst announce_refines_peer_map) (simp_all add: swarms_inv_def)

text \<open>
  C6: What an announce answers: at most \<^verbatim>\<open>numwant\<close> peers and as many as there are, each of them
  another live peer of the same torrent and never the announcing peer itself, and counts
  that add up to the live peers of that swarm after the announce.
\<close>

theorem announce_answers_live_peers:
  assumes "swarms_inv swarms" "\<And>sw. mset (iter sw) = mset sw"
    and "swarms_announce iter now r a swarms = (swarms', resp)"
  shows "length (resp_peers resp) = min (ar_numwant r) (card {i. i \<noteq> ar_peer_id r \<and> peer_at swarms' (ar_info_hash r) i \<noteq> None}) \<and>
    (\<forall>x \<in> set (resp_peers resp). \<exists>i p. i \<noteq> ar_peer_id r \<and> addr p = x \<and> is_live now p \<and>
       peer_at swarms (ar_info_hash r) i = Some p) \<and>
    resp_complete resp + resp_incomplete resp = card {i. peer_at swarms' (ar_info_hash r) i \<noteq> None}"
proof -
  let ?sw = "swarm_after now r a swarms"
  let ?others = "filter (\<lambda>(i, _). i \<noteq> ar_peer_id r)"
  have s': "swarms' = fst (swarms_announce iter now r a swarms)"
    and resp: "resp = snd (swarms_announce iter now r a swarms)" using assms(3) by auto
  have at': "peer_at swarms' (ar_info_hash r) = map_of ?sw"
    by (auto simp: s' peer_at_swarm_of swarms_announce_state swarm_of_def fun_eq_iff)
  have ok: "hm_ok ?sw" using assms(1) by (simp add: swarm_after_def swarm_record_ok swarm_of_ok)
  note card = card_hm_keys [OF ok]
  have perm: "length (?others (iter ?sw)) = length (?others ?sw)" "set (iter ?sw) = set ?sw"
    using assms(2) by (metis mset_filter size_mset, metis set_mset_mset)
  have "length (resp_peers resp) = min (ar_numwant r) (card {i. i \<noteq> ar_peer_id r \<and> peer_at swarms' (ar_info_hash r) i \<noteq> None})"
    using card [of "\<lambda>i. i \<noteq> ar_peer_id r"] perm(1)
    by (simp add: resp swarms_announce_response [OF assms(1)] at' min.commute)
  moreover have "\<exists>i p. i \<noteq> ar_peer_id r \<and> addr p = x \<and> is_live now p \<and> peer_at swarms (ar_info_hash r) i = Some p"
    if x: "x \<in> set (resp_peers resp)" for x
  proof -
    obtain i p where ip: "(i, p) \<in> set ?sw" "i \<noteq> ar_peer_id r" "addr p = x"
      using x perm(2) by (auto simp: resp swarms_announce_response [OF assms(1)] dest!: in_set_takeD)
    then have "peer_at swarms' (ar_info_hash r) i = Some p"
      using ok by (simp add: at' hm_ok_def)
    then show ?thesis using ip peer_at_announce [OF assms(1), of iter now r a "ar_info_hash r" i]
      by (auto simp: s' bind_eq_Some_conv split: if_splits)
  qed
  moreover have "resp_complete resp + resp_incomplete resp = card {i. peer_at swarms' (ar_info_hash r) i \<noteq> None}"
    using card [of "\<lambda>_. True"] live_swarm_after [OF assms(1), of now r a]
    by (simp add: resp swarms_announce_response [OF assms(1)] at' tally_sum)
  ultimately show ?thesis by blast
qed

text \<open>Witness of C6: a second peer of a swarm is told of the first.\<close>

theorem announce_answers_live_peers_witness:
  "resp_peers (snd (swarms_announce id 5 \<lparr>ar_info_hash = ''h'', ar_peer_id = ''q'', ar_port = 7, ar_left = 3,
      ar_uploaded = 7, ar_downloaded = 8, ar_event = Periodic, ar_compact = True, ar_numwant = 50,
      ar_declared_ip = None\<rparr> (V4 [9, 2, 3, 4], 7)
      [(''h'', [(''p'', \<lparr>addr = (V4 [9, 9, 9, 9], 2), left_bytes = 0, up_total = 0, down_total = 0, last_seen = 4\<rparr>)])])) \<noteq> []"
proof -
  let ?r = "\<lparr>ar_info_hash = ''h'', ar_peer_id = ''q'', ar_port = 7, ar_left = 3,
      ar_uploaded = 7, ar_downloaded = 8, ar_event = Periodic, ar_compact = True, ar_numwant = 50,
      ar_declared_ip = None\<rparr>"
  let ?s = "[(''h'', [(''p'', \<lparr>addr = (V4 [9, 9, 9, 9], 2), left_bytes = 0, up_total = 0, down_total = 0, last_seen = 4\<rparr>)])]"
  obtain s' resp where ann: "swarms_announce id 5 ?r (V4 [9, 2, 3, 4], 7) ?s = (s', resp)" by fastforce
  have "swarms_inv ?s" by (simp add: swarms_inv_def hm_ok_def)
  moreover from this have "peer_at s' ''h'' ''p'' \<noteq> None"
    using peer_at_announce [of ?s id 5 ?r "(V4 [9, 2, 3, 4], 7)" "''h''" "''p''"] unfolding ann
    by (simp add: peer_at_def [of ?s] is_live_def)
  moreover have "finite {i. peer_at s' ''h'' i \<noteq> None}"
    unfolding peer_at_swarm_of using finite_dom_map_of [of "swarm_of s' ''h''"] by (simp add: dom_def)
  ultimately have "card {i. i \<noteq> ''q'' \<and> peer_at s' ''h'' i \<noteq> None} \<noteq> 0"
    by (auto simp: card_eq_0_iff intro!: exI [of _ "''p''"])
  then have "length (resp_peers resp) \<noteq> 0"
    using announce_answers_live_peers [OF \<open>swarms_inv ?s\<close> _ ann] by simp
  then show ?thesis unfolding ann by simp
qed

text \<open>
  C7: Transfer accounting telescopes: over a steady run of announces, with any other peers and torrents
  announcing in between, the deltas credited to a peer add up to exactly how far its cumulative
  counters moved, so nothing is counted twice and nothing is lost.
\<close>

theorem transfer_accounting_exact:
  assumes "swarms_inv swarms" "peer_at swarms h i = Some p"
    and "steady h i (last_seen p) (up_total p, down_total p) evs"
    and "credited iter h i evs swarms = (u, d)"
  shows "final_counters h i (up_total p, down_total p) evs = (up_total p + u, down_total p + d)"
  using credited_telescopes [OF assms(1-3), of iter] assms(4) by simp

text \<open>Witness of C7: two announces, the second 12 and 3 bytes on.\<close>

theorem transfer_accounting_exact_witness:
  "\<exists>u d. credited id ''h'' ''p'' [(9, \<lparr>ar_info_hash = ''h'', ar_peer_id = ''p'', ar_port = 1, ar_left = 0,
      ar_uploaded = 19, ar_downloaded = 11, ar_event = Periodic, ar_compact = True, ar_numwant = 50,
      ar_declared_ip = None\<rparr>, (V4 [1, 2, 3, 4], 1))]
      [(''h'', [(''p'', \<lparr>addr = (V4 [9, 9, 9, 9], 2), left_bytes = 0, up_total = 7, down_total = 8, last_seen = 4\<rparr>)])]
     = (u, d) \<and> (19, 11) = (7 + u, 8 + d)"
proof -
  let ?evs = "[(9::nat, \<lparr>ar_info_hash = ''h'', ar_peer_id = ''p'', ar_port = 1, ar_left = 0,
      ar_uploaded = 19, ar_downloaded = 11, ar_event = Periodic, ar_compact = True, ar_numwant = 50,
      ar_declared_ip = None\<rparr>, (V4 [1, 2, 3, 4], 1::nat))]"
  let ?p = "\<lparr>addr = (V4 [9, 9, 9, 9], 2), left_bytes = 0, up_total = 7, down_total = 8, last_seen = 4\<rparr>"
  obtain u d where ud: "credited id ''h'' ''p'' ?evs [(''h'', [(''p'', ?p)])] = (u, d)" by fastforce
  have "swarms_inv [(''h'', [(''p'', ?p)])]" "peer_at [(''h'', [(''p'', ?p)])] ''h'' ''p'' = Some ?p"
    by (simp_all add: swarms_inv_def hm_ok_def peer_at_def)
  from transfer_accounting_exact [OF this _ ud] show ?thesis using ud by simp
qed

section \<open>The wire format\<close>

text \<open>The answer as a bencode value: what the streamed writer is meant to produce.\<close>

definition peer_value :: "socket_addr \<Rightarrow> bvalue" where
  "peer_value a = BDict [(''ip'', BBytes (show_ip (fst a))), (''port'', BInt (int (snd a)))]"

definition response_value :: "announce_response \<Rightarrow> bool \<Rightarrow> bvalue" where
  "response_value resp compact =
     (let v4 = filter is_ipv4 (resp_peers resp); v6 = filter is_ipv6 (resp_peers resp) in
      BDict ([(''complete'', BInt (as_i64 (resp_complete resp))),
              (''incomplete'', BInt (as_i64 (resp_incomplete resp))),
              (''interval'', BInt 1800), (''min interval'', BInt 900),
              (''peers'', if compact then BBytes (concat (map pack_compact v4)) else BList (map peer_value (v4 @ v6)))] @
             (if compact \<and> v6 \<noteq> [] then [(''peers6'', BBytes (concat (map pack_compact v6)))] else [])))"

lemma is_ipv4_iff: "is_ipv4 a \<longleftrightarrow> \<not> is_ipv6 a"
  by (simp add: is_ipv4_def is_ipv6_def split: ip_addr.split)

lemma ipv4_or_ipv6: "length (filter is_ipv4 as) = length as - length (filter is_ipv6 as)"
  using sum_length_filter_compl [of is_ipv6 as] by (simp add: is_ipv4_iff [abs_def])

lemma length_pack_compact:
  "ip_ok (fst a) \<Longrightarrow> length (pack_compact a) = (if is_ipv4 a then 6 else 18)"
  by (auto simp: pack_compact_def length_octets be16_def is_ipv4_def split: ip_addr.splits)

lemma length_pack_all:
  "\<forall>a \<in> set as. length (pack_compact a) = n \<Longrightarrow> length (concat (map pack_compact as)) = n * length as"
  by (induction as) auto

lemma peer_dict_bytes_encode: "peer_dict_bytes = (\<lambda>a. encode (peer_value a))"
  by (simp add: fun_eq_iff peer_dict_bytes_def peer_value_def)

lemma to_bencode_encode:
  assumes "\<forall>a \<in> set (resp_peers resp). ip_ok (fst a)"
  shows "to_bencode resp compact = encode (response_value resp compact)"
proof -
  let ?v4 = "filter is_ipv4 (resp_peers resp)" and ?v6 = "filter is_ipv6 (resp_peers resp)"
  have "length (pack_compact a) = (if is_ipv4 a then 6 else 18)" if "a \<in> set (resp_peers resp)" for a
    using that assms length_pack_compact by blast
  then have "length (concat (map pack_compact ?v4)) = 6 * length ?v4" "length (concat (map pack_compact ?v6)) = 18 * length ?v6"
    by (auto intro!: length_pack_all simp: is_ipv4_iff)
  then have "write_bytes (concat (map pack_compact ?v4)) = write_len (length ?v4 * 6) @ concat (map pack_compact ?v4)"
    "write_bytes (concat (map pack_compact ?v6)) = write_len (length ?v6 * 18) @ concat (map pack_compact ?v6)"
    by (simp_all add: write_bytes_def mult.commute)
  then show ?thesis
    by (simp add: to_bencode_def response_value_def put_int_def Let_def comp_def peer_dict_bytes_encode ipv4_or_ipv6)
qed

lemma peer_value_ok: "snd a \<le> u16_max \<Longrightarrow> bv_ok (peer_value a)" "nesting (peer_value a) = 1"
  by (simp_all add: peer_value_def i64_ok_def)

lemma response_value_ok:
  assumes "\<forall>a \<in> set (resp_peers resp). snd a \<le> u16_max"
    and "resp_complete resp \<le> usize_max" "resp_incomplete resp \<le> usize_max"
  shows "bv_ok (response_value resp compact)" "nesting (response_value resp compact) \<le> MAX_DEPTH"
proof -
  have "list_all bv_ok (map peer_value as)" if "set as \<subseteq> set (resp_peers resp)" for as
    using that assms(1) peer_value_ok(1) by (auto simp: list_all_iff)
  moreover have "i64_ok 1800" "i64_ok 900" by (simp_all add: i64_ok_def)
  ultimately show "bv_ok (response_value resp compact)"
    using assms(2,3) by (simp add: response_value_def Let_def i64_ok_as_i64)
  have "nesting (response_value resp compact) \<le> 3"
    by (auto simp: response_value_def Let_def foldr_max_le peer_value_ok(2))
  then show "nesting (response_value resp compact) \<le> MAX_DEPTH" by simp
qed

text \<open>
  C8: The streamed tracker response is a canonical bencode dictionary: for addresses and counts
  of the types' ranges, the bytes decode to the dictionary with the two counts, the two
  intervals, the IPv4 peers packed at 6 bytes each (or listed as dictionaries of all peers when
  not compact) and the IPv6 peers packed at 18 bytes each under their own key.
\<close>

theorem announce_response_decodes:
  assumes "\<forall>a \<in> set (resp_peers resp). ip_ok (fst a) \<and> snd a \<le> u16_max"
    and "resp_complete resp \<le> usize_max" "resp_incomplete resp \<le> usize_max"
    and "length (to_bencode resp compact) \<le> usize_max"
  shows "decode (to_bencode resp compact) = Inr (response_value resp compact)"
  using bencode.dec_enc [of "response_value resp compact"] response_value_ok [of resp compact] to_bencode_encode [of resp compact]
    assms by simp

text \<open>Witness of C8 with one peer of each family.\<close>

theorem announce_response_decodes_witness:
  "decode (to_bencode \<lparr>resp_peers = [(V6 [0, 0, 0, 0, 0, 0, 0, 1], 80), (V4 [1, 2, 3, 4], 6881)], resp_complete = 1,
      resp_incomplete = 1, resp_transferred = transfer_default\<rparr> False) =
    Inr (response_value \<lparr>resp_peers = [(V6 [0, 0, 0, 0, 0, 0, 0, 1], 80), (V4 [1, 2, 3, 4], 6881)], resp_complete = 1,
      resp_incomplete = 1, resp_transferred = transfer_default\<rparr> False)"
  by (rule announce_response_decodes; code_simp)

section \<open>Requests\<close>

text \<open>
  A parsed announce request is well-formed whatever the query and whatever percent-decoding
  returns: two identifiers of exactly 20 bytes, a non-zero 16-bit port, 64-bit counters, and at
  most 50 peers asked for.
\<close>

lemma announce_parse_well_formed:
  assumes "announce_parse pdec query = Inr r"
  shows "length (ar_info_hash r) = HASH_LEN \<and> length (ar_peer_id r) = HASH_LEN \<and>
    0 < ar_port r \<and> ar_port r \<le> u16_max \<and> ar_numwant r \<le> MAX_NUMWANT \<and>
    ar_left r \<le> u64_max \<and> ar_uploaded r \<le> u64_max \<and> ar_downloaded r \<le> u64_max"
proof -
  have num: "n \<le> u64_max" if "number_param ps k 0 = Inr n" for ps k n
    using that by (auto simp: number_param_def split: option.splits if_splits dest!: parse_unsigned_bound)
  have hash: "length b = HASH_LEN" if "hash_param ps k = Inr b" for ps k b
    using that by (auto simp: hash_param_def split: if_splits)
  show ?thesis
    using assms by (auto simp: announce_parse_def Let_def split: if_splits dest!: num hash)
qed

text \<open>An instance on a minimal query.\<close>

lemma announce_parse_well_formed_witness:
  "\<exists>r. announce_parse id ''port=6881&info_hash=aaaaaaaaaaaaaaaaaaaa&peer_id=bbbbbbbbbbbbbbbbbbbb&numwant=200'' = Inr r \<and>
     ar_numwant r \<le> MAX_NUMWANT"
proof -
  have "announce_parse id ''port=6881&info_hash=aaaaaaaaaaaaaaaaaaaa&peer_id=bbbbbbbbbbbbbbbbbbbb&numwant=200'' =
    Inr \<lparr>ar_info_hash = ''aaaaaaaaaaaaaaaaaaaa'', ar_peer_id = ''bbbbbbbbbbbbbbbbbbbb'', ar_port = 6881, ar_left = 0,
         ar_uploaded = 0, ar_downloaded = 0, ar_event = Periodic, ar_compact = True, ar_numwant = 50, ar_declared_ip = None\<rparr>"
    by code_simp
  with announce_parse_well_formed [OF this] show ?thesis by simp
qed

text \<open>
  A pair appended to a query overrides what the query said of that key: the last value wins.
\<close>

lemma parse_query_append:
  assumes "CHR ''='' \<notin> set k" "CHR ''&'' \<notin> set k" "CHR ''&'' \<notin> set v" "utf8_valid k"
  shows "map_of (parse_query pdec (q @ ''&'' @ k @ ''='' @ v)) = (map_of (parse_query pdec q))(k \<mapsto> percent_decode pdec v)"
proof -
  have "split_on CHR ''&'' (k @ ''='' @ v) = [k @ ''='' @ v]"
    using assms by (intro split_on_single) auto
  moreover have "split_pair (k @ ''='' @ v) = (k, v)"
    using assms(1) position_append [of "CHR ''=''" k v] by (simp add: split_pair_def)
  ultimately show ?thesis
    using assms(4) split_on_append [of "CHR ''&''" q "k @ ''='' @ v"]
    by (simp add: parse_query_def insert_pair_def)
qed

lemma parse_query_pair:
  assumes "CHR ''='' \<notin> set k" "CHR ''&'' \<notin> set k" "CHR ''&'' \<notin> set v" "utf8_valid k"
  shows "map_of (parse_query pdec (k @ ''='' @ v)) = [k \<mapsto> percent_decode pdec v]"
  using parse_query_append [OF assms, of pdec "[]"] split_on_append [of "CHR ''&''" "[]" "k @ ''='' @ v"]
  by (simp add: parse_query_def insert_pair_def)

text \<open>
  The 20 raw bytes of an info hash and a peer id survive the query: whatever their
  percent-encoded form is (no bare \<^verbatim>\<open>&\<close> or \<^verbatim>\<open>+\<close>, and percent-decoding inverts it), the parsed
  request carries exactly those bytes, the port, and the defaults for everything unsaid.
\<close>

lemma announce_query_roundtrip:
  assumes "pdec h_enc = h" "pdec p_enc = p" "length h = HASH_LEN" "length p = HASH_LEN"
    and "CHR ''&'' \<notin> set h_enc" "CHR ''+'' \<notin> set h_enc" "CHR ''&'' \<notin> set p_enc" "CHR ''+'' \<notin> set p_enc"
    and "0 < port" "port \<le> u16_max" "pdec (show_nat port) = show_nat port"
  shows "announce_parse pdec (''info_hash='' @ h_enc @ ''&peer_id='' @ p_enc @ ''&port='' @ show_nat port) =
    Inr \<lparr>ar_info_hash = h, ar_peer_id = p, ar_port = port, ar_left = 0, ar_uploaded = 0, ar_downloaded = 0,
         ar_event = Periodic, ar_compact = True, ar_numwant = 50, ar_declared_ip = None\<rparr>"
proof -
  have amp: "CHR ''&'' \<notin> set (show_nat port)" "CHR ''+'' \<notin> set (show_nat port)"
    by (auto intro!: non_digit_notin simp: is_digit_code)
  have pd: "percent_decode pdec h_enc = h" "percent_decode pdec p_enc = p" "percent_decode pdec (show_nat port) = show_nat port"
    using assms amp by (simp_all add: percent_decode_def)
  let ?q = "''info_hash='' @ h_enc @ ''&peer_id='' @ p_enc"
  have "map_of (parse_query pdec (?q @ ''&'' @ ''port'' @ ''='' @ show_nat port)) =
      [''info_hash'' \<mapsto> h, ''peer_id'' \<mapsto> p, ''port'' \<mapsto> show_nat port]"
    using parse_query_append [of "''port''" "show_nat port" pdec ?q] amp pd
      parse_query_append [of "''peer_id''" p_enc pdec "''info_hash='' @ h_enc"] assms
      parse_query_pair [of "''info_hash''" h_enc pdec] by simp
  then show ?thesis
    using assms(3,4,9,10) parse_unsigned_show [of port u64_max] utf8_valid_digits [OF show_nat_all_digits]
    by (simp add: announce_parse_def Let_def number_param_def hash_param_def get_param_def)
qed

text \<open>An instance: identifiers that need no escaping, so decoding is the identity on them.\<close>

lemma announce_query_roundtrip_witness:
  "announce_parse id (''info_hash='' @ replicate 20 CHR ''a'' @ ''&peer_id='' @ replicate 20 CHR ''b'' @ ''&port='' @ show_nat 6881) =
    Inr \<lparr>ar_info_hash = replicate 20 CHR ''a'', ar_peer_id = replicate 20 CHR ''b'', ar_port = 6881, ar_left = 0,
         ar_uploaded = 0, ar_downloaded = 0, ar_event = Periodic, ar_compact = True, ar_numwant = 50, ar_declared_ip = None\<rparr>"
  by (rule announce_query_roundtrip) simp_all

text \<open>
  The recorded address: a peer that reaches the tracker from a public address is recorded under
  that address whatever it declares, an IPv4-mapped remote counts as its IPv4 address, a
  declared address is used exactly when the remote is private, and the port is the request's.
\<close>

lemma resolve_addr_spec:
  "resolve_addr r remote =
     (if is_private_ip (to_canonical remote) then
        (case ar_declared_ip r of None \<Rightarrow> to_canonical remote | Some d \<Rightarrow> to_canonical d)
      else to_canonical remote, ar_port r) \<and>
   (ip_ok remote \<and> (\<forall>d \<in> set_option (ar_declared_ip r). ip_ok d) \<longrightarrow> ip_ok (fst (resolve_addr r remote))) \<and>
   to_canonical (fst (resolve_addr r remote)) = fst (resolve_addr r remote)"
  by (auto simp: resolve_addr_def Let_def to_canonical_ok split: option.split)

text \<open>Example: behind a mapped private remote a declared address is used; from a public one it is not.\<close>

lemma resolve_addr_spec_witness:
  "resolve_addr \<lparr>ar_info_hash = [], ar_peer_id = [], ar_port = 9, ar_left = 0, ar_uploaded = 0, ar_downloaded = 0,
      ar_event = Periodic, ar_compact = True, ar_numwant = 50, ar_declared_ip = Some (V4 [8, 8, 8, 8])\<rparr>
      (V6 [0, 0, 0, 0, 0, 65535, 0xC0A8, 5]) = (V4 [8, 8, 8, 8], 9) \<and>
   resolve_addr \<lparr>ar_info_hash = [], ar_peer_id = [], ar_port = 9, ar_left = 0, ar_uploaded = 0, ar_downloaded = 0,
      ar_event = Periodic, ar_compact = True, ar_numwant = 50, ar_declared_ip = Some (V4 [8, 8, 8, 8])\<rparr>
      (V4 [9, 9, 9, 9]) = (V4 [9, 9, 9, 9], 9)"
proof -
  have "is_private_ip (to_canonical (V6 [0, 0, 0, 0, 0, 65535, 0xC0A8, 5]))" "\<not> is_private_ip (to_canonical (V4 [9, 9, 9, 9]))"
    by code_simp+
  then show ?thesis
    by (simp add: resolve_addr_spec) (simp add: to_canonical_def)
qed

end
