(* ===== verification/Rust_Text.thy ===== *)
theory Rust_Text
  imports Rust_Std "HOL-Library.Sublist"
begin

text \<open>
  What the modelled code uses of \<^verbatim>\<open>str\<close>: trimming and splitting at Unicode whitespace, ASCII case,
  substring search and padded numbers. A string is its UTF-8 bytes, so a whitespace character is
  one of a fixed list of byte sequences.
\<close>

section \<open>Whitespace\<close>

definition byte :: "nat \<Rightarrow> char" where "byte n = char_of n"

text \<open>The code points with the property \<^verbatim>\<open>White_Space\<close>, in UTF-8.\<close>

definition ws_encodings :: "string list" where
  "ws_encodings =
     map (\<lambda>n. [byte n]) [9, 10, 11, 12, 13, 32] @
     [[byte 0xC2, byte 0x85], [byte 0xC2, byte 0xA0], [byte 0xE1, byte 0x9A, byte 0x80]] @
     map (\<lambda>n. [byte 0xE2, byte 0x80, byte n]) ([0x80..<0x8B] @ [0xA8, 0xA9, 0xAF]) @
     [[byte 0xE2, byte 0x81, byte 0x9F], [byte 0xE3, byte 0x80, byte 0x80]]"

definition strip_any :: "string list \<Rightarrow> string \<Rightarrow> string option" where
  "strip_any encs s = map_option (\<lambda>w. drop (length w) s) (find (\<lambda>w. w \<noteq> [] \<and> prefix w s) encs)"

lemma strip_any_shorter: "strip_any encs s = Some t \<Longrightarrow> length t < length s"
  by (auto simp: strip_any_def find_Some_iff prefix_def)

function trim_start_with :: "string list \<Rightarrow> string \<Rightarrow> string" where
  "trim_start_with encs s = (case strip_any encs s of None \<Rightarrow> s | Some t \<Rightarrow> trim_start_with encs t)"
  by pat_completeness auto

termination trim_start_with
  by (relation "measure (length \<circ> snd)") (auto dest: strip_any_shorter)

declare trim_start_with.simps [simp del]

definition trim_start :: "string \<Rightarrow> string" where
  "trim_start = trim_start_with ws_encodings"

definition trim_end :: "string \<Rightarrow> string" where
  "trim_end s = rev (trim_start_with (map rev ws_encodings) (rev s))"

definition trim :: "string \<Rightarrow> string" where
  "trim s = trim_end (trim_start s)"

text \<open>\<^verbatim>\<open>trim_start_matches(pat)\<close>: strip the pattern as often as it occurs.\<close>

definition trim_start_matches :: "string \<Rightarrow> string \<Rightarrow> string" where
  "trim_start_matches pat = trim_start_with [pat]"

lemma trim_start_with_suffix: "\<exists>p. s = p @ trim_start_with encs s"
proof (induction encs s rule: trim_start_with.induct)
  case (1 encs s)
  show ?case
  proof (cases "strip_any encs s")
    case None
    then show ?thesis by (simp add: trim_start_with.simps)
  next
    case (Some t)
    then obtain w where w: "s = w @ t" by (auto simp: strip_any_def find_Some_iff prefix_def)
    from 1 [OF Some] obtain p where "t = p @ trim_start_with encs t" by blast
    with w have "s = (w @ p) @ trim_start_with encs t" by simp
    moreover have "trim_start_with encs s = trim_start_with encs t"
      using Some by (simp add: trim_start_with.simps [of encs s])
    ultimately show ?thesis by metis
  qed
qed

lemma trim_start_with_idem: "trim_start_with encs (trim_start_with encs s) = trim_start_with encs s"
proof (induction encs s rule: trim_start_with.induct)
  case (1 encs s)
  show ?case
  proof (cases "strip_any encs s")
    case None
    then have "trim_start_with encs s = s" by (simp add: trim_start_with.simps)
    then show ?thesis by simp
  next
    case (Some t)
    then show ?thesis using 1 [OF Some] by (simp add: trim_start_with.simps [of encs s])
  qed
qed

section \<open>ASCII case and substrings\<close>

definition is_ascii_lower :: "char \<Rightarrow> bool" where
  "is_ascii_lower c \<longleftrightarrow> 97 \<le> code c \<and> code c \<le> 122"

definition is_ascii_upper :: "char \<Rightarrow> bool" where
  "is_ascii_upper c \<longleftrightarrow> 65 \<le> code c \<and> code c \<le> 90"

definition is_ascii_alphanumeric :: "char \<Rightarrow> bool" where
  "is_ascii_alphanumeric c \<longleftrightarrow> is_digit c \<or> is_ascii_lower c \<or> is_ascii_upper c"

definition ascii_lower :: "char \<Rightarrow> char" where
  "ascii_lower c = (if is_ascii_upper c then char_of (code c + 32) else c)"

definition to_ascii_lowercase :: "string \<Rightarrow> string" where
  "to_ascii_lowercase s = map ascii_lower s"

definition eq_ignore_ascii_case :: "string \<Rightarrow> string \<Rightarrow> bool" where
  "eq_ignore_ascii_case a b \<longleftrightarrow> to_ascii_lowercase a = to_ascii_lowercase b"

fun contains :: "string \<Rightarrow> string \<Rightarrow> bool" where
  "contains [] needle = (needle = [])"
| "contains (c # cs) needle = (prefix needle (c # cs) \<or> contains cs needle)"

lemma contains_iff_sublist: "contains s needle \<longleftrightarrow> sublist needle s"
  by (induction s) (auto simp: sublist_Cons_right)

lemma ascii_lower_idem [simp]: "ascii_lower (ascii_lower c) = ascii_lower c"
  by (auto simp: ascii_lower_def is_ascii_upper_def)

lemma to_ascii_lowercase_idem [simp]: "to_ascii_lowercase (to_ascii_lowercase s) = to_ascii_lowercase s"
  by (simp add: to_ascii_lowercase_def)

text \<open>\<^verbatim>\<open>{n:02}\<close>: at least two digits.\<close>

definition show_pad2 :: "nat \<Rightarrow> string" where
  "show_pad2 n = (if n < 10 then CHR ''0'' # show_nat n else show_nat n)"

text \<open>\<^verbatim>\<open>split_once\<close> at the first character satisfying a predicate (an ASCII character).\<close>

fun split_once_by :: "(char \<Rightarrow> bool) \<Rightarrow> string \<Rightarrow> (string \<times> string) option" where
  "split_once_by P [] = None"
| "split_once_by P (c # cs) =
     (if P c then Some ([], cs) else map_option (\<lambda>(a, b). (c # a, b)) (split_once_by P cs))"

section \<open>Splitting at whitespace\<close>

text \<open>\<^verbatim>\<open>split_whitespace\<close>; the first argument is the word being read, backwards.\<close>

function words_from :: "string \<Rightarrow> string \<Rightarrow> string list" where
  "words_from cur s =
     (let finished = (if cur = [] then [] else [rev cur]) in
      case strip_any ws_encodings s of
        Some t \<Rightarrow> finished @ words_from [] t
      | None \<Rightarrow> (case s of [] \<Rightarrow> finished | c # cs \<Rightarrow> words_from (c # cur) cs))"
  by pat_completeness auto

termination words_from
  by (relation "measure (length \<circ> snd)") (auto dest: strip_any_shorter)

declare words_from.simps [simp del]

definition split_whitespace :: "string \<Rightarrow> string list" where
  "split_whitespace = words_from []"

text \<open>Characters that begin no whitespace.\<close>

definition starts_no_space :: "char \<Rightarrow> bool" where
  "starts_no_space c \<longleftrightarrow> list_all (\<lambda>w. hd w \<noteq> c) ws_encodings"

lemma strip_any_word:
  assumes "starts_no_space c"
  shows "strip_any ws_encodings (c # cs) = None"
proof -
  have "prefix w (c # cs) \<Longrightarrow> w \<noteq> [] \<Longrightarrow> hd w = c" for w by (cases w) auto
  then show ?thesis using assms by (auto simp: strip_any_def find_None_iff starts_no_space_def list_all_iff)
qed

lemma ws_encodings_front:
  "ws_encodings = [CHR 0x09] # [CHR 0x0A] # [CHR 0x0B] # [CHR 0x0C] # [CHR 0x0D] # '' '' # drop 6 ws_encodings"
  by code_simp

lemma strip_any_blank: "strip_any ws_encodings (CHR '' '' # cs) = Some cs"
  unfolding strip_any_def by (subst ws_encodings_front) simp

lemma strip_any_Nil: "strip_any encs [] = None"
  by (induction encs) (simp_all add: strip_any_def)

definition is_graphic :: "char \<Rightarrow> bool" where
  "is_graphic c \<longleftrightarrow> 33 \<le> code c \<and> code c < 127"

lemma starts_no_space_graphic: "is_graphic c \<Longrightarrow> starts_no_space c"
  by (auto simp: starts_no_space_def ws_encodings_def byte_def is_graphic_def)

lemma words_from_word:
  "list_all starts_no_space w \<Longrightarrow> words_from cur (w @ s) = words_from (rev w @ cur) s"
  by (induction w arbitrary: cur) (simp_all add: words_from.simps [of cur "_ # _" for cur] strip_any_word)

lemma words_from_blank: "words_from cur (CHR '' '' # s) = (if cur = [] then [] else [rev cur]) @ words_from [] s"
  by (simp add: words_from.simps [of cur "_ # _"] strip_any_blank)

lemma words_from_Nil: "words_from cur [] = (if cur = [] then [] else [rev cur])"
  by (simp add: words_from.simps [of cur "[]"] strip_any_Nil)

lemma trim_start_with_keeps: "find (\<lambda>w. w \<noteq> [] \<and> prefix w s) encs = None \<Longrightarrow> trim_start_with encs s = s"
  by (simp add: trim_start_with.simps [of encs s] strip_any_def)

lemma trim_graphic:
  assumes "s \<noteq> []" "is_graphic (hd s)" "is_graphic (last s)"
  shows "trim s = s"
proof -
  have "strip_any ws_encodings s = None"
    using assms(1,2) strip_any_word starts_no_space_graphic by (cases s) auto
  then have start: "trim_start s = s" by (simp add: trim_start_def trim_start_with.simps [of ws_encodings s])
  have "list_all (\<lambda>w. w \<noteq> [] \<and> \<not> is_graphic (last w)) ws_encodings"
    by code_simp
  then have "\<not> prefix (rev w) (rev s)" if "w \<in> set ws_encodings" for w
    using that assms by (cases s rule: rev_cases; cases w rule: rev_cases) (auto simp: list_all_iff)
  then have "find (\<lambda>w. w \<noteq> [] \<and> prefix w (rev s)) (map rev ws_encodings) = None"
    by (auto simp: find_None_iff)
  then show ?thesis by (simp add: trim_def start trim_end_def trim_start_with_keeps)
qed

section \<open>Padded numbers\<close>

lemma show_pad2_digits: "list_all is_digit (show_pad2 n)" "show_pad2 n \<noteq> []"
  using show_nat_all_digits by (auto simp: show_pad2_def is_digit_code)

lemma parse_pad2: "n \<le> mx \<Longrightarrow> parse_unsigned mx (show_pad2 n) = Some n"
proof (cases "n < 10")
  case True
  then have "digits_val (CHR ''0'' # show_nat n) = n" by (simp add: show_nat.simps digits_val_def code_digit_char)
  moreover assume "n \<le> mx"
  ultimately show ?thesis using True show_pad2_digits [of n] by (simp add: parse_unsigned_def parse_digits_def show_pad2_def)
qed (simp add: show_pad2_def parse_unsigned_show)

end
