(* ===== verification/Rust_Path.thy ===== *)
theory Rust_Path
  imports Rust_Text
begin

text \<open>
  \<^verbatim>\<open>std::path\<close> on Unix. A path is the list of its components, which is what \<^verbatim>\<open>Path\<close>'s equality, \<^verbatim>\<open>strip_prefix\<close>,
  \<^verbatim>\<open>file_name\<close>, \<^verbatim>\<open>parent\<close> and \<^verbatim>\<open>components().count()\<close> look at: repeated slashes, a trailing slash and inner
  \<^verbatim>\<open>.\<close> components do not distinguish paths.
\<close>

datatype comp = RootDir | CurDir | ParentDir | Normal string

type_synonym rpath = "comp list"

definition seg_comp :: "string \<Rightarrow> comp" where
  "seg_comp s = (if s = ''..'' then ParentDir else Normal s)"

definition path_components :: "string \<Rightarrow> rpath" where
  "path_components s =
     (let segs = split_on CHR ''/'' s;
          front = (if take 1 s = ''/'' then [RootDir] else if hd segs = ''.'' then [CurDir] else [])
      in front @ map seg_comp (filter (\<lambda>g. g \<noteq> [] \<and> g \<noteq> ''.'') segs))"

definition path_ok :: "rpath \<Rightarrow> bool" where
  "path_ok p \<longleftrightarrow> RootDir \<notin> set (tl p) \<and> CurDir \<notin> set (tl p)"

definition is_absolute :: "rpath \<Rightarrow> bool" where
  "is_absolute p \<longleftrightarrow> take 1 p = [RootDir]"

definition path_join :: "rpath \<Rightarrow> rpath \<Rightarrow> rpath" where
  "path_join p r =
     (if is_absolute r then r
      else if p = [] then r
      else p @ (if take 1 r = [CurDir] then tl r else r))"

definition strip_prefix :: "rpath \<Rightarrow> rpath \<Rightarrow> rpath option" where
  "strip_prefix p pre = (if prefix pre p then Some (drop (length pre) p) else None)"

definition file_name :: "rpath \<Rightarrow> string option" where
  "file_name p = (case rev p of Normal n # _ \<Rightarrow> Some n | _ \<Rightarrow> None)"

definition path_parent :: "rpath \<Rightarrow> rpath option" where
  "path_parent p = (if p = [] \<or> last p = RootDir then None else Some (butlast p))"

lemma path_components_ok: "path_ok (path_components s)"
proof -
  let ?cs = "map seg_comp (filter (\<lambda>g. g \<noteq> [] \<and> g \<noteq> ''.'') (split_on CHR ''/'' s))"
  have "RootDir \<notin> set ?cs" "CurDir \<notin> set ?cs" by (auto simp: seg_comp_def)
  moreover have "set (tl ?cs) \<subseteq> set ?cs" by (cases ?cs) auto
  ultimately show ?thesis by (auto simp: path_ok_def path_components_def Let_def)
qed

lemma strip_prefix_Some: "strip_prefix p pre = Some r \<longleftrightarrow> p = pre @ r"
  by (auto simp: strip_prefix_def prefix_def)

lemma path_ok_relative_rest:
  assumes "path_ok p" "p = pre @ r" "pre \<noteq> []"
  shows "\<not> is_absolute r" "take 1 r \<noteq> [CurDir]"
  using assms by (cases pre; cases r; auto simp: path_ok_def is_absolute_def)+

text \<open>Stripping a prefix and joining onto another moves a path from one root to the other.\<close>

lemma join_rest:
  assumes "path_ok (pre @ r)" "pre \<noteq> []" "q \<noteq> []"
  shows "path_join q r = q @ r"
  using path_ok_relative_rest [OF assms(1) refl assms(2)] assms(3) by (simp add: path_join_def)

end
