(* ===== verification/Media_Model.thy ===== *)
theory Media_Model
  imports Rust_Text
begin

text \<open>
  \<^verbatim>\<open>sharerr-core/src/model.rs\<close> and the macro \<^verbatim>\<open>str_enum!\<close> of \<^verbatim>\<open>macros.rs\<close>: the domain types shared by discovery,
  torrent creation and persistence. A ratio (\<^verbatim>\<open>f64\<close>) is only stored and copied, so it is its bit
  pattern; formatting a float to one decimal is a parameter.
\<close>

type_synonym f64 = nat
type_synonym path = string

section \<open>Sources\<close>

datatype media_source = Sonarr | Radarr | Lidarr | Readarr | Whisparr | Directory

definition media_source_all :: "media_source list" where
  "media_source_all = [Sonarr, Radarr, Lidarr, Readarr, Whisparr, Directory]"

definition media_source_str :: "media_source \<Rightarrow> string" where
  "media_source_str s =
     (case s of Sonarr \<Rightarrow> ''sonarr'' | Radarr \<Rightarrow> ''radarr'' | Lidarr \<Rightarrow> ''lidarr''
      | Readarr \<Rightarrow> ''readarr'' | Whisparr \<Rightarrow> ''whisparr'' | Directory \<Rightarrow> ''directory'')"

definition media_source_parse :: "string \<Rightarrow> media_source option" where
  "media_source_parse = str_enum_parse media_source_all media_source_str"

interpretation media_source: str_enum media_source_all media_source_str
proof
  show "v \<in> set media_source_all" for v by (cases v) (simp_all add: media_source_all_def)
qed (simp add: media_source_all_def media_source_str_def)

definition KIND_SCOPED :: "media_source list" where
  "KIND_SCOPED = [Directory]"

definition ARRS :: "media_source list" where
  "ARRS = [Sonarr, Radarr, Lidarr, Readarr, Whisparr]"

definition has_coarse_tagging :: "media_source \<Rightarrow> bool" where
  "has_coarse_tagging s = (case s of Sonarr \<Rightarrow> True | Whisparr \<Rightarrow> True | Lidarr \<Rightarrow> True | Readarr \<Rightarrow> True | _ \<Rightarrow> False)"

datatype share_state = Pending | Seeding | Unshared | Failed

definition share_state_all :: "share_state list" where
  "share_state_all = [Pending, Seeding, Unshared, Failed]"

definition share_state_str :: "share_state \<Rightarrow> string" where
  "share_state_str s =
     (case s of Pending \<Rightarrow> ''pending'' | Seeding \<Rightarrow> ''seeding'' | Unshared \<Rightarrow> ''unshared'' | Failed \<Rightarrow> ''failed'')"

definition share_state_parse :: "string \<Rightarrow> share_state option" where
  "share_state_parse = str_enum_parse share_state_all share_state_str"

interpretation share_state: str_enum share_state_all share_state_str
proof
  show "v \<in> set share_state_all" for v by (cases v) (simp_all add: share_state_all_def)
qed (simp add: share_state_all_def share_state_str_def)

section \<open>External ids\<close>

record external_ids =
  tvdb :: "int option"
  tmdb :: "int option"
  tvmaze :: "int option"
  imdb :: "string option"
  musicbrainz :: "string option"
  goodreads :: "string option"
  hardcover :: "string option"
  isbn :: "string option"

definition imdb_bare :: "string \<Rightarrow> string" where
  "imdb_bare raw = trim_start_matches ''tt'' (trim raw)"

definition imdb_numeric :: "external_ids \<Rightarrow> string option" where
  "imdb_numeric ids = map_option imdb_bare (imdb ids)"

definition compare_ids :: "'a option \<Rightarrow> 'a option \<Rightarrow> bool option" where
  "compare_ids a b = Option.bind a (\<lambda>x. Option.bind b (\<lambda>y. Some (x = y)))"

definition text_id :: "string option \<Rightarrow> string option" where
  "text_id a = map_option (\<lambda>s. to_ascii_lowercase (trim s)) a"

definition verdicts :: "external_ids \<Rightarrow> external_ids \<Rightarrow> bool option list" where
  "verdicts a b =
     [compare_ids (tvdb a) (tvdb b), compare_ids (tmdb a) (tmdb b), compare_ids (tvmaze a) (tvmaze b),
      compare_ids (imdb_numeric a) (imdb_numeric b),
      compare_ids (text_id (musicbrainz a)) (text_id (musicbrainz b)),
      compare_ids (text_id (goodreads a)) (text_id (goodreads b)),
      compare_ids (text_id (hardcover a)) (text_id (hardcover b)),
      compare_ids (text_id (isbn a)) (text_id (isbn b))]"

fun judge :: "bool \<Rightarrow> bool option list \<Rightarrow> bool" where
  "judge agreed [] = agreed"
| "judge agreed (None # vs) = judge agreed vs"
| "judge agreed (Some v # vs) = (if \<not> v then False else judge True vs)"

definition same_work :: "external_ids \<Rightarrow> external_ids \<Rightarrow> bool" where
  "same_work a b = judge False (verdicts a b)"

section \<open>Media metadata\<close>

record media_meta =
  resolution :: "string option"
  video_codec :: "string option"
  dynamic_range :: "string option"
  audio_codec :: "string option"
  audio_channels :: "string option"
  audio_languages :: "string option"
  subtitles :: "string option"
  runtime :: "string option"
  audio_sample_rate :: "string option"
  audio_bit_depth :: "string option"

definition media_meta_default :: media_meta where
  "media_meta_default =
     \<lparr>resolution = None, video_codec = None, dynamic_range = None, audio_codec = None, audio_channels = None,
      audio_languages = None, subtitles = None, runtime = None, audio_sample_rate = None, audio_bit_depth = None\<rparr>"

definition media_is_empty :: "media_meta \<Rightarrow> bool" where
  "media_is_empty m \<longleftrightarrow> m = media_meta_default"

definition LADDER :: "(nat \<times> nat \<times> string) list" where
  "LADDER = [(7680, 4320, ''4320p''), (3840, 2160, ''2160p''), (1920, 1080, ''1080p''),
             (1280, 720, ''720p''), (720, 576, ''576p''), (720, 480, ''480p'')]"

definition rung :: "nat \<Rightarrow> nat \<Rightarrow> (nat \<times> string) option" where
  "rung width height = map_option snd (find (\<lambda>(w, h, _). width = w \<or> height = h) LADDER)"

definition dimensions :: "media_meta \<Rightarrow> (nat \<times> nat) option" where
  "dimensions m =
     Option.bind (resolution m) (\<lambda>raw.
     Option.bind (split_once_by (\<lambda>c. c = CHR ''x'' \<or> c = CHR ''X'') raw) (\<lambda>(width, height).
     Option.bind (parse_u32 (trim width)) (\<lambda>w. Option.bind (parse_u32 (trim height)) (\<lambda>h. Some (w, h)))))"

definition scene_resolution :: "media_meta \<Rightarrow> string option" where
  "scene_resolution m = Option.bind (dimensions m) (\<lambda>(width, height). map_option snd (rung width height))"

definition nominal_height :: "media_meta \<Rightarrow> nat option" where
  "nominal_height m =
     map_option (\<lambda>(width, height). case rung width height of None \<Rightarrow> height | Some (ladder, _) \<Rightarrow> ladder) (dimensions m)"

definition VIDEO_TOKENS :: "(string \<times> string) list" where
  "VIDEO_TOKENS = [(''av1'', ''AV1''), (''hevc'', ''x265''), (''h265'', ''x265''), (''x265'', ''x265''),
     (''avc'', ''x264''), (''h264'', ''x264''), (''x264'', ''x264''), (''vp9'', ''VP9''),
     (''mpeg2'', ''MPEG2''), (''xvid'', ''XviD'')]"

definition AUDIO_TOKENS :: "(string \<times> string) list" where
  "AUDIO_TOKENS = [(''wavpack'', ''WV''), (''truehd'', ''TrueHD''), (''dtshd'', ''DTS-HD''), (''flac'', ''FLAC''),
     (''alac'', ''ALAC''), (''eac3'', ''EAC3''), (''ac3'', ''AC3''), (''dts'', ''DTS''), (''mp3'', ''MP3''),
     (''mpegl3'', ''MP3''), (''layer3'', ''MP3''), (''aac'', ''AAC''), (''opus'', ''OPUS''), (''vorbis'', ''VORBIS''),
     (''wma'', ''WMA''), (''ape'', ''APE''), (''pcm'', ''PCM''), (''wav'', ''WAV'')]"

definition scene_token :: "string \<Rightarrow> (string \<times> string) list \<Rightarrow> string option" where
  "scene_token raw0 table =
     (let raw = map ascii_lower (filter is_ascii_alphanumeric raw0) in
      map_option snd (find (\<lambda>(needle, _). contains raw needle) table))"

definition scene_video_codec :: "media_meta \<Rightarrow> string option" where
  "scene_video_codec m = Option.bind (video_codec m) (\<lambda>raw. scene_token raw VIDEO_TOKENS)"

definition scene_audio_format :: "media_meta \<Rightarrow> string option" where
  "scene_audio_format m = Option.bind (audio_codec m) (\<lambda>raw. scene_token raw AUDIO_TOKENS)"

text \<open>The thousandth part of a \<^verbatim>\<open>u32\<close> has a zero fraction exactly when the number is a multiple of 1000.\<close>

definition sample_rate_khz :: "(nat \<Rightarrow> string) \<Rightarrow> media_meta \<Rightarrow> string option" where
  "sample_rate_khz fmt_thousandth m =
     Option.bind (audio_sample_rate m) (\<lambda>raw.
     Option.bind (parse_u32 (trim raw)) (\<lambda>hz.
       Some ((if hz mod 1000 = 0 then show_nat (hz div 1000) else fmt_thousandth hz) @ '' kHz'')))"

section \<open>What a file contains\<close>

datatype media_spec =
    Episode string nat nat
  | Movie string "nat option"
  | Track string string "nat option"
  | Book string string

definition KIND_TAGS :: "string list" where
  "KIND_TAGS = [''episode'', ''movie'', ''track'', ''book'']"

definition kind_tag :: "media_spec \<Rightarrow> string" where
  "kind_tag s = (case s of Episode _ _ _ \<Rightarrow> ''episode'' | Movie _ _ \<Rightarrow> ''movie'' | Track _ _ _ \<Rightarrow> ''track'' | Book _ _ \<Rightarrow> ''book'')"

definition spec_title :: "media_spec \<Rightarrow> string" where
  "spec_title s =
     (case s of Episode series_title _ _ \<Rightarrow> series_title | Movie title _ \<Rightarrow> title | Track _ album _ \<Rightarrow> album | Book _ title \<Rightarrow> title)"

definition same_slot :: "media_spec \<Rightarrow> media_spec \<Rightarrow> bool" where
  "same_slot a b =
     (case (a, b) of
        (Episode _ season episode, Episode _ s e) \<Rightarrow> season = s \<and> episode = e
      | (Movie _ year, Movie _ y) \<Rightarrow> year = None \<or> y = None \<or> year = y
      | (Track _ _ track, Track _ _ t) \<Rightarrow> track = t
      | (Book _ _, Book _ _) \<Rightarrow> True
      | _ \<Rightarrow> False)"

definition creator :: "media_spec \<Rightarrow> string option" where
  "creator s = (case s of Track artist _ _ \<Rightarrow> Some artist | Book author _ \<Rightarrow> Some author | _ \<Rightarrow> None)"

definition show_spec :: "media_spec \<Rightarrow> string" where
  "show_spec s =
     (case s of
        Episode series_title season episode \<Rightarrow> series_title @ '' S'' @ show_pad2 season @ ''E'' @ show_pad2 episode
      | Movie title (Some y) \<Rightarrow> title @ '' ('' @ show_nat y @ '')''
      | Movie title None \<Rightarrow> title
      | Track artist album (Some n) \<Rightarrow> artist @ '' - '' @ album @ '' ['' @ show_pad2 n @ '']''
      | Track artist album None \<Rightarrow> artist @ '' - '' @ album
      | Book author title \<Rightarrow> author @ '' - '' @ title)"

section \<open>Catalogs\<close>

record catalog_entry =
  ce_info_hash :: string
  ce_spec :: media_spec
  ce_ids :: external_ids
  ce_size :: nat
  ce_private :: bool
  ce_download_url :: string

definition catalog_matches :: "catalog_entry \<Rightarrow> media_spec \<Rightarrow> external_ids \<Rightarrow> nat \<Rightarrow> bool" where
  "catalog_matches e spec ids sz \<longleftrightarrow> ce_size e = sz \<and> same_work (ce_ids e) ids \<and> same_slot (ce_spec e) spec"

section \<open>Shared items\<close>

record shared_item =
  si_id :: "int option"
  si_source :: media_source
  si_source_id :: int
  si_file_id :: int
  si_spec :: media_spec
  si_release_title :: string
  si_arr_path :: path
  si_size :: nat
  si_ids :: external_ids
  si_info_hash :: "string option"
  si_announce_token_fp :: "string option"
  si_created_by_sharerr :: bool
  si_state :: share_state
  si_last_error :: "string option"
  si_created_at :: "int option"
  si_media :: "media_meta option"
  si_achieved_ratio :: "f64 option"
  si_ratio_limit_reported :: "f64 option"
  si_private :: bool

definition shared_item_key :: "shared_item \<Rightarrow> media_source \<times> int" where
  "shared_item_key i = (si_source i, si_file_id i)"

record scene_meta =
  studio :: string
  sc_year :: nat
  sc_month :: nat
  sc_day :: nat

record discovered =
  d_source :: media_source
  d_source_id :: int
  d_file_id :: int
  d_spec :: media_spec
  d_arr_path :: path
  d_size :: nat
  d_ids :: external_ids
  d_scene_name :: "string option"
  d_original_path :: "path option"
  d_media :: "media_meta option"
  d_scene :: "scene_meta option"

text \<open>
  \<^verbatim>\<open>released.get(..10)\<close> is \<open>None\<close> when the text is shorter or byte 10 is inside a character; \<^verbatim>\<open>splitn(3, '-')\<close>
  leaves any further dash in the third part.
\<close>

definition is_char_boundary :: "string \<Rightarrow> nat \<Rightarrow> bool" where
  "is_char_boundary s i \<longleftrightarrow> i = length s \<or> (i < length s \<and> \<not> (128 \<le> code (s ! i) \<and> code (s ! i) < 192))"

definition scene_meta_new :: "string \<Rightarrow> string \<Rightarrow> scene_meta option" where
  "scene_meta_new studio0 released =
     (let st = trim studio0 in
      if \<not> is_char_boundary released 10 then None
      else
        (let date = take 10 released in
         case split_on CHR ''-'' date of
           y # m # d # rest \<Rightarrow>
             Option.bind (parse_u16 y) (\<lambda>year.
             Option.bind (parse_u8 m) (\<lambda>month.
             Option.bind (parse_u8 (concat (d # map (Cons CHR ''-'') rest))) (\<lambda>day.
               if st \<noteq> [] \<and> 1 \<le> month \<and> month \<le> 12 \<and> 1 \<le> day \<and> day \<le> 31
               then Some \<lparr>studio = st, sc_year = year, sc_month = month, sc_day = day\<rparr> else None)))
         | _ \<Rightarrow> None))"

definition discovered_key :: "discovered \<Rightarrow> media_source \<times> int" where
  "discovered_key d = (d_source d, d_file_id d)"

definition into_shared_item :: "discovered \<Rightarrow> string \<Rightarrow> shared_item" where
  "into_shared_item d release_title =
     \<lparr>si_id = None, si_source = d_source d, si_source_id = d_source_id d, si_file_id = d_file_id d,
      si_spec = d_spec d, si_release_title = release_title, si_arr_path = d_arr_path d, si_size = d_size d,
      si_ids = d_ids d, si_info_hash = None, si_announce_token_fp = None, si_created_by_sharerr = False,
      si_state = Pending, si_last_error = None, si_created_at = None, si_media = d_media d,
      si_achieved_ratio = None, si_ratio_limit_reported = None, si_private = True\<rparr>"

section \<open>Properties\<close>

lemma judge_iff: "judge agreed vs \<longleftrightarrow> Some False \<notin> set vs \<and> (agreed \<or> Some True \<in> set vs)"
  by (induction agreed vs rule: judge.induct) auto

lemma compare_ids_sym: "compare_ids a b = compare_ids b a"
  by (cases a; cases b) (auto simp: compare_ids_def)

lemma verdicts_sym: "verdicts a b = verdicts b a"
  unfolding verdicts_def by (simp only: compare_ids_sym)

lemma same_slot_sym: "same_slot a b = same_slot b a"
  by (cases a; cases b) (auto simp: same_slot_def)

text \<open>
  Two id sets name the same work exactly when some id both carry agrees and none both carry
  disagrees. The relation is symmetric, and so is the match that lets a file here be recognised
  in a friend's catalog: it never depends on which side asks.
\<close>

lemma same_work_agreement:
  "(same_work a b \<longleftrightarrow> Some True \<in> set (verdicts a b) \<and> Some False \<notin> set (verdicts a b)) \<and>
   (same_work a b \<longleftrightarrow> same_work b a) \<and>
   catalog_matches \<lparr>ce_info_hash = h, ce_spec = s, ce_ids = a, ce_size = n, ce_private = p, ce_download_url = u\<rparr> s' b n' =
   catalog_matches \<lparr>ce_info_hash = h', ce_spec = s', ce_ids = b, ce_size = n', ce_private = p', ce_download_url = u'\<rparr> s a n"
proof -
  have "same_work a b \<longleftrightarrow> same_work b a" by (simp add: same_work_def verdicts_sym [of a b])
  then show ?thesis
    by (auto simp: catalog_matches_def same_slot_sym [of s s']) (auto simp: same_work_def judge_iff)
qed

text \<open>
  Stored and URL-borne names decode to what was stored: parsing a source or a state inverts
  its spelling, and nothing but a spelling parses.
\<close>

lemma stored_names_roundtrip:
  "media_source_parse (media_source_str s) = Some s \<and> share_state_parse (share_state_str st) = Some st \<and>
   (media_source_parse x = Some s \<longleftrightarrow> x = media_source_str s) \<and>
   (share_state_parse x = Some st \<longleftrightarrow> x = share_state_str st)"
  unfolding media_source_parse_def share_state_parse_def
  using media_source.parse_Some_iff share_state.parse_Some_iff by metis

end
