(* ===== verification/Paths.thy ===== *)
theory Paths
  imports Rust_Path Media_Model
begin

text \<open>
  \<^verbatim>\<open>sharerr-core/src/paths.rs\<close>: the three views of one file (what the *arr application reports, what this
  process opens, what the torrent client is told) and the mappings between them.
\<close>

record path_mapping =
  pm_arr :: rpath
  pm_sharerr :: rpath
  pm_qbit :: "rpath option"

datatype path_error = NotAbsolute rpath

record resolved_paths =
  rp_arr :: rpath
  rp_sharerr :: rpath
  rp_qbit :: rpath
  mapping_applied :: bool

text \<open>\<^verbatim>\<open>max_by_key\<close> returns the last of the maximal elements.\<close>

fun max_by_key :: "('a \<Rightarrow> nat) \<Rightarrow> 'a list \<Rightarrow> 'a option" where
  "max_by_key f [] = None"
| "max_by_key f (x # xs) =
     (case max_by_key f xs of None \<Rightarrow> Some x | Some y \<Rightarrow> if f y \<ge> f x then Some y else Some x)"

definition most_specific_match ::
    "path_mapping list \<Rightarrow> (path_mapping \<Rightarrow> rpath) \<Rightarrow> rpath \<Rightarrow> (path_mapping \<times> rpath) option" where
  "most_specific_match maps prefix_of p =
     map_option snd
       (max_by_key fst
         (List.map_filter (\<lambda>m. map_option (\<lambda>rest. (length (prefix_of m), m, rest)) (strip_prefix p (prefix_of m))) maps))"

definition resolve :: "path_mapping list \<Rightarrow> rpath \<Rightarrow> (path_error, resolved_paths) result" where
  "resolve maps arr_path =
     (if \<not> is_absolute arr_path then Inl (NotAbsolute arr_path)
      else Inr (case most_specific_match maps pm_arr arr_path of
                  Some (m, rest) \<Rightarrow>
                    \<lparr>rp_arr = arr_path, rp_sharerr = path_join (pm_sharerr m) rest,
                     rp_qbit = path_join (case pm_qbit m of None \<Rightarrow> pm_sharerr m | Some q \<Rightarrow> q) rest,
                     mapping_applied = True\<rparr>
                | None \<Rightarrow>
                    \<lparr>rp_arr = arr_path, rp_sharerr = arr_path, rp_qbit = arr_path, mapping_applied = False\<rparr>))"

definition resolve_sharerr :: "path_mapping list \<Rightarrow> rpath \<Rightarrow> (path_error, resolved_paths) result" where
  "resolve_sharerr maps p =
     (if \<not> is_absolute p then Inl (NotAbsolute p)
      else
        (let mapped = Option.bind (most_specific_match maps pm_sharerr p)
                        (\<lambda>(m, rest). map_option (\<lambda>q. path_join q rest) (pm_qbit m))
         in Inr \<lparr>rp_arr = p, rp_sharerr = p, rp_qbit = (case mapped of None \<Rightarrow> p | Some q \<Rightarrow> q),
                 mapping_applied = (mapped \<noteq> None)\<rparr>))"

definition resolve_for :: "path_mapping list \<Rightarrow> media_source \<Rightarrow> rpath \<Rightarrow> (path_error, resolved_paths) result" where
  "resolve_for maps source p = (case source of Directory \<Rightarrow> resolve_sharerr maps p | _ \<Rightarrow> resolve maps p)"

section \<open>The most specific match\<close>

lemma max_by_key_None [simp]: "max_by_key f xs = None \<longleftrightarrow> xs = []"
  by (cases xs) (auto split: option.split)

lemma max_by_key_Some: "max_by_key f xs = Some y \<Longrightarrow> y \<in> set xs \<and> (\<forall>x \<in> set xs. f x \<le> f y)"
  by (induction xs arbitrary: y) (fastforce split: option.splits if_splits)+

lemma most_specific_match_Some:
  assumes "most_specific_match maps prefix_of p = Some (m, rest)"
  shows "m \<in> set maps" "p = prefix_of m @ rest"
    "m' \<in> set maps \<Longrightarrow> prefix (prefix_of m') p \<Longrightarrow> length (prefix_of m') \<le> length (prefix_of m)"
proof -
  let ?cands = "List.map_filter (\<lambda>m. map_option (\<lambda>rest. (length (prefix_of m), m, rest)) (strip_prefix p (prefix_of m))) maps"
  have "max_by_key fst ?cands = Some (length (prefix_of m), m, rest) \<or> (\<exists>n. max_by_key fst ?cands = Some (n, m, rest))"
    using assms by (auto simp: most_specific_match_def)
  then obtain n where n: "max_by_key fst ?cands = Some (n, m, rest)" by blast
  from max_by_key_Some [OF n] have mem: "(n, m, rest) \<in> set ?cands" and mx: "\<forall>x \<in> set ?cands. fst x \<le> n" by auto
  show "m \<in> set maps" "p = prefix_of m @ rest"
    using mem by (auto simp: set_map_filter strip_prefix_Some)
  have "n = length (prefix_of m)" using mem by (auto simp: set_map_filter)
  moreover assume "m' \<in> set maps" "prefix (prefix_of m') p"
  then have "(length (prefix_of m'), m', drop (length (prefix_of m')) p) \<in> set ?cands"
    by (force simp: set_map_filter strip_prefix_def)
  ultimately show "length (prefix_of m') \<le> length (prefix_of m)" using mx by force
qed

lemma most_specific_match_None:
  "most_specific_match maps prefix_of p = None \<longleftrightarrow> (\<forall>m \<in> set maps. \<not> prefix (prefix_of m) p)"
  by (auto simp: most_specific_match_def map_filter_Nil_iff strip_prefix_def)

section \<open>Properties\<close>

text \<open>
  An *arr-reported path is translated by a mapping whose prefix matches whole components and no
  matching mapping has a longer prefix; without a matching mapping it passes through unchanged,
  and the flag says which of the two happened. A relative path is refused.
\<close>

lemma resolve_most_specific:
  assumes "path_ok p" "\<forall>m \<in> set maps. pm_arr m \<noteq> [] \<and> pm_sharerr m \<noteq> [] \<and> pm_qbit m \<noteq> Some []"
  shows "case resolve maps p of
      Inl e \<Rightarrow> \<not> is_absolute p \<and> e = NotAbsolute p
    | Inr r \<Rightarrow> is_absolute p \<and> rp_arr r = p \<and>
        (if mapping_applied r
         then (\<exists>m \<in> set maps. \<exists>rest. p = pm_arr m @ rest \<and> rp_sharerr r = pm_sharerr m @ rest \<and>
                 rp_qbit r = (case pm_qbit m of None \<Rightarrow> pm_sharerr m | Some q \<Rightarrow> q) @ rest \<and>
                 (\<forall>m' \<in> set maps. prefix (pm_arr m') p \<longrightarrow> length (pm_arr m') \<le> length (pm_arr m)))
         else rp_sharerr r = p \<and> rp_qbit r = p \<and> (\<forall>m \<in> set maps. \<not> prefix (pm_arr m) p))"
proof (cases "most_specific_match maps pm_arr p")
  case None
  with most_specific_match_None [of maps pm_arr p] show ?thesis by (auto simp: resolve_def)
next
  case (Some mr)
  obtain m rest where mr: "mr = (m, rest)" by fastforce
  note match = most_specific_match_Some [OF Some [unfolded mr]]
  have "pm_arr m \<noteq> []" "pm_sharerr m \<noteq> []" "(case pm_qbit m of None \<Rightarrow> pm_sharerr m | Some q \<Rightarrow> q) \<noteq> []"
    using assms(2) match(1) by (auto split: option.split)
  moreover have "path_ok (pm_arr m @ rest)" using assms(1) match(2) by simp
  ultimately have "path_join (pm_sharerr m) rest = pm_sharerr m @ rest"
    "path_join (case pm_qbit m of None \<Rightarrow> pm_sharerr m | Some q \<Rightarrow> q) rest =
       (case pm_qbit m of None \<Rightarrow> pm_sharerr m | Some q \<Rightarrow> q) @ rest"
    using join_rest by blast+
  then show ?thesis
    using match Some mr by (auto simp: resolve_def)
qed

text \<open>Example: the longer of two matching prefixes wins.\<close>

lemma resolve_most_specific_witness:
  "let maps = [\<lparr>pm_arr = [RootDir, Normal ''tv''], pm_sharerr = [RootDir, Normal ''m''], pm_qbit = None\<rparr>,
               \<lparr>pm_arr = [RootDir, Normal ''tv'', Normal ''hd''], pm_sharerr = [RootDir, Normal ''hd''], pm_qbit = None\<rparr>];
       p = [RootDir, Normal ''tv'', Normal ''hd'', Normal ''a'']
   in \<exists>r. resolve maps p = Inr r \<and> rp_sharerr r = [RootDir, Normal ''hd'', Normal ''a''] \<and>
      (\<exists>m \<in> set maps. \<forall>m' \<in> set maps. prefix (pm_arr m') p \<longrightarrow> length (pm_arr m') \<le> length (pm_arr m))"
proof -
  let ?maps = "[\<lparr>pm_arr = [RootDir, Normal ''tv''], pm_sharerr = [RootDir, Normal ''m''], pm_qbit = None\<rparr>,
               \<lparr>pm_arr = [RootDir, Normal ''tv'', Normal ''hd''], pm_sharerr = [RootDir, Normal ''hd''], pm_qbit = None\<rparr>]"
  let ?p = "[RootDir, Normal ''tv'', Normal ''hd'', Normal ''a'']"
  have r: "resolve ?maps ?p = Inr \<lparr>rp_arr = ?p, rp_sharerr = [RootDir, Normal ''hd'', Normal ''a''],
      rp_qbit = [RootDir, Normal ''hd'', Normal ''a''], mapping_applied = True\<rparr>" by code_simp
  have "path_ok ?p" by (simp add: path_ok_def)
  from resolve_most_specific [OF this, of ?maps] show ?thesis
    unfolding r Let_def by auto
qed

text \<open>
  A file reached through an *arr report and through a directory scan is given to the torrent
  client under one path: resolving the reported path and then resolving its own sharerr view
  agree, as long as no other mapping's sharerr side covers that file.
\<close>

lemma resolve_views_agree:
  assumes "path_ok p" "most_specific_match maps pm_arr p = Some (m, rest)" "is_absolute p" "is_absolute (pm_sharerr m)"
    and "pm_arr m \<noteq> []" "pm_qbit m \<noteq> Some []"
    and "\<forall>m' \<in> set maps. m' \<noteq> m \<longrightarrow> \<not> prefix (pm_sharerr m') (pm_sharerr m @ rest)"
  shows "\<exists>r r'. resolve maps p = Inr r \<and> resolve_sharerr maps (rp_sharerr r) = Inr r' \<and>
    rp_qbit r' = rp_qbit r \<and> rp_sharerr r' = rp_sharerr r"
proof -
  note match = most_specific_match_Some [OF assms(2)]
  have ne: "pm_sharerr m \<noteq> []" using assms(4) by (auto simp: is_absolute_def)
  have ok: "path_ok (pm_arr m @ rest)" using assms(1) match(2) by simp
  have join: "path_join q rest = q @ rest" if "q \<noteq> []" for q using join_rest [OF ok assms(5) that] .
  let ?s = "pm_sharerr m @ rest"
  have "most_specific_match maps pm_sharerr ?s \<noteq> None"
    using match(1) by (auto simp: most_specific_match_None intro!: bexI [of _ m])
  then obtain m' rest' where mr': "most_specific_match maps pm_sharerr ?s = Some (m', rest')" by fastforce
  from most_specific_match_Some [OF this] assms(7) have "m' = m" "rest' = rest" by (auto simp: prefix_def)
  moreover have "is_absolute ?s" using assms(4) ne by (cases "pm_sharerr m") (auto simp: is_absolute_def)
  ultimately show ?thesis
    using assms(2,3,6) mr' join [OF ne] join by (cases "pm_qbit m") (auto simp: resolve_def resolve_sharerr_def)
qed

text \<open>Example: one mapping.\<close>

lemma resolve_views_agree_witness:
  "\<exists>r r'. resolve [\<lparr>pm_arr = [RootDir, Normal ''tv''], pm_sharerr = [RootDir, Normal ''m''], pm_qbit = Some [RootDir, Normal ''q'']\<rparr>]
       [RootDir, Normal ''tv'', Normal ''a''] = Inr r \<and>
     resolve_sharerr [\<lparr>pm_arr = [RootDir, Normal ''tv''], pm_sharerr = [RootDir, Normal ''m''], pm_qbit = Some [RootDir, Normal ''q'']\<rparr>]
       (rp_sharerr r) = Inr r' \<and> rp_qbit r' = rp_qbit r"
proof -
  let ?m = "\<lparr>pm_arr = [RootDir, Normal ''tv''], pm_sharerr = [RootDir, Normal ''m''], pm_qbit = Some [RootDir, Normal ''q'']\<rparr>"
  let ?p = "[RootDir, Normal ''tv'', Normal ''a'']"
  have "most_specific_match [?m] pm_arr ?p = Some (?m, [Normal ''a''])" by code_simp
  from resolve_views_agree [OF _ this] show ?thesis by (auto simp: path_ok_def is_absolute_def)
qed

end
