(* ===== verification/Metainfo.thy ===== *)
theory Metainfo
  imports Bencode
begin

text \<open>
  \<^verbatim>\<open>sharerr-torrent/src/metainfo.rs\<close>: a \<^verbatim>\<open>.torrent\<close> as the announce fields, the verbatim info
  dictionary and every other top-level field. SHA-1, SHA-256 and the \<^verbatim>\<open>hex\<close> crate are parameters.
\<close>

section \<open>The torrent\<close>

record torrent =
  announce :: "string option"
  announce_list :: "string list list option"
  info :: bdict
  extra :: bdict

datatype metainfo_error =
    MBencode bencode_error
  | NotADictionary
  | MissingInfo
  | AnnounceNotAString
  | AnnounceListMalformed

definition parse_announce_list :: "bvalue \<Rightarrow> (metainfo_error, string list list) result" where
  "parse_announce_list value =
     and_then (ok_or (as_list value) AnnounceListMalformed)
       (collect_result (\<lambda>tier.
          and_then (ok_or (as_list tier) AnnounceListMalformed)
            (collect_result (\<lambda>url. ok_or (as_str url) AnnounceListMalformed))))"

definition read_from_bytes :: "bytes \<Rightarrow> (metainfo_error, torrent) result" where
  "read_from_bytes b =
     (case decode b of
        Inl e \<Rightarrow> Inl (MBencode e)
      | Inr (BDict top0) \<Rightarrow>
          (case map_of top0 ''info'' of
             Some (BDict inf_dict) \<Rightarrow>
               (let top1 = bt_remove ''info'' top0 in
                and_then (case map_of top1 ''announce'' of
                            None \<Rightarrow> Inr None
                          | Some value \<Rightarrow> and_then (ok_or (as_str value) AnnounceNotAString) (\<lambda>s. Inr (Some s)))
                  (\<lambda>ann. let top2 = bt_remove ''announce'' top1 in
                   and_then (case map_of top2 ''announce-list'' of
                               None \<Rightarrow> Inr None
                             | Some value \<Rightarrow> and_then (parse_announce_list value) (\<lambda>l. Inr (Some l)))
                     (\<lambda>tiers. let top3 = bt_remove ''announce-list'' top2 in
                      Inr \<lparr>announce = ann, announce_list = tiers, info = inf_dict, extra = top3\<rparr>)))
           | _ \<Rightarrow> Inl MissingInfo)
      | Inr _ \<Rightarrow> Inl NotADictionary)"

definition tiers_value :: "string list list \<Rightarrow> bvalue" where
  "tiers_value tiers = BList (map (\<lambda>tier. BList (map BBytes tier)) tiers)"

definition top_fields :: "torrent \<Rightarrow> (bytes, field) btree" where
  "top_fields t =
     (let top0 = map (\<lambda>(key, value). (key, FValue value)) (extra t);
          top1 = (case announce t of None \<Rightarrow> top0 | Some a \<Rightarrow> bt_insert ''announce'' (FValue (BBytes a)) top0);
          top2 = (case announce_list t of None \<Rightarrow> top1
                  | Some tiers \<Rightarrow> bt_insert ''announce-list'' (FValue (tiers_value tiers)) top1)
      in bt_insert ''info'' (FDict (info t)) top2)"

definition torrent_encode :: "torrent \<Rightarrow> bytes" where
  "torrent_encode t = write_fields (top_fields t)"

definition info_hash :: "(bytes \<Rightarrow> bytes) \<Rightarrow> (bytes \<Rightarrow> string) \<Rightarrow> torrent \<Rightarrow> string" where
  "info_hash sha1 hex t = hex (sha1 (write_dict (info t)))"

definition info_field :: "torrent \<Rightarrow> string \<Rightarrow> bvalue option" where
  "info_field t key = map_of (info t) key"

definition info_hash_v2 :: "(bytes \<Rightarrow> bytes) \<Rightarrow> (bytes \<Rightarrow> string) \<Rightarrow> torrent \<Rightarrow> string option" where
  "info_hash_v2 sha256 hex t =
     (if Option.bind (info_field t ''meta version'') as_int \<noteq> Some 2 then None
      else Some (hex (take 20 (sha256 (write_dict (info t))))))"

definition torrent_name :: "torrent \<Rightarrow> string option" where
  "torrent_name t = Option.bind (info_field t ''name'') as_str"

definition file_length :: "bvalue \<Rightarrow> int option" where
  "file_length file = Option.bind (as_dict file) (\<lambda>d. Option.bind (map_of d ''length'') as_int)"

fun sum_lengths :: "int \<Rightarrow> bvalue list \<Rightarrow> int option" where
  "sum_lengths acc [] = Some acc"
| "sum_lengths acc (file # files) =
     (case file_length file of
        None \<Rightarrow> None
      | Some len \<Rightarrow> (case checked_add_i64 acc len of None \<Rightarrow> None | Some acc' \<Rightarrow> sum_lengths acc' files))"

definition torrent_length :: "torrent \<Rightarrow> int option" where
  "torrent_length t =
     (case Option.bind (info_field t ''length'') as_int of
        Some len \<Rightarrow> Some len
      | None \<Rightarrow> Option.bind (Option.bind (info_field t ''files'') as_list) (sum_lengths 0))"

definition content_length :: "torrent \<Rightarrow> nat" where
  "content_length t = (case Option.bind (torrent_length t) u64_try_from of None \<Rightarrow> 0 | Some n \<Rightarrow> n)"

definition is_single_file :: "torrent \<Rightarrow> bool" where
  "is_single_file t \<longleftrightarrow> info_field t ''files'' = None"

text \<open>\<^verbatim>\<open>parts.join("/")\<close>.\<close>

fun join :: "string \<Rightarrow> string list \<Rightarrow> string" where
  "join sep [] = []"
| "join sep [p] = p"
| "join sep (p # q # ps) = p @ sep @ join sep (q # ps)"

definition file_paths :: "torrent \<Rightarrow> string list" where
  "file_paths t =
     (case Option.bind (info_field t ''files'') as_list of
        None \<Rightarrow> []
      | Some files \<Rightarrow>
          List.map_filter (\<lambda>file.
            Option.bind (as_dict file) (\<lambda>d. Option.bind (map_of d ''path'') (\<lambda>p.
              Option.bind (as_list p) (\<lambda>parts. map_option (join ''/'') (collect_option as_str parts))))) files)"

definition piece_length :: "torrent \<Rightarrow> nat option" where
  "piece_length t =
     Option.bind (Option.bind (info_field t ''piece length'') as_int)
       (\<lambda>len. case u64_try_from len of None \<Rightarrow> None | Some n \<Rightarrow> if n > 0 then Some n else None)"

definition pieces :: "torrent \<Rightarrow> bytes option" where
  "pieces t = Option.bind (info_field t ''pieces'') as_bytes"

definition announce_tiers :: "torrent \<Rightarrow> string list list" where
  "announce_tiers t =
     (case (announce_list t, announce t) of
        (Some tiers, ann) \<Rightarrow>
          if tiers \<noteq> [] then tiers else (case ann of Some a \<Rightarrow> [[a]] | None \<Rightarrow> [])
      | (None, Some a) \<Rightarrow> [[a]]
      | _ \<Rightarrow> [])"

definition is_private :: "torrent \<Rightarrow> bool" where
  "is_private t \<longleftrightarrow> Option.bind (info_field t ''private'') as_int = Some 1"

section \<open>Well-formed torrents\<close>

text \<open>
  The values a \<^verbatim>\<open>Torrent\<close> parsed from a file, or rewritten with new announce URLs, can have:
  Rust strings are UTF-8, and the fields the parser takes out are not left in \<^verbatim>\<open>extra\<close>.
\<close>

definition torrent_ok :: "torrent \<Rightarrow> bool" where
  "torrent_ok t \<longleftrightarrow>
     (\<forall>a \<in> set_option (announce t). utf8_valid a) \<and>
     (\<forall>tiers \<in> set_option (announce_list t). \<forall>tier \<in> set tiers. \<forall>u \<in> set tier. utf8_valid u) \<and>
     bv_ok (BDict (info t)) \<and> nesting (BDict (info t)) < MAX_DEPTH \<and>
     bv_ok (BDict (extra t)) \<and> nesting (BDict (extra t)) \<le> MAX_DEPTH \<and>
     map_of (extra t) ''announce'' = None \<and> map_of (extra t) ''announce-list'' = None \<and>
     map_of (extra t) ''info'' = None"

text \<open>The top-level dictionary as a value: what \<^verbatim>\<open>encode\<close> writes without building it.\<close>

definition field_value :: "field \<Rightarrow> bvalue" where
  "field_value f = (case f of FValue v \<Rightarrow> v | FDict es \<Rightarrow> BDict es)"

lemma field_value_simps [simp]: "field_value (FValue v) = v" "field_value (FDict es) = BDict es"
  by (simp_all add: field_value_def)

definition top_dict :: "torrent \<Rightarrow> bdict" where
  "top_dict t = map (\<lambda>(k, f). (k, field_value f)) (top_fields t)"

lemma write_fields_encode: "write_fields fs = encode (BDict (map (\<lambda>(k, f). (k, field_value f)) fs))"
  by (simp add: write_fields_def write_dict_def field_value_def case_prod_unfold comp_def split: field.split)
    (auto intro!: arg_cong [where f = concat] map_cong simp: write_dict_def case_prod_unfold split: field.split)

lemma torrent_encode_top_dict: "torrent_encode t = encode (BDict (top_dict t))"
  by (simp only: torrent_encode_def write_fields_encode top_dict_def)

lemma bt_insert_map_snd:
  "map (\<lambda>e. (fst e, g (snd e))) (bt_insert k v m) = bt_insert k (g v) (map (\<lambda>e. (fst e, g (snd e))) m)"
  by (induction m) auto

lemma top_dict_alt:
  "top_dict t =
     bt_insert ''info'' (BDict (info t))
       ((case announce_list t of None \<Rightarrow> id | Some tiers \<Rightarrow> bt_insert ''announce-list'' (tiers_value tiers))
         ((case announce t of None \<Rightarrow> id | Some a \<Rightarrow> bt_insert ''announce'' (BBytes a)) (extra t)))"
  by (auto simp: top_dict_def top_fields_def bt_insert_map_snd comp_def case_prod_unfold
      split: option.split)

lemma parse_tiers_value:
  assumes "\<forall>tier \<in> set tiers. \<forall>u \<in> set tier. utf8_valid u"
  shows "parse_announce_list (tiers_value tiers) = Inr tiers"
  using assms
  by (auto simp: parse_announce_list_def tiers_value_def as_list_def as_str_def as_bytes_def
      intro!: collect_result_map)

lemma as_list_Some [simp]: "as_list v = Some vs \<longleftrightarrow> v = BList vs"
  by (cases v) (auto simp: as_list_def)

lemma as_str_Some [simp]: "as_str v = Some s \<longleftrightarrow> v = BBytes s \<and> utf8_valid s"
  by (cases v) (auto simp: as_str_def as_bytes_def)

lemma parse_announce_list_Inr:
  "parse_announce_list v = Inr tiers \<longleftrightarrow>
     v = tiers_value tiers \<and> (\<forall>tier \<in> set tiers. \<forall>u \<in> set tier. utf8_valid u)"
proof
  assume "parse_announce_list v = Inr tiers"
  then obtain vs where v: "v = BList vs"
    and vs: "list_all2 (\<lambda>x tier. \<exists>us. x = BList us \<and> list_all2 (\<lambda>u s. u = BBytes s \<and> utf8_valid s) us tier) vs tiers"
    by (auto simp: parse_announce_list_def collect_result_Inr_iff)
  have strs: "us = map BBytes tier \<and> (\<forall>u \<in> set tier. utf8_valid u)"
    if "list_all2 (\<lambda>u s. u = BBytes s \<and> utf8_valid s) us tier" for us tier
    using that by (induction rule: list_all2_induct) auto
  from vs have "vs = map (\<lambda>tier. BList (map BBytes tier)) tiers \<and> (\<forall>tier \<in> set tiers. \<forall>u \<in> set tier. utf8_valid u)"
    by (induction rule: list_all2_induct) (auto dest: strs)
  with v show "v = tiers_value tiers \<and> (\<forall>tier \<in> set tiers. \<forall>u \<in> set tier. utf8_valid u)"
    by (simp add: tiers_value_def)
qed (auto intro: parse_tiers_value)

section \<open>Reading and writing\<close>

lemma dict_insert_ok: "bv_ok (BDict m) \<Longrightarrow> bv_ok v \<Longrightarrow> bv_ok (BDict (bt_insert k v m))"
  using set_bt_insert_subset [of k v m] by (auto simp: list_all_iff)

lemma dict_insert_nesting:
  assumes "nesting (BDict m) \<le> n" "Suc (nesting v) \<le> n"
  shows "nesting (BDict (bt_insert k v m)) \<le> n"
  using assms set_bt_insert_subset [of k v m] unfolding nesting_dict_le by fastforce

lemma tiers_value_ok: "bv_ok (tiers_value tiers)" "nesting (tiers_value tiers) \<le> 2"
  by (auto simp: tiers_value_def list_all_iff foldr_max_le)

lemma top_dict_ok:
  assumes "torrent_ok t"
  shows "bv_ok (BDict (top_dict t))" "nesting (BDict (top_dict t)) \<le> MAX_DEPTH"
proof -
  have ok: "bv_ok (BDict (extra t))" "bv_ok (BDict (info t))"
    and nest: "nesting (BDict (extra t)) \<le> MAX_DEPTH" "Suc (nesting (BDict (info t))) \<le> MAX_DEPTH"
    using assms unfolding torrent_ok_def by (blast, blast, blast, simp add: Suc_le_eq)
  have tv: "Suc (nesting (tiers_value l)) \<le> MAX_DEPTH" for l
    using tiers_value_ok(2) [of l] by simp
  show "bv_ok (BDict (top_dict t))"
    unfolding top_dict_alt using ok tiers_value_ok(1)
    by (cases "announce t"; cases "announce_list t") (simp_all add: dict_insert_ok del: bv_ok.simps(4))
  show "nesting (BDict (top_dict t)) \<le> MAX_DEPTH"
    unfolding top_dict_alt using nest tv
    by (cases "announce t"; cases "announce_list t")
      (simp_all only: option.case id_apply dict_insert_nesting nesting.simps(2))
qed

lemma map_of_top_dict:
  "map_of (top_dict t) =
     (\<lambda>k. if k = ''info'' then Some (BDict (info t))
          else if k = ''announce-list'' \<and> announce_list t \<noteq> None then map_option tiers_value (announce_list t)
          else if k = ''announce'' \<and> announce t \<noteq> None then map_option BBytes (announce t)
          else map_of (extra t) k)"
  by (auto simp: top_dict_alt fun_eq_iff split: option.split)

lemma bt_ok_top_dict: "bt_ok (extra t) \<Longrightarrow> bt_ok (top_dict t)"
  by (auto simp: top_dict_alt split: option.split)

text \<open>Taking the three known fields out of the top-level dictionary leaves \<^verbatim>\<open>extra\<close>.\<close>

lemma top_dict_strip:
  assumes "torrent_ok t"
  shows "bt_remove ''announce-list'' (bt_remove ''announce'' (bt_remove ''info'' (top_dict t))) = extra t"
proof (rule bt_ok_map_of_eq_imp)
  show "bt_ok (bt_remove ''announce-list'' (bt_remove ''announce'' (bt_remove ''info'' (top_dict t))))"
    and "bt_ok (extra t)"
    using assms by (auto simp: torrent_ok_def bt_ok_top_dict)
qed (use assms in \<open>auto simp: torrent_ok_def map_of_top_dict fun_eq_iff\<close>)

lemma read_top_dict:
  assumes "torrent_ok t" "decode b = Inr (BDict (top_dict t))"
  shows "read_from_bytes b = Inr t"
proof -
  have "utf8_valid a" if "announce t = Some a" for a
    using that assms(1) by (simp add: torrent_ok_def)
  moreover have "parse_announce_list (tiers_value l) = Inr l" if "announce_list t = Some l" for l
    using that assms(1) by (simp add: torrent_ok_def parse_tiers_value)
  moreover have "map_of (extra t) ''announce'' = None" "map_of (extra t) ''announce-list'' = None"
    using assms(1) by (simp_all add: torrent_ok_def)
  ultimately show ?thesis
    using assms(2) by (cases "announce t"; cases "announce_list t")
      (simp_all add: read_from_bytes_def map_of_top_dict top_dict_strip [OF assms(1)] as_str_def as_bytes_def)
qed

lemma read_torrent_encode:
  assumes "torrent_ok t" "length (torrent_encode t) \<le> usize_max"
  shows "read_from_bytes (torrent_encode t) = Inr t"
  using assms bencode.dec_enc [of "BDict (top_dict t)"] top_dict_ok [OF assms(1)]
  by (intro read_top_dict) (auto simp: torrent_encode_top_dict simp del: encode.simps)

interpretation metainfo: codec torrent_encode "\<lambda>b. ok (read_from_bytes b)"
  "\<lambda>t. torrent_ok t \<and> length (torrent_encode t) \<le> usize_max"
  by unfold_locales (simp add: read_torrent_encode)

text \<open>Whatever is read is well-formed, and its canonical bytes are those of the decoded value.\<close>

lemma read_from_bytes_Inr:
  assumes "read_from_bytes b = Inr t" "length b \<le> usize_max"
  shows "torrent_ok t \<and> decode b = Inr (BDict (top_dict t))"
proof -
  from assms(1) obtain top where top: "decode b = Inr (BDict top)" "map_of top ''info'' = Some (BDict (info t))"
    and ann: "case map_of top ''announce'' of None \<Rightarrow> announce t = None
              | Some v \<Rightarrow> \<exists>s. announce t = Some s \<and> as_str v = Some s"
    and tiers: "case map_of top ''announce-list'' of None \<Rightarrow> announce_list t = None
                | Some v \<Rightarrow> \<exists>l. announce_list t = Some l \<and> parse_announce_list v = Inr l"
    and ex: "extra t = bt_remove ''announce-list'' (bt_remove ''announce'' (bt_remove ''info'' top))"
    by (auto simp: read_from_bytes_def Let_def split: sum.splits bvalue.splits option.splits)
  have dec: "bv_ok (BDict top)" "nesting (BDict top) \<le> MAX_DEPTH"
    using bgram_ok(1) [of 0 b "BDict top"] top(1) assms(2) by (simp_all add: decode_eq_grammar)
  have sub: "set (extra t) \<subseteq> set top" by (auto simp: ex bt_remove_def)
  have "bv_ok (BDict (extra t))" using dec(1) sub by (auto simp: ex list_all_iff)
  moreover have "nesting (BDict (extra t)) \<le> MAX_DEPTH"
    using dec(2) sub unfolding nesting_dict_le by blast
  moreover have "bv_ok v" "nesting v < MAX_DEPTH" if "(k, v) \<in> set top" for k v
    using dec that unfolding nesting_dict_le bv_ok.simps(4) by (fastforce simp: list_all_iff)+
  from this [OF map_of_SomeD [OF top(2)]]
  have "bv_ok (BDict (info t))" "nesting (BDict (info t)) < MAX_DEPTH" .
  ultimately have "torrent_ok t"
    using ann tiers by (auto simp: torrent_ok_def ex parse_announce_list_Inr split: option.splits)
  moreover have "top = top_dict t"
  proof (rule bt_ok_map_of_eq_imp)
    show "bt_ok top" "bt_ok (top_dict t)" using dec(1) by (auto simp: ex bt_ok_top_dict)
    show "map_of top = map_of (top_dict t)"
      using ann tiers top(2) by (auto simp: map_of_top_dict fun_eq_iff ex parse_announce_list_Inr split: option.splits)
  qed
  ultimately show ?thesis using top(1) by simp
qed

section \<open>Properties\<close>

text \<open>
  C3: A torrent survives being written and read: for every well-formed torrent the bytes of
  \<^verbatim>\<open>encode\<close> parse back to that torrent, announce tiers, info dictionary and extra fields alike.
\<close>

theorem torrent_roundtrip:
  assumes "torrent_ok t" "length (torrent_encode t) \<le> usize_max"
  shows "read_from_bytes (torrent_encode t) = Inr t"
  using metainfo.dec_enc [of t] assms by simp

text \<open>Witness of C3 on a torrent with an announce URL, a tier list and a comment.\<close>

theorem torrent_roundtrip_witness:
  "read_from_bytes (torrent_encode \<lparr>announce = Some ''http://a/x'', announce_list = Some [[''http://a/x'']],
       info = [(''length'', BInt 3), (''name'', BBytes ''f'')], extra = [(''comment'', BBytes ''c'')]\<rparr>) =
     Inr \<lparr>announce = Some ''http://a/x'', announce_list = Some [[''http://a/x'']],
       info = [(''length'', BInt 3), (''name'', BBytes ''f'')], extra = [(''comment'', BBytes ''c'')]\<rparr>"
  by (rule torrent_roundtrip; code_simp)

text \<open>
  C4: Rewriting the announce fields of a parsed torrent never moves its identity: reading back
  the rewritten file gives the same info dictionary, so the same info hash under whatever SHA-1
  and hex are, the same v2 hash, the same other fields, and the announce fields asked for.
\<close>

theorem announce_rewrite_keeps_info_hash:
  assumes "read_from_bytes b = Inr t" "length b \<le> usize_max"
    and "utf8_valid a" "\<forall>tier \<in> set tiers. \<forall>u \<in> set tier. utf8_valid u"
    and "length (torrent_encode (t\<lparr>announce := Some a, announce_list := Some tiers\<rparr>)) \<le> usize_max"
  shows "\<exists>t'. read_from_bytes (torrent_encode (t\<lparr>announce := Some a, announce_list := Some tiers\<rparr>)) = Inr t' \<and>
    info_hash sha1 hex t' = info_hash sha1 hex t \<and> info_hash_v2 sha256 hex t' = info_hash_v2 sha256 hex t \<and>
    info t' = info t \<and> extra t' = extra t \<and> announce t' = Some a \<and> announce_list t' = Some tiers"
proof -
  let ?t = "t\<lparr>announce := Some a, announce_list := Some tiers\<rparr>"
  have "torrent_ok t" using read_from_bytes_Inr [OF assms(1,2)] by simp
  then have "torrent_ok ?t" using assms(3,4) by (simp add: torrent_ok_def)
  then have "read_from_bytes (torrent_encode ?t) = Inr ?t" using assms(5) by (rule read_torrent_encode)
  then show ?thesis by (simp add: info_hash_def info_hash_v2_def info_field_def)
qed

text \<open>Witness of C4 on the smallest torrent.\<close>

theorem announce_rewrite_keeps_info_hash_witness:
  "\<exists>t'. read_from_bytes (torrent_encode
      \<lparr>announce = Some ''u'', announce_list = Some [[''u'']], info = [], extra = []\<rparr>) = Inr t' \<and> info t' = []"
proof -
  let ?t = "\<lparr>announce = None, announce_list = None, info = [], extra = []\<rparr>"
  have "read_from_bytes ''d4:infodee'' = Inr ?t" by code_simp
  moreover have "length (torrent_encode (?t\<lparr>announce := Some ''u'', announce_list := Some [[''u'']]\<rparr>)) \<le> usize_max"
    by code_simp
  ultimately show ?thesis
    using announce_rewrite_keeps_info_hash [of "''d4:infodee''" ?t "''u''" "[[''u'']]" id id id] by auto
qed

text \<open>
  Parsing then encoding writes the canonical form of the file that was read: the bytes are
  those of the decoded bencode value, every field in place, and no longer than the input.
\<close>

lemma torrent_encode_canonical:
  assumes "read_from_bytes b = Inr t" "length b \<le> usize_max"
  shows "\<exists>v. decode b = Inr v \<and> torrent_encode t = encode v \<and> length (torrent_encode t) \<le> length b"
proof -
  have dec: "decode b = Inr (BDict (top_dict t))" using read_from_bytes_Inr [OF assms] by simp
  then have "length (encode (BDict (top_dict t))) \<le> length b"
    using assms(2) by (intro bgram_length(1)) (simp add: decode_eq_grammar)
  with dec show ?thesis unfolding torrent_encode_top_dict by blast
qed

text \<open>Keys out of order come back sorted.\<close>

lemma torrent_encode_canonical_witness:
  "\<exists>v. decode ''d4:infode1:a1:be'' = Inr v \<and>
     torrent_encode \<lparr>announce = None, announce_list = None, info = [], extra = [(''a'', BBytes ''b'')]\<rparr> = encode v"
proof -
  have "read_from_bytes ''d4:infode1:a1:be'' =
      Inr \<lparr>announce = None, announce_list = None, info = [], extra = [(''a'', BBytes ''b'')]\<rparr>" by code_simp
  from torrent_encode_canonical [OF this] show ?thesis by auto
qed

end
