(* ===== verification/Announce_Url.thy ===== *)
theory Announce_Url
  imports Endpoint Rust_Path
begin

text \<open>
  \<^verbatim>\<open>sharerr-torrent/src/tracker.rs\<close> and \<^verbatim>\<open>error.rs\<close>: the announce URLs a torrent carries and the
  provider that decides them. \<^verbatim>\<open>Url::parse\<close> and \<^verbatim>\<open>Url::path_segments\<close> are parameters.
\<close>

datatype ('p, 'io, 'm) torrent_error =
    Unreadable rpath 'io
  | NotAFile rpath
  | NoFileName rpath
  | Build rpath 'io
  | Reparse 'm
  | NoAdvertisedHost
  | AnnounceUrl string 'p

section \<open>Announce sets\<close>

text \<open>The tiers are never empty: the only constructors are \<^verbatim>\<open>single\<close> and \<^verbatim>\<open>from_tiers\<close>.\<close>

record announce_set =
  tiers :: "url list"

definition as_single :: "url \<Rightarrow> announce_set" where
  "as_single p = \<lparr>tiers = [p]\<rparr>"

definition from_tiers :: "url list \<Rightarrow> announce_set option" where
  "from_tiers ts = (if ts \<noteq> [] then Some \<lparr>tiers = ts\<rparr> else None)"

definition primary :: "announce_set \<Rightarrow> url" where
  "primary s = tiers s ! 0"

definition tier_list :: "announce_set \<Rightarrow> string list list option" where
  "tier_list s = (if length (tiers s) \<le> 1 then None else Some (map (\<lambda>u. [u]) (tiers s)))"

definition announce_set_ok :: "announce_set \<Rightarrow> bool" where
  "announce_set_ok s \<longleftrightarrow> tiers s \<noteq> []"

section \<open>Announce URLs\<close>

abbreviation (input) ANNOUNCE_PATH :: string where "ANNOUNCE_PATH \<equiv> ''/announce''"
abbreviation (input) SCRAPE_PATH :: string where "SCRAPE_PATH \<equiv> ''/scrape''"

definition announce_raw :: "url \<Rightarrow> string option \<Rightarrow> string" where
  "announce_raw b token =
     (case token of
        Some t \<Rightarrow> join_path b ANNOUNCE_PATH @ ''/'' @ t
      | None \<Rightarrow> join_path b ANNOUNCE_PATH)"

definition announce_url ::
    "(string \<Rightarrow> ('p, url) result) \<Rightarrow> url \<Rightarrow> string option \<Rightarrow> (('p, 'io, 'm) torrent_error, url) result" where
  "announce_url url_parse b token =
     (case url_parse (announce_raw b token) of
        Inl source \<Rightarrow> Inl (AnnounceUrl b source)
      | Inr u \<Rightarrow> Inr u)"

definition announce_set_for ::
    "(string \<Rightarrow> ('p, url) result) \<Rightarrow> advertised_endpoint \<Rightarrow> string option \<Rightarrow>
       (('p, 'io, 'm) torrent_error, announce_set) result" where
  "announce_set_for url_parse e token =
     and_then (collect_result (\<lambda>b. announce_url url_parse b token) (recent e))
       (\<lambda>ts. ok_or (from_tiers ts) NoAdvertisedHost)"

fun token_after_announce :: "string list \<Rightarrow> string option" where
  "token_after_announce [] = None"
| "token_after_announce (segment # segments) =
     (if segment = ''announce'' then (case segments of [] \<Rightarrow> None | t # _ \<Rightarrow> Some t)
      else token_after_announce segments)"

definition token_from_announce_url :: "(url \<Rightarrow> string list option) \<Rightarrow> url \<Rightarrow> string option" where
  "token_from_announce_url path_segments u = Option.bind (path_segments u) token_after_announce"

section \<open>The builtin tracker\<close>

record builtin_tracker =
  endpoint_of :: advertised_endpoint
  token_of :: "string option"

definition builtin_tracker_new :: "advertised_endpoint \<Rightarrow> string option \<Rightarrow> builtin_tracker" where
  "builtin_tracker_new e token = \<lparr>endpoint_of = e, token_of = token\<rparr>"

definition ensure_ready :: "builtin_tracker \<Rightarrow> (('p, 'io, 'm) torrent_error, unit) result" where
  "ensure_ready t = (case current (endpoint_of t) of None \<Rightarrow> Inl NoAdvertisedHost | Some _ \<Rightarrow> Inr ())"

definition tracker_announce_set ::
    "(string \<Rightarrow> ('p, url) result) \<Rightarrow> builtin_tracker \<Rightarrow> (('p, 'io, 'm) torrent_error, announce_set) result" where
  "tracker_announce_set url_parse t = announce_set_for url_parse (endpoint_of t) (token_of t)"

lemma announce_url_Inr:
  "announce_url url_parse b token = Inr u \<longleftrightarrow> url_parse (announce_raw b token) = Inr u"
  by (simp add: announce_url_def split: sum.split)

lemma from_tiers_ok: "from_tiers ts = Some s \<Longrightarrow> announce_set_ok s"
  by (auto simp: from_tiers_def announce_set_ok_def split: if_splits)

lemma single_ok: "announce_set_ok (as_single p)"
  by (simp add: as_single_def announce_set_ok_def)

lemma token_after_announce_append:
  "''announce'' \<notin> set pre \<Longrightarrow> token_after_announce (pre @ ''announce'' # rest) =
     (case rest of [] \<Rightarrow> None | t # _ \<Rightarrow> Some t)"
  by (induction pre) auto

section \<open>Properties\<close>

text \<open>
  The announce set of a torrent follows the live endpoint: it is refused as \<^verbatim>\<open>NoAdvertisedHost\<close>
  exactly when no base is known, and otherwise (every URL being parseable) has one tier per recent
  base in order, at most five of them, and its primary is the URL built from the current base.
\<close>

lemma announce_set_follows_endpoint:
  assumes "endpoint_inv e" "\<forall>b \<in> set (recent e). url_parse (announce_raw b token) = Inr (announce_raw b token)"
  shows "announce_set_for url_parse e token =
    (case current e of
       None \<Rightarrow> Inl (NoAdvertisedHost :: ('p, 'io, 'm) torrent_error)
     | Some b \<Rightarrow> Inr \<lparr>tiers = map (\<lambda>b. announce_raw b token) (recent e)\<rparr>) \<and>
    (\<forall>b. current e = Some b \<longrightarrow>
       primary \<lparr>tiers = map (\<lambda>b. announce_raw b token) (recent e)\<rparr> = announce_raw b token \<and>
       length (recent e) \<le> 5 \<and> announce_set_ok \<lparr>tiers = map (\<lambda>b. announce_raw b token) (recent e)\<rparr>)"
proof -
  have "collect_result (\<lambda>b. announce_url url_parse b token) (recent e) =
      Inr (map (\<lambda>b. announce_raw b token) (recent e))"
    using assms(2) by (auto simp: collect_result_Inr_iff announce_url_Inr list_all2_conv_all_nth)
  then show ?thesis
    using recent_length [OF assms(1)] recent_head [of e]
    by (cases "recent e") (auto simp: announce_set_for_def from_tiers_def primary_def announce_set_ok_def)
qed

text \<open>Example: one observed base, one static base, and a URL parser that accepts them.\<close>

lemma announce_set_follows_endpoint_witness:
  "announce_set_for Inr \<lparr>static_base = Some ''http://s/'', dynamic = [\<lparr>base = ''http://d/'', observed_at = 1\<rparr>]\<rparr> (Some ''tok'')
     = (Inr \<lparr>tiers = [''http://d/announce/tok'', ''http://s/announce/tok'']\<rparr> :: ((nat, nat, nat) torrent_error, announce_set) result)"
  using announce_set_follows_endpoint [where 'io = nat and 'm = nat, of "\<lparr>static_base = Some ''http://s/'', dynamic = [\<lparr>base = ''http://d/'', observed_at = 1\<rparr>]\<rparr>"
      "Inr :: string \<Rightarrow> (nat, url) result" "Some ''tok''"]
  by (simp add: endpoint_inv_def current_def recent_def announce_raw_def join_path_def base_string_def trim_end_matches_def)

lemma base_string_path:
  assumes "origin \<noteq> []" "last origin \<noteq> CHR ''/''" "path = [] \<or> last path \<noteq> CHR ''/''"
  shows "base_string (origin @ ''/'' @ path) = (if path = [] then origin else origin @ ''/'' @ path)"
proof (cases "path = []")
  case True
  from assms(1,2) show ?thesis
    by (cases origin rule: rev_cases) (auto simp: True base_string_def trim_end_matches_def)
next
  case False
  with assms(3) show ?thesis
    by (cases path rule: rev_cases) (auto simp: base_string_def trim_end_matches_def)
qed

text \<open>
  The token is recovered from the announce URL built with it, whatever path prefix the
  base carries, as long as no segment of that prefix is itself called \<^verbatim>\<open>announce\<close>. The hypotheses on the
  URL crate: the URL parses to itself, and its path segments are its path split at slashes.
\<close>

lemma announce_token_recovered:
  assumes "\<And>p. path_segments (origin @ ''/'' @ p) = Some (split_on CHR ''/'' p)"
    and "\<And>p. url_parse (origin @ ''/'' @ p) = Inr (origin @ ''/'' @ p)"
    and "origin \<noteq> []" "last origin \<noteq> CHR ''/''" "path = [] \<or> last path \<noteq> CHR ''/''"
    and "CHR ''/'' \<notin> set token" "''announce'' \<notin> set (split_on CHR ''/'' path)"
  shows "\<exists>u. announce_url url_parse (origin @ ''/'' @ path) (Some token) = (Inr u :: (('p, 'io, 'm) torrent_error, url) result) \<and>
    token_from_announce_url path_segments u = Some token"
proof -
  let ?tail = "''announce/'' @ token"
  have split: "split_on CHR ''/'' ?tail = [''announce'', token]"
    using split_on_append [of "CHR ''/''" "''announce''" token] split_on_single [OF assms(6)] by simp
  let ?p = "if path = [] then ?tail else path @ ''/'' @ ?tail"
  have raw: "announce_raw (origin @ ''/'' @ path) (Some token) = origin @ ''/'' @ ?p"
    using base_string_path [OF assms(3-5)] by (simp add: announce_raw_def join_path_def)
  have "token_after_announce (split_on CHR ''/'' ?p) = Some token"
    using split assms(7) token_after_announce_append [of "split_on CHR ''/'' path" "[token]"]
      split_on_append [of "CHR ''/''" path ?tail] by simp
  then show ?thesis
    unfolding announce_url_Inr raw assms(2) using assms(1) [of ?p]
    by (simp add: token_from_announce_url_def)
qed

text \<open>Example: a base with a reverse-proxy prefix, the URL crate played by functions on this origin.\<close>

lemma announce_token_recovered_witness:
  "\<exists>u. announce_url Inr ''http://h/sharerr'' (Some ''tok'') = (Inr u :: ((nat, nat, nat) torrent_error, url) result) \<and>
     token_from_announce_url (\<lambda>u. Some (split_on CHR ''/'' (drop 9 u))) u = Some ''tok''"
  using announce_token_recovered [where 'io = nat and 'm = nat, of "\<lambda>u. Some (split_on CHR ''/'' (drop 9 u))" "''http://h''"
      "Inr :: string \<Rightarrow> (nat, url) result" "''sharerr''" "''tok''"]
  by simp

end
