(* ===== verification/Factory.thy ===== *)
theory Factory
  imports Metainfo Announce_Url Media_Model
begin

text \<open>
  \<^verbatim>\<open>sharerr-torrent/src/factory.rs\<close>: building a torrent over a file where it sits, verifying one, and rewriting where it
  announces. The file system is a parameter: metadata, and an open file as the stream of what its
  successive reads return, in whatever portions the system chooses. SHA-1, SHA-256 and hex are
  parameters.
\<close>

section \<open>Reading\<close>

type_synonym 'io stream = "('io, bytes) result list"

record 'io fs =
  fs_metadata :: "rpath \<Rightarrow> ('io, bool \<times> nat) result"
  fs_open :: "rpath \<Rightarrow> ('io, 'io stream) result"

text \<open>One \<^verbatim>\<open>read\<close> into a buffer of \<open>n\<close> bytes.\<close>

fun sread :: "nat \<Rightarrow> 'io stream \<Rightarrow> ('io, bytes \<times> 'io stream) result" where
  "sread n [] = Inr ([], [])"
| "sread n (Inl e # s) = Inl e"
| "sread n (Inr c # s) = Inr (take n c, if length c \<le> n then s else Inr (drop n c) # s)"

function fill :: "nat \<Rightarrow> bytes \<Rightarrow> 'io stream \<Rightarrow> ('io, bytes \<times> 'io stream) result" where
  "fill chunk filled s =
     (if length filled < chunk then
        (case sread (chunk - length filled) s of
           Inl e \<Rightarrow> Inl e
         | Inr (b, s') \<Rightarrow> if b = [] then Inr (filled, s') else fill chunk (filled @ b) s')
      else Inr (filled, s))"
  by pat_completeness auto

termination fill
  by (relation "measure (\<lambda>(chunk, filled, s). chunk - length filled)") (auto simp: diff_less_mono2)

declare fill.simps [simp del]

definition stream_size :: "'io stream \<Rightarrow> nat" where
  "stream_size s = sum_list (map (\<lambda>r. case r of Inl _ \<Rightarrow> 0 | Inr c \<Rightarrow> length c) s)"

lemma sread_size: "sread n s = Inr (b, s') \<Longrightarrow> length b + stream_size s' = stream_size s"
  by (induction n s rule: sread.induct) (auto simp: stream_size_def)

lemma fill_size: "fill chunk filled s = Inr (b, s') \<Longrightarrow> length b + stream_size s' = length filled + stream_size s"
proof (induction chunk filled s arbitrary: b s' rule: fill.induct)
  case (1 chunk filled s)
  show ?case
  proof (cases "length filled < chunk")
    case True
    then obtain c t where c: "sread (chunk - length filled) s = Inr (c, t)"
      using "1.prems" by (auto simp: fill.simps [of chunk filled s] split: sum.splits)
    then show ?thesis
      using 1 True sread_size [OF c] by (auto simp: fill.simps [of chunk filled s] split: if_splits)
  next
    case False
    then show ?thesis using "1.prems" by (simp add: fill.simps [of chunk filled s])
  qed
qed

text \<open>The loop over pieces; the callback answers its new state and whether to go on.\<close>

function piece_loop :: "nat \<Rightarrow> ('a \<Rightarrow> bytes \<Rightarrow> 'a \<times> bool) \<Rightarrow> 'a \<Rightarrow> 'io stream \<Rightarrow> ('io, 'a) result" where
  "piece_loop chunk on_piece acc s =
     (case fill chunk [] s of
        Inl e \<Rightarrow> Inl e
      | Inr (buf, s') \<Rightarrow>
          if buf = [] then Inr acc
          else (case on_piece acc buf of (acc', continue) \<Rightarrow>
                  if \<not> continue \<or> length buf < chunk then Inr acc'
                  else piece_loop chunk on_piece acc' s'))"
  by pat_completeness auto

termination piece_loop
  by (relation "measure (\<lambda>(chunk, on_piece, acc, s). stream_size s)") (auto dest!: fill_size simp flip: length_greater_0_conv)

declare piece_loop.simps [simp del]

fun open_chain :: "'io fs \<Rightarrow> 'io stream \<Rightarrow> rpath list \<Rightarrow> (('p, 'io, metainfo_error) torrent_error, 'io stream) result" where
  "open_chain fs s [] = Inr s"
| "open_chain fs s (other # others) =
     (case fs_open fs other of
        Inl e \<Rightarrow> Inl (Build other e)
      | Inr s' \<Rightarrow> open_chain fs (s @ s') others)"

type_synonym ('p, 'io) terror = "('p, 'io, metainfo_error) torrent_error"

definition for_each_piece ::
    "'io fs \<Rightarrow> rpath \<Rightarrow> rpath list \<Rightarrow> nat \<Rightarrow> ('a \<Rightarrow> bytes \<Rightarrow> 'a \<times> bool) \<Rightarrow> 'a \<Rightarrow> (('p, 'io) terror, 'a) result" where
  "for_each_piece fs path others piece_len on_piece acc =
     (case fs_open fs path of
        Inl e \<Rightarrow> Inl (Build path e)
      | Inr s0 \<Rightarrow>
          and_then (open_chain fs s0 others) (\<lambda>s.
            case piece_loop piece_len on_piece acc s of Inl e \<Rightarrow> Inl (Build path e) | Inr a \<Rightarrow> Inr a))"

section \<open>Hashing\<close>

definition hash_pieces ::
    "(bytes \<Rightarrow> bytes) \<Rightarrow> 'io fs \<Rightarrow> rpath \<Rightarrow> rpath list \<Rightarrow> nat \<Rightarrow> (('p, 'io) terror, bytes) result" where
  "hash_pieces sha1 fs path others piece_len =
     for_each_piece fs path others piece_len (\<lambda>acc piece. (acc @ sha1 piece, True)) []"

text \<open>\<^verbatim>\<open>slice::chunks\<close>.\<close>

function chunks :: "nat \<Rightarrow> 'a list \<Rightarrow> 'a list list" where
  "chunks n xs = (if xs = [] \<or> n = 0 then [] else take n xs # chunks n (drop n xs))"
  by pat_completeness auto

termination chunks
  by (relation "measure (\<lambda>(n, xs). length xs)") auto

declare chunks.simps [simp del]

abbreviation (input) V2_BLOCK :: nat where "V2_BLOCK \<equiv> 16 * 1024"

abbreviation (input) zero_hash :: bytes where "zero_hash \<equiv> replicate 32 (CHR 0x00)"

fun hash_pairs :: "(bytes \<Rightarrow> bytes) \<Rightarrow> bytes list \<Rightarrow> bytes list" where
  "hash_pairs sha256 [] = []"
| "hash_pairs sha256 [a] = [sha256 (a @ a)]"
| "hash_pairs sha256 (a # b # layer) = sha256 (a @ b) # hash_pairs sha256 layer"

lemma length_hash_pairs: "length (hash_pairs sha256 layer) = (length layer + 1) div 2"
  by (induction sha256 layer rule: hash_pairs.induct) auto

function merkle_reduce :: "(bytes \<Rightarrow> bytes) \<Rightarrow> bytes list \<Rightarrow> bytes" where
  "merkle_reduce sha256 layer =
     (if length layer > 1 then merkle_reduce sha256 (hash_pairs sha256 layer) else layer ! 0)"
  by pat_completeness auto

termination merkle_reduce
  by (relation "measure (\<lambda>(sha256, layer). length layer)") (auto simp: length_hash_pairs)

declare merkle_reduce.simps [simp del]

definition merkle_root :: "(bytes \<Rightarrow> bytes) \<Rightarrow> bytes list \<Rightarrow> nat \<Rightarrow> bytes \<Rightarrow> bytes" where
  "merkle_root sha256 leaves width pad =
     (let w = max width 1 in merkle_reduce sha256 (take w leaves @ replicate (w - length leaves) pad))"

text \<open>\<^verbatim>\<open>usize::next_power_of_two\<close>: the smallest power of two that is not less.\<close>

function pow2_from :: "nat \<Rightarrow> nat \<Rightarrow> nat" where
  "pow2_from p n = (if n \<le> p \<or> p = 0 then p else pow2_from (2 * p) n)"
  by pat_completeness auto

termination pow2_from
  by (relation "measure (\<lambda>(p, n). n - p)") auto

declare pow2_from.simps [simp del]

definition next_power_of_two :: "nat \<Rightarrow> nat" where
  "next_power_of_two n = pow2_from 1 n"

record v2_hashes =
  v2_root :: "bytes option"
  v2_layer :: "bytes option"

record hybrid_acc =
  ha_pieces :: bytes
  ha_piece_hashes :: "bytes list"
  ha_first_leaves :: "bytes list"

definition hybrid_piece :: "(bytes \<Rightarrow> bytes) \<Rightarrow> (bytes \<Rightarrow> bytes) \<Rightarrow> nat \<Rightarrow> hybrid_acc \<Rightarrow> bytes \<Rightarrow> hybrid_acc \<times> bool" where
  "hybrid_piece sha1 sha256 blocks_per_piece a piece =
     (let leaves = map sha256 (chunks V2_BLOCK piece) in
      (\<lparr>ha_pieces = ha_pieces a @ sha1 piece,
        ha_piece_hashes = ha_piece_hashes a @ [merkle_root sha256 leaves blocks_per_piece zero_hash],
        ha_first_leaves = (if ha_piece_hashes a = [] then leaves else ha_first_leaves a)\<rparr>, True))"

definition v2_of :: "(bytes \<Rightarrow> bytes) \<Rightarrow> nat \<Rightarrow> hybrid_acc \<Rightarrow> v2_hashes" where
  "v2_of sha256 blocks_per_piece a =
     (case ha_piece_hashes a of
        [] \<Rightarrow> \<lparr>v2_root = None, v2_layer = None\<rparr>
      | [_] \<Rightarrow> \<lparr>v2_root = Some (merkle_root sha256 (ha_first_leaves a)
                  (next_power_of_two (length (ha_first_leaves a))) zero_hash), v2_layer = None\<rparr>
      | hs \<Rightarrow>
          (let zero_piece = merkle_root sha256 [] blocks_per_piece zero_hash in
           \<lparr>v2_root = Some (merkle_root sha256 hs (next_power_of_two (length hs)) zero_piece),
            v2_layer = Some (concat hs)\<rparr>))"

definition blocks_per_piece_of :: "nat \<Rightarrow> nat" where
  "blocks_per_piece_of piece_len =
     max (if piece_len div V2_BLOCK \<le> usize_max then piece_len div V2_BLOCK else 1) 1"

definition hash_pieces_hybrid ::
    "(bytes \<Rightarrow> bytes) \<Rightarrow> (bytes \<Rightarrow> bytes) \<Rightarrow> 'io fs \<Rightarrow> rpath \<Rightarrow> nat \<Rightarrow> (('p, 'io) terror, bytes \<times> v2_hashes) result" where
  "hash_pieces_hybrid sha1 sha256 fs path piece_len =
     (let blocks_per_piece = blocks_per_piece_of piece_len in
      and_then (for_each_piece fs path [] piece_len (hybrid_piece sha1 sha256 blocks_per_piece)
                 \<lparr>ha_pieces = [], ha_piece_hashes = [], ha_first_leaves = []\<rparr>)
        (\<lambda>a. Inr (ha_pieces a, v2_of sha256 blocks_per_piece a)))"

section \<open>Building\<close>

record torrent_request =
  tq_path :: rpath
  tq_announce :: announce_set
  tq_media :: "media_meta option"
  tq_private :: bool
  tq_hybrid :: bool

record sidecar_request =
  sq_path :: rpath
  sq_sidecars :: "string list"
  sq_root_name :: string
  sq_announce :: announce_set
  sq_media :: "media_meta option"
  sq_private :: bool

record built_torrent =
  bt_info_hash :: string
  bt_info_hash_v2 :: "string option"
  bt_data :: bytes
  bt_size :: nat

definition source_file :: "'io fs \<Rightarrow> rpath \<Rightarrow> (('p, 'io) terror, nat \<times> string) result" where
  "source_file fs path =
     (case fs_metadata fs path of
        Inl e \<Rightarrow> Inl (Unreadable path e)
      | Inr (is_file, len) \<Rightarrow>
          if \<not> is_file then Inl (NotAFile path)
          else (case Option.bind (file_name path) (\<lambda>n. if utf8_valid n then Some n else None) of
                  None \<Rightarrow> Inl (NoFileName path)
                | Some name \<Rightarrow> Inr (len, name)))"

definition int_of :: "nat \<Rightarrow> bvalue" where
  "int_of value = BInt (case i64_try_from value of None \<Rightarrow> i64_max | Some n \<Rightarrow> n)"

definition base_info :: "string \<Rightarrow> nat \<Rightarrow> bytes \<Rightarrow> bool \<Rightarrow> bdict" where
  "base_info name piece_len pcs private =
     (let i0 = bt_insert ''name'' (BBytes name) [];
          i1 = bt_insert ''piece length'' (int_of piece_len) i0;
          i2 = bt_insert ''pieces'' (BBytes pcs) i1
      in if private then bt_insert ''private'' (BInt 1) i2 else i2)"

text \<open>The one-line description written as the comment.\<close>

definition describe :: "(nat \<Rightarrow> string) \<Rightarrow> media_meta \<Rightarrow> string option" where
  "describe fmt_thousandth m =
     (let bit_depth = map_option (\<lambda>bits. bits @ ''-bit'') (audio_bit_depth m);
          sample_rate = sample_rate_khz fmt_thousandth m;
          parts = List.map_filter id [resolution m, video_codec m, dynamic_range m, audio_codec m, audio_channels m,
                    bit_depth, sample_rate, runtime m]
      in if parts \<noteq> [] then Some (join '' '' parts) else None)"

definition finish ::
    "(bytes \<Rightarrow> bytes) \<Rightarrow> (bytes \<Rightarrow> bytes) \<Rightarrow> (bytes \<Rightarrow> string) \<Rightarrow> (nat \<Rightarrow> string) \<Rightarrow> bdict \<Rightarrow> bdict \<Rightarrow> announce_set \<Rightarrow>
       media_meta option \<Rightarrow> nat \<Rightarrow> built_torrent" where
  "finish sha1 sha256 hex fmt idict ex ann media sz =
     (let ex' = (case Option.bind media (describe fmt) of None \<Rightarrow> ex | Some c \<Rightarrow> bt_insert ''comment'' (BBytes c) ex);
          t = \<lparr>announce = Some (primary ann), announce_list = tier_list ann, info = idict, extra = ex'\<rparr>
      in \<lparr>bt_info_hash = info_hash sha1 hex t, bt_info_hash_v2 = info_hash_v2 sha256 hex t,
          bt_data = torrent_encode t, bt_size = sz\<rparr>)"

definition v2_write_into :: "v2_hashes \<Rightarrow> string \<Rightarrow> nat \<Rightarrow> bdict \<Rightarrow> bdict \<Rightarrow> bdict \<times> bdict" where
  "v2_write_into v2 name sz idict ex =
     (let f0 = bt_insert ''length'' (int_of sz) [];
          f1 = (case v2_root v2 of None \<Rightarrow> f0 | Some root \<Rightarrow> bt_insert ''pieces root'' (BBytes root) f0);
          entry = bt_insert [] (BDict f1) [];
          tree = bt_insert name (BDict entry) [];
          idict' = bt_insert ''file tree'' (BDict tree) (bt_insert ''meta version'' (BInt 2) idict);
          layers = (case (v2_root v2, v2_layer v2) of
                      (Some root, Some layer) \<Rightarrow> bt_insert root (BBytes layer) []
                    | _ \<Rightarrow> [])
      in (idict', bt_insert ''piece layers'' (BDict layers) ex))"

definition piece_length_for :: "nat \<Rightarrow> nat" where
  "piece_length_for sz =
     (let KIB = 1024; MIB = 1024 * KIB in
      if sz \<le> 512 * MIB then 256 * KIB
      else if sz \<le> 1024 * MIB then 512 * KIB
      else if sz \<le> 2048 * MIB then MIB
      else if sz \<le> 4096 * MIB then 2 * MIB
      else if sz \<le> 8192 * MIB then 4 * MIB
      else if sz \<le> 16384 * MIB then 8 * MIB
      else 16 * MIB)"

definition create ::
    "(bytes \<Rightarrow> bytes) \<Rightarrow> (bytes \<Rightarrow> bytes) \<Rightarrow> (bytes \<Rightarrow> string) \<Rightarrow> (nat \<Rightarrow> string) \<Rightarrow> 'io fs \<Rightarrow> torrent_request \<Rightarrow>
       (('p, 'io) terror, built_torrent) result" where
  "create sha1 sha256 hex fmt fs q =
     and_then (source_file fs (tq_path q)) (\<lambda>(sz, name).
       (let piece_len = piece_length_for sz in
        and_then (if tq_hybrid q
                  then and_then (hash_pieces_hybrid sha1 sha256 fs (tq_path q) piece_len) (\<lambda>(pcs, v2). Inr (pcs, Some v2))
                  else and_then (hash_pieces sha1 fs (tq_path q) [] piece_len) (\<lambda>pcs. Inr (pcs, None)))
          (\<lambda>(pcs, v2).
             (let idict0 = bt_insert ''length'' (int_of sz) (base_info name piece_len pcs (tq_private q));
                  (idict, ex) = (case v2 of None \<Rightarrow> (idict0, []) | Some h \<Rightarrow> v2_write_into h name sz idict0 [])
              in Inr (finish sha1 sha256 hex fmt idict ex (tq_announce q) (tq_media q) sz)))))"

definition file_entry :: "string \<Rightarrow> nat \<Rightarrow> bvalue" where
  "file_entry name len = BDict (bt_insert ''path'' (BList [BBytes name]) (bt_insert ''length'' (int_of len) []))"

fun sidecar_entries :: "'io fs \<Rightarrow> (string \<times> rpath) list \<Rightarrow> nat \<Rightarrow> bvalue list \<Rightarrow> (('p, 'io) terror, nat \<times> bvalue list) result" where
  "sidecar_entries fs [] sz files = Inr (sz, files)"
| "sidecar_entries fs ((name, other) # rest) sz files =
     (case fs_metadata fs other of
        Inl e \<Rightarrow> Inl (Unreadable other e)
      | Inr (_, len) \<Rightarrow> sidecar_entries fs rest (saturating_add_u64 sz len) (files @ [file_entry name len]))"

definition create_with_sidecars ::
    "(bytes \<Rightarrow> bytes) \<Rightarrow> (bytes \<Rightarrow> bytes) \<Rightarrow> (bytes \<Rightarrow> string) \<Rightarrow> (nat \<Rightarrow> string) \<Rightarrow> 'io fs \<Rightarrow> sidecar_request \<Rightarrow>
       (('p, 'io) terror, built_torrent) result" where
  "create_with_sidecars sha1 sha256 hex fmt fs q =
     and_then (source_file fs (sq_path q)) (\<lambda>(sz0, name).
       (let dir = (case path_parent (sq_path q) of None \<Rightarrow> [] | Some d \<Rightarrow> d);
            others = map (\<lambda>n. path_join dir (path_components n)) (sq_sidecars q)
        in and_then (sidecar_entries fs (zip (sq_sidecars q) others) sz0 [file_entry name sz0]) (\<lambda>(sz, files).
             (let piece_len = piece_length_for sz in
              and_then (hash_pieces sha1 fs (sq_path q) others piece_len) (\<lambda>pcs.
                Inr (finish sha1 sha256 hex fmt
                       (bt_insert ''files'' (BList files) (base_info (sq_root_name q) piece_len pcs (sq_private q)))
                       [] (sq_announce q) (sq_media q) sz))))))"

section \<open>Verifying\<close>

text \<open>State of the comparison: the expected hashes left, and whether the last one matched.\<close>

definition verify_piece :: "(bytes \<Rightarrow> bytes) \<Rightarrow> bytes list \<times> bool \<Rightarrow> bytes \<Rightarrow> (bytes list \<times> bool) \<times> bool" where
  "verify_piece sha1 st piece =
     (case fst st of
        [] \<Rightarrow> (([], False), False)
      | h # expected \<Rightarrow> ((expected, h = sha1 piece), h = sha1 piece))"

definition div_ceil :: "nat \<Rightarrow> nat \<Rightarrow> nat" where
  "div_ceil a b = (a + b - 1) div b"

definition verify_single_file ::
    "(bytes \<Rightarrow> bytes) \<Rightarrow> 'io fs \<Rightarrow> rpath \<Rightarrow> torrent \<Rightarrow> (('p, 'io) terror, bool) result" where
  "verify_single_file sha1 fs path t =
     (case (piece_length t, pieces t) of
        (Some piece_len, Some expected) \<Rightarrow>
          if \<not> is_single_file t \<or> piece_len = 0 \<or> length expected mod 20 \<noteq> 0 then Inr False
          else (case fs_metadata fs path of
                  Inl e \<Rightarrow> Inl (Unreadable path e)
                | Inr (_, sz) \<Rightarrow>
                    if sz \<noteq> content_length t \<or> div_ceil sz piece_len \<noteq> length expected div 20 then Inr False
                    else and_then (for_each_piece fs path [] piece_len (verify_piece sha1) (chunks 20 expected, True))
                           (\<lambda>(rest, matched). Inr (matched \<and> rest = [])))
      | _ \<Rightarrow> Inr False)"

section \<open>Rewriting\<close>

definition torrent_file_name :: "string \<Rightarrow> string" where
  "torrent_file_name h = h @ ''.torrent''"

definition torrent_file_path :: "rpath \<Rightarrow> string \<Rightarrow> rpath" where
  "torrent_file_path dir h = path_join dir (path_components (torrent_file_name h))"

definition rewrite_announce :: "bytes \<Rightarrow> announce_set \<Rightarrow> (('p, 'io) terror, bytes) result" where
  "rewrite_announce data ann =
     (case read_from_bytes data of
        Inl e \<Rightarrow> Inl (Reparse e)
      | Inr t \<Rightarrow> Inr (torrent_encode (t\<lparr>announce := Some (primary ann), announce_list := tier_list ann\<rparr>)))"

datatype retargeted =
    Current torrent
  | Updated "string option" torrent bytes

definition retargeted_torrent :: "retargeted \<Rightarrow> torrent" where
  "retargeted_torrent r = (case r of Current t \<Rightarrow> t | Updated _ t _ \<Rightarrow> t)"

definition retarget_announce :: "bytes \<Rightarrow> announce_set \<Rightarrow> (('p, 'io) terror, retargeted) result" where
  "retarget_announce data ann =
     (case read_from_bytes data of
        Inl e \<Rightarrow> Inl (Reparse e)
      | Inr t \<Rightarrow>
          (let previous = announce t in
           if previous = Some (primary ann) then Inr (Current t)
           else (let t' = t\<lparr>announce := Some (primary ann), announce_list := tier_list ann\<rparr>
                 in Inr (Updated previous t' (torrent_encode t')))))"

section \<open>What the reading loop reads\<close>

text \<open>
  A stream without failures, its portions non-empty (a read that returns nothing is the end of
  the file). However the system cuts the content into portions, the loop hands out the
  content cut at the piece length.
\<close>

definition stream_ok :: "'io stream \<Rightarrow> bool" where
  "stream_ok s \<longleftrightarrow> (\<forall>r \<in> set s. \<exists>c. r = Inr c \<and> c \<noteq> [])"

definition content :: "'io stream \<Rightarrow> bytes" where
  "content s = concat (map (\<lambda>r. case r of Inl _ \<Rightarrow> [] | Inr c \<Rightarrow> c) s)"

lemma stream_ok_simps [simp]:
  "stream_ok []" "stream_ok (Inr c # s) \<longleftrightarrow> c \<noteq> [] \<and> stream_ok s" "\<not> stream_ok (Inl e # s)"
  "stream_ok (s @ s') \<longleftrightarrow> stream_ok s \<and> stream_ok s'"
  by (auto simp: stream_ok_def)

lemma content_simps [simp]: "content [] = []" "content (Inr c # s) = c @ content s" "content (s @ s') = content s @ content s'"
  by (simp_all add: content_def)

lemma stream_ok_cases: "stream_ok s \<Longrightarrow> s = [] \<or> (\<exists>c t. s = Inr c # t \<and> c \<noteq> [] \<and> stream_ok t)"
  by (cases s) (auto simp: stream_ok_def)

lemma content_empty: "stream_ok s \<Longrightarrow> content s = [] \<longleftrightarrow> s = []"
  using stream_ok_cases [of s] by auto

lemma fill_ok:
  "stream_ok s \<Longrightarrow> length filled \<le> chunk \<Longrightarrow>
     \<exists>s'. fill chunk filled s = Inr (filled @ take (chunk - length filled) (content s), s') \<and>
          stream_ok s' \<and> content s' = drop (chunk - length filled) (content s)"
proof (induction chunk filled s rule: fill.induct)
  case (1 chunk filled s)
  show ?case
  proof (cases "length filled < chunk \<and> s \<noteq> []")
    case True
    then obtain c t where s: "s = Inr c # t" "c \<noteq> []" "stream_ok t"
      using stream_ok_cases [OF "1.prems"(1)] by blast
    let ?k = "chunk - length filled"
    let ?t = "if length c \<le> ?k then t else Inr (drop ?k c) # t"
    have rd: "sread ?k s = Inr (take ?k c, ?t)" by (simp add: s)
    have ok: "stream_ok ?t" "content ?t = drop (length (take ?k c)) (content s)" using s by auto
    have ne: "take ?k c \<noteq> []" using True s(2) by simp
    have le: "length (filled @ take ?k c) \<le> chunk" using True by (auto simp: min_def)
    from "1.IH" [OF _ rd refl ne ok(1) le] True obtain s' where
      IH: "fill chunk (filled @ take ?k c) ?t =
          Inr ((filled @ take ?k c) @ take (chunk - length (filled @ take ?k c)) (content ?t), s')"
        "stream_ok s'" "content s' = drop (chunk - length (filled @ take ?k c)) (content ?t)" by blast
    have "fill chunk filled s = fill chunk (filled @ take ?k c) ?t"
      using True rd ne by (subst fill.simps) simp
    moreover have "take ?k (content s) = take ?k c @ take (chunk - length (filled @ take ?k c)) (content ?t)"
      using s by (cases "length c \<le> ?k") auto
    moreover have "drop ?k (content s) = drop (chunk - length (filled @ take ?k c)) (content ?t)"
      using s by (cases "length c \<le> ?k") auto
    ultimately show ?thesis using IH by simp
  next
    case False
    then show ?thesis using 1 by (subst fill.simps) auto
  qed
qed

text \<open>The callback folded over the pieces until it asks to stop.\<close>

fun fold_pieces :: "('a \<Rightarrow> bytes \<Rightarrow> 'a \<times> bool) \<Rightarrow> 'a \<Rightarrow> bytes list \<Rightarrow> 'a" where
  "fold_pieces f acc [] = acc"
| "fold_pieces f acc (p # ps) = (case f acc p of (acc', continue) \<Rightarrow> if continue then fold_pieces f acc' ps else acc')"

lemma piece_loop_ok:
  "stream_ok s \<Longrightarrow> 0 < chunk \<Longrightarrow> piece_loop chunk on_piece acc s = Inr (fold_pieces on_piece acc (chunks chunk (content s)))"
proof (induction chunk on_piece acc s rule: piece_loop.induct)
  case (1 chunk on_piece acc s)
  from fill_ok [OF "1.prems"(1), of "[]" chunk] obtain s' where
    fl: "fill chunk [] s = Inr (take chunk (content s), s')" "stream_ok s'" "content s' = drop chunk (content s)" by auto
  show ?case
  proof (cases "content s = []")
    case True
    then show ?thesis using fl by (simp add: piece_loop.simps [of chunk on_piece acc s] chunks.simps [of chunk "[]"])
  next
    case False
    then have ne: "take chunk (content s) \<noteq> []" using "1.prems"(2) by simp
    have cs: "chunks chunk (content s) = take chunk (content s) # chunks chunk (drop chunk (content s))"
      using False "1.prems"(2) by (simp add: chunks.simps [of chunk "content s"])
    obtain acc' cont where op: "on_piece acc (take chunk (content s)) = (acc', cont)" by fastforce
    have last: "drop chunk (content s) = []" if "length (take chunk (content s)) < chunk" using that by simp
    show ?thesis
    proof (cases "\<not> cont \<or> length (take chunk (content s)) < chunk")
      case True
      then show ?thesis
        using fl(1) ne op cs last by (subst piece_loop.simps) (auto simp: chunks.simps [of chunk "[]"])
    next
      case False
      then have "piece_loop chunk on_piece acc s = piece_loop chunk on_piece acc' s'"
        using fl(1) ne op by (subst piece_loop.simps) simp
      then show ?thesis
        using "1.IH" [OF fl(1) refl ne op [symmetric] False fl(2) "1.prems"(2)] fl(3) False op cs by simp
    qed
  qed
qed

text \<open>A file system in which a path names a readable regular file with the given content.\<close>

definition file_at :: "'io fs \<Rightarrow> rpath \<Rightarrow> bytes \<Rightarrow> bool" where
  "file_at fs p c \<longleftrightarrow> fs_metadata fs p = Inr (True, length c) \<and>
     (\<exists>s. fs_open fs p = Inr s \<and> stream_ok s \<and> content s = c)"

lemma open_chain_ok:
  "list_all2 (file_at fs) ps cs \<Longrightarrow> stream_ok s \<Longrightarrow>
     \<exists>s'. open_chain fs s ps = Inr s' \<and> stream_ok s' \<and> content s' = content s @ concat cs"
proof (induction arbitrary: s rule: list_all2_induct)
  case (Cons p ps c cs)
  from Cons(1) obtain t where "fs_open fs p = Inr t" "stream_ok t" "content t = c" by (auto simp: file_at_def)
  with Cons(3) [of "s @ t"] Cons(4) show ?case by auto
qed simp

lemma for_each_piece_ok:
  assumes "file_at fs p c" "list_all2 (file_at fs) ps cs" "0 < n"
  shows "for_each_piece fs p ps n f acc = Inr (fold_pieces f acc (chunks n (c @ concat cs)))"
proof -
  from assms(1) obtain s where s: "fs_open fs p = Inr s" "stream_ok s" "content s = c" by (auto simp: file_at_def)
  from open_chain_ok [OF assms(2) s(2)] obtain s' where
    "open_chain fs s ps = (Inr s' :: (('b, 'a) terror, 'a stream) result)" "stream_ok s'" "content s' = c @ concat cs"
    using s(3) by blast
  with s(1) assms(3) show ?thesis by (simp add: for_each_piece_def piece_loop_ok)
qed

lemma fold_pieces_append:
  "fold_pieces (\<lambda>acc piece. (acc @ h piece, True)) acc ps = acc @ concat (map h ps)"
  by (induction ps arbitrary: acc) auto

lemma hash_pieces_ok:
  assumes "file_at fs p c" "list_all2 (file_at fs) ps cs" "0 < n"
  shows "hash_pieces sha1 fs p ps n = Inr (concat (map sha1 (chunks n (c @ concat cs))))"
  unfolding hash_pieces_def for_each_piece_ok [OF assms] by (simp add: fold_pieces_append)

section \<open>Pieces\<close>

lemma chunks_Nil [simp]: "chunks n [] = []"
  by (simp add: chunks.simps)

lemma concat_chunks: "0 < n \<Longrightarrow> concat (chunks n xs) = xs"
proof (induction n xs rule: chunks.induct)
  case (1 n xs)
  show ?case using 1 by (cases "xs = []") (simp_all add: chunks.simps [of n xs])
qed

lemma chunks_concat: "0 < n \<Longrightarrow> \<forall>x \<in> set xss. length x = n \<Longrightarrow> chunks n (concat xss) = xss"
proof (induction xss)
  case (Cons x xss)
  then have "x @ concat xss \<noteq> []" "length x = n" by auto
  with Cons show ?case by (simp add: chunks.simps [of n "x @ concat xss"])
qed simp

lemma length_chunks: "0 < n \<Longrightarrow> length (chunks n xs) = div_ceil (length xs) n"
proof (induction n xs rule: chunks.induct)
  case (1 n xs)
  show ?case
  proof (cases "length xs \<le> n")
    case True
    have "(length xs + n - 1) div n = (if xs = [] then 0 else 1)"
    proof (cases "xs = []")
      case False
      then obtain y ys where "xs = y # ys" by (cases xs) auto
      then show ?thesis using True "1.prems" by (auto intro!: div_nat_eqI)
    qed (use "1.prems" in auto)
    then show ?thesis
      using True "1.prems" by (cases "xs = []") (simp_all add: chunks.simps [of n xs] div_ceil_def)
  next
    case False
    then have "xs \<noteq> []" by auto
    moreover have "(length xs + n - 1) div n = Suc ((length xs - n + n - 1) div n)"
      using False "1.prems" by (simp add: le_div_geq)
    ultimately show ?thesis
      using 1 False by (simp add: chunks.simps [of n xs] div_ceil_def)
  qed
qed

lemma length_concat_map: "\<forall>x \<in> set xs. length (h x) = n \<Longrightarrow> length (concat (map h xs)) = n * length xs"
  by (induction xs) auto

lemma fold_verify:
  "fold_pieces (verify_piece sha1) (es, True) ps = (r, m) \<Longrightarrow> (m \<and> r = []) \<longleftrightarrow> es = map sha1 ps"
  by (induction ps arbitrary: es) (auto simp: verify_piece_def split: list.splits if_splits)

section \<open>Merkle trees\<close>

text \<open>The specification: the root over \<open>2\<^sup>k\<close> leaves is the hash of the roots of its two halves.\<close>

fun mtree :: "(bytes \<Rightarrow> bytes) \<Rightarrow> nat \<Rightarrow> bytes list \<Rightarrow> bytes" where
  "mtree sha256 0 ls = ls ! 0"
| "mtree sha256 (Suc k) ls = sha256 (mtree sha256 k (take (2 ^ k) ls) @ mtree sha256 k (drop (2 ^ k) ls))"

lemma hash_pairs_append: "even (length xs) \<Longrightarrow> hash_pairs h (xs @ ys) = hash_pairs h xs @ hash_pairs h ys"
  by (induction h xs rule: hash_pairs.induct) auto

lemma mtree_hash_pairs: "length ls = 2 ^ Suc k \<Longrightarrow> mtree h k (hash_pairs h ls) = mtree h (Suc k) ls"
proof (induction k arbitrary: ls)
  case 0
  then obtain a b where "ls = [a, b]" by (auto simp: length_Suc_conv numeral_eq_Suc)
  then show ?case by simp
next
  case (Suc k)
  let ?l = "take (2 ^ Suc k) ls" and ?r = "drop (2 ^ Suc k) ls"
  have len: "length ?l = 2 ^ Suc k" "length ?r = 2 ^ Suc k" using Suc.prems by auto
  have "hash_pairs h ls = hash_pairs h ?l @ hash_pairs h ?r"
    using hash_pairs_append [of ?l h ?r] len by simp
  moreover have "length (hash_pairs h ?l) = 2 ^ k" using len by (simp add: length_hash_pairs)
  ultimately have "mtree h (Suc k) (hash_pairs h ls) = h (mtree h k (hash_pairs h ?l) @ mtree h k (hash_pairs h ?r))"
    by simp
  also have "\<dots> = mtree h (Suc (Suc k)) ls"
    using Suc.IH [OF len(1)] Suc.IH [OF len(2)] by simp
  finally show ?case .
qed

lemma merkle_reduce_mtree: "length ls = 2 ^ k \<Longrightarrow> merkle_reduce h ls = mtree h k ls"
proof (induction k arbitrary: ls)
  case 0
  then show ?case by (subst merkle_reduce.simps) simp
next
  case (Suc k)
  have "1 < (2::nat) ^ Suc k" by (rule one_less_power) simp_all
  then have "merkle_reduce h ls = merkle_reduce h (hash_pairs h ls)"
    using Suc.prems by (subst merkle_reduce.simps) simp
  also have "\<dots> = mtree h k (hash_pairs h ls)"
    using Suc.prems by (intro Suc.IH) (simp add: length_hash_pairs)
  finally show ?case using mtree_hash_pairs [OF Suc.prems] by simp
qed

lemma merkle_root_mtree:
  "length leaves \<le> 2 ^ k \<Longrightarrow> merkle_root h leaves (2 ^ k) pad = mtree h k (leaves @ replicate (2 ^ k - length leaves) pad)"
  by (simp add: merkle_root_def Let_def max_absorb1 merkle_reduce_mtree)

text \<open>Grouping: a tree over groups of \<open>2\<^sup>b\<close> leaves is the tree over the groups' own roots.\<close>

lemma mtree_groups:
  "length groups = 2 ^ a \<Longrightarrow> \<forall>g \<in> set groups. length g = 2 ^ b \<Longrightarrow>
     mtree h (a + b) (concat groups) = mtree h a (map (mtree h b) groups)"
proof (induction a arbitrary: groups)
  case 0
  then obtain g where "groups = [g]" by (auto simp: length_Suc_conv)
  then show ?case by simp
next
  case (Suc a)
  let ?l = "take (2 ^ a) groups" and ?r = "drop (2 ^ a) groups"
  have sets: "\<forall>g \<in> set ?l. length g = 2 ^ b" "\<forall>g \<in> set ?r. length g = 2 ^ b"
    using Suc.prems(2) by (auto dest: in_set_takeD in_set_dropD)
  have "length (concat ?l) = 2 ^ (a + b)"
    using sets(1) length_concat_map [of ?l id "2 ^ b"] Suc.prems(1) by (simp add: power_add mult.commute)
  moreover have "concat groups = concat ?l @ concat ?r" by (simp flip: concat_append)
  ultimately have "take (2 ^ (a + b)) (concat groups) = concat ?l" "drop (2 ^ (a + b)) (concat groups) = concat ?r"
    by simp_all
  then show ?case
    using Suc.IH [of ?l] Suc.IH [of ?r] Suc.prems(1) sets by (simp add: take_map drop_map)
qed

subsection \<open>The hybrid hashes\<close>

lemma chunks_append: "0 < m \<Longrightarrow> m dvd length xs \<Longrightarrow> chunks m (xs @ ys) = chunks m xs @ chunks m ys"
proof (induction m xs rule: chunks.induct)
  case (1 m xs)
  show ?case
  proof (cases "xs = []")
    case False
    then have "m \<le> length xs" using "1.prems" by (simp add: dvd_imp_le)
    with False 1 show ?thesis by (simp add: chunks.simps [of m xs] chunks.simps [of m "xs @ ys"])
  qed simp
qed

lemma chunks_chunks: "0 < m \<Longrightarrow> 0 < k \<Longrightarrow> chunks m xs = concat (map (chunks m) (chunks (k * m) xs))"
proof (induction "k * m" xs rule: chunks.induct)
  case (1 xs)
  show ?case
  proof (cases "length xs \<le> k * m")
    case True
    then show ?thesis using 1 by (cases "xs = []") (simp_all add: chunks.simps [of "k * m" xs])
  next
    case False
    then have "xs \<noteq> []" by auto
    have "chunks m xs = chunks m (take (k * m) xs @ drop (k * m) xs)" by simp
    also have "\<dots> = chunks m (take (k * m) xs) @ chunks m (drop (k * m) xs)"
      using False "1.prems" by (intro chunks_append) auto
    finally show ?thesis
      using 1 \<open>xs \<noteq> []\<close> by (simp add: chunks.simps [of "k * m" xs])
  qed
qed

lemma chunks_full: "p \<in> set (butlast (chunks n xs)) \<Longrightarrow> length p = n"
proof (induction n xs rule: chunks.induct)
  case (1 n xs)
  show ?case
  proof (cases "xs = [] \<or> n = 0 \<or> drop n xs = []")
    case True
    then show ?thesis using "1.prems" by (auto simp: chunks.simps [of n xs] split: if_splits)
  next
    case False
    then have "chunks n (drop n xs) \<noteq> []" by (simp add: chunks.simps [of n "drop n xs"])
    with False 1 show ?thesis by (auto simp: chunks.simps [of n xs])
  qed
qed

lemma pad_concat:
  "\<forall>p \<in> set (butlast ps). length (L p) = w \<Longrightarrow>
     \<exists>N. concat (map (\<lambda>p. L p @ replicate (w - length (L p)) z) ps @ replicate m (replicate w z)) =
         concat (map L ps) @ replicate N z"
proof (induction ps)
  case Nil
  have "concat (replicate m (replicate w z)) = replicate (m * w) z"
    by (induction m) (simp_all add: replicate_add)
  then show ?case by auto
next
  case (Cons p ps)
  then obtain N where N: "concat (map (\<lambda>p. L p @ replicate (w - length (L p)) z) ps @ replicate m (replicate w z)) =
         concat (map L ps) @ replicate N z" by (auto split: if_splits)
  show ?case
  proof (cases "ps = []")
    case True
    then show ?thesis using N by (auto simp flip: replicate_add)
  next
    case False
    with Cons.prems have "length (L p) = w" by simp
    then show ?thesis using N by auto
  qed
qed

lemma pow2_from_spec: "\<exists>a. pow2_from (2 ^ k) n = 2 ^ a \<and> n \<le> 2 ^ a"
proof (induction "n - 2 ^ k" arbitrary: k rule: less_induct)
  case less
  show ?case
  proof (cases "n \<le> 2 ^ k")
    case True
    then show ?thesis by (subst pow2_from.simps) auto
  next
    case False
    then have "n - 2 ^ Suc k < n - 2 ^ k" by (simp add: diff_less_mono2)
    from less [OF this] False show ?thesis by (subst pow2_from.simps) auto
  qed
qed

lemma next_power_of_two_spec: "\<exists>a. next_power_of_two n = 2 ^ a \<and> n \<le> 2 ^ a"
  using pow2_from_spec [of 0 n] by (simp add: next_power_of_two_def)

lemma piece_length_for_blocks: "\<exists>b \<le> 10. piece_length_for n = 2 ^ b * V2_BLOCK \<and> 4 \<le> b"
  unfolding piece_length_for_def Let_def
  by (auto intro: exI [of _ 4] exI [of _ 5] exI [of _ 6] exI [of _ 7] exI [of _ 8] exI [of _ 9] exI [of _ 10])

lemma hybrid_fold:
  "fold_pieces (hybrid_piece sha1 sha256 w) a ps =
     \<lparr>ha_pieces = ha_pieces a @ concat (map sha1 ps),
      ha_piece_hashes = ha_piece_hashes a @ map (\<lambda>p. merkle_root sha256 (map sha256 (chunks V2_BLOCK p)) w zero_hash) ps,
      ha_first_leaves = (if ha_piece_hashes a = [] \<and> ps \<noteq> [] then map sha256 (chunks V2_BLOCK (hd ps)) else ha_first_leaves a)\<rparr>"
  by (induction ps arbitrary: a) (auto simp: hybrid_piece_def Let_def)

lemma hash_pieces_hybrid_ok:
  assumes "file_at fs p c" "0 < n"
  shows "hash_pieces_hybrid sha1 sha256 fs p n =
    Inr (concat (map sha1 (chunks n c)),
         v2_of sha256 (blocks_per_piece_of n)
           \<lparr>ha_pieces = concat (map sha1 (chunks n c)),
            ha_piece_hashes = map (\<lambda>p. merkle_root sha256 (map sha256 (chunks V2_BLOCK p)) (blocks_per_piece_of n) zero_hash) (chunks n c),
            ha_first_leaves = (if chunks n c \<noteq> [] then map sha256 (chunks V2_BLOCK (hd (chunks n c))) else [])\<rparr>)"
  unfolding hash_pieces_hybrid_def Let_def for_each_piece_ok [OF assms(1) list.rel_intros(1) assms(2)]
  by (simp add: hybrid_fold)

text \<open>The roots of the pieces, reduced, are the root over all blocks of the file padded with zero leaves.\<close>

lemma piece_roots_block_tree:
  fixes sha256 :: "bytes \<Rightarrow> bytes"
  assumes "2 ^ a \<ge> length (chunks (2 ^ b * V2_BLOCK) c)"
  defines "leaves \<equiv> map sha256 (chunks V2_BLOCK c)"
  shows "merkle_root sha256 (map (\<lambda>p. merkle_root sha256 (map sha256 (chunks V2_BLOCK p)) (2 ^ b) zero_hash)
             (chunks (2 ^ b * V2_BLOCK) c)) (2 ^ a) (merkle_root sha256 [] (2 ^ b) zero_hash) =
         mtree sha256 (a + b) (leaves @ replicate (2 ^ (a + b) - length leaves) zero_hash) \<and> length leaves \<le> 2 ^ (a + b)"
proof -
  define w where "w = (2::nat) ^ b"
  define ps where "ps = chunks (w * V2_BLOCK) c"
  define L where "L p = map sha256 (chunks V2_BLOCK p)" for p
  define groups where "groups = map (\<lambda>p. L p @ replicate (w - length (L p)) zero_hash) ps @
    replicate (2 ^ a - length ps) (replicate w zero_hash)"
  have w: "0 < w" by (simp add: w_def)
  have lenL: "length (L p) = w" if "length p = w * V2_BLOCK" for p
    using that w by (simp add: L_def length_chunks div_ceil_def)
  have leL: "length (L p) \<le> w" if "p \<in> set ps" for p
  proof -
    have "length p \<le> w * V2_BLOCK"
      using that unfolding ps_def
      by (induction "w * V2_BLOCK" c rule: chunks.induct) (subst (asm) (2) chunks.simps, auto split: if_splits)
    then have "(length p + V2_BLOCK - 1) div V2_BLOCK \<le> (w * V2_BLOCK + V2_BLOCK - 1) div V2_BLOCK"
      by (intro div_le_mono) simp
    also have "\<dots> = w" by simp
    finally show ?thesis by (simp add: L_def length_chunks div_ceil_def)
  qed
  have L: "L = (\<lambda>p. map sha256 (chunks V2_BLOCK p))" by (simp add: L_def fun_eq_iff)
  have leaves: "leaves = concat (map L ps)"
    using chunks_chunks [of V2_BLOCK w c] w by (simp add: leaves_def ps_def L map_concat comp_def)
  obtain N where N: "concat groups = leaves @ replicate N zero_hash"
    using pad_concat [of ps L w zero_hash "2 ^ a - length ps"] chunks_full lenL
    unfolding leaves groups_def ps_def by blast
  have glen: "\<forall>g \<in> set groups. length g = w" using leL by (auto simp: groups_def)
  have gcount: "length groups = 2 ^ a" using assms(1) by (simp add: groups_def ps_def w_def)
  have "length (concat groups) = 2 ^ (a + b)"
    using length_concat_map [of groups id w] glen gcount by (simp add: w_def power_add mult.commute)
  then have "N = 2 ^ (a + b) - length leaves" "length leaves \<le> 2 ^ (a + b)" using N by auto
  moreover have "mtree sha256 (a + b) (concat groups) = mtree sha256 a (map (mtree sha256 b) groups)"
    using gcount glen by (intro mtree_groups) (auto simp: w_def)
  moreover have "map (mtree sha256 b) groups =
      map (\<lambda>p. merkle_root sha256 (L p) w zero_hash) ps @ replicate (2 ^ a - length ps) (merkle_root sha256 [] w zero_hash)"
    using leL by (simp add: groups_def w_def merkle_root_mtree)
  moreover have "merkle_root sha256 (map (\<lambda>p. merkle_root sha256 (L p) w zero_hash) ps) (2 ^ a) (merkle_root sha256 [] w zero_hash) =
      mtree sha256 a (map (\<lambda>p. merkle_root sha256 (L p) w zero_hash) ps @
        replicate (2 ^ a - length ps) (merkle_root sha256 [] w zero_hash))"
    using assms(1) by (subst merkle_root_mtree) (simp_all add: ps_def w_def)
  ultimately show ?thesis unfolding N by (simp add: L_def ps_def w_def)
qed

section \<open>What a built torrent is\<close>

definition built_info :: "string \<Rightarrow> nat \<Rightarrow> bytes \<Rightarrow> bool \<Rightarrow> v2_hashes option \<Rightarrow> bdict \<times> bdict" where
  "built_info name sz pcs private v2 =
     (let idict0 = bt_insert ''length'' (int_of sz) (base_info name (piece_length_for sz) pcs private)
      in case v2 of None \<Rightarrow> (idict0, []) | Some h \<Rightarrow> v2_write_into h name sz idict0 [])"

lemma int_of_ok: "bv_ok (int_of n)" "nesting (int_of n) = 0"
  by (auto simp: int_of_def i64_try_from_def i64_ok_def)

lemma dict_insert_nesting2:
  "nesting (BDict m) \<le> n \<Longrightarrow> nesting v < n \<Longrightarrow> nesting (BDict (bt_insert k v m)) \<le> n"
  by (rule dict_insert_nesting) simp_all

lemmas dict_inserts = dict_insert_ok dict_insert_nesting2 int_of_ok

lemma empty_dict: "bv_ok (BDict [])" "nesting (BDict []) = 0"
  by simp_all

lemma base_info_ok: "bv_ok (BDict (base_info name n pcs private))" "nesting (BDict (base_info name n pcs private)) \<le> 4"
  unfolding base_info_def Let_def
  by (cases "private"; simp add: dict_inserts empty_dict i64_ok_def del: bv_ok.simps(4) nesting.simps(4) bt_insert.simps)+

lemma dict_insert_nesting_lt: "nesting (BDict m) < n \<Longrightarrow> Suc (nesting v) < n \<Longrightarrow> nesting (BDict (bt_insert k v m)) < n"
  using dict_insert_nesting2 [of m "n - 1" v k] by (cases n) auto

lemma v2_file_ok:
  "bv_ok (BDict (case r of None \<Rightarrow> bt_insert ''length'' (int_of sz) []
                 | Some root \<Rightarrow> bt_insert ''pieces root'' (BBytes root) (bt_insert ''length'' (int_of sz) [])))"
  "nesting (BDict (case r of None \<Rightarrow> bt_insert ''length'' (int_of sz) []
                 | Some root \<Rightarrow> bt_insert ''pieces root'' (BBytes root) (bt_insert ''length'' (int_of sz) []))) < 2"
  by (cases r; simp add: dict_inserts dict_insert_nesting_lt empty_dict del: bv_ok.simps(4) nesting.simps(4) bt_insert.simps)+

lemma v2_layers_ok:
  "bv_ok (BDict (case (r, l) of (Some root, Some layer) \<Rightarrow> bt_insert root (BBytes layer) [] | _ \<Rightarrow> []))"
  "nesting (BDict (case (r, l) of (Some root, Some layer) \<Rightarrow> bt_insert root (BBytes layer) [] | _ \<Rightarrow> [])) < 2"
  by (cases r; cases l; simp)+

lemma v2_write_into_ok:
  assumes "bv_ok (BDict i0)" "nesting (BDict i0) \<le> 4" "v2_write_into h name sz i0 [] = (i, e)"
  shows "bv_ok (BDict i) \<and> nesting (BDict i) \<le> 4 \<and> bv_ok (BDict e) \<and> nesting (BDict e) \<le> 4"
proof -
  define fdict where "fdict = (case v2_root h of None \<Rightarrow> bt_insert ''length'' (int_of sz) []
    | Some root \<Rightarrow> bt_insert ''pieces root'' (BBytes root) (bt_insert ''length'' (int_of sz) []))"
  define layers where "layers = (case (v2_root h, v2_layer h) of (Some root, Some layer) \<Rightarrow> bt_insert root (BBytes layer) [] | _ \<Rightarrow> [])"
  define entry where "entry = bt_insert [] (BDict fdict) ([] :: bdict)"
  define tree where "tree = bt_insert name (BDict entry) []"
  have fdict: "bv_ok (BDict fdict)" "nesting (BDict fdict) < 2" unfolding fdict_def by (rule v2_file_ok)+
  have layers: "bv_ok (BDict layers)" "nesting (BDict layers) < 2" unfolding layers_def by (rule v2_layers_ok)+
  have entry: "bv_ok (BDict entry)" "nesting (BDict entry) < 3" unfolding entry_def
    using fdict empty_dict by (intro dict_insert_ok dict_insert_nesting_lt; simp)+
  have tree: "bv_ok (BDict tree)" "nesting (BDict tree) < 4" unfolding tree_def
    using entry empty_dict by (intro dict_insert_ok dict_insert_nesting_lt; simp)+
  have ie: "i = bt_insert ''file tree'' (BDict tree) (bt_insert ''meta version'' (BInt 2) i0)"
    "e = bt_insert ''piece layers'' (BDict layers) []"
    using assms(3) by (auto simp: v2_write_into_def Let_def fdict_def layers_def entry_def tree_def simp del: bt_insert.simps)
  have "bv_ok (BDict i)" "nesting (BDict i) \<le> 4" unfolding ie
    using assms(1,2) tree by (intro dict_insert_ok dict_insert_nesting2; simp add: i64_ok_def)+
  moreover have "bv_ok (BDict e)" "nesting (BDict e) \<le> 4" unfolding ie
    using layers by (intro dict_insert_ok dict_insert_nesting2; simp)+
  ultimately show ?thesis by blast
qed

lemma built_info_ok:
  assumes "built_info name sz pcs private v2 = (i, e)"
  shows "bv_ok (BDict i) \<and> nesting (BDict i) \<le> 4 \<and> bv_ok (BDict e) \<and> nesting (BDict e) \<le> 4"
proof -
  let ?i0 = "bt_insert ''length'' (int_of sz) (base_info name (piece_length_for sz) pcs private)"
  have i0: "bv_ok (BDict ?i0)" "nesting (BDict ?i0) \<le> 4"
    using base_info_ok by (simp_all add: dict_inserts del: bv_ok.simps(4) nesting.simps(4) bt_insert.simps)
  show ?thesis
  proof (cases v2)
    case None
    then show ?thesis using assms i0 by (simp add: built_info_def Let_def)
  next
    case (Some h)
    then show ?thesis
      using assms v2_write_into_ok [OF i0, of h name sz i e] by (simp add: built_info_def Let_def)
  qed
qed

lemma built_info_lookups:
  assumes "built_info name sz pcs private v2 = (i, e)"
  shows "map_of i ''length'' = Some (int_of sz)" "map_of i ''pieces'' = Some (BBytes pcs)"
    "map_of i ''piece length'' = Some (int_of (piece_length_for sz))" "map_of i ''files'' = None"
    "map_of i ''name'' = Some (BBytes name)"
    "map_of i ''private'' = (if private then Some (BInt 1) else None)"
    "map_of e ''announce'' = None" "map_of e ''announce-list'' = None" "map_of e ''info'' = None"
  using assms by (cases v2; cases "private";
      auto simp: built_info_def v2_write_into_def base_info_def Let_def simp del: bt_insert.simps)+

text \<open>The torrent \<^verbatim>\<open>create\<close> encodes, with the comment it writes.\<close>

definition built :: "(nat \<Rightarrow> string) \<Rightarrow> torrent_request \<Rightarrow> bdict \<Rightarrow> bdict \<Rightarrow> torrent" where
  "built fmt q i e =
     \<lparr>announce = Some (primary (tq_announce q)), announce_list = tier_list (tq_announce q), info = i,
      extra = (case Option.bind (tq_media q) (describe fmt) of None \<Rightarrow> e | Some c \<Rightarrow> bt_insert ''comment'' (BBytes c) e)\<rparr>"

lemma finish_built:
  "finish sha1 sha256 hex fmt i e (tq_announce q) (tq_media q) sz =
     \<lparr>bt_info_hash = info_hash sha1 hex (built fmt q i e), bt_info_hash_v2 = info_hash_v2 sha256 hex (built fmt q i e),
      bt_data = torrent_encode (built fmt q i e), bt_size = sz\<rparr>"
  by (simp add: finish_def built_def Let_def)

lemma built_ok:
  assumes "built_info name sz pcs priv v2 = (i, e)"
    and "announce_set_ok (tq_announce q)" "\<forall>u \<in> set (tiers (tq_announce q)). utf8_valid u"
  shows "torrent_ok (built fmt q i e)"
proof -
  note ok = built_info_ok [OF assms(1)] and keys = built_info_lookups [OF assms(1)]
  let ?x = "extra (built fmt q i e)"
  have "bv_ok (BDict ?x)" "nesting (BDict ?x) \<le> MAX_DEPTH"
    using ok dict_insert_ok [of e "BBytes c" "''comment''" for c] dict_insert_nesting2 [of e 32 "BBytes c" "''comment''" for c]
    by (auto simp: built_def simp del: bv_ok.simps(4) nesting.simps(4) split: option.split)
  moreover have "map_of ?x ''announce'' = None" "map_of ?x ''announce-list'' = None" "map_of ?x ''info'' = None"
    using keys by (auto simp: built_def split: option.split)
  moreover have "utf8_valid (primary (tq_announce q))"
    using assms(2,3) by (simp add: primary_def announce_set_ok_def)
  moreover have "\<forall>tiers' \<in> set_option (tier_list (tq_announce q)). \<forall>tier \<in> set tiers'. \<forall>u \<in> set tier. utf8_valid u"
    using assms(3) by (auto simp: tier_list_def split: if_splits)
  ultimately show ?thesis
    using ok unfolding torrent_ok_def by (simp add: built_def del: bv_ok.simps nesting.simps)
qed

lemma piece_length_for_pos: "0 < piece_length_for n"
  using piece_length_for_blocks [of n] by auto

lemma hash_step_ok:
  assumes "file_at fs p c" "0 < n"
  shows "\<exists>v2. (if hybrid then and_then (hash_pieces_hybrid sha1 sha256 fs p n) (\<lambda>(pcs, v2). Inr (pcs, Some v2))
      else and_then (hash_pieces sha1 fs p [] n) (\<lambda>pcs. Inr (pcs, None))) =
     (Inr (concat (map sha1 (chunks n c)), v2) :: (('p, 'io) terror, bytes \<times> v2_hashes option) result)"
  unfolding hash_pieces_hybrid_ok [OF assms] hash_pieces_ok [OF assms(1) list.rel_intros(1) assms(2)]
  by simp

lemma create_ok:
  assumes "file_at fs (tq_path q) c" "file_name (tq_path q) = Some name" "utf8_valid name"
  shows "\<exists>v2 i e. built_info name (length c) (concat (map sha1 (chunks (piece_length_for (length c)) c))) (tq_private q) v2 = (i, e) \<and>
    create sha1 sha256 hex fmt fs q = (Inr \<lparr>bt_info_hash = info_hash sha1 hex (built fmt q i e),
      bt_info_hash_v2 = info_hash_v2 sha256 hex (built fmt q i e), bt_data = torrent_encode (built fmt q i e),
      bt_size = length c\<rparr> :: (('p, 'io) terror, built_torrent) result)"
proof -
  let ?n = "piece_length_for (length c)"
  have src: "source_file fs (tq_path q) = (Inr (length c, name) :: (('p, 'io) terror, nat \<times> string) result)"
    using assms by (simp add: source_file_def file_at_def)
  obtain v2 where v2: "(if tq_hybrid q then and_then (hash_pieces_hybrid sha1 sha256 fs (tq_path q) ?n) (\<lambda>(pcs, v2). Inr (pcs, Some v2))
      else and_then (hash_pieces sha1 fs (tq_path q) [] ?n) (\<lambda>pcs. Inr (pcs, None))) =
     (Inr (concat (map sha1 (chunks ?n c)), v2) :: (('p, 'io) terror, bytes \<times> v2_hashes option) result)"
    using hash_step_ok [OF assms(1) piece_length_for_pos] by blast
  obtain i e where ie: "built_info name (length c) (concat (map sha1 (chunks ?n c))) (tq_private q) v2 = (i, e)" by fastforce
  have "create sha1 sha256 hex fmt fs q = (Inr (finish sha1 sha256 hex fmt i e (tq_announce q) (tq_media q) (length c))
      :: (('p, 'io) terror, built_torrent) result)"
    using ie unfolding create_def src by (simp add: Let_def v2 built_info_def)
  then show ?thesis using ie unfolding finish_built by blast
qed

lemma verify_exact:
  assumes "file_at fs p c" "\<And>x. length (sha1 x) = 20"
  shows "verify_single_file sha1 fs p t =
    (Inr (\<exists>n e. piece_length t = Some n \<and> pieces t = Some e \<and> is_single_file t \<and> length c = content_length t \<and>
         e = concat (map sha1 (chunks n c))) :: (('p, 'io) terror, bool) result)"
proof (cases "\<exists>n e. piece_length t = Some n \<and> pieces t = Some e")
  case False
  then show ?thesis
    by (cases "piece_length t"; cases "pieces t") (auto simp: verify_single_file_def)
next
  case True
  then obtain n e where ne: "piece_length t = Some n" "pieces t = Some e" by blast
  have n: "0 < n"
    using ne(1) by (auto simp: piece_length_def split: bind_splits option.splits if_splits)
  let ?ps = "chunks n c"
  obtain r m where fold: "fold_pieces (verify_piece sha1) (chunks 20 e, True) ?ps = (r, m)" by fastforce
  have len: "length (concat (map sha1 ?ps)) = 20 * length ?ps"
    using assms(2) by (intro length_concat_map) simp
  have split: "chunks 20 e = map sha1 ?ps \<longleftrightarrow> e = concat (map sha1 ?ps)"
    using chunks_concat [of 20 "map sha1 ?ps"] concat_chunks [of 20 e] assms(2) by auto
  have md: "fs_metadata fs p = Inr (True, length c)" using assms(1) by (simp add: file_at_def)
  have "e = concat (map sha1 ?ps) \<Longrightarrow> length e mod 20 = 0 \<and> div_ceil (length c) n = length e div 20"
    using len n by (simp add: length_chunks)
  moreover have "for_each_piece fs p [] n (verify_piece sha1) (chunks 20 e, True) =
      (Inr (r, m) :: (('p, 'io) terror, bytes list \<times> bool) result)"
    unfolding for_each_piece_ok [OF assms(1) list.rel_intros(1) n] using fold by simp
  ultimately show ?thesis
    using ne n md fold_verify [OF fold] split by (auto simp: verify_single_file_def)
qed

section \<open>Properties\<close>

text \<open>
  C9: Verification is exact: for a readable file and a hash of 20 bytes, the answer is yes exactly when
  the torrent is a single-file one of the file's length whose piece hashes are the hashes of
  the file's content cut at the piece length, in whatever portions the reads return it.
\<close>

theorem verify_single_file_exact:
  assumes "file_at fs p c" "\<And>x. length (sha1 x) = 20"
  shows "verify_single_file sha1 fs p t =
    Inr (\<exists>n e. piece_length t = Some n \<and> pieces t = Some e \<and> is_single_file t \<and> length c = content_length t \<and>
         e = concat (map sha1 (chunks n c)))"
  using assms by (rule verify_exact)

text \<open>Witness of C9: a file that arrives in two reads, against a torrent of another length.\<close>

theorem verify_single_file_exact_witness:
  "verify_single_file (\<lambda>_. replicate 20 CHR ''h'')
      \<lparr>fs_metadata = (\<lambda>_. Inr (True, 3)), fs_open = (\<lambda>_. Inr [Inr ''ab'', Inr ''c''])\<rparr> [Normal ''f'']
      \<lparr>announce = None, announce_list = None, info = [(''length'', BInt 4), (''piece length'', BInt 2),
        (''pieces'', BBytes (replicate 40 CHR ''h''))], extra = []\<rparr> =
     (Inr False :: ((nat, nat) terror, bool) result)"
proof -
  let ?fs = "\<lparr>fs_metadata = (\<lambda>_. Inr (True, 3)), fs_open = (\<lambda>_. Inr [Inr ''ab'', Inr ''c''])\<rparr> :: nat fs"
  let ?t = "\<lparr>announce = None, announce_list = None, info = [(''length'', BInt 4), (''piece length'', BInt 2),
        (''pieces'', BBytes (replicate 40 CHR ''h''))], extra = []\<rparr>"
  have "file_at ?fs [Normal ''f''] ''abc''" by (simp add: file_at_def)
  moreover have "content_length ?t = 4" by code_simp
  ultimately show ?thesis
    using verify_single_file_exact [of ?fs "[Normal ''f'']" "''abc''" "\<lambda>_. replicate 20 CHR ''h''" ?t, where 'b = nat] by simp
qed



text \<open>
  C11: The v2 root of a hybrid torrent is the root of one SHA-256 tree over all 16 KiB blocks
  of the file padded with zero leaves to a power of two, although it is computed piece by piece.
\<close>

theorem hybrid_root_is_block_tree:
  assumes "file_at fs p c" "c \<noteq> []"
  shows "\<exists>pcs v2 k. hash_pieces_hybrid sha1 sha256 fs p (piece_length_for (length c)) = (Inr (pcs, v2) :: (('p, 'io) terror, bytes \<times> v2_hashes) result) \<and>
    length (chunks V2_BLOCK c) \<le> 2 ^ k \<and>
    v2_root v2 = Some (mtree sha256 k (map sha256 (chunks V2_BLOCK c) @ replicate (2 ^ k - length (chunks V2_BLOCK c)) zero_hash))"
proof -
  obtain b where b: "b \<le> 10" "piece_length_for (length c) = 2 ^ b * V2_BLOCK"
    using piece_length_for_blocks by blast
  define n where "n = 2 ^ b * V2_BLOCK"
  have bpp: "blocks_per_piece_of n = 2 ^ b"
  proof -
    have "(2::nat) ^ b \<le> 2 ^ 10" using b(1) by (rule power_increasing) simp
    then show ?thesis by (simp add: blocks_per_piece_of_def n_def max_absorb1)
  qed
  define leaves where "leaves = map sha256 (chunks V2_BLOCK c)"
  let ?hash = "\<lambda>p. merkle_root sha256 (map sha256 (chunks V2_BLOCK p)) (2 ^ b) zero_hash"
  let ?acc = "\<lparr>ha_pieces = concat (map sha1 (chunks n c)), ha_piece_hashes = map ?hash (chunks n c),
      ha_first_leaves = (if chunks n c \<noteq> [] then map sha256 (chunks V2_BLOCK (hd (chunks n c))) else [])\<rparr>"
  have run: "hash_pieces_hybrid sha1 sha256 fs p n = (Inr (concat (map sha1 (chunks n c)), v2_of sha256 (2 ^ b) ?acc)
      :: (('p, 'io) terror, bytes \<times> v2_hashes) result)"
    using hash_pieces_hybrid_ok [OF assms(1), of n sha1 sha256, where 'b = 'p] bpp by (simp add: n_def)
  have nonempty: "chunks n c \<noteq> []" using assms(2) by (simp add: chunks.simps n_def)
  have "\<exists>k. length leaves \<le> 2 ^ k \<and> v2_root (v2_of sha256 (2 ^ b) ?acc) =
      Some (mtree sha256 k (leaves @ replicate (2 ^ k - length leaves) zero_hash))"
  proof (cases "\<exists>x. chunks n c = [x]")
    case True
    then obtain x where x: "chunks n c = [x]" by blast
    then have "x = c" using concat_chunks [of n c] by (simp add: n_def)
    obtain a where a: "next_power_of_two (length leaves) = 2 ^ a" "length leaves \<le> 2 ^ a"
      using next_power_of_two_spec by blast
    then show ?thesis
      using x \<open>x = c\<close> merkle_root_mtree [OF a(2)] by (auto simp: v2_of_def leaves_def)
  next
    case False
    then obtain x y ps where ps: "chunks n c = x # y # ps"
      using nonempty by (metis neq_Nil_conv)
    obtain a where a: "next_power_of_two (length (chunks n c)) = 2 ^ a" "length (chunks n c) \<le> 2 ^ a"
      using next_power_of_two_spec by blast
    have "v2_root (v2_of sha256 (2 ^ b) ?acc) =
        Some (merkle_root sha256 (map ?hash (chunks n c)) (2 ^ a) (merkle_root sha256 [] (2 ^ b) zero_hash))"
      using a(1) unfolding ps by (simp add: v2_of_def Let_def)
    moreover have "merkle_root sha256 (map ?hash (chunks n c)) (2 ^ a) (merkle_root sha256 [] (2 ^ b) zero_hash) =
        mtree sha256 (a + b) (leaves @ replicate (2 ^ (a + b) - length leaves) zero_hash) \<and> length leaves \<le> 2 ^ (a + b)"
      using piece_roots_block_tree [OF a(2) [unfolded n_def], of sha256] unfolding n_def leaves_def .
    ultimately have "length leaves \<le> 2 ^ (a + b) \<and> v2_root (v2_of sha256 (2 ^ b) ?acc) =
        Some (mtree sha256 (a + b) (leaves @ replicate (2 ^ (a + b) - length leaves) zero_hash))" by argo
    then show ?thesis by (rule exI)
  qed
  then obtain k where "length leaves \<le> 2 ^ k" "v2_root (v2_of sha256 (2 ^ b) ?acc) =
      Some (mtree sha256 k (leaves @ replicate (2 ^ k - length leaves) zero_hash))" by blast
  moreover have "length leaves = length (chunks V2_BLOCK c)" by (simp add: leaves_def)
  ultimately have "length (chunks V2_BLOCK c) \<le> 2 ^ k \<and> v2_root (v2_of sha256 (2 ^ b) ?acc) =
      Some (mtree sha256 k (map sha256 (chunks V2_BLOCK c) @ replicate (2 ^ k - length (chunks V2_BLOCK c)) zero_hash))"
    unfolding leaves_def by argo
  then show ?thesis unfolding b(2) n_def [symmetric] using run by (intro exI conjI) (assumption | blast)+
qed

text \<open>Witness of C11 on a file of one byte: its root is the hash of its only block.\<close>

theorem hybrid_root_is_block_tree_witness:
  "\<exists>pcs v2. hash_pieces_hybrid (\<lambda>_. replicate 20 CHR ''h'') (\<lambda>_. replicate 32 CHR ''s'')
      \<lparr>fs_metadata = (\<lambda>_. Inr (True, 1)), fs_open = (\<lambda>_. Inr [Inr ''a''])\<rparr> [Normal ''f''] (piece_length_for 1) =
     (Inr (pcs, v2) :: ((nat, nat) terror, bytes \<times> v2_hashes) result) \<and> v2_root v2 \<noteq> None"
proof -
  let ?fs = "\<lparr>fs_metadata = (\<lambda>_. Inr (True, 1)), fs_open = (\<lambda>_. Inr [Inr ''a''])\<rparr> :: nat fs"
  have "file_at ?fs [Normal ''f''] ''a''" by (simp add: file_at_def)
  from hybrid_root_is_block_tree [OF this, of "\<lambda>_. replicate 20 CHR ''h''" "\<lambda>_. replicate 32 CHR ''s''", where 'p = nat]
  show ?thesis by auto
qed

lemma retarget_ok:
  assumes "torrent_ok t" "announce_set_ok ann" "\<forall>u \<in> set (tiers ann). utf8_valid u"
  shows "torrent_ok (t\<lparr>announce := Some (primary ann), announce_list := tier_list ann\<rparr>)"
proof -
  have "utf8_valid (primary ann)" using assms(2,3) by (simp add: primary_def announce_set_ok_def)
  moreover have "\<forall>ts \<in> set_option (tier_list ann). \<forall>tier \<in> set ts. \<forall>u \<in> set tier. utf8_valid u"
    using assms(3) by (auto simp: tier_list_def split: if_splits)
  ultimately show ?thesis using assms(1) unfolding torrent_ok_def by simp
qed

text \<open>
  Retargeting a stored torrent leaves it announcing to the live endpoint and never moves
  its identity: the outcome is the torrent unchanged when its announce already was the
  primary, and otherwise bytes that read back to the same info dictionary and other fields with
  the new primary and tiers; either way its info hash is the stored one. The one-parse form
  and the plain rewrite agree on the bytes.
\<close>

lemma retarget_keeps_identity:
  assumes "read_from_bytes data = Inr t" "length data \<le> usize_max" "announce_set_ok ann" "\<forall>u \<in> set (tiers ann). utf8_valid u"
    and "length (torrent_encode (t\<lparr>announce := Some (primary ann), announce_list := tier_list ann\<rparr>)) \<le> usize_max"
  shows "\<exists>r. retarget_announce data ann = (Inr r :: (('p, 'io) terror, retargeted) result) \<and>
    info_hash sha1 hex (retargeted_torrent r) = info_hash sha1 hex t \<and>
    announce (retargeted_torrent r) = Some (primary ann) \<and> info (retargeted_torrent r) = info t \<and> extra (retargeted_torrent r) = extra t \<and>
    (case r of
       Current t' \<Rightarrow> announce t = Some (primary ann) \<and> t' = t
     | Updated previous t' data' \<Rightarrow> previous = announce t \<and> previous \<noteq> Some (primary ann) \<and> announce_list t' = tier_list ann \<and>
         read_from_bytes data' = Inr t' \<and> rewrite_announce data ann = (Inr data' :: (('p, 'io) terror, bytes) result))"
proof -
  have "torrent_ok t" using read_from_bytes_Inr [OF assms(1,2)] by simp
  then have "torrent_ok (t\<lparr>announce := Some (primary ann), announce_list := tier_list ann\<rparr>)"
    using assms(3,4) by (rule retarget_ok)
  then have "read_from_bytes (torrent_encode (t\<lparr>announce := Some (primary ann), announce_list := tier_list ann\<rparr>)) =
      Inr (t\<lparr>announce := Some (primary ann), announce_list := tier_list ann\<rparr>)"
    using assms(5) by (rule read_torrent_encode)
  then show ?thesis
    using assms(1) by (cases "announce t = Some (primary ann)")
      (auto simp: retarget_announce_def rewrite_announce_def retargeted_torrent_def info_hash_def Let_def)
qed

text \<open>A torrent without an announce URL is given one.\<close>

lemma retarget_keeps_identity_witness:
  "\<exists>r. retarget_announce ''d4:infodee'' \<lparr>tiers = [''http://a/announce'', ''http://b/announce'']\<rparr> =
      (Inr r :: ((nat, nat) terror, retargeted) result) \<and> info (retargeted_torrent r) = []"
proof -
  let ?t = "\<lparr>announce = None, announce_list = None, info = [], extra = []\<rparr>"
  let ?a = "\<lparr>tiers = [''http://a/announce'', ''http://b/announce'']\<rparr>"
  have "read_from_bytes ''d4:infodee'' = Inr ?t" by code_simp
  moreover have "length (torrent_encode (?t\<lparr>announce := Some (primary ?a), announce_list := tier_list ?a\<rparr>)) \<le> usize_max"
    by code_simp
  ultimately show ?thesis
    using retarget_keeps_identity [where data = "''d4:infodee''" and t = ?t and ann = ?a and 'p = nat and 'io = nat]
    by (auto simp: announce_set_ok_def)
qed

text \<open>
  The piece length is a power of two between 256 KiB and 16 MiB and a whole number of v2
  blocks, never shrinks as files grow, and keeps the piece count of any file up to 32 GiB at 2048.
\<close>

lemma piece_length_ladder:
  "(\<exists>k \<in> {18..24}. piece_length_for n = 2 ^ k) \<and> V2_BLOCK dvd piece_length_for n \<and>
   (n \<le> m \<longrightarrow> piece_length_for n \<le> piece_length_for m) \<and>
   (n \<le> 32 * 1024 ^ 3 \<longrightarrow> div_ceil n (piece_length_for n) \<le> 2048)"
proof -
  obtain b where b: "b \<le> 10" "4 \<le> b" "piece_length_for n = 2 ^ b * V2_BLOCK" using piece_length_for_blocks by blast
  have "piece_length_for n = 2 ^ (b + 14)" by (simp add: b(3) power_add)
  then have "\<exists>k \<in> {18..24}. piece_length_for n = 2 ^ k" using b(1,2) by (intro bexI [of _ "b + 14"]) auto
  moreover have "V2_BLOCK dvd piece_length_for n" by (simp add: b(3))
  moreover have "n \<le> m \<Longrightarrow> piece_length_for n \<le> piece_length_for m" by (auto simp: piece_length_for_def Let_def)
  moreover have "div_ceil n (piece_length_for n) \<le> 2048" if "n \<le> 32 * 1024 ^ 3"
  proof -
    have "n \<le> 2048 * piece_length_for n" using that by (simp add: piece_length_for_def Let_def split: if_split)
    then have "n + piece_length_for n - 1 < 2049 * piece_length_for n" using piece_length_for_pos [of n] by linarith
    then show ?thesis unfolding div_ceil_def
      using piece_length_for_pos [of n] by (simp add: div_less_iff_less_mult less_Suc_eq_le [symmetric])
  qed
  ultimately show ?thesis by blast
qed

text \<open>The ladder at a concrete size.\<close>

lemma piece_length_ladder_witness: "piece_length_for 100 \<le> piece_length_for (5 * 1024 ^ 3)"
  using piece_length_ladder [of 100 "5 * 1024 ^ 3"] by simp

end
