(* ===== verification/Peer_Scope.thy ===== *)
theory Peer_Scope
  imports Media_Model
begin

text \<open>
  The access rules of \<^verbatim>\<open>sharerr-store/src/peers.rs\<close>: what a friend's scope and limits let them see of an
  item, as pure functions over one item.
\<close>

datatype peer_scope = ScopeAll | ScopeTv | ScopeMovies | ScopeMusic | ScopeBooks

definition peer_scope_all :: "peer_scope list" where
  "peer_scope_all = [ScopeAll, ScopeTv, ScopeMovies, ScopeMusic, ScopeBooks]"

definition peer_scope_str :: "peer_scope \<Rightarrow> string" where
  "peer_scope_str s =
     (case s of ScopeAll \<Rightarrow> ''all'' | ScopeTv \<Rightarrow> ''tv'' | ScopeMovies \<Rightarrow> ''movies'' | ScopeMusic \<Rightarrow> ''music'' | ScopeBooks \<Rightarrow> ''books'')"

definition peer_scope_parse :: "string \<Rightarrow> peer_scope" where
  "peer_scope_parse = str_enum_parse_lenient peer_scope_all peer_scope_str ScopeAll"

interpretation peer_scope: str_enum peer_scope_all peer_scope_str
proof
  show "v \<in> set peer_scope_all" for v by (cases v) (simp_all add: peer_scope_all_def)
qed (simp add: peer_scope_all_def peer_scope_str_def)

definition allows :: "peer_scope \<Rightarrow> media_source \<Rightarrow> bool" where
  "allows s source =
     (case s of
        ScopeAll \<Rightarrow> True
      | ScopeTv \<Rightarrow> source = Sonarr
      | ScopeMovies \<Rightarrow> source = Radarr
      | ScopeMusic \<Rightarrow> source = Lidarr
      | ScopeBooks \<Rightarrow> source = Readarr)"

definition directory_kind :: "peer_scope \<Rightarrow> string option" where
  "directory_kind s =
     (case s of ScopeAll \<Rightarrow> None | ScopeTv \<Rightarrow> Some ''episode'' | ScopeMovies \<Rightarrow> Some ''movie''
      | ScopeMusic \<Rightarrow> Some ''track'' | ScopeBooks \<Rightarrow> Some ''book'')"

definition scope_admits :: "peer_scope \<Rightarrow> shared_item \<Rightarrow> bool" where
  "scope_admits s item \<longleftrightarrow>
     allows s (si_source item) \<or>
     (si_source item \<in> set KIND_SCOPED \<and> directory_kind s = Some (kind_tag (si_spec item)))"

definition scope_label :: "peer_scope \<Rightarrow> string" where
  "scope_label s =
     (case s of ScopeAll \<Rightarrow> ''everything'' | ScopeTv \<Rightarrow> ''TV only'' | ScopeMovies \<Rightarrow> ''films only''
      | ScopeMusic \<Rightarrow> ''music only'' | ScopeBooks \<Rightarrow> ''books only'')"

record peer_limits =
  pl_max_size_bytes :: "int option"
  pl_max_height :: "int option"
  pl_friend :: "string option"

definition limits_admit :: "peer_limits \<Rightarrow> shared_item \<Rightarrow> string list option \<Rightarrow> bool" where
  "limits_admit l item audience =
     (if (case audience of None \<Rightarrow> False
          | Some a \<Rightarrow> \<not> (case pl_friend l of None \<Rightarrow> False | Some f \<Rightarrow> f \<in> set a)) then False
      else
        (let size_ok = (case pl_max_size_bytes l of None \<Rightarrow> True
                        | Some mx \<Rightarrow> (case i64_try_from (si_size item) of None \<Rightarrow> False | Some sz \<Rightarrow> sz \<le> mx));
             height_ok = (case pl_max_height l of None \<Rightarrow> True
                          | Some mx \<Rightarrow> (case Option.bind (si_media item) nominal_height of None \<Rightarrow> True | Some h \<Rightarrow> int h \<le> mx))
         in size_ok \<and> height_ok))"

text \<open>
  \<^verbatim>\<open>friend_slug\<close> walks characters; a character outside ASCII is several bytes here, which fold to the same
  single dash because a second dash in a row is never pushed.
\<close>

definition slug_push :: "string \<Rightarrow> char \<Rightarrow> string" where
  "slug_push slug c =
     (if is_ascii_alphanumeric c then slug @ [ascii_lower c]
      else if slug \<noteq> [] \<and> last slug \<noteq> CHR ''-'' then slug @ ''-''
      else slug)"

definition friend_slug :: "string \<Rightarrow> string" where
  "friend_slug label = rev (dropWhile (\<lambda>c. c = CHR ''-'') (rev (foldl slug_push [] label)))"

lemma allows_ScopeAll [simp]: "allows ScopeAll source"
  by (simp add: allows_def)

lemma scope_admits_ScopeAll [simp]: "scope_admits ScopeAll item"
  by (simp add: scope_admits_def)

text \<open>A slug is made of lower-case letters, digits and single inner dashes, so slugging it again changes nothing.\<close>

definition slug_char :: "char \<Rightarrow> bool" where
  "slug_char c \<longleftrightarrow> is_digit c \<or> is_ascii_lower c"

inductive slug_ok :: "string \<Rightarrow> bool" where
  slug_empty: "slug_ok []"
| slug_letter: "slug_ok s \<Longrightarrow> slug_char c \<Longrightarrow> slug_ok (s @ [c])"
| slug_dash: "slug_ok s \<Longrightarrow> s \<noteq> [] \<Longrightarrow> last s \<noteq> CHR ''-'' \<Longrightarrow> slug_ok (s @ ''-'')"

lemma slug_char_lower: "is_ascii_alphanumeric c \<Longrightarrow> slug_char (ascii_lower c)"
  by (auto simp: slug_char_def is_ascii_alphanumeric_def ascii_lower_def is_ascii_upper_def is_ascii_lower_def is_digit_code)

lemma slug_char_alnum: "slug_char c \<Longrightarrow> is_ascii_alphanumeric c \<and> ascii_lower c = c"
  by (auto simp: slug_char_def is_ascii_alphanumeric_def ascii_lower_def is_ascii_upper_def is_ascii_lower_def is_digit_code)

lemma dash_not_alnum [simp]: "\<not> is_ascii_alphanumeric (CHR ''-'')"
  by (simp add: is_ascii_alphanumeric_def is_digit_code is_ascii_lower_def is_ascii_upper_def)

lemma slug_single: "slug_char c \<Longrightarrow> slug_ok [c]"
  using slug_letter [OF slug_empty] by simp

lemma slug_push_ok: "slug_ok s \<Longrightarrow> slug_ok (slug_push s c)"
  by (auto simp: slug_push_def intro: slug_ok.intros slug_char_lower slug_single)

lemma dropWhile_twice: "dropWhile P (dropWhile P xs) = dropWhile P xs"
  by (induction xs) auto

lemma foldl_slug_ok: "slug_ok (foldl slug_push [] label)"
  by (induction label rule: rev_induct) (auto intro: slug_push_ok slug_empty)

lemma foldl_slug_id: "slug_ok s \<Longrightarrow> foldl slug_push [] s = s"
  by (induction rule: slug_ok.induct) (auto simp: slug_push_def dest: slug_char_alnum)

lemma strip_dashes_ok: "slug_ok s \<Longrightarrow> slug_ok (rev (dropWhile (\<lambda>c. c = CHR ''-'') (rev s)))"
  by (induction rule: slug_ok.induct) (auto intro: slug_ok.intros)

lemma friend_slug_idem: "friend_slug (friend_slug label) = friend_slug label"
proof -
  have "slug_ok (friend_slug label)"
    unfolding friend_slug_def by (rule strip_dashes_ok) (rule foldl_slug_ok)
  then have "foldl slug_push [] (friend_slug label) = friend_slug label" by (rule foldl_slug_id)
  then show ?thesis unfolding friend_slug_def [of "friend_slug label"]
    by (simp add: friend_slug_def dropWhile_twice)
qed

end
