(* ===== verification/Items.thy ===== *)
theory Items
  imports Bencode Peer_Scope Endpoint "HOL-Library.Product_Lexorder"
begin

text \<open>
  \<^verbatim>\<open>sharerr-store/src/db.rs\<close>: the table of shared items, statement by statement. A row keeps its text columns
  as text; of a JSON column it keeps what reading it can tell: the value it decodes to, or that it is JSON of another
  shape, or no JSON at all. What \<^verbatim>\<open>serde_json\<close> wrote is taken to decode to what was written; a table left by another
  version or another hand may not decode, and reading it fails the way the code does. Failures of SQLite itself (a locked or
  full database, a column of another type than the schema's) are outside this theory. Every write passes the clock's value for its time stamps.
\<close>

section \<open>Columns\<close>

text \<open>
  The text of a JSON column: \<^verbatim>\<open>serde_json\<close> reads a value of the column's type; SQLite reads it as JSON but it is no such
  value, and its \<^verbatim>\<open>$.kind\<close> is the text given, if it is text; or SQLite cannot read it as JSON either.
\<close>

datatype 'a json_text = Decodes 'a | OtherJson "string option" | NotJson

definition from_json :: "'a json_text \<Rightarrow> 'a option" where
  "from_json j = (case j of Decodes a \<Rightarrow> Some a | _ \<Rightarrow> None)"

lemma from_json_simps [simp]:
  "from_json (Decodes a) = Some a" "from_json (OtherJson k) = None" "from_json NotJson = None"
  by (simp_all add: from_json_def)

lemma from_json_Some_iff: "from_json j = Some a \<longleftrightarrow> j = Decodes a"
  by (cases j) simp_all

text \<open>
  \<^verbatim>\<open>Path::to_string_lossy\<close>: every longest run of bytes that begins a character and does not finish it becomes
  U+FFFD. The first function gives the length of the run at the front and whether it is a character.
\<close>

definition utf8_first :: "char \<Rightarrow> bytes \<Rightarrow> nat \<times> bool" where
  "utf8_first a r =
     (let cont = in_range 0x80 0xBF
      in if code a < 0x80 then (1, True)
         else if in_range 0xC2 0xDF a then
           (case r of b # _ \<Rightarrow> if cont b then (2, True) else (1, False) | [] \<Rightarrow> (1, False))
         else if in_range 0xE0 0xEF a then
           (case r of
              b # r' \<Rightarrow>
                if \<not> in_range (if code a = 0xE0 then 0xA0 else 0x80) (if code a = 0xED then 0x9F else 0xBF) b then (1, False)
                else (case r' of c # _ \<Rightarrow> if cont c then (3, True) else (2, False) | [] \<Rightarrow> (2, False))
            | [] \<Rightarrow> (1, False))
         else if in_range 0xF0 0xF4 a then
           (case r of
              b # r' \<Rightarrow>
                if \<not> in_range (if code a = 0xF0 then 0x90 else 0x80) (if code a = 0xF4 then 0x8F else 0xBF) b then (1, False)
                else (case r' of
                        c # r'' \<Rightarrow>
                          if \<not> cont c then (2, False)
                          else (case r'' of d # _ \<Rightarrow> if cont d then (4, True) else (3, False) | [] \<Rightarrow> (3, False))
                      | [] \<Rightarrow> (2, False))
            | [] \<Rightarrow> (1, False))
         else (1, False))"

fun to_string_lossy :: "bytes \<Rightarrow> string" where
  "to_string_lossy [] = []"
| "to_string_lossy (a # r) =
     (case utf8_first a r of (n, whole) \<Rightarrow>
        (if whole then take n (a # r) else [CHR 0xEF, CHR 0xBF, CHR 0xBD]) @ to_string_lossy (drop (n - 1) r))"

lemma utf8_first_valid:
  "utf8_valid (a # r) \<longleftrightarrow> snd (utf8_first a r) \<and> utf8_valid (drop (fst (utf8_first a r) - 1) r)"
proof -
  define lo3 hi3 lo4 hi4 where
    "lo3 = (if code a = 0xE0 then 0xA0 else 0x80 :: nat)" and "hi3 = (if code a = 0xED then 0x9F else 0xBF :: nat)" and
    "lo4 = (if code a = 0xF0 then 0x90 else 0x80 :: nat)" and "hi4 = (if code a = 0xF4 then 0x8F else 0xBF :: nat)"
  show ?thesis
    unfolding utf8_first_def Let_def utf8_valid.simps(2) lo3_def [symmetric] hi3_def [symmetric] lo4_def [symmetric] hi4_def [symmetric]
    by (cases r; cases "tl r"; cases "tl (tl r)") (simp_all del: utf8_valid.simps(2))
qed

lemma utf8_first_whole:
  "utf8_first a r = (n, True) \<Longrightarrow> utf8_valid (take n (a # r) @ x) \<longleftrightarrow> utf8_valid x"
  by (cases r; cases "tl r"; cases "tl (tl r)")
    (auto simp: utf8_first_def Let_def split: if_split_asm)

lemma to_string_lossy_valid: "utf8_valid p \<Longrightarrow> to_string_lossy p = p"
proof (induction p rule: to_string_lossy.induct)
  case (2 a r)
  obtain n whole where first: "utf8_first a r = (n, whole)" by fastforce
  then have "whole" "to_string_lossy (drop (n - 1) r) = drop (n - 1) r"
    using 2 utf8_first_valid [of a r] by simp_all
  moreover have "n \<noteq> 0" using first by (auto simp: utf8_first_def Let_def split: if_splits list.splits)
  ultimately show ?case using first by (cases n) simp_all
qed simp

lemma to_string_lossy_is_utf8: "utf8_valid (to_string_lossy p)"
proof (induction p rule: to_string_lossy.induct)
  case (2 a r)
  obtain n whole where first: "utf8_first a r = (n, whole)" by fastforce
  have "utf8_valid (to_string_lossy (drop (n - 1) r))" using 2 first by simp
  moreover have "utf8_valid ([CHR 0xEF, CHR 0xBF, CHR 0xBD] @ x) \<longleftrightarrow> utf8_valid x" for x
    by (simp add: in_range_def)
  ultimately show ?case using first utf8_first_whole by (cases whole) simp_all
qed simp

section \<open>The table\<close>

record item_row =
  ir_id :: int
  ir_source :: string
  ir_source_id :: int
  ir_file_id :: int
  ir_spec :: "media_spec json_text"
  ir_release_title :: string
  ir_arr_path :: path
  ir_size :: int
  ir_ids :: "external_ids json_text"
  ir_info_hash :: "string option"
  ir_token_fp :: "string option"
  ir_created_by :: int
  ir_state :: string
  ir_last_error :: "string option"
  ir_created_at :: int
  ir_updated_at :: int
  ir_media :: "media_meta json_text option"
  ir_ratio :: "f64 option"
  ir_ratio_limit :: "f64 option"
  ir_private :: int
  ir_info_hash_v2 :: "string option"
  ir_share_until :: "int option"
  ir_inode :: "int option"
  ir_mtime :: "int option"

text \<open>\<^verbatim>\<open>catalog.rs\<close>: where a torrent sharerr did not build came from.\<close>

record item_origin =
  io_peer_id :: "int option"
  io_upstream :: "string list"

record origin_row =
  or_source :: string
  or_file_id :: int
  or_peer_id :: "int option"
  or_upstream :: "string list json_text"

text \<open>
  The rows, the largest id ever used (SQLite's \<^verbatim>\<open>AUTOINCREMENT\<close> counter), and the table of origins.
  \<^verbatim>\<open>AUTOINCREMENT\<close> promises an id \<^emph>\<open>at least\<close> one larger than any before: an insertion takes the size of
  the gap as an argument.
\<close>

record items_table =
  rows :: "item_row list"
  last_id :: int
  origins :: "origin_row list"

definition empty_items :: items_table where
  "empty_items = \<lparr>rows = [], last_id = 0, origins = []\<rparr>"

datatype sql_error = IntegerOverflow | UniqueViolation | ForeignKeyViolation | ColumnDecode | MalformedJson

datatype malformed = UnknownSource string | UnknownState string | SpecJson | IdsJson | MediaJson

text \<open>
  The message \<^verbatim>\<open>serde_json\<close> adds to a column that does not decode is left out.
  The cause inside \<^verbatim>\<open>InvalidGossipUrl\<close> is the \<^verbatim>\<open>url\<close> crate's own and is left out.
\<close>

datatype store_error =
    Sql sql_error
  | Malformed int malformed
  | UserExists string
  | InvalidUser string
  | InvalidGossipUrl string
  | PasswordHash string
  | TooBusy

definition saturating_i64 :: "nat \<Rightarrow> int" where
  "saturating_i64 n = (case i64_try_from n of None \<Rightarrow> i64_max | Some m \<Rightarrow> m)"

definition bool_int :: "bool \<Rightarrow> int" where
  "bool_int b = (if b then 1 else 0)"

text \<open>\<^verbatim>\<open>row_to_item\<close> decodes in this order, and the first column that does not decode names the error.\<close>

definition row_to_item :: "item_row \<Rightarrow> (store_error, shared_item) result" where
  "row_to_item r =
     (let malformed = Malformed (ir_id r)
      in and_then (ok_or (media_source_parse (ir_source r)) (malformed (UnknownSource (ir_source r)))) (\<lambda>source.
         and_then (ok_or (share_state_parse (ir_state r)) (malformed (UnknownState (ir_state r)))) (\<lambda>state.
         and_then (ok_or (from_json (ir_spec r)) (malformed SpecJson)) (\<lambda>spec.
         and_then (ok_or (from_json (ir_ids r)) (malformed IdsJson)) (\<lambda>ids.
         and_then (case ir_media r of
                     None \<Rightarrow> Inr None
                   | Some j \<Rightarrow> and_then (ok_or (from_json j) (malformed MediaJson)) (\<lambda>m. Inr (Some m))) (\<lambda>media.
           Inr \<lparr>si_id = Some (ir_id r), si_source = source, si_source_id = ir_source_id r, si_file_id = ir_file_id r,
                si_spec = spec, si_release_title = ir_release_title r, si_arr_path = ir_arr_path r,
                si_size = (case u64_try_from (ir_size r) of None \<Rightarrow> 0 | Some n \<Rightarrow> n), si_ids = ids,
                si_info_hash = ir_info_hash r, si_announce_token_fp = ir_token_fp r,
                si_created_by_sharerr = (ir_created_by r \<noteq> 0), si_state = state, si_last_error = ir_last_error r,
                si_created_at = Some (ir_created_at r), si_media = media, si_achieved_ratio = ir_ratio r,
                si_ratio_limit_reported = ir_ratio_limit r, si_private = (ir_private r \<noteq> 0)\<rparr>))))))"

definition row_key :: "item_row \<Rightarrow> (store_error, media_source \<times> int) result" where
  "row_key r =
     and_then (ok_or (media_source_parse (ir_source r)) (Malformed (ir_file_id r) (UnknownSource (ir_source r))))
       (\<lambda>source. Inr (source, ir_file_id r))"

section \<open>Writes\<close>

definition new_row :: "int \<Rightarrow> int \<Rightarrow> shared_item \<Rightarrow> item_row" where
  "new_row i now item =
     \<lparr>ir_id = i, ir_source = media_source_str (si_source item), ir_source_id = si_source_id item,
      ir_file_id = si_file_id item, ir_spec = Decodes (si_spec item), ir_release_title = si_release_title item,
      ir_arr_path = to_string_lossy (si_arr_path item), ir_size = saturating_i64 (si_size item), ir_ids = Decodes (si_ids item),
      ir_info_hash = si_info_hash item, ir_token_fp = si_announce_token_fp item,
      ir_created_by = bool_int (si_created_by_sharerr item), ir_state = share_state_str (si_state item),
      ir_last_error = si_last_error item, ir_created_at = now, ir_updated_at = now, ir_media = map_option Decodes (si_media item),
      ir_ratio = si_achieved_ratio item, ir_ratio_limit = si_ratio_limit_reported item,
      ir_private = bool_int (si_private item), ir_info_hash_v2 = None, ir_share_until = None,
      ir_inode = None, ir_mtime = None\<rparr>"

text \<open>\<^verbatim>\<open>COALESCE(a, b)\<close>.\<close>

definition coalesce :: "'a option \<Rightarrow> 'a option \<Rightarrow> 'a option" where
  "coalesce a b = (case a of None \<Rightarrow> b | Some x \<Rightarrow> Some x)"

lemma coalesce_simps [simp]: "coalesce None b = b" "coalesce (Some x) b = Some x"
  by (simp_all add: coalesce_def)

text \<open>The \<^verbatim>\<open>ON CONFLICT (source, file_id) DO UPDATE\<close> clause.\<close>

definition conflict_update :: "int \<Rightarrow> shared_item \<Rightarrow> item_row \<Rightarrow> item_row" where
  "conflict_update now item r =
     r\<lparr>ir_source_id := si_source_id item, ir_spec := Decodes (si_spec item), ir_release_title := si_release_title item,
       ir_arr_path := to_string_lossy (si_arr_path item), ir_size := saturating_i64 (si_size item), ir_ids := Decodes (si_ids item),
       ir_info_hash := coalesce (si_info_hash item) (ir_info_hash r),
       ir_token_fp := coalesce (si_announce_token_fp item) (ir_token_fp r),
       ir_media := coalesce (map_option Decodes (si_media item)) (ir_media r),
       ir_ratio := coalesce (si_achieved_ratio item) (ir_ratio r),
       ir_ratio_limit := coalesce (si_ratio_limit_reported item) (ir_ratio_limit r),
       ir_state := share_state_str (si_state item), ir_last_error := si_last_error item, ir_updated_at := now\<rparr>"

definition key_matches :: "media_source \<Rightarrow> int \<Rightarrow> item_row \<Rightarrow> bool" where
  "key_matches source file_id r \<longleftrightarrow> ir_source r = media_source_str source \<and> ir_file_id r = file_id"

definition item_upsert :: "nat \<Rightarrow> int \<Rightarrow> shared_item \<Rightarrow> items_table \<Rightarrow> items_table \<times> int" where
  "item_upsert gap now item t =
     (case find (key_matches (si_source item) (si_file_id item)) (rows t) of
        None \<Rightarrow>
          (let i = last_id t + 1 + int gap in (t\<lparr>rows := rows t @ [new_row i now item], last_id := i\<rparr>, i))
      | Some r \<Rightarrow>
          (t\<lparr>rows := map (\<lambda>x. if key_matches (si_source item) (si_file_id item) x then conflict_update now item x else x) (rows t)\<rparr>,
           ir_id r))"

text \<open>An \<^verbatim>\<open>item_update!\<close> statement: the columns set, the time stamp, and the rows affected.\<close>

definition update_item :: "(item_row \<Rightarrow> item_row) \<Rightarrow> int \<Rightarrow> media_source \<Rightarrow> int \<Rightarrow> items_table \<Rightarrow> items_table \<times> nat" where
  "update_item f now source file_id t =
     (t\<lparr>rows := map (\<lambda>r. if key_matches source file_id r then (f r)\<lparr>ir_updated_at := now\<rparr> else r) (rows t)\<rparr>,
      length (filter (key_matches source file_id) (rows t)))"

definition set_state :: "share_state \<Rightarrow> string option \<Rightarrow> int \<Rightarrow> media_source \<Rightarrow> int \<Rightarrow> items_table \<Rightarrow> items_table" where
  "set_state state last_error now source file_id t =
     fst (update_item (\<lambda>r. r\<lparr>ir_state := share_state_str state, ir_last_error := last_error\<rparr>) now source file_id t)"

definition set_seeding ::
    "string \<Rightarrow> string option \<Rightarrow> bool \<Rightarrow> bool option \<Rightarrow> int \<Rightarrow> media_source \<Rightarrow> int \<Rightarrow> items_table \<Rightarrow> items_table" where
  "set_seeding info_hash token_fp created_by private now source file_id t =
     fst (update_item (\<lambda>r. r\<lparr>ir_info_hash := Some info_hash, ir_info_hash_v2 := None, ir_token_fp := token_fp,
        ir_created_by := bool_int created_by,
        ir_private := (case private of None \<Rightarrow> ir_private r | Some p \<Rightarrow> bool_int p),
        ir_state := share_state_str Seeding, ir_last_error := None\<rparr>) now source file_id t)"

definition confirm_seeding ::
    "string option \<Rightarrow> f64 option \<Rightarrow> f64 option \<Rightarrow> int \<Rightarrow> media_source \<Rightarrow> int \<Rightarrow> items_table \<Rightarrow> items_table" where
  "confirm_seeding token_fp ratio ratio_limit now source file_id t =
     fst (update_item (\<lambda>r. r\<lparr>ir_token_fp := token_fp, ir_ratio := ratio, ir_ratio_limit := ratio_limit\<rparr>) now source file_id t)"

definition set_ratio :: "f64 option \<Rightarrow> f64 option \<Rightarrow> int \<Rightarrow> media_source \<Rightarrow> int \<Rightarrow> items_table \<Rightarrow> items_table" where
  "set_ratio ratio ratio_limit now source file_id t =
     fst (update_item (\<lambda>r. r\<lparr>ir_ratio := ratio, ir_ratio_limit := ratio_limit\<rparr>) now source file_id t)"

record file_stamp =
  fs_inode :: "nat option"
  fs_mtime_ns :: int

definition inode_to_sql :: "nat \<Rightarrow> int" where
  "inode_to_sql n = as_i64 n"

definition inode_from_sql :: "int \<Rightarrow> nat" where
  "inode_from_sql n = nat (n mod 2 ^ 64)"

definition set_file_stamp :: "file_stamp option \<Rightarrow> int \<Rightarrow> media_source \<Rightarrow> int \<Rightarrow> items_table \<Rightarrow> items_table" where
  "set_file_stamp stamp now source file_id t =
     fst (update_item (\<lambda>r. r\<lparr>ir_inode := map_option inode_to_sql (Option.bind stamp fs_inode),
        ir_mtime := map_option fs_mtime_ns stamp\<rparr>) now source file_id t)"

definition set_share_until :: "int option \<Rightarrow> int \<Rightarrow> media_source \<Rightarrow> int \<Rightarrow> items_table \<Rightarrow> items_table \<times> bool" where
  "set_share_until until now source file_id t =
     (case update_item (\<lambda>r. r\<lparr>ir_share_until := until\<rparr>) now source file_id t of (t', affected) \<Rightarrow> (t', affected > 0))"

definition set_info_hash_v2 :: "string \<Rightarrow> int \<Rightarrow> media_source \<Rightarrow> int \<Rightarrow> items_table \<Rightarrow> items_table" where
  "set_info_hash_v2 h now source file_id t =
     fst (update_item (\<lambda>r. r\<lparr>ir_info_hash_v2 := Some h\<rparr>) now source file_id t)"

definition origin_matches :: "media_source \<Rightarrow> int \<Rightarrow> origin_row \<Rightarrow> bool" where
  "origin_matches source file_id r \<longleftrightarrow> or_source r = media_source_str source \<and> or_file_id r = file_id"

text \<open>
  The \<^verbatim>\<open>ON CONFLICT\<close> clause of \<^verbatim>\<open>set_item_origin\<close>: an origin with no upstream tiers keeps the stored ones
  when the friend is the same (\<^verbatim>\<open>IS\<close>, so that two \<^verbatim>\<open>NULL\<close>s agree).
\<close>

definition origin_conflict :: "item_origin \<Rightarrow> origin_row \<Rightarrow> origin_row" where
  "origin_conflict origin r =
     r\<lparr>or_peer_id := io_peer_id origin,
       or_upstream := (if io_upstream origin = [] \<and> or_peer_id r = io_peer_id origin
                       then or_upstream r else Decodes (io_upstream origin))\<rparr>"

definition clear_item_origin :: "media_source \<Rightarrow> int \<Rightarrow> items_table \<Rightarrow> items_table" where
  "clear_item_origin source file_id t = t\<lparr>origins := filter (\<lambda>r. \<not> origin_matches source file_id r) (origins t)\<rparr>"

text \<open>The first argument is the foreign key: which peers exist.\<close>

definition set_item_origin ::
    "(int \<Rightarrow> bool) \<Rightarrow> media_source \<Rightarrow> int \<Rightarrow> item_origin option \<Rightarrow> items_table \<Rightarrow> (store_error, items_table) result" where
  "set_item_origin known source file_id origin t =
     (case origin of
        None \<Rightarrow> Inr (clear_item_origin source file_id t)
      | Some o' \<Rightarrow>
          (if (case io_peer_id o' of None \<Rightarrow> False | Some p \<Rightarrow> \<not> known p) then Inl (Sql ForeignKeyViolation)
           else if list_ex (origin_matches source file_id) (origins t)
           then Inr (t\<lparr>origins := map (\<lambda>r. if origin_matches source file_id r then origin_conflict o' r else r) (origins t)\<rparr>)
           else Inr (t\<lparr>origins := origins t @ [\<lparr>or_source = media_source_str source, or_file_id = file_id,
                   or_peer_id = io_peer_id o', or_upstream = Decodes (io_upstream o')\<rparr>]\<rparr>)))"

text \<open>Upstream tiers that do not decode read as none.\<close>

definition row_origin :: "origin_row \<Rightarrow> item_origin" where
  "row_origin r =
     \<lparr>io_peer_id = or_peer_id r, io_upstream = (case from_json (or_upstream r) of None \<Rightarrow> [] | Some us \<Rightarrow> us)\<rparr>"

definition get_item_origin :: "media_source \<Rightarrow> int \<Rightarrow> items_table \<Rightarrow> item_origin option" where
  "get_item_origin source file_id t = map_option row_origin (find (origin_matches source file_id) (origins t))"

text \<open>A row whose source this version does not know is skipped.\<close>

definition item_origins :: "items_table \<Rightarrow> (media_source \<times> int, item_origin) hashmap" where
  "item_origins t =
     foldl (\<lambda>m r. case media_source_parse (or_source r) of
                    None \<Rightarrow> m
                  | Some source \<Rightarrow> hm_insert (source, or_file_id r) (row_origin r) m) [] (origins t)"

definition reset_for_rebuild :: "int \<Rightarrow> media_source \<Rightarrow> int \<Rightarrow> items_table \<Rightarrow> items_table" where
  "reset_for_rebuild now source file_id t =
     clear_item_origin source file_id
       (fst (update_item (\<lambda>r. r\<lparr>ir_info_hash := None, ir_info_hash_v2 := None, ir_token_fp := None, ir_created_by := 0,
          ir_private := 1, ir_state := share_state_str Pending, ir_last_error := None\<rparr>) now source file_id t))"

section \<open>Reads\<close>

definition all_items :: "items_table \<Rightarrow> (store_error, shared_item list) result" where
  "all_items t = collect_result row_to_item (rows t)"

definition counts_by_state :: "items_table \<Rightarrow> (share_state \<times> nat) list" where
  "counts_by_state t =
     map (\<lambda>s. (s, length (filter (\<lambda>r. ir_state r = share_state_str s) (rows t)))) share_state_all"

definition is_shared :: "string \<Rightarrow> items_table \<Rightarrow> bool" where
  "is_shared h t \<longleftrightarrow>
     list_ex (\<lambda>r. (ir_info_hash r = Some h \<or> ir_info_hash_v2 r = Some h) \<and>
                  ir_state r \<in> {share_state_str Seeding, share_state_str Pending}) (rows t)"

text \<open>\<^verbatim>\<open>json_extract(spec_json, '$.kind')\<close>: the text found there, if there is any, and an error on what is no JSON.\<close>

definition json_kind :: "media_spec json_text \<Rightarrow> (sql_error, string option) result" where
  "json_kind j =
     (case j of Decodes spec \<Rightarrow> Inr (Some (kind_tag spec)) | OtherJson k \<Rightarrow> Inr k | NotJson \<Rightarrow> Inl MalformedJson)"

text \<open>
  The \<^verbatim>\<open>WHERE\<close> clause of a scope, from its bind list, on one row. The columns are tested left to right and the JSON is
  read only when nothing before it has decided.
\<close>

definition scope_clause :: "peer_scope \<Rightarrow> item_row \<Rightarrow> (sql_error, bool) result" where
  "scope_clause s r =
     (if \<not> (ir_state r = share_state_str Seeding \<and> ir_info_hash r \<noteq> None) then Inr False
      else if ir_source r \<in> set (map media_source_str (filter (allows s) media_source_all)) then Inr True
      else (case directory_kind s of
              None \<Rightarrow> Inr False
            | Some kind \<Rightarrow>
                if ir_source r \<notin> set (map media_source_str KIND_SCOPED) then Inr False
                else and_then (json_kind (ir_spec r)) (\<lambda>k. Inr (k = Some kind))))"

text \<open>The rows a clause selects: a row on which it cannot be evaluated fails the whole statement.\<close>

definition select_where :: "('r \<Rightarrow> (sql_error, bool) result) \<Rightarrow> 'r list \<Rightarrow> (store_error, 'r list) result" where
  "select_where clause rs =
     (case collect_result clause rs of
        Inl e \<Rightarrow> Inl (Sql e)
      | Inr _ \<Rightarrow> Inr (filter (\<lambda>r. clause r = Inr True) rs))"

text \<open>\<^verbatim>\<open>ORDER BY created_at DESC, id DESC\<close>.\<close>

definition newest_first :: "item_row list \<Rightarrow> item_row list" where
  "newest_first rs = rev (sort_key (\<lambda>r. (ir_created_at r, ir_id r)) rs)"

definition seeding_items :: "peer_scope \<Rightarrow> items_table \<Rightarrow> (store_error, shared_item list) result" where
  "seeding_items s t =
     and_then (select_where (scope_clause s) (rows t)) (\<lambda>rs. collect_result row_to_item (newest_first rs))"

record seeding_summary =
  ss_count :: int
  ss_size :: int

text \<open>SQLite's \<^verbatim>\<open>SUM\<close> of integers fails when a partial sum leaves 64 bits; \<^verbatim>\<open>COALESCE\<close> makes no rows a zero.\<close>

fun sql_sum :: "int \<Rightarrow> int list \<Rightarrow> int option" where
  "sql_sum acc [] = Some acc"
| "sql_sum acc (x # xs) = (case checked_add_i64 acc x of None \<Rightarrow> None | Some acc' \<Rightarrow> sql_sum acc' xs)"

definition seeding_summary_of :: "peer_scope \<Rightarrow> items_table \<Rightarrow> (store_error, seeding_summary) result" where
  "seeding_summary_of s t =
     and_then (select_where (scope_clause s) (rows t)) (\<lambda>rs.
       and_then (ok_or (sql_sum 0 (map ir_size rs)) (Sql IntegerOverflow))
         (\<lambda>total. Inr \<lparr>ss_count = int (length rs), ss_size = total\<rparr>))"

definition get_item :: "media_source \<Rightarrow> int \<Rightarrow> items_table \<Rightarrow> (store_error, shared_item option) result" where
  "get_item source file_id t =
     (case find (key_matches source file_id) (rows t) of
        None \<Rightarrow> Inr None
      | Some r \<Rightarrow> and_then (row_to_item r) (\<lambda>i. Inr (Some i)))"

definition file_stamps :: "items_table \<Rightarrow> (store_error, (media_source \<times> int, file_stamp) hashmap) result" where
  "file_stamps t =
     and_then (collect_result (\<lambda>r. and_then (row_key r) (\<lambda>k. Inr (k, \<lparr>fs_inode = map_option inode_from_sql (ir_inode r),
         fs_mtime_ns = the (ir_mtime r)\<rparr>))) (filter (\<lambda>r. ir_mtime r \<noteq> None) (rows t)))
       (\<lambda>kvs. Inr (foldl (\<lambda>m (k, v). hm_insert k v m) [] kvs))"

definition share_ends :: "items_table \<Rightarrow> (store_error, (media_source \<times> int, int) hashmap) result" where
  "share_ends t =
     and_then (collect_result (\<lambda>r. and_then (row_key r) (\<lambda>k. Inr (k, the (ir_share_until r))))
       (filter (\<lambda>r. ir_share_until r \<noteq> None) (rows t)))
       (\<lambda>kvs. Inr (foldl (\<lambda>m (k, v). hm_insert k v m) [] kvs))"

definition share_end :: "media_source \<Rightarrow> int \<Rightarrow> items_table \<Rightarrow> int option" where
  "share_end source file_id t = Option.bind (find (key_matches source file_id) (rows t)) ir_share_until"

section \<open>The table's invariant\<close>

text \<open>Every write, as one event; the clock's value and SQLite's choices travel with it.\<close>

datatype item_op =
    Upsert nat int shared_item
  | SetState share_state "string option" int media_source int
  | SetSeeding string "string option" bool "bool option" int media_source int
  | ConfirmSeeding "string option" "f64 option" "f64 option" int media_source int
  | SetRatio "f64 option" "f64 option" int media_source int
  | SetFileStamp "file_stamp option" int media_source int
  | SetShareUntil "int option" int media_source int
  | SetInfoHashV2 string int media_source int
  | SetItemOrigin "int \<Rightarrow> bool" media_source int "item_origin option"
  | ResetForRebuild int media_source int

definition items_step :: "items_table \<Rightarrow> item_op \<Rightarrow> items_table" where
  "items_step t op =
     (case op of
        Upsert gap now item \<Rightarrow> fst (item_upsert gap now item t)
      | SetState st e now source file_id \<Rightarrow> set_state st e now source file_id t
      | SetSeeding h fp c p now source file_id \<Rightarrow> set_seeding h fp c p now source file_id t
      | ConfirmSeeding fp r l now source file_id \<Rightarrow> confirm_seeding fp r l now source file_id t
      | SetRatio r l now source file_id \<Rightarrow> set_ratio r l now source file_id t
      | SetFileStamp st now source file_id \<Rightarrow> set_file_stamp st now source file_id t
      | SetShareUntil u now source file_id \<Rightarrow> fst (set_share_until u now source file_id t)
      | SetInfoHashV2 h now source file_id \<Rightarrow> set_info_hash_v2 h now source file_id t
      | SetItemOrigin known source file_id origin \<Rightarrow>
          (case set_item_origin known source file_id origin t of Inl _ \<Rightarrow> t | Inr t' \<Rightarrow> t')
      | ResetForRebuild now source file_id \<Rightarrow> reset_for_rebuild now source file_id t)"

abbreviation row_ident :: "item_row \<Rightarrow> string \<times> int" where
  "row_ident r \<equiv> (ir_source r, ir_file_id r)"

abbreviation origin_ident :: "origin_row \<Rightarrow> string \<times> int" where
  "origin_ident r \<equiv> (or_source r, or_file_id r)"

definition row_ok :: "item_row \<Rightarrow> bool" where
  "row_ok r \<longleftrightarrow>
     media_source_parse (ir_source r) \<noteq> None \<and> share_state_parse (ir_state r) \<noteq> None \<and>
     from_json (ir_spec r) \<noteq> None \<and> from_json (ir_ids r) \<noteq> None \<and> pred_option (\<lambda>j. from_json j \<noteq> None) (ir_media r)"

definition items_ok :: "items_table \<Rightarrow> bool" where
  "items_ok t \<longleftrightarrow>
     distinct (map row_ident (rows t)) \<and> distinct (map ir_id (rows t)) \<and>
     list_all (\<lambda>r. ir_id r \<le> last_id t) (rows t) \<and> list_all row_ok (rows t) \<and>
     distinct (map origin_ident (origins t))"

lemmas item_writes = set_state_def set_seeding_def confirm_seeding_def set_ratio_def set_file_stamp_def
  set_share_until_def set_info_hash_v2_def reset_for_rebuild_def

lemma parse_source_str [simp]: "media_source_parse (media_source_str s) = Some s"
  unfolding media_source_parse_def by (rule media_source.parse_as_str)

lemma parse_state_str [simp]: "share_state_parse (share_state_str s) = Some s"
  unfolding share_state_parse_def by (rule share_state.parse_as_str)

lemma parse_source_iff: "media_source_parse x = Some s \<longleftrightarrow> x = media_source_str s"
  unfolding media_source_parse_def media_source.parse_Some_iff by auto

lemma parse_state_iff: "share_state_parse x = Some s \<longleftrightarrow> x = share_state_str s"
  unfolding share_state_parse_def share_state.parse_Some_iff by auto

lemma map_map_keep: "(\<And>x. x \<in> set xs \<Longrightarrow> k (g x) = k x) \<Longrightarrow> map k (map g xs) = map k xs"
  by simp

lemma row_ok_new_row [simp]: "row_ok (new_row i now item)"
  by (cases "si_media item") (simp_all add: row_ok_def new_row_def)

lemma row_ok_conflict [simp]: "row_ok r \<Longrightarrow> row_ok (conflict_update now item r)"
  by (cases "si_media item") (simp_all add: row_ok_def conflict_update_def coalesce_def)

lemma conflict_update_keeps [simp]:
  "ir_source (conflict_update now item r) = ir_source r" "ir_file_id (conflict_update now item r) = ir_file_id r"
  "ir_id (conflict_update now item r) = ir_id r"
  by (simp_all add: conflict_update_def)

lemma new_row_simps [simp]:
  "ir_source (new_row i now item) = media_source_str (si_source item)" "ir_file_id (new_row i now item) = si_file_id item"
  "ir_id (new_row i now item) = i"
  by (simp_all add: new_row_def)

text \<open>Rewriting rows in place keeps the invariant when identity and decodability survive.\<close>

lemma items_ok_map_rows:
  assumes "items_ok t"
    and "\<And>r. row_ident (g r) = row_ident r" "\<And>r. ir_id (g r) = ir_id r" "\<And>r. row_ok r \<Longrightarrow> row_ok (g r)"
  shows "items_ok (t\<lparr>rows := map g (rows t)\<rparr>)"
proof -
  have "map row_ident (map g (rows t)) = map row_ident (rows t)" "map ir_id (map g (rows t)) = map ir_id (rows t)"
    using assms(2,3) by (auto simp del: prod.inject)
  then show ?thesis using assms by (auto simp: items_ok_def list_all_iff simp del: map_map)
qed

lemma update_item_rows: "rows (fst (update_item f now source file_id t)) =
    map (\<lambda>r. if key_matches source file_id r then (f r)\<lparr>ir_updated_at := now\<rparr> else r) (rows t)"
  by (simp add: update_item_def)

lemma update_item_ok:
  assumes "items_ok t"
    and "\<And>r. ir_source (f r) = ir_source r" "\<And>r. ir_file_id (f r) = ir_file_id r" "\<And>r. ir_id (f r) = ir_id r"
    and "\<And>r. row_ok r \<Longrightarrow> row_ok (f r)"
  shows "items_ok (fst (update_item f now source file_id t))"
  unfolding update_item_def fst_conv using assms
  by (intro items_ok_map_rows) (auto simp: row_ok_def)

lemma items_ok_upsert: "items_ok t \<Longrightarrow> items_ok (fst (item_upsert gap now item t))"
proof (cases "find (key_matches (si_source item) (si_file_id item)) (rows t)")
  case None
  assume ok: "items_ok t"
  have "row_ident (new_row i now item) \<notin> row_ident ` set (rows t)" for i
    using None by (force simp: find_None_iff key_matches_def)
  then show ?thesis using ok None
    by (force simp: item_upsert_def items_ok_def list_all_iff Let_def)
next
  case (Some r)
  assume "items_ok t"
  then show ?thesis unfolding item_upsert_def Some by (simp, intro items_ok_map_rows) auto
qed

lemma items_ok_clear_origin: "items_ok t \<Longrightarrow> items_ok (clear_item_origin source file_id t)"
  by (simp add: items_ok_def clear_item_origin_def distinct_map_filter)

lemma items_ok_set_origin: "items_ok t \<Longrightarrow> set_item_origin known source file_id origin t = Inr t' \<Longrightarrow> items_ok t'"
proof (cases origin)
  case (Some o')
  assume ok: "items_ok t" and eq: "set_item_origin known source file_id origin t = Inr t'"
  have keep: "map origin_ident (map (\<lambda>r. if origin_matches source file_id r then origin_conflict o' r else r) (origins t))
      = map origin_ident (origins t)"
    by (auto simp: origin_conflict_def)
  show ?thesis using ok eq Some keep
    by (auto simp: set_item_origin_def items_ok_def list_ex_iff origin_matches_def split: if_splits simp del: map_map) blast
qed (auto simp: set_item_origin_def intro: items_ok_clear_origin)

lemma items_ok_step: "items_ok t \<Longrightarrow> items_ok (items_step t op)"
proof (cases op)
  case (SetItemOrigin known source file_id origin)
  assume "items_ok t"
  then show ?thesis
    by (auto simp: items_step_def SetItemOrigin split: sum.split intro: items_ok_set_origin)
qed (auto simp: items_step_def item_writes row_ok_def case_prod_beta intro!: update_item_ok items_ok_upsert items_ok_clear_origin)

lemma items_ok_empty [simp]: "items_ok empty_items"
  by (simp add: items_ok_def empty_items_def)

interpretation items: component "\<lambda>t. t = empty_items" items_step items_ok
  by unfold_locales (auto intro: items_ok_step)

section \<open>Reading back\<close>

lemma key_matches_iff: "media_source_parse (ir_source r) = Some s \<Longrightarrow> key_matches src fid r \<longleftrightarrow> s = src \<and> ir_file_id r = fid"
  by (auto simp: key_matches_def parse_source_iff media_source.as_str_eq_iff)

lemma row_to_item_ok: "row_ok r \<longleftrightarrow> (\<exists>i. row_to_item r = Inr i)"
  by (cases "ir_media r") (auto simp: row_ok_def row_to_item_def Let_def)

lemma row_to_item_key: "row_to_item r = Inr i \<Longrightarrow>
    media_source_parse (ir_source r) = Some (si_source i) \<and> si_file_id i = ir_file_id r \<and> si_id i = Some (ir_id r)"
  by (auto simp: row_to_item_def Let_def)

lemma row_to_item_fields: "row_to_item r = Inr i \<Longrightarrow>
    ir_spec r = Decodes (si_spec i) \<and> si_size i = (case u64_try_from (ir_size r) of None \<Rightarrow> 0 | Some n \<Rightarrow> n) \<and>
    si_info_hash i = ir_info_hash r \<and> share_state_parse (ir_state r) = Some (si_state i) \<and> si_created_by_sharerr i = (ir_created_by r \<noteq> 0)"
  by (auto simp: row_to_item_def Let_def from_json_Some_iff)

lemma find_unique: "distinct (map k xs) \<Longrightarrow> x \<in> set xs \<Longrightarrow> find (\<lambda>y. k y = k x) xs = Some x"
  by (induction xs) (auto simp: image_iff)

lemma find_row:
  assumes "items_ok t" "r \<in> set (rows t)" "row_to_item r = Inr i"
  shows "find (key_matches (si_source i) (si_file_id i)) (rows t) = Some r"
proof -
  have "key_matches (si_source i) (si_file_id i) = (\<lambda>y. row_ident y = row_ident r)"
    using row_to_item_key [OF assms(3)] by (auto simp: key_matches_def parse_source_iff)
  then show ?thesis using find_unique [of row_ident "rows t" r] assms by (simp add: items_ok_def)
qed

definition item_of :: "item_row \<Rightarrow> shared_item" where
  "item_of r = projr (row_to_item r)"

lemma row_to_item_item_of: "row_ok r \<Longrightarrow> row_to_item r = Inr (item_of r)"
  by (auto simp: row_to_item_ok item_of_def)

lemma item_of_key: "row_ok r \<Longrightarrow> row_ident r = (media_source_str (si_source (item_of r)), si_file_id (item_of r)) \<and> si_id (item_of r) = Some (ir_id r)"
  using row_to_item_key [OF row_to_item_item_of] by (auto simp: parse_source_iff)

lemma all_items_ok: "items_ok t \<Longrightarrow> all_items t = Inr (map item_of (rows t))"
  by (auto simp: all_items_def collect_result_Inr_iff items_ok_def list_all_iff list_all2_conv_all_nth row_to_item_item_of)

lemma distinct_item_keys:
  assumes "items_ok t"
  shows "distinct (map (\<lambda>r. shared_item_key (item_of r)) (rows t))" "distinct (map (\<lambda>r. si_id (item_of r)) (rows t))"
proof -
  have "map row_ident (rows t) = map (\<lambda>k. (media_source_str (fst k), snd k)) (map (\<lambda>r. shared_item_key (item_of r)) (rows t))"
    using assms item_of_key by (auto simp: shared_item_key_def items_ok_def list_all_iff)
  moreover have "distinct (map row_ident (rows t))" using assms by (simp add: items_ok_def)
  ultimately show "distinct (map (\<lambda>r. shared_item_key (item_of r)) (rows t))"
    by (simp only: distinct_map)
  have "map (\<lambda>r. si_id (item_of r)) (rows t) = map Some (map ir_id (rows t))"
    using assms item_of_key by (auto simp: items_ok_def list_all_iff)
  moreover have "distinct (map ir_id (rows t))" using assms by (simp add: items_ok_def)
  ultimately show "distinct (map (\<lambda>r. si_id (item_of r)) (rows t))"
    by (simp only: distinct_map [of Some]) simp
qed

text \<open>
  Whatever sequence of writes the table sees, every row still decodes, no two items share a key or an id, and
  reading an item by its key gives that item.
\<close>

lemma items_well_formed:
  "let t = foldl items_step empty_items ops in
     \<exists>is. all_items t = Inr is \<and> distinct (map shared_item_key is) \<and> distinct (map si_id is) \<and>
          list_all (\<lambda>i. get_item (si_source i) (si_file_id i) t = Inr (Some i)) is"
proof -
  define t where "t = foldl items_step empty_items ops"
  have ok: "items_ok t" unfolding t_def by (rule items.run_from_start) simp
  have "get_item (si_source (item_of r)) (si_file_id (item_of r)) t = Inr (Some (item_of r))" if "r \<in> set (rows t)" for r
    using that ok find_row [OF ok that row_to_item_item_of]
    by (auto simp: get_item_def items_ok_def list_all_iff row_to_item_item_of)
  then show ?thesis
    using all_items_ok [OF ok] distinct_item_keys [OF ok]
    by (auto simp: t_def [symmetric] Let_def list_all_iff comp_def)
qed

section \<open>Rediscovery\<close>

definition stored_size :: "nat \<Rightarrow> nat" where
  "stored_size n = min n (nat i64_max)"

lemma stored_size_row: "(case u64_try_from (saturating_i64 n) of None \<Rightarrow> 0 | Some m \<Rightarrow> m) = stored_size n"
  by (auto simp: stored_size_def saturating_i64_def u64_try_from_def i64_try_from_def split: option.splits)

text \<open>What a stored item becomes when the same key is written again.\<close>

definition merge_item :: "shared_item \<Rightarrow> shared_item \<Rightarrow> shared_item" where
  "merge_item old item =
     item\<lparr>si_id := si_id old, si_arr_path := to_string_lossy (si_arr_path item), si_size := stored_size (si_size item),
       si_info_hash := coalesce (si_info_hash item) (si_info_hash old),
       si_announce_token_fp := coalesce (si_announce_token_fp item) (si_announce_token_fp old),
       si_created_by_sharerr := si_created_by_sharerr old, si_created_at := si_created_at old,
       si_media := coalesce (si_media item) (si_media old),
       si_achieved_ratio := coalesce (si_achieved_ratio item) (si_achieved_ratio old),
       si_ratio_limit_reported := coalesce (si_ratio_limit_reported item) (si_ratio_limit_reported old),
       si_private := si_private old\<rparr>"

lemma row_to_item_new_row:
  "row_to_item (new_row i now item) =
     Inr (item\<lparr>si_id := Some i, si_arr_path := to_string_lossy (si_arr_path item), si_size := stored_size (si_size item),
       si_created_at := Some now\<rparr>)"
  by (cases "si_media item") (simp_all add: row_to_item_def new_row_def bool_int_def stored_size_row)

lemma row_to_item_conflict:
  assumes "row_to_item r = Inr old" "si_source item = si_source old" "si_file_id item = si_file_id old"
  shows "row_to_item (conflict_update now item r) = Inr (merge_item old item)"
  using assms
  by (cases "si_media item"; cases "ir_media r")
    (auto simp: row_to_item_def Let_def conflict_update_def merge_item_def stored_size_row)

lemma find_snoc: "find P (xs @ [x]) = (case find P xs of None \<Rightarrow> if P x then Some x else None | Some y \<Rightarrow> Some y)"
  by (induction xs) auto

lemma find_map_update:
  "(\<And>x. P (g x) = P x) \<Longrightarrow> find P (map (\<lambda>x. if P x then g x else x) xs) = map_option g (find P xs)"
  by (induction xs) auto

lemma find_map_other:
  "(\<And>x. x \<in> set xs \<Longrightarrow> P (g x) = P x) \<Longrightarrow> (\<And>x. x \<in> set xs \<Longrightarrow> P x \<Longrightarrow> g x = x) \<Longrightarrow> find P (map g xs) = find P xs"
  by (induction xs) auto

lemma get_item_upsert_other:
  assumes "(source, file_id) \<noteq> shared_item_key item"
  shows "get_item source file_id (fst (item_upsert gap now item t)) = get_item source file_id t"
proof -
  have no: "\<not> (key_matches source file_id r \<and> key_matches (si_source item) (si_file_id item) r)" for r
    using assms by (auto simp: shared_item_key_def key_matches_def media_source.as_str_eq_iff)
  have nn: "\<not> key_matches source file_id (new_row i now item)" for i
    using assms by (auto simp: shared_item_key_def key_matches_def media_source.as_str_eq_iff)
  have "find (key_matches source file_id) (rows (fst (item_upsert gap now item t))) = find (key_matches source file_id) (rows t)"
  proof (cases "find (key_matches (si_source item) (si_file_id item)) (rows t)")
    case None
    then show ?thesis using nn by (simp add: item_upsert_def Let_def find_snoc split: option.split)
  next
    case (Some r)
    have "key_matches source file_id (conflict_update now item x) = key_matches source file_id x" for x
      by (simp add: key_matches_def)
    then show ?thesis unfolding item_upsert_def Some using no by (auto intro!: find_map_other split: if_splits)
  qed
  then show ?thesis by (simp add: get_item_def)
qed

lemma get_item_upsert_same:
  assumes "items_ok t"
  shows "get_item (si_source item) (si_file_id item) (fst (item_upsert gap now item t)) =
     (case get_item (si_source item) (si_file_id item) t of
        Inl e \<Rightarrow> Inl e
      | Inr None \<Rightarrow> Inr (Some (item\<lparr>si_id := Some (last_id t + 1 + int gap),
          si_arr_path := to_string_lossy (si_arr_path item), si_size := stored_size (si_size item), si_created_at := Some now\<rparr>))
      | Inr (Some old) \<Rightarrow> Inr (Some (merge_item old item)))"
proof (cases "find (key_matches (si_source item) (si_file_id item)) (rows t)")
  case None
  have "key_matches (si_source item) (si_file_id item) (new_row i now item)" for i
    by (simp add: key_matches_def)
  then show ?thesis using None
    by (simp add: item_upsert_def get_item_def Let_def find_snoc row_to_item_new_row)
next
  case (Some r)
  then have r: "r \<in> set (rows t)" "key_matches (si_source item) (si_file_id item) r" by (auto simp: find_Some_iff)
  then have "row_ok r" using assms by (simp add: items_ok_def list_all_iff)
  then obtain old where old: "row_to_item r = Inr old" by (auto simp: row_to_item_ok)
  have "si_source item = si_source old" "si_file_id item = si_file_id old"
    using row_to_item_key [OF old] r(2) key_matches_iff by auto
  note conf = row_to_item_conflict [OF old this]
  have "find (key_matches (si_source item) (si_file_id item)) (rows (fst (item_upsert gap now item t))) = Some (conflict_update now item r)"
    unfolding item_upsert_def Some using Some by (simp, subst find_map_update) (auto simp: key_matches_def)
  then show ?thesis using Some old conf by (simp add: get_item_def)
qed

text \<open>
  Discovering a file again describes the file and never the torrent: the stored hash, token fingerprint, ownership,
  privacy, ratios, first-shared date and any metadata the new pass lacks all survive it, and no other item changes.
\<close>

lemma rediscovery_keeps_torrent:
  "let t = foldl items_step empty_items ops; item = into_shared_item d title; t' = fst (item_upsert gap now item t) in
     (\<forall>old. get_item (d_source d) (d_file_id d) t = Inr (Some old) \<longrightarrow>
        get_item (d_source d) (d_file_id d) t' =
          Inr (Some (old\<lparr>si_source_id := d_source_id d, si_spec := d_spec d, si_release_title := title,
            si_arr_path := to_string_lossy (d_arr_path d), si_size := stored_size (d_size d), si_ids := d_ids d,
            si_media := coalesce (d_media d) (si_media old), si_state := Pending, si_last_error := None\<rparr>))) \<and>
     (\<forall>source file_id. (source, file_id) \<noteq> discovered_key d \<longrightarrow> get_item source file_id t' = get_item source file_id t)"
proof -
  define t where "t = foldl items_step empty_items ops"
  have ok: "items_ok t" unfolding t_def by (rule items.run_from_start) simp
  have same: "get_item (d_source d) (d_file_id d) (fst (item_upsert gap now (into_shared_item d title) t)) =
      Inr (Some (merge_item old (into_shared_item d title)))" if "get_item (d_source d) (d_file_id d) t = Inr (Some old)" for old
    using get_item_upsert_same [OF ok, of "into_shared_item d title" gap now] that by (simp add: into_shared_item_def)
  have "merge_item old (into_shared_item d title) =
      old\<lparr>si_source_id := d_source_id d, si_spec := d_spec d, si_release_title := title,
        si_arr_path := to_string_lossy (d_arr_path d), si_size := stored_size (d_size d), si_ids := d_ids d,
        si_media := coalesce (d_media d) (si_media old), si_state := Pending, si_last_error := None\<rparr>"
    if "get_item (d_source d) (d_file_id d) t = Inr (Some old)" for old
  proof -
    obtain r where "find (key_matches (d_source d) (d_file_id d)) (rows t) = Some r" "row_to_item r = Inr old"
      using \<open>get_item _ _ t = _\<close> by (auto simp: get_item_def split: option.splits)
    then have "si_source old = d_source d \<and> si_file_id old = d_file_id d"
      using row_to_item_key key_matches_iff by (metis find_Some_iff)
    then show ?thesis by (simp add: merge_item_def into_shared_item_def coalesce_def)
  qed
  then show ?thesis
    using same get_item_upsert_other [of _ _ "into_shared_item d title" gap now t]
    by (simp add: t_def [symmetric] Let_def discovered_key_def shared_item_key_def into_shared_item_def)
qed

definition sample_file :: discovered where
  "sample_file = \<lparr>d_source = Radarr, d_source_id = 3, d_file_id = 7, d_spec = Movie ''Heat'' (Some 1995), d_arr_path = [],
     d_size = 10, d_ids = \<lparr>tvdb = None, tmdb = None, tvmaze = None, imdb = None, musicbrainz = None, goodreads = None,
     hardcover = None, isbn = None\<rparr>, d_scene_name = None, d_original_path = None, d_media = None, d_scene = None\<rparr>"

definition sample_ops :: "item_op list" where
  "sample_ops = [Upsert 0 5 (into_shared_item sample_file ''A''), SetSeeding ''hh'' None True (Some False) 6 Radarr 7]"

text \<open>The film is seeding under its hash; found again under another title, it keeps the hash and its owner.\<close>

lemma rediscovery_keeps_torrent_witness:
  "\<exists>old. get_item Radarr 7 (foldl items_step empty_items sample_ops) = Inr (Some old) \<and> si_info_hash old = Some ''hh'' \<and>
     get_item Radarr 7 (fst (item_upsert 0 9 (into_shared_item sample_file ''B'') (foldl items_step empty_items sample_ops))) =
       Inr (Some (old\<lparr>si_source_id := 3, si_spec := Movie ''Heat'' (Some 1995), si_release_title := ''B'', si_arr_path := [],
         si_size := stored_size 10, si_ids := d_ids sample_file, si_media := coalesce None (si_media old),
         si_state := Pending, si_last_error := None\<rparr>)) \<and>
     get_item Sonarr 7 (fst (item_upsert 0 9 (into_shared_item sample_file ''B'') (foldl items_step empty_items sample_ops))) =
       get_item Sonarr 7 (foldl items_step empty_items sample_ops)"
proof -
  have key: "d_source sample_file = Radarr" "d_file_id sample_file = 7" "(Sonarr, 7) \<noteq> discovered_key sample_file"
    by (simp_all add: sample_file_def discovered_key_def)
  have "map_option (map_option si_info_hash) (ok (get_item Radarr 7 (foldl items_step empty_items sample_ops))) = Some (Some (Some ''hh''))"
    by code_simp
  then obtain old where "get_item Radarr 7 (foldl items_step empty_items sample_ops) = Inr (Some old)" "si_info_hash old = Some ''hh''"
    by auto
  then show ?thesis
    using rediscovery_keeps_torrent [of sample_ops sample_file "''B''" 0 9] key
    by (auto simp: Let_def) (simp add: sample_file_def)
qed

section \<open>Scopes\<close>

abbreviation in_scope :: "peer_scope \<Rightarrow> item_row \<Rightarrow> bool" where
  "in_scope s r \<equiv> scope_clause s r = Inr True"

lemma directory_kind_all [simp]: "directory_kind ScopeAll = None"
  by (simp add: directory_kind_def)

lemma in_scope_all_iff:
  "in_scope ScopeAll r \<longleftrightarrow>
     ir_state r = share_state_str Seeding \<and> ir_info_hash r \<noteq> None \<and> media_source_parse (ir_source r) \<noteq> None"
  by (auto simp: scope_clause_def allows_def media_source.exhaustive parse_source_iff split: if_splits option.splits)

text \<open>A narrow scope only ever reads the JSON of a row the full feed lists, and it admits nothing the full feed does not.\<close>

lemma scope_clause_ScopeAll: "scope_clause s r \<noteq> Inr False \<Longrightarrow> in_scope ScopeAll r"
  unfolding in_scope_all_iff scope_clause_def
  by (auto simp: parse_source_iff media_source.exhaustive split: if_splits option.splits)

lemma scope_clause_Inl: "scope_clause s r = Inl e \<Longrightarrow> \<not> row_ok r"
  by (auto simp: scope_clause_def json_kind_def row_ok_def split: if_splits option.splits json_text.splits)

lemma scope_clause_admits:
  assumes "in_scope ScopeAll r" "row_to_item r = Inr i"
  shows "scope_clause s r = Inr (scope_admits s i)"
proof -
  have src: "ir_source r = media_source_str (si_source i)" using row_to_item_key [OF assms(2)] by (simp add: parse_source_iff)
  have spec: "ir_spec r = Decodes (si_spec i)" using row_to_item_fields [OF assms(2)] by simp
  have mem: "media_source_str x \<in> media_source_str ` A \<longleftrightarrow> x \<in> A" for x A
    by (auto simp: media_source.as_str_eq_iff)
  show ?thesis using assms(1) unfolding in_scope_all_iff
    by (auto simp: scope_clause_def json_kind_def scope_admits_def src spec mem media_source.exhaustive split: option.splits)
qed

lemma newest_first_filter: "newest_first (filter P rs) = filter P (newest_first rs)"
  by (simp add: newest_first_def filter_sort [symmetric] rev_filter)

lemma set_newest_first [simp]: "set (newest_first rs) = set rs"
  by (simp add: newest_first_def)

lemma length_newest_first [simp]: "length (newest_first rs) = length rs"
  by (simp add: newest_first_def)

lemma collect_result_Inr_conv:
  "collect_result f xs = Inr ys \<longleftrightarrow> (\<forall>x \<in> set xs. \<exists>y. f x = Inr y) \<and> ys = map (projr \<circ> f) xs"
  by (induction xs arbitrary: ys) auto

lemma select_where_Inr_iff:
  "select_where clause rs = Inr sel \<longleftrightarrow>
     (\<forall>r \<in> set rs. \<exists>b. clause r = Inr b) \<and> sel = filter (\<lambda>r. clause r = Inr True) rs"
  using collect_result_Inr_conv [of clause rs]
  by (cases "collect_result clause rs") (auto simp: select_where_def)

lemma seeding_items_Inr_iff:
  "seeding_items s t = Inr is \<longleftrightarrow>
     (\<forall>r \<in> set (rows t). \<exists>b. scope_clause s r = Inr b) \<and> (\<forall>r \<in> set (rows t). in_scope s r \<longrightarrow> row_ok r) \<and>
     is = map item_of (filter (in_scope s) (newest_first (rows t)))"
  by (auto simp: seeding_items_def select_where_Inr_iff collect_result_Inr_conv newest_first_filter row_to_item_ok item_of_def comp_def)

text \<open>If the full feed decodes, so does every friend's, and it is the full feed cut down by the in-memory rule.\<close>

lemma seeding_items_scope:
  assumes "seeding_items ScopeAll t = Inr all'"
  shows "seeding_items s t = Inr (filter (scope_admits s) all')"
proof -
  have ok: "row_ok r" if "r \<in> set (rows t)" "in_scope ScopeAll r" for r
    using assms that by (auto simp: seeding_items_Inr_iff)
  have admits: "scope_clause s r = Inr (scope_admits s (item_of r))" if "r \<in> set (rows t)" "in_scope ScopeAll r" for r
    using scope_clause_admits [OF that(2) row_to_item_item_of [OF ok [OF that]]] .
  have clause: "\<exists>b. scope_clause s r = Inr b" if "r \<in> set (rows t)" for r
    using admits [OF that] scope_clause_ScopeAll [of s r] by (cases "scope_clause s r = Inr False") auto
  have "in_scope s r \<longleftrightarrow> in_scope ScopeAll r \<and> scope_admits s (item_of r)" if "r \<in> set (rows t)" for r
    using admits [OF that] scope_clause_ScopeAll [of s r] by auto
  then have "filter (in_scope s) (newest_first (rows t)) =
      filter (scope_admits s \<circ> item_of) (filter (in_scope ScopeAll) (newest_first (rows t)))"
    unfolding filter_filter comp_def by (intro filter_cong) auto
  then show ?thesis
    using assms ok clause scope_clause_ScopeAll [of s] by (auto simp: seeding_items_Inr_iff filter_map)
qed

lemma seeding_items_fields:
  assumes "seeding_items s t = Inr is" "i \<in> set is"
  shows "si_state i = Seeding \<and> si_info_hash i \<noteq> None \<and> scope_admits s i"
proof -
  obtain r where r: "in_scope s r" "row_ok r" "i = item_of r" using assms by (auto simp: seeding_items_Inr_iff)
  then have row: "row_to_item r = Inr i" by (simp add: row_to_item_item_of)
  have all: "in_scope ScopeAll r" using scope_clause_ScopeAll [of s r] r(1) by simp
  then show ?thesis
    using r(1) scope_clause_admits [OF all row] row_to_item_fields [OF row] unfolding in_scope_all_iff by auto
qed

lemma seeding_items_total: "items_ok t \<Longrightarrow> \<exists>is. seeding_items s t = Inr is"
proof -
  assume "items_ok t"
  then have ok: "row_ok r" if "r \<in> set (rows t)" for r using that by (simp add: items_ok_def list_all_iff)
  have "\<exists>b. scope_clause s r = Inr b" if "r \<in> set (rows t)" for r
    using scope_clause_Inl [of s r] ok [OF that] by (cases "scope_clause s r") auto
  then show ?thesis using ok by (simp add: seeding_items_Inr_iff)
qed

text \<open>A feed fails only over a row it would list, seeding under a hash, that does not decode.\<close>

lemma seeding_items_Inl:
  assumes "seeding_items s t = Inl e"
  shows "\<exists>r \<in> set (rows t). in_scope ScopeAll r \<and> \<not> row_ok r"
proof (rule ccontr)
  assume none: "\<not> ?thesis"
  have ok: "row_ok r" if "r \<in> set (rows t)" "scope_clause s r \<noteq> Inr False" for r
    using none that(1) scope_clause_ScopeAll [OF that(2)] by blast
  then have "\<exists>b. scope_clause s r = Inr b" if "r \<in> set (rows t)" for r
    using that scope_clause_Inl [of s r] by (cases "scope_clause s r") auto
  then have "\<exists>is. seeding_items s t = Inr is" using ok by (simp add: seeding_items_Inr_iff)
  then show False using assms by simp
qed

text \<open>
  C12. What a narrowly scoped friend is served is what the in-memory rule admits of the full feed: whenever the full
  feed decodes, the SQL clause and \<^verbatim>\<open>PeerScope::admits\<close> pick the same items in the same order. Whatever the table
  holds, everything a feed lists is seeding under a known hash and inside the scope, and a feed that fails has met a
  seeding row that does not decode. On a table the store's own writes left, in any order, no feed fails.
\<close>

theorem scope_sql_agrees:
  "(seeding_items ScopeAll t = Inr all' \<longrightarrow> seeding_items s t = Inr (filter (scope_admits s) all')) \<and>
   (seeding_items s t = Inr is \<longrightarrow> list_all (\<lambda>i. si_state i = Seeding \<and> si_info_hash i \<noteq> None \<and> scope_admits s i) is) \<and>
   (seeding_items s t = Inl e \<longrightarrow> (\<exists>r \<in> set (rows t). scope_clause ScopeAll r = Inr True \<and> (\<forall>i. row_to_item r \<noteq> Inr i))) \<and>
   (\<exists>served. seeding_items s (foldl items_step empty_items ops) = Inr served)"
proof (intro conjI impI)
  assume "seeding_items s t = Inl e"
  then show "\<exists>r \<in> set (rows t). scope_clause ScopeAll r = Inr True \<and> (\<forall>i. row_to_item r \<noteq> Inr i)"
    using seeding_items_Inl row_to_item_ok by metis
next
  have "items_ok (foldl items_step empty_items ops)" by (rule items.run_from_start) simp
  then show "\<exists>served. seeding_items s (foldl items_step empty_items ops) = Inr served" by (rule seeding_items_total)
next
  assume "seeding_items s t = Inr is"
  then show "list_all (\<lambda>i. si_state i = Seeding \<and> si_info_hash i \<noteq> None \<and> scope_admits s i) is"
    unfolding list_all_iff using seeding_items_fields by blast
qed (rule seeding_items_scope)

text \<open>Two tables: a seeding film with a directory's episode beside it, and the same with the episode's column damaged.\<close>

definition sample_episode :: discovered where
  "sample_episode = sample_file\<lparr>d_source := Directory, d_file_id := 8, d_spec := Episode ''Lost'' 1 2\<rparr>"

definition mixed_table :: items_table where
  "mixed_table = foldl items_step empty_items
     (sample_ops @ [Upsert 0 7 (into_shared_item sample_episode ''E''), SetSeeding ''ee'' None True None 8 Directory 8])"

definition damaged_table :: items_table where
  "damaged_table = mixed_table\<lparr>rows := map (\<lambda>r. if ir_file_id r = 8 then r\<lparr>ir_spec := NotJson\<rparr> else r) (rows mixed_table)\<rparr>"

text \<open>
  Witness of C12: a friend scoped to films is served the film of the first table; the second, whose episode row is no JSON,
  cannot be searched for films, and its full feed fails over that row.
\<close>

theorem scope_sql_agrees_witness:
  "(\<exists>all'. seeding_items ScopeAll mixed_table = Inr all' \<and> map si_release_title all' = [''E'', ''A''] \<and>
      map si_release_title (filter (scope_admits ScopeMovies) all') = [''A''] \<and>
      seeding_items ScopeMovies mixed_table = Inr (filter (scope_admits ScopeMovies) all')) \<and>
   seeding_items ScopeMovies damaged_table = Inl (Sql MalformedJson) \<and>
   (\<exists>r \<in> set (rows damaged_table). scope_clause ScopeAll r = Inr True \<and> (\<forall>i. row_to_item r \<noteq> Inr i))"
proof -
  have titles: "map_option (map si_release_title) (ok (seeding_items ScopeAll mixed_table)) = Some [''E'', ''A'']"
      "map_option (\<lambda>is. map si_release_title (filter (scope_admits ScopeMovies) is)) (ok (seeding_items ScopeAll mixed_table)) = Some [''A'']"
    by code_simp+
  then obtain all' where "seeding_items ScopeAll mixed_table = Inr all'"
      "map si_release_title all' = [''E'', ''A'']" "map si_release_title (filter (scope_admits ScopeMovies) all') = [''A'']"
    by auto
  moreover have damaged: "seeding_items ScopeMovies damaged_table = Inl (Sql MalformedJson)" by code_simp
  ultimately show ?thesis
    using scope_sql_agrees [of mixed_table all' ScopeMovies "[]" "Sql MalformedJson" "[]"]
      scope_sql_agrees [of damaged_table "[]" ScopeMovies "[]" "Sql MalformedJson" "[]"] by auto
qed

text \<open>A row in scope that does not decode fails the feed, and the error names the row and the column.\<close>

lemma damaged_row_fails_feed:
  assumes "r \<in> set (rows t)" "in_scope s r" "\<not> row_ok r"
  shows "\<exists>e. seeding_items s t = Inl e"
  using assms by (cases "seeding_items s t") (auto simp: seeding_items_Inr_iff)

lemma row_to_item_Inl:
  "row_to_item r = Inl e \<longleftrightarrow>
     e = Malformed (ir_id r) (if media_source_parse (ir_source r) = None then UnknownSource (ir_source r)
       else if share_state_parse (ir_state r) = None then UnknownState (ir_state r)
       else if from_json (ir_spec r) = None then SpecJson else if from_json (ir_ids r) = None then IdsJson else MediaJson) \<and>
     \<not> row_ok r"
  by (cases "media_source_parse (ir_source r)"; cases "share_state_parse (ir_state r)"; cases "from_json (ir_spec r)";
      cases "from_json (ir_ids r)"; cases "ir_media r"; cases "Option.bind (ir_media r) from_json")
    (auto simp: row_to_item_def row_ok_def Let_def)

lemma damaged_row_named: "seeding_items ScopeAll damaged_table = Inl (Malformed 2 SpecJson)"
  by code_simp

text \<open>The aggregate the status page reads counts the rows the feed lists.\<close>

lemma sql_sum_eq: "sql_sum acc xs = Some n \<Longrightarrow> n = acc + sum_list xs"
  by (induction xs arbitrary: acc) (fastforce simp: checked_add_i64_def split: option.splits if_splits)+

lemma sql_sum_total: "list_all (\<lambda>x. 0 \<le> x) xs \<Longrightarrow> 0 \<le> acc \<Longrightarrow> acc + sum_list xs \<le> i64_max \<Longrightarrow> sql_sum acc xs = Some (acc + sum_list xs)"
proof (induction xs arbitrary: acc)
  case (Cons x xs)
  then have "0 \<le> sum_list xs" by (intro sum_list_nonneg) (auto simp: list_all_iff)
  with Cons show ?case by (simp add: checked_add_i64_def i64_ok_def)
qed simp

lemma summary_counts_feed:
  "seeding_summary_of s t = Inr sm \<Longrightarrow> seeding_items s t = Inr is \<Longrightarrow> ss_count sm = int (length is)"
  by (auto simp: seeding_summary_of_def seeding_items_Inr_iff select_where_Inr_iff simp flip: newest_first_filter)

lemma inode_roundtrip: "n \<le> u64_max \<Longrightarrow> inode_from_sql (inode_to_sql n) = n"
  by (auto simp: inode_from_sql_def inode_to_sql_def as_i64_def)

text \<open>Withdrawing an item stops the tracker admitting its torrent, unless another live item carries the same hash.\<close>

lemma is_shared_withdrawn:
  assumes "st \<in> {Unshared, Failed}"
  shows "is_shared h (set_state st err now source file_id t) \<longleftrightarrow>
    is_shared h (t\<lparr>rows := filter (\<lambda>r. \<not> key_matches source file_id r) (rows t)\<rparr>)"
  using assms by (auto simp: is_shared_def set_state_def update_item_def list_ex_iff share_state_str_def split: if_splits)

end
