(* ===== verification/Database.thy ===== *)
theory Database
  imports Items
begin

text \<open>
  The tables of the database beside the shared items (\<^verbatim>\<open>migrations/0003\<close>, \<^verbatim>\<open>0006\<close>, \<^verbatim>\<open>0011\<close>, \<^verbatim>\<open>0013\<close>,
  \<^verbatim>\<open>0017\<close>, \<^verbatim>\<open>0019\<close>, and \<^verbatim>\<open>sync_runs\<close> of \<^verbatim>\<open>0001\<close>), and the few statements of SQL they are used through.
\<close>

section \<open>SQL\<close>

text \<open>
  An integer column. SQLite's \<^verbatim>\<open>+\<close> leaves the integers when a sum leaves 64 bits: the column then holds a
  floating-point number, which no read as \<^verbatim>\<open>i64\<close> accepts.
\<close>

datatype sql_num = SqlInt int | SqlReal

definition sql_add :: "sql_num \<Rightarrow> int \<Rightarrow> sql_num" where
  "sql_add a d = (case a of SqlReal \<Rightarrow> SqlReal | SqlInt n \<Rightarrow> if i64_ok (n + d) then SqlInt (n + d) else SqlReal)"

definition read_i64 :: "sql_num \<Rightarrow> (store_error, int) result" where
  "read_i64 a = (case a of SqlInt n \<Rightarrow> Inr n | SqlReal \<Rightarrow> Inl (Sql ColumnDecode))"

text \<open>\<^verbatim>\<open>LIMIT n\<close>; a negative limit is no limit.\<close>

definition sql_limit :: "int \<Rightarrow> 'a list \<Rightarrow> 'a list" where
  "sql_limit n xs = (if n < 0 then xs else take (nat n) xs)"

text \<open>\<^verbatim>\<open>UPDATE .. SET .. WHERE ..\<close> and whether any row was affected.\<close>

definition sql_update :: "('r \<Rightarrow> bool) \<Rightarrow> ('r \<Rightarrow> 'r) \<Rightarrow> 'r list \<Rightarrow> 'r list \<times> bool" where
  "sql_update cond assign rs = (map (\<lambda>r. if cond r then assign r else r) rs, list_ex cond rs)"

text \<open>
  \<^verbatim>\<open>DELETE .. WHERE scope AND id NOT IN (SELECT id .. WHERE scope ORDER BY .. DESC, id DESC LIMIT n)\<close>: within the
  scope, the newest \<open>n\<close> rows stay.
\<close>

definition prune :: "('r \<Rightarrow> int) \<Rightarrow> ('r \<Rightarrow> int) \<Rightarrow> ('r \<Rightarrow> bool) \<Rightarrow> int \<Rightarrow> 'r list \<Rightarrow> 'r list" where
  "prune ident stamp scope n rs =
     (let kept = map ident (sql_limit n (rev (sort_key (\<lambda>r. (stamp r, ident r)) (filter scope rs))))
      in filter (\<lambda>r. scope r \<longrightarrow> ident r \<in> set kept) rs)"

section \<open>Tables\<close>

record peer_row =
  pr_id :: int
  pr_label :: string
  pr_key_hash :: string
  pr_created_at :: int
  pr_last_seen_at :: "int option"
  pr_revoked_at :: "int option"
  pr_scope :: string
  pr_pubkey :: "string option"
  pr_gossip_url :: "string option"
  pr_gossip_record :: "string option"
  pr_downloaded :: sql_num
  pr_uploaded :: sql_num
  pr_max_size_bytes :: "int option"
  pr_max_height :: "int option"

record endpoint_row =
  er_id :: int
  er_peer_id :: int
  er_kind :: string
  er_addr :: string
  er_observed_at :: int
  er_via :: string

record audience_row =
  au_source :: string
  au_file_id :: int
  au_friend :: string

record catalog_row =
  cr_peer_id :: int
  cr_info_hash :: string
  cr_spec :: "media_spec json_text"
  cr_ids :: "external_ids json_text"
  cr_size :: int
  cr_private :: int
  cr_download_url :: string

record sample_row =
  sr_id :: int
  sr_sampled_at :: int
  sr_swarms :: int
  sr_peers :: int
  sr_seeders :: int

record run_row =
  rr_id :: int
  rr_started_at :: int
  rr_finished_at :: "int option"
  rr_discovered :: int
  rr_added :: int
  rr_unshared :: int
  rr_failed :: int
  rr_error :: "string option"

record totals_row =
  tt_downloaded :: sql_num
  tt_uploaded :: sql_num
  tt_updated_at :: "int option"

text \<open>\<^verbatim>\<open>retention.rs\<close>: the limits the growing tables are pruned to, held beside the connection.\<close>

record retention =
  rt_swarm_samples :: int
  rt_endpoint_history :: int
  rt_sync_runs :: int

definition retention_from :: "nat \<Rightarrow> nat \<Rightarrow> nat \<Rightarrow> retention" where
  "retention_from swarm_samples endpoint_history sync_runs =
     \<lparr>rt_swarm_samples = saturating_i64 swarm_samples, rt_endpoint_history = saturating_i64 endpoint_history,
      rt_sync_runs = saturating_i64 sync_runs\<rparr>"

record database =
  db_items :: items_table
  db_peers :: "peer_row list"
  db_last_peer :: int
  db_endpoints :: "endpoint_row list"
  db_last_endpoint :: int
  db_audience :: "audience_row list"
  db_catalog :: "catalog_row list"
  db_totals :: totals_row
  db_samples :: "sample_row list"
  db_last_sample :: int
  db_runs :: "run_row list"
  db_last_run :: int
  db_retention :: retention

definition empty_db :: "retention \<Rightarrow> database" where
  "empty_db rt =
     \<lparr>db_items = empty_items, db_peers = [], db_last_peer = 0, db_endpoints = [], db_last_endpoint = 0, db_audience = [],
      db_catalog = [], db_totals = \<lparr>tt_downloaded = SqlInt 0, tt_uploaded = SqlInt 0, tt_updated_at = None\<rparr>,
      db_samples = [], db_last_sample = 0, db_runs = [], db_last_run = 0, db_retention = rt\<rparr>"

definition set_retention :: "retention \<Rightarrow> database \<Rightarrow> database" where
  "set_retention rt db = db\<lparr>db_retention := rt\<rparr>"

definition peer_exists :: "database \<Rightarrow> int \<Rightarrow> bool" where
  "peer_exists db i \<longleftrightarrow> list_ex (\<lambda>r. pr_id r = i) (db_peers db)"

section \<open>Facts about the statements\<close>

lemma sql_limit_length: "0 \<le> n \<Longrightarrow> length (sql_limit n xs) \<le> nat n"
  by (simp add: sql_limit_def)

lemma set_sql_limit: "set (sql_limit n xs) \<subseteq> set xs"
  by (auto simp: sql_limit_def dest: in_set_takeD)

lemma sql_update_map: "(\<And>r. k (f r) = k r) \<Longrightarrow> map k (fst (sql_update cond f rs)) = map k rs"
  by (simp add: sql_update_def)

lemma set_prune: "set (prune ident stamp scope n rs) \<subseteq> set rs"
  by (auto simp: prune_def Let_def)

lemma distinct_prune: "distinct (map k rs) \<Longrightarrow> distinct (map k (prune ident stamp scope n rs))"
  by (simp add: prune_def Let_def distinct_map_filter)

lemma prune_other: "filter (\<lambda>r. \<not> scope r) (prune ident stamp scope n rs) = filter (\<lambda>r. \<not> scope r) rs"
  by (auto simp: prune_def Let_def intro: filter_cong)

text \<open>Within the scope at most \<open>n\<close> rows stay, none of them older than a row that went.\<close>

lemma prune_bound:
  assumes "0 \<le> n" "distinct (map ident rs)"
  shows "length (filter scope (prune ident stamp scope n rs)) \<le> nat n"
proof -
  let ?kept = "map ident (sql_limit n (rev (sort_key (\<lambda>r. (stamp r, ident r)) (filter scope rs))))"
  have "set (map ident (filter scope (prune ident stamp scope n rs))) \<subseteq> set ?kept"
    by (auto simp: prune_def Let_def)
  then have "card (set (map ident (filter scope (prune ident stamp scope n rs)))) \<le> length ?kept"
    by (metis card_length card_mono finite_set le_trans)
  moreover have "distinct (map ident (filter scope (prune ident stamp scope n rs)))"
    using assms(2) by (intro distinct_map_filter distinct_prune)
  ultimately show ?thesis using sql_limit_length [OF assms(1)]
    by (metis distinct_card length_map le_trans)
qed

lemma take_rev_sorted_newest:
  assumes "x \<in> set (take m (rev (sort_key k rs)))" "y \<in> set rs" "y \<notin> set (take m (rev (sort_key k rs)))"
  shows "k y \<le> k x"
proof -
  let ?s = "rev (sort_key k rs)"
  have "y \<in> set (drop m ?s)"
    using assms by (metis UnE append_take_drop_id set_append set_rev set_sort)
  moreover have "sorted_wrt (\<lambda>a b. k b \<le> k a) ?s"
    by (simp add: sorted_wrt_rev) (metis sorted_map sorted_sort_key)
  then have "sorted_wrt (\<lambda>a b. k b \<le> k a) (take m ?s @ drop m ?s)" by simp
  ultimately show ?thesis using assms(1) unfolding sorted_wrt_append by blast
qed

lemma prune_keeps_newest:
  assumes "distinct (map ident rs)" "x \<in> set (prune ident stamp scope n rs)" "scope x"
    and "y \<in> set rs" "scope y" "y \<notin> set (prune ident stamp scope n rs)"
  shows "stamp y \<le> stamp x"
proof -
  let ?k = "\<lambda>r. (stamp r, ident r)"
  have inj: "inj_on ident (set rs)" using assms(1) by (simp add: distinct_map)
  have mem: "r \<in> set (sql_limit n (rev (sort_key ?k (filter scope rs)))) \<longleftrightarrow> r \<in> set (prune ident stamp scope n rs)"
    if "r \<in> set rs" "scope r" for r
    using that inj set_sql_limit [of n "rev (sort_key ?k (filter scope rs))"]
    by (auto simp: prune_def Let_def inj_on_def)
  have xin: "x \<in> set rs" using assms(2) set_prune [of ident stamp scope n rs] by auto
  show ?thesis
  proof (cases "n < 0")
    case True
    then show ?thesis using mem [OF assms(4,5)] assms by (simp add: sql_limit_def)
  next
    case False
    then have "?k y \<le> ?k x"
      using mem [OF xin assms(3)] mem [OF assms(4,5)] assms
      by (intro take_rev_sorted_newest [of x "nat n" ?k "filter scope rs" y]) (auto simp: sql_limit_def)
    then show ?thesis by (auto simp: less_eq_prod_def)
  qed
qed

end
