(* ===== verification/Peers.thy ===== *)
theory Peers
  imports Database
begin

text \<open>
  \<^verbatim>\<open>sharerr-store/src/peers.rs\<close>, the gossip columns of \<^verbatim>\<open>endpoints.rs\<close>, \<^verbatim>\<open>transfers.rs\<close> and \<^verbatim>\<open>validate_name\<close> of
  \<^verbatim>\<open>db.rs\<close>: the friends, their credentials, what each is served, and what they are known to have moved. A
  \<^verbatim>\<open>SecretString\<close> is its text; \<^verbatim>\<open>hex::encode(Sha256::digest(..))\<close> and \<^verbatim>\<open>url::Url::parse\<close> are parameters.
\<close>

section \<open>A friend\<close>

record peer =
  p_id :: int
  p_label :: string
  p_created_at :: int
  p_last_seen_at :: "int option"
  p_revoked_at :: "int option"
  p_scope :: peer_scope
  p_pubkey :: "string option"
  p_gossip_url :: "string option"
  p_key_hash :: string
  p_downloaded :: int
  p_uploaded :: int
  p_max_size_bytes :: "int option"
  p_max_height :: "int option"

definition peer_limits_of :: "peer \<Rightarrow> peer_limits" where
  "peer_limits_of p =
     \<lparr>pl_max_size_bytes = p_max_size_bytes p, pl_max_height = p_max_height p,
      pl_friend = (let slug = friend_slug (p_label p) in if slug \<noteq> [] then Some slug else None)\<rparr>"

definition is_revoked :: "peer \<Rightarrow> bool" where
  "is_revoked p \<longleftrightarrow> p_revoked_at p \<noteq> None"

definition row_to_peer :: "peer_row \<Rightarrow> (store_error, peer) result" where
  "row_to_peer r =
     and_then (read_i64 (pr_downloaded r)) (\<lambda>downloaded.
     and_then (read_i64 (pr_uploaded r)) (\<lambda>uploaded.
       Inr \<lparr>p_id = pr_id r, p_label = pr_label r, p_created_at = pr_created_at r, p_last_seen_at = pr_last_seen_at r,
            p_revoked_at = pr_revoked_at r, p_scope = peer_scope_parse (pr_scope r), p_pubkey = pr_pubkey r,
            p_gossip_url = pr_gossip_url r, p_key_hash = pr_key_hash r, p_downloaded = downloaded, p_uploaded = uploaded,
            p_max_size_bytes = pr_max_size_bytes r, p_max_height = pr_max_height r\<rparr>))"

text \<open>\<^verbatim>\<open>chars().count()\<close>: the bytes that do not continue a character.\<close>

definition char_count :: "string \<Rightarrow> nat" where
  "char_count s = length (filter (\<lambda>c. code c < 128 \<or> 192 \<le> code c) s)"

definition validate_name :: "string \<Rightarrow> string \<Rightarrow> string \<Rightarrow> (store_error, string) result" where
  "validate_name raw blank_msg long_msg =
     (let trimmed = trim raw
      in if trimmed = [] then Inl (InvalidUser blank_msg)
         else if char_count trimmed > 64 then Inl (InvalidUser long_msg)
         else Inr trimmed)"

definition validate_label :: "string \<Rightarrow> (store_error, string) result" where
  "validate_label label = validate_name label ''a peer needs a name'' ''a peer name must be 64 characters or fewer''"

section \<open>Operations\<close>

definition new_peer_row :: "int \<Rightarrow> string \<Rightarrow> string \<Rightarrow> int \<Rightarrow> peer_scope \<Rightarrow> peer_row" where
  "new_peer_row i label key_hash now scope =
     \<lparr>pr_id = i, pr_label = label, pr_key_hash = key_hash, pr_created_at = now, pr_last_seen_at = None,
      pr_revoked_at = None, pr_scope = peer_scope_str scope, pr_pubkey = None, pr_gossip_url = None,
      pr_gossip_record = None, pr_downloaded = SqlInt 0, pr_uploaded = SqlInt 0, pr_max_size_bytes = None,
      pr_max_height = None\<rparr>"

definition create_peer ::
    "(string \<Rightarrow> string) \<Rightarrow> nat \<Rightarrow> int \<Rightarrow> string \<Rightarrow> string \<Rightarrow> peer_scope \<Rightarrow> database \<Rightarrow> (store_error, database \<times> peer) result" where
  "create_peer hash_key gap now label key scope db =
     and_then (validate_label label) (\<lambda>label.
       if list_ex (\<lambda>r. pr_label r = label \<or> pr_key_hash r = hash_key key) (db_peers db) then Inl (UserExists label)
       else (let i = db_last_peer db + 1 + int gap; r = new_peer_row i label (hash_key key) now scope
             in and_then (row_to_peer r) (\<lambda>p. Inr (db\<lparr>db_peers := db_peers db @ [r], db_last_peer := i\<rparr>, p))))"

text \<open>\<^verbatim>\<open>ORDER BY created_at DESC, id DESC\<close>.\<close>

definition peers_newest :: "peer_row list \<Rightarrow> peer_row list" where
  "peers_newest rs = rev (sort_key (\<lambda>r. (pr_created_at r, pr_id r)) rs)"

definition active_peers :: "database \<Rightarrow> (store_error, peer list) result" where
  "active_peers db = collect_result row_to_peer (peers_newest (filter (\<lambda>r. pr_revoked_at r = None) (db_peers db)))"

definition list_peers :: "database \<Rightarrow> (store_error, peer list) result" where
  "list_peers db = collect_result row_to_peer (peers_newest (db_peers db))"

definition optional_row :: "('r \<Rightarrow> ('e, 'a) result) \<Rightarrow> 'r option \<Rightarrow> ('e, 'a option) result" where
  "optional_row f row = (case row of None \<Rightarrow> Inr None | Some r \<Rightarrow> and_then (f r) (\<lambda>x. Inr (Some x)))"

definition peer_by_key_hash :: "string \<Rightarrow> database \<Rightarrow> (store_error, peer option) result" where
  "peer_by_key_hash h db =
     optional_row row_to_peer (find (\<lambda>r. pr_key_hash r = h \<and> pr_revoked_at r = None) (db_peers db))"

definition peer_by_key :: "(string \<Rightarrow> string) \<Rightarrow> string \<Rightarrow> database \<Rightarrow> (store_error, peer option) result" where
  "peer_by_key hash_key key db = peer_by_key_hash (hash_key key) db"

definition get_peer :: "int \<Rightarrow> database \<Rightarrow> (store_error, peer option) result" where
  "get_peer i db = optional_row row_to_peer (find (\<lambda>r. pr_id r = i) (db_peers db))"

definition update_peers :: "(peer_row \<Rightarrow> bool) \<Rightarrow> (peer_row \<Rightarrow> peer_row) \<Rightarrow> database \<Rightarrow> database \<times> bool" where
  "update_peers cond assign db =
     (case sql_update cond assign (db_peers db) of (rs, changed) \<Rightarrow> (db\<lparr>db_peers := rs\<rparr>, changed))"

abbreviation (input) TOUCH_WINDOW_SECS :: int where "TOUCH_WINDOW_SECS \<equiv> 300"

datatype touch = First | Refreshed | Throttled

definition touch_updated :: "touch \<Rightarrow> bool" where
  "touch_updated t \<longleftrightarrow> t \<noteq> Throttled"

text \<open>
  \<^verbatim>\<open>touch_peer\<close> is a read and then a conditional write, and other requests may run between them. Its two halves are
  separate statements here: the read picks the write to try, the write tells whether it claimed the row.
\<close>

definition touch_read :: "int \<Rightarrow> int \<Rightarrow> database \<Rightarrow> touch" where
  "touch_read now i db =
     (case Option.bind (find (\<lambda>r. pr_id r = i) (db_peers db)) pr_last_seen_at of
        None \<Rightarrow> First
      | Some seen \<Rightarrow> if seen \<ge> now - TOUCH_WINDOW_SECS then Throttled else Refreshed)"

definition touch_write :: "touch \<Rightarrow> int \<Rightarrow> int \<Rightarrow> database \<Rightarrow> database \<times> touch" where
  "touch_write touched now i db =
     (case touched of
        Throttled \<Rightarrow> (db, Throttled)
      | First \<Rightarrow>
          (case update_peers (\<lambda>r. pr_id r = i \<and> pr_last_seen_at r = None) (\<lambda>r. r\<lparr>pr_last_seen_at := Some now\<rparr>) db of
             (db', changed) \<Rightarrow> (db', if changed then First else Throttled))
      | Refreshed \<Rightarrow>
          (case update_peers
                  (\<lambda>r. pr_id r = i \<and> (case pr_last_seen_at r of None \<Rightarrow> False | Some seen \<Rightarrow> seen < now - TOUCH_WINDOW_SECS))
                  (\<lambda>r. r\<lparr>pr_last_seen_at := Some now\<rparr>) db of
             (db', changed) \<Rightarrow> (db', if changed then Refreshed else Throttled)))"

definition touch_peer :: "int \<Rightarrow> int \<Rightarrow> database \<Rightarrow> database \<times> touch" where
  "touch_peer now i db = touch_write (touch_read now i db) now i db"

definition revoke_peer :: "int \<Rightarrow> int \<Rightarrow> database \<Rightarrow> database \<times> bool" where
  "revoke_peer now i = update_peers (\<lambda>r. pr_id r = i \<and> pr_revoked_at r = None) (\<lambda>r. r\<lparr>pr_revoked_at := Some now\<rparr>)"

definition set_peer_limits :: "int \<Rightarrow> int option \<Rightarrow> int option \<Rightarrow> database \<Rightarrow> database \<times> bool" where
  "set_peer_limits i max_size max_height =
     update_peers (\<lambda>r. pr_id r = i) (\<lambda>r. r\<lparr>pr_max_size_bytes := max_size, pr_max_height := max_height\<rparr>)"

definition set_peer_scope :: "int \<Rightarrow> peer_scope \<Rightarrow> database \<Rightarrow> database \<times> bool" where
  "set_peer_scope i scope = update_peers (\<lambda>r. pr_id r = i) (\<lambda>r. r\<lparr>pr_scope := peer_scope_str scope\<rparr>)"

text \<open>
  Deleting a friend cascades to their addresses, their catalog and the origins that name them
  (\<^verbatim>\<open>ON DELETE CASCADE\<close>).
\<close>

definition delete_peer :: "int \<Rightarrow> database \<Rightarrow> database \<times> bool" where
  "delete_peer i db =
     (db\<lparr>db_peers := filter (\<lambda>r. pr_id r \<noteq> i) (db_peers db),
         db_endpoints := filter (\<lambda>r. er_peer_id r \<noteq> i) (db_endpoints db),
         db_catalog := filter (\<lambda>r. cr_peer_id r \<noteq> i) (db_catalog db),
         db_items := (db_items db)\<lparr>origins := filter (\<lambda>r. or_peer_id r \<noteq> Some i) (origins (db_items db))\<rparr>\<rparr>,
      peer_exists db i)"

definition bind_peer_pubkey :: "int \<Rightarrow> string \<Rightarrow> database \<Rightarrow> database \<times> bool" where
  "bind_peer_pubkey i pubkey =
     update_peers (\<lambda>r. pr_id r = i \<and> (pr_pubkey r = None \<or> pr_pubkey r = Some pubkey)) (\<lambda>r. r\<lparr>pr_pubkey := Some pubkey\<rparr>)"

definition set_peer_gossip_url ::
    "(string \<Rightarrow> string option) \<Rightarrow> int \<Rightarrow> string option \<Rightarrow> database \<Rightarrow> (store_error, database \<times> bool) result" where
  "set_peer_gossip_url url_parse i url db =
     and_then
       (case map_option trim url of
          None \<Rightarrow> Inr None
        | Some raw \<Rightarrow>
            (if raw = [] then Inr None
             else and_then (ok_or (url_parse raw) (InvalidGossipUrl raw)) (\<lambda>u. Inr (Some u))))
       (\<lambda>u. Inr (update_peers (\<lambda>r. pr_id r = i) (\<lambda>r. r\<lparr>pr_gossip_url := u\<rparr>) db))"

definition set_peer_gossip_record :: "int \<Rightarrow> string \<Rightarrow> database \<Rightarrow> database" where
  "set_peer_gossip_record i record' db = fst (update_peers (\<lambda>r. pr_id r = i) (\<lambda>r. r\<lparr>pr_gossip_record := Some record'\<rparr>) db)"

definition peer_gossip_record :: "int \<Rightarrow> database \<Rightarrow> string option" where
  "peer_gossip_record i db = Option.bind (find (\<lambda>r. pr_id r = i) (db_peers db)) pr_gossip_record"

definition peer_gossip_records :: "int list \<Rightarrow> database \<Rightarrow> (int, string) hashmap" where
  "peer_gossip_records ids db =
     (if ids = [] then []
      else foldl (\<lambda>m r. case pr_gossip_record r of None \<Rightarrow> m | Some rec \<Rightarrow> hm_insert (pr_id r) rec m) []
             (filter (\<lambda>r. pr_id r \<in> set ids \<and> pr_gossip_record r \<noteq> None) (db_peers db)))"

section \<open>Transfers\<close>

definition record_transfer :: "int \<Rightarrow> int option \<Rightarrow> nat \<Rightarrow> nat \<Rightarrow> database \<Rightarrow> database" where
  "record_transfer now peer_id downloaded uploaded db =
     (if downloaded = 0 \<and> uploaded = 0 then db
      else
        (let d = saturating_i64 downloaded; u = saturating_i64 uploaded;
             tt = db_totals db;
             db1 = db\<lparr>db_totals := \<lparr>tt_downloaded = sql_add (tt_downloaded tt) d, tt_uploaded = sql_add (tt_uploaded tt) u,
                                    tt_updated_at = Some now\<rparr>\<rparr>
         in case peer_id of
              None \<Rightarrow> db1
            | Some i \<Rightarrow>
                fst (update_peers (\<lambda>r. pr_id r = i)
                       (\<lambda>r. r\<lparr>pr_downloaded := sql_add (pr_downloaded r) d, pr_uploaded := sql_add (pr_uploaded r) u\<rparr>) db1)))"

record transfer_totals =
  tot_downloaded :: int
  tot_uploaded :: int
  tot_updated_at :: "int option"

definition get_transfer_totals :: "database \<Rightarrow> (store_error, transfer_totals) result" where
  "get_transfer_totals db =
     and_then (read_i64 (tt_downloaded (db_totals db))) (\<lambda>d.
     and_then (read_i64 (tt_uploaded (db_totals db))) (\<lambda>u.
       Inr \<lparr>tot_downloaded = d, tot_uploaded = u, tot_updated_at = tt_updated_at (db_totals db)\<rparr>))"

section \<open>Audiences and feeds\<close>

type_synonym audiences = "(media_source \<times> int, string list) hashmap"

definition push_audience :: "audiences \<Rightarrow> audience_row \<Rightarrow> audiences" where
  "push_audience m r =
     (case media_source_parse (au_source r) of
        None \<Rightarrow> m
      | Some source \<Rightarrow>
          (let k = (source, au_file_id r); fs = (case map_of m k of None \<Rightarrow> [] | Some fs \<Rightarrow> fs)
           in hm_insert k (fs @ [au_friend r]) m))"

definition get_audiences :: "database \<Rightarrow> audiences" where
  "get_audiences db = foldl push_audience [] (db_audience db)"

definition audience_of :: "media_source \<Rightarrow> int \<Rightarrow> database \<Rightarrow> string list option" where
  "audience_of source file_id db =
     (let friends = map au_friend (filter (\<lambda>r. au_source r = media_source_str source \<and> au_file_id r = file_id) (db_audience db))
      in if friends \<noteq> [] then Some friends else None)"

text \<open>\<^verbatim>\<open>INSERT OR IGNORE\<close>, one row at a time; the audience is given in the hash map's own order.\<close>

definition insert_or_ignore :: "audience_row list \<Rightarrow> audience_row \<Rightarrow> audience_row list" where
  "insert_or_ignore rs r = (if r \<in> set rs then rs else rs @ [r])"

definition wanted_audience :: "media_source \<Rightarrow> (int, string list) hashmap \<Rightarrow> audience_row list" where
  "wanted_audience source audience =
     concat (map (\<lambda>(file_id, friends).
       map (\<lambda>f. \<lparr>au_source = media_source_str source, au_file_id = file_id, au_friend = f\<rparr>) friends) audience)"

definition replace_audience :: "media_source \<Rightarrow> (int, string list) hashmap \<Rightarrow> database \<Rightarrow> database" where
  "replace_audience source audience db =
     (let mine = filter (\<lambda>r. au_source r = media_source_str source) (db_audience db);
          others = filter (\<lambda>r. au_source r \<noteq> media_source_str source) (db_audience db);
          wanted = wanted_audience source audience
      in if set (map (\<lambda>r. (au_file_id r, au_friend r)) mine) = set (map (\<lambda>r. (au_file_id r, au_friend r)) wanted) then db
         else db\<lparr>db_audience := foldl insert_or_ignore others wanted\<rparr>)"

definition seeding_items_for :: "peer_scope \<Rightarrow> peer_limits \<Rightarrow> database \<Rightarrow> (store_error, shared_item list) result" where
  "seeding_items_for scope limits db =
     and_then (seeding_items scope (db_items db)) (\<lambda>is.
       Inr (filter (\<lambda>i. limits_admit limits i (map_of (get_audiences db) (shared_item_key i))) is))"

definition add_to_summary :: "seeding_summary \<Rightarrow> shared_item \<Rightarrow> seeding_summary" where
  "add_to_summary sm i =
     \<lparr>ss_count = ss_count sm + 1, ss_size = saturating_add_i64 (ss_size sm) (saturating_i64 (si_size i))\<rparr>"

definition seeding_summaries :: "peer list \<Rightarrow> database \<Rightarrow> (store_error, seeding_summary list) result" where
  "seeding_summaries ps db =
     (let audiences = get_audiences db
      in and_then (seeding_items ScopeAll (db_items db)) (\<lambda>is.
        Inr (map (\<lambda>p.
          (let limits = peer_limits_of p
           in foldl add_to_summary \<lparr>ss_count = 0, ss_size = 0\<rparr>
                (filter (\<lambda>i. scope_admits (p_scope p) i \<and> limits_admit limits i (map_of audiences (shared_item_key i))) is))) ps)))"

section \<open>The number beside a friend's name\<close>

lemma saturating_i64_bounds: "0 \<le> saturating_i64 n" "saturating_i64 n \<le> i64_max"
  by (auto simp: saturating_i64_def i64_try_from_def split: option.splits)

lemma add_to_summary_fold:
  assumes "0 \<le> ss_size sm" "ss_size sm \<le> i64_max"
  shows "ss_count (foldl add_to_summary sm is) = ss_count sm + int (length is) \<and>
    ss_size (foldl add_to_summary sm is) = min i64_max (ss_size sm + (\<Sum>i \<leftarrow> is. saturating_i64 (si_size i)))"
  using assms
proof (induction "is" arbitrary: sm)
  case (Cons i "is")
  let ?sm = "add_to_summary sm i"
  have sz: "ss_size ?sm = min i64_max (ss_size sm + saturating_i64 (si_size i))"
    using Cons.prems saturating_i64_bounds [of "si_size i"]
    by (simp add: add_to_summary_def saturating_add_i64_def min_def max_def)
  then have bounds: "0 \<le> ss_size ?sm" "ss_size ?sm \<le> i64_max"
    using Cons.prems saturating_i64_bounds(1) [of "si_size i"] by auto
  have "0 \<le> (\<Sum>i \<leftarrow> is. saturating_i64 (si_size i))" by (rule sum_list_nonneg) (auto simp: saturating_i64_bounds)
  then show ?case using Cons.IH [OF bounds] sz by (auto simp: min_def) (simp_all add: add_to_summary_def)
qed simp

text \<open>
  The count and size the Friends page shows beside each friend are those of the feed that friend is served, sizes
  added up to the largest 64-bit number and no further, whenever the full feed decodes; when it does not, the page
  fails as the feed of a friend with no limits does.
\<close>

lemma summaries_agree_with_feeds:
  assumes all': "seeding_items ScopeAll (db_items db) = Inr all'"
  shows "\<exists>sms. seeding_summaries ps db = Inr sms \<and>
     list_all2 (\<lambda>p sm. \<exists>is. seeding_items_for (p_scope p) (peer_limits_of p) db = Inr is \<and>
        ss_count sm = int (length is) \<and> ss_size sm = min i64_max (\<Sum>i \<leftarrow> is. saturating_i64 (si_size i))) ps sms"
proof -
  let ?feed = "\<lambda>p. filter (\<lambda>i. scope_admits (p_scope p) i \<and>
      limits_admit (peer_limits_of p) i (map_of (get_audiences db) (shared_item_key i))) all'"
  have feed: "seeding_items_for (p_scope p) (peer_limits_of p) db = Inr (?feed p)" for p
    by (simp add: seeding_items_for_def seeding_items_scope [OF all'] conj_commute)
  show ?thesis
    using all' feed add_to_summary_fold [of "\<lparr>ss_count = 0, ss_size = 0\<rparr>"]
    by (auto simp: seeding_summaries_def Let_def list_all2_map2 intro!: list_all2_same [THEN iffD2])
qed

section \<open>Audiences\<close>

lemma set_insert_or_ignore: "set (foldl insert_or_ignore rs xs) = set rs \<union> set xs"
  by (induction xs arbitrary: rs) (auto simp: insert_or_ignore_def)

text \<open>Replacing a source's audience leaves exactly what was found, and every other source's as it was.\<close>

lemma replace_audience_set:
  "set (db_audience (replace_audience source audience db)) =
     {r \<in> set (db_audience db). au_source r \<noteq> media_source_str source} \<union> set (wanted_audience source audience)"
proof (cases "db_audience (replace_audience source audience db) = db_audience db")
  case True
  let ?mine = "{r \<in> set (db_audience db). au_source r = media_source_str source}"
  have src: "r \<in> set (wanted_audience source audience) \<Longrightarrow> au_source r = media_source_str source" for r
    by (auto simp: wanted_audience_def)
  show ?thesis
  proof (cases "(\<lambda>r. (au_file_id r, au_friend r)) ` ?mine = (\<lambda>r. (au_file_id r, au_friend r)) ` set (wanted_audience source audience)")
    case eq: True
    have "inj_on (\<lambda>r. (au_file_id r, au_friend r)) {r :: audience_row. au_source r = media_source_str source}"
      by (auto simp: inj_on_def intro!: audience_row.equality)
    then have "?mine = set (wanted_audience source audience)"
      using eq src by (subst (asm) inj_on_image_eq_iff) auto
    then show ?thesis using True by auto
  next
    case False
    then show ?thesis by (simp add: replace_audience_def Let_def set_insert_or_ignore)
  qed
next
  case False
  then show ?thesis by (auto simp: replace_audience_def Let_def set_insert_or_ignore split: if_splits)
qed

section \<open>Running totals\<close>

lemma record_transfer_row:
  assumes "find (\<lambda>r. pr_id r = i) (db_peers db) = Some r" "\<not> (d = 0 \<and> u = 0)"
  shows "find (\<lambda>r. pr_id r = i) (db_peers (record_transfer now (Some i) d u db)) =
    Some (r\<lparr>pr_downloaded := sql_add (pr_downloaded r) (saturating_i64 d), pr_uploaded := sql_add (pr_uploaded r) (saturating_i64 u)\<rparr>)"
proof -
  have "find (\<lambda>r. pr_id r = i) (map (\<lambda>r. if pr_id r = i then g r else r) rs) = map_option g (find (\<lambda>r. pr_id r = i) rs)"
    if "\<And>r. pr_id (g r) = pr_id r" for g :: "peer_row \<Rightarrow> peer_row" and rs
    using that by (induction rs) auto
  then show ?thesis using assms by (auto simp: record_transfer_def update_peers_def sql_update_def Let_def)
qed

text \<open>
  A friend whose client reports enough bytes leaves the integers: two announces of the largest delta, and no read of
  their row succeeds any more.
\<close>

lemma transfer_overflow_breaks_reads:
  assumes "find (\<lambda>r. pr_id r = i) (db_peers db) = Some r" "pr_downloaded r = SqlInt 0"
  shows "get_peer i (record_transfer now (Some i) u64_max 0 (record_transfer now (Some i) u64_max 0 db)) = Inl (Sql ColumnDecode)"
proof -
  note once = record_transfer_row [OF assms(1), of u64_max 0 now]
  have "saturating_i64 u64_max = i64_max" by (simp add: saturating_i64_def i64_try_from_def)
  then show ?thesis using record_transfer_row [OF once, of u64_max 0 now] assms(2)
    by (simp add: get_peer_def optional_row_def row_to_peer_def read_i64_def sql_add_def i64_ok_def)
qed

end
