(* ===== verification/Peer_Endpoints.thy ===== *)
theory Peer_Endpoints
  imports Database
begin

text \<open>
  \<^verbatim>\<open>sharerr-store/src/endpoints.rs\<close>: where each friend has recently been seen. A sighting refreshes a known address
  only when it is newer, and each friend's history of a kind is pruned to the newest few.
\<close>

datatype endpoint_kind = ApiKind | ClientKind | TrackerKind

definition endpoint_kind_all :: "endpoint_kind list" where
  "endpoint_kind_all = [ApiKind, ClientKind, TrackerKind]"

definition endpoint_kind_str :: "endpoint_kind \<Rightarrow> string" where
  "endpoint_kind_str k = (case k of ApiKind \<Rightarrow> ''api'' | ClientKind \<Rightarrow> ''client'' | TrackerKind \<Rightarrow> ''tracker'')"

definition endpoint_kind_parse :: "string \<Rightarrow> endpoint_kind option" where
  "endpoint_kind_parse = str_enum_parse endpoint_kind_all endpoint_kind_str"

interpretation endpoint_kind: str_enum endpoint_kind_all endpoint_kind_str
proof
  show "v \<in> set endpoint_kind_all" for v by (cases v) (simp_all add: endpoint_kind_all_def)
qed (simp add: endpoint_kind_all_def endpoint_kind_str_def)

datatype observed_via = ViaDirect | ViaGossip | ViaLighthouse | ViaRestored

definition observed_via_all :: "observed_via list" where
  "observed_via_all = [ViaDirect, ViaGossip, ViaLighthouse, ViaRestored]"

definition observed_via_str :: "observed_via \<Rightarrow> string" where
  "observed_via_str v =
     (case v of ViaDirect \<Rightarrow> ''direct'' | ViaGossip \<Rightarrow> ''gossip'' | ViaLighthouse \<Rightarrow> ''lighthouse'' | ViaRestored \<Rightarrow> ''restored'')"

definition observed_via_parse :: "string \<Rightarrow> observed_via" where
  "observed_via_parse = str_enum_parse_lenient observed_via_all observed_via_str ViaRestored"

interpretation observed_via: str_enum observed_via_all observed_via_str
proof
  show "v \<in> set observed_via_all" for v by (cases v) (simp_all add: observed_via_all_def)
qed (simp add: observed_via_all_def observed_via_str_def)

record peer_endpoint =
  pe_kind :: endpoint_kind
  pe_addr :: string
  pe_observed_at :: int
  pe_via :: observed_via

definition row_to_endpoint :: "endpoint_row \<Rightarrow> peer_endpoint option" where
  "row_to_endpoint r =
     (case endpoint_kind_parse (er_kind r) of
        None \<Rightarrow> None
      | Some k \<Rightarrow> Some \<lparr>pe_kind = k, pe_addr = er_addr r, pe_observed_at = er_observed_at r, pe_via = observed_via_parse (er_via r)\<rparr>)"

section \<open>Writes\<close>

definition same_sighting :: "int \<Rightarrow> string \<Rightarrow> string \<Rightarrow> endpoint_row \<Rightarrow> bool" where
  "same_sighting peer_id kind addr r \<longleftrightarrow> er_peer_id r = peer_id \<and> er_kind r = kind \<and> er_addr r = addr"

definition new_endpoint :: "int \<Rightarrow> int \<Rightarrow> string \<Rightarrow> string \<Rightarrow> int \<Rightarrow> string \<Rightarrow> endpoint_row" where
  "new_endpoint i peer_id kind addr at via =
     \<lparr>er_id = i, er_peer_id = peer_id, er_kind = kind, er_addr = addr, er_observed_at = at, er_via = via\<rparr>"

text \<open>
  The two statements: \<^verbatim>\<open>UPSERT_NEWER\<close> replaces an older sighting of the address, \<^verbatim>\<open>INSERT_ONLY\<close> only fills a gap. The
  result tells whether a row was written.
\<close>

definition upsert_endpoint :: "bool \<Rightarrow> nat \<Rightarrow> int \<Rightarrow> string \<Rightarrow> string \<Rightarrow> int \<Rightarrow> string \<Rightarrow> database \<Rightarrow> database \<times> bool" where
  "upsert_endpoint newer gap peer_id kind addr at via db =
     (case find (same_sighting peer_id kind addr) (db_endpoints db) of
        None \<Rightarrow>
          (let i = db_last_endpoint db + 1 + int gap
           in (db\<lparr>db_endpoints := db_endpoints db @ [new_endpoint i peer_id kind addr at via], db_last_endpoint := i\<rparr>, True))
      | Some old \<Rightarrow>
          (if newer \<and> at > er_observed_at old then
             (db\<lparr>db_endpoints := map (\<lambda>r. if same_sighting peer_id kind addr r
                then r\<lparr>er_observed_at := at, er_via := via\<rparr> else r) (db_endpoints db)\<rparr>, True)
           else (db, False)))"

text \<open>What a claimed time is recorded as: never further ahead of our clock than the skew allowed.\<close>

definition observation_time :: "int \<Rightarrow> int option \<Rightarrow> int" where
  "observation_time now claimed =
     (case claimed of None \<Rightarrow> now | Some t \<Rightarrow> min t (saturating_add_i64 now MAX_FUTURE_SKEW_SECS))"

abbreviation history_scope :: "int \<Rightarrow> string \<Rightarrow> endpoint_row \<Rightarrow> bool" where
  "history_scope peer_id kind r \<equiv> er_peer_id r = peer_id \<and> er_kind r = kind"

definition record_peer_endpoint ::
    "nat \<Rightarrow> int \<Rightarrow> int \<Rightarrow> endpoint_kind \<Rightarrow> string \<Rightarrow> int option \<Rightarrow> observed_via \<Rightarrow> database \<Rightarrow> (store_error, database) result" where
  "record_peer_endpoint gap now peer_id kind addr claimed via db =
     (if \<not> peer_exists db peer_id then Inl (Sql ForeignKeyViolation)
      else
        (case upsert_endpoint (claimed \<noteq> None) gap peer_id (endpoint_kind_str kind) addr
                (observation_time now claimed) (observed_via_str via) db of
           (db', written) \<Rightarrow>
             Inr (if written
                  then db'\<lparr>db_endpoints := prune er_id er_observed_at (history_scope peer_id (endpoint_kind_str kind))
                             (rt_endpoint_history (db_retention db)) (db_endpoints db')\<rparr>
                  else db')))"

section \<open>Reads\<close>

text \<open>\<^verbatim>\<open>ORDER BY peer_id, kind, observed_at DESC, id DESC\<close>, grouped by friend.\<close>

definition peer_endpoints_for :: "int list \<Rightarrow> database \<Rightarrow> (int, peer_endpoint list) hashmap" where
  "peer_endpoints_for ids db =
     (if ids = [] then []
      else foldl (\<lambda>m r. case row_to_endpoint r of
                          None \<Rightarrow> m
                        | Some e \<Rightarrow> hm_insert (er_peer_id r) ((case map_of m (er_peer_id r) of None \<Rightarrow> [] | Some es \<Rightarrow> es) @ [e]) m)
             [] (sort_key (\<lambda>r. (er_peer_id r, er_kind r, - er_observed_at r, - er_id r))
                   (filter (\<lambda>r. er_peer_id r \<in> set ids) (db_endpoints db))))"

section \<open>What a sighting changes\<close>

lemma observation_time_bound: "observation_time now claimed \<le> max now (saturating_add_i64 now MAX_FUTURE_SKEW_SECS)"
  by (auto simp: observation_time_def split: option.split)

text \<open>A row after the statement is an old one, or the address seen, newer than anything recorded for it before.\<close>

lemma upsert_endpoint_rows:
  assumes "r \<in> set (db_endpoints (fst (upsert_endpoint newer gap i kind addr at via db)))" "r \<notin> set (db_endpoints db)"
    and uniq: "distinct (map (\<lambda>r. (er_peer_id r, er_kind r, er_addr r)) (db_endpoints db))"
  shows "same_sighting i kind addr r \<and> er_observed_at r = at \<and>
    (\<forall>old \<in> set (db_endpoints db). same_sighting i kind addr old \<longrightarrow> newer \<and> er_observed_at old < at)"
proof (cases "find (same_sighting i kind addr) (db_endpoints db)")
  case None
  then have "\<forall>x \<in> set (db_endpoints db). \<not> same_sighting i kind addr x" by (auto simp: find_None_iff)
  then show ?thesis using assms(1,2) unfolding upsert_endpoint_def None
    by (auto simp: Let_def new_endpoint_def same_sighting_def)
next
  case (Some old)
  then have old: "old \<in> set (db_endpoints db)" "same_sighting i kind addr old" by (auto simp: find_Some_iff)
  have only: "x = old" if "x \<in> set (db_endpoints db)" "same_sighting i kind addr x" for x
    using uniq that old by (auto simp: distinct_map inj_on_def same_sighting_def)
  show ?thesis using assms(1,2) only unfolding upsert_endpoint_def Some
    by (auto simp: same_sighting_def split: if_splits)
qed

lemma upsert_endpoint_outside:
  "filter (\<lambda>r. \<not> history_scope i kind r) (db_endpoints (fst (upsert_endpoint newer gap i kind addr at via db))) =
   filter (\<lambda>r. \<not> history_scope i kind r) (db_endpoints db)"
proof -
  have "filter (\<lambda>r. \<not> history_scope i kind r) (map (\<lambda>r. if same_sighting i kind addr r then g r else r) rs) =
      filter (\<lambda>r. \<not> history_scope i kind r) rs" if "\<And>r. history_scope i kind (g r) = history_scope i kind r" for g rs
    using that by (induction rs) (auto simp: same_sighting_def)
  then show ?thesis by (auto simp: upsert_endpoint_def Let_def new_endpoint_def split: option.split)
qed

end
