(* ===== verification/Store_Catalog.thy ===== *)
theory Store_Catalog
  imports Database
begin

text \<open>
  \<^verbatim>\<open>sharerr-store/src/catalog.rs\<close>: what each friend shares with us, as their catalog last listed it. The table of
  origins, in the same file, is with the items. A row whose JSON does not decode is skipped.
\<close>

definition catalog_row_of :: "int \<Rightarrow> catalog_entry \<Rightarrow> catalog_row" where
  "catalog_row_of peer_id e =
     \<lparr>cr_peer_id = peer_id, cr_info_hash = to_ascii_lowercase (ce_info_hash e), cr_spec = Decodes (ce_spec e), cr_ids = Decodes (ce_ids e),
      cr_size = saturating_i64 (ce_size e), cr_private = bool_int (ce_private e), cr_download_url = ce_download_url e\<rparr>"

text \<open>\<^verbatim>\<open>INSERT OR REPLACE\<close> on the key \<^verbatim>\<open>(peer_id, info_hash)\<close>.\<close>

definition insert_or_replace :: "catalog_row list \<Rightarrow> catalog_row \<Rightarrow> catalog_row list" where
  "insert_or_replace rs r =
     filter (\<lambda>x. \<not> (cr_peer_id x = cr_peer_id r \<and> cr_info_hash x = cr_info_hash r)) rs @ [r]"

definition replace_peer_catalog :: "int \<Rightarrow> catalog_entry list \<Rightarrow> database \<Rightarrow> (store_error, database) result" where
  "replace_peer_catalog peer_id entries db =
     (if entries \<noteq> [] \<and> \<not> peer_exists db peer_id then Inl (Sql ForeignKeyViolation)
      else Inr (db\<lparr>db_catalog := foldl insert_or_replace (filter (\<lambda>r. cr_peer_id r \<noteq> peer_id) (db_catalog db))
                                    (map (catalog_row_of peer_id) entries)\<rparr>))"

definition row_to_entry :: "catalog_row \<Rightarrow> catalog_entry option" where
  "row_to_entry r =
     (case (from_json (cr_spec r), from_json (cr_ids r)) of
        (Some spec, Some ids) \<Rightarrow>
          Some \<lparr>ce_info_hash = cr_info_hash r, ce_spec = spec, ce_ids = ids,
            ce_size = (case u64_try_from (cr_size r) of None \<Rightarrow> 0 | Some n \<Rightarrow> n), ce_private = (cr_private r \<noteq> 0),
            ce_download_url = cr_download_url r\<rparr>
      | _ \<Rightarrow> None)"

text \<open>\<^verbatim>\<open>JOIN peers .. WHERE size = ? AND revoked_at IS NULL ORDER BY p.id, c.info_hash\<close>, then the in-memory match.\<close>

definition peer_active :: "database \<Rightarrow> int \<Rightarrow> bool" where
  "peer_active db i \<longleftrightarrow> list_ex (\<lambda>p. pr_id p = i \<and> pr_revoked_at p = None) (db_peers db)"

definition peer_catalog_matches :: "media_spec \<Rightarrow> external_ids \<Rightarrow> nat \<Rightarrow> database \<Rightarrow> (int \<times> catalog_entry) list" where
  "peer_catalog_matches spec ids size' db =
     List.map_filter (\<lambda>r. case row_to_entry r of
                            None \<Rightarrow> None
                          | Some e \<Rightarrow> if catalog_matches e spec ids size' then Some (cr_peer_id r, e) else None)
       (sort_key (\<lambda>r. (cr_peer_id r, cr_info_hash r))
           (filter (\<lambda>r. cr_size r = saturating_i64 size' \<and> peer_active db (cr_peer_id r)) (db_catalog db)))"

definition peer_catalog_sizes :: "database \<Rightarrow> (int, int) hashmap" where
  "peer_catalog_sizes db =
     map (\<lambda>i. (i, int (length (filter (\<lambda>r. cr_peer_id r = i) (db_catalog db)))))
       (sort (remdups (map cr_peer_id (db_catalog db))))"

end
