(* ===== verification/Store_History.thy ===== *)
theory Store_History
  imports Database
begin

text \<open>
  \<^verbatim>\<open>sharerr-store/src/swarm.rs\<close> and \<^verbatim>\<open>runs.rs\<close>: the periodic record of swarm totals and the history of
  reconciliation runs, both pruned on write to the limits of \<^verbatim>\<open>retention.rs\<close>.
\<close>

section \<open>Swarm samples\<close>

record swarm_sample =
  sm_sampled_at :: int
  sm_swarms :: int
  sm_peers :: int
  sm_seeders :: int

definition record_swarm_sample :: "nat \<Rightarrow> swarm_sample \<Rightarrow> database \<Rightarrow> database" where
  "record_swarm_sample gap s db =
     (let i = db_last_sample db + 1 + int gap;
          r = \<lparr>sr_id = i, sr_sampled_at = sm_sampled_at s, sr_swarms = sm_swarms s, sr_peers = sm_peers s, sr_seeders = sm_seeders s\<rparr>
      in db\<lparr>db_samples := prune sr_id sr_sampled_at (\<lambda>_. True) (rt_swarm_samples (db_retention db)) (db_samples db @ [r]),
            db_last_sample := i\<rparr>)"

definition row_to_sample :: "sample_row \<Rightarrow> swarm_sample" where
  "row_to_sample r =
     \<lparr>sm_sampled_at = sr_sampled_at r, sm_swarms = sr_swarms r, sm_peers = sr_peers r, sm_seeders = sr_seeders r\<rparr>"

text \<open>
  The inner query takes the newest; the outer \<^verbatim>\<open>ORDER BY sampled_at ASC\<close> is a stable sort of what it returned, newest
  first.
\<close>

definition recent_swarm_samples :: "int \<Rightarrow> database \<Rightarrow> swarm_sample list" where
  "recent_swarm_samples limit db =
     map row_to_sample (sort_key sr_sampled_at
       (sql_limit limit (rev (sort_key (\<lambda>r. (sr_sampled_at r, sr_id r)) (db_samples db)))))"

definition last_active_swarm_sample_at :: "database \<Rightarrow> int option" where
  "last_active_swarm_sample_at db =
     (case filter (\<lambda>r. 0 < sr_peers r) (db_samples db) of
        [] \<Rightarrow> None
      | r # rs \<Rightarrow> Some (foldl (\<lambda>m x. max m (sr_sampled_at x)) (sr_sampled_at r) rs))"

section \<open>Runs\<close>

record run_summary =
  rs_discovered :: int
  rs_added :: int
  rs_unshared :: int
  rs_failed :: int
  rs_error :: "string option"

record run_record =
  run_id :: int
  run_started_at :: int
  run_finished_at :: "int option"
  run_summary_of :: run_summary

definition begin_run :: "nat \<Rightarrow> int \<Rightarrow> database \<Rightarrow> database \<times> int" where
  "begin_run gap now db =
     (let i = db_last_run db + 1 + int gap
      in (db\<lparr>db_runs := db_runs db @ [\<lparr>rr_id = i, rr_started_at = now, rr_finished_at = None, rr_discovered = 0, rr_added = 0,
                                       rr_unshared = 0, rr_failed = 0, rr_error = None\<rparr>], db_last_run := i\<rparr>, i))"

definition finish_run :: "int \<Rightarrow> int \<Rightarrow> run_summary \<Rightarrow> database \<Rightarrow> database" where
  "finish_run now i s db =
     (let rs = fst (sql_update (\<lambda>r. rr_id r = i)
                 (\<lambda>r. r\<lparr>rr_finished_at := Some now, rr_discovered := rs_discovered s, rr_added := rs_added s,
                        rr_unshared := rs_unshared s, rr_failed := rs_failed s, rr_error := rs_error s\<rparr>) (db_runs db));
          keep = rt_sync_runs (db_retention db)
      in db\<lparr>db_runs := (if keep > 0 then prune rr_id rr_id (\<lambda>_. True) keep rs else rs)\<rparr>)"

definition row_to_run :: "run_row \<Rightarrow> run_record" where
  "row_to_run r =
     \<lparr>run_id = rr_id r, run_started_at = rr_started_at r, run_finished_at = rr_finished_at r,
      run_summary_of = \<lparr>rs_discovered = rr_discovered r, rs_added = rr_added r, rs_unshared = rr_unshared r,
                        rs_failed = rr_failed r, rs_error = rr_error r\<rparr>\<rparr>"

definition recent_runs :: "int \<Rightarrow> database \<Rightarrow> run_record list" where
  "recent_runs limit db = map row_to_run (sql_limit limit (rev (sort_key rr_id (db_runs db))))"

fun join_parts :: "string \<Rightarrow> string list \<Rightarrow> string" where
  "join_parts sep [] = []"
| "join_parts sep [x] = x"
| "join_parts sep (x # xs) = x @ sep @ join_parts sep xs"

definition describe_run :: "run_summary \<Rightarrow> bool \<Rightarrow> string \<times> bool" where
  "describe_run s with_discovered =
     (case rs_error s of
        Some e \<Rightarrow> (e, True)
      | None \<Rightarrow>
          (join_parts '', ''
             ((if with_discovered then [show_int (rs_discovered s) @ '' discovered''] else []) @
              (if rs_added s > 0 then [show_int (rs_added s) @ '' added''] else []) @
              (if rs_unshared s > 0 then [show_int (rs_unshared s) @ '' unshared''] else []) @
              (if rs_failed s > 0 then [show_int (rs_failed s) @ '' failed''] else [])),
           rs_failed s > 0))"

end
