(* ===== verification/Store.thy ===== *)
theory Store
  imports Peers Peer_Endpoints Store_Catalog Store_History
begin

text \<open>
  The database as one component: every write of the store as an event, the invariant the schema and the statements
  keep between them, and how a friend's row may change over any history of writes.
\<close>

section \<open>Every write\<close>

datatype db_op =
    ItemWrite item_op
  | CreatePeer nat int string string peer_scope
  | TouchWrite touch int int
  | RevokePeer int int
  | SetPeerLimits int "int option" "int option"
  | SetPeerScope int peer_scope
  | DeletePeer int
  | BindPubkey int string
  | SetGossipUrl int "string option"
  | SetGossipRecord int string
  | RecordTransfer int "int option" nat nat
  | RecordEndpoint nat int int endpoint_kind string "int option" observed_via
  | ReplaceCatalog int "catalog_entry list"
  | ReplaceAudience media_source "(int, string list) hashmap"
  | RecordSample nat swarm_sample
  | BeginRun nat int
  | FinishRun int int run_summary
  | SetRetention retention

text \<open>The foreign key of an origin is checked against this database's own friends.\<close>

definition item_write :: "item_op \<Rightarrow> database \<Rightarrow> database" where
  "item_write op db =
     db\<lparr>db_items := items_step (db_items db)
          (case op of SetItemOrigin _ source file_id origin \<Rightarrow> SetItemOrigin (peer_exists db) source file_id origin | _ \<Rightarrow> op)\<rparr>"

definition or_keep :: "database \<Rightarrow> (store_error, database) result \<Rightarrow> database" where
  "or_keep db res = (case res of Inl _ \<Rightarrow> db | Inr db' \<Rightarrow> db')"

definition db_step :: "(string \<Rightarrow> string) \<Rightarrow> (string \<Rightarrow> string option) \<Rightarrow> database \<Rightarrow> db_op \<Rightarrow> database" where
  "db_step hash_key url_parse db e =
     (case e of
        ItemWrite op \<Rightarrow> item_write op db
      | CreatePeer gap now label key scope \<Rightarrow>
          or_keep db (and_then (create_peer hash_key gap now label key scope db) (\<lambda>(db', _). Inr db'))
      | TouchWrite t now i \<Rightarrow> fst (touch_write t now i db)
      | RevokePeer now i \<Rightarrow> fst (revoke_peer now i db)
      | SetPeerLimits i s h \<Rightarrow> fst (set_peer_limits i s h db)
      | SetPeerScope i s \<Rightarrow> fst (set_peer_scope i s db)
      | DeletePeer i \<Rightarrow> fst (delete_peer i db)
      | BindPubkey i k \<Rightarrow> fst (bind_peer_pubkey i k db)
      | SetGossipUrl i u \<Rightarrow> or_keep db (and_then (set_peer_gossip_url url_parse i u db) (\<lambda>(db', _). Inr db'))
      | SetGossipRecord i rec \<Rightarrow> set_peer_gossip_record i rec db
      | RecordTransfer now i d u \<Rightarrow> record_transfer now i d u db
      | RecordEndpoint gap now i k addr t v \<Rightarrow> or_keep db (record_peer_endpoint gap now i k addr t v db)
      | ReplaceCatalog i es \<Rightarrow> or_keep db (replace_peer_catalog i es db)
      | ReplaceAudience source a \<Rightarrow> replace_audience source a db
      | RecordSample gap s \<Rightarrow> record_swarm_sample gap s db
      | BeginRun gap now \<Rightarrow> fst (begin_run gap now db)
      | FinishRun now i s \<Rightarrow> finish_run now i s db
      | SetRetention rt \<Rightarrow> set_retention rt db)"

section \<open>How a friend's row changes\<close>

text \<open>
  A friend keeps their id, name and key for good; a revocation is never undone or re-dated, a bound identity is never
  replaced, and a friend once seen is never unseen.
\<close>

definition row_later :: "peer_row \<Rightarrow> peer_row \<Rightarrow> bool" where
  "row_later r r' \<longleftrightarrow>
     pr_id r' = pr_id r \<and> pr_label r' = pr_label r \<and> pr_key_hash r' = pr_key_hash r \<and> pr_created_at r' = pr_created_at r \<and>
     (pr_revoked_at r \<noteq> None \<longrightarrow> pr_revoked_at r' = pr_revoked_at r) \<and>
     (pr_pubkey r \<noteq> None \<longrightarrow> pr_pubkey r' = pr_pubkey r) \<and>
     (pr_last_seen_at r \<noteq> None \<longrightarrow> pr_last_seen_at r' \<noteq> None)"

lemma row_later_refl [simp]: "row_later r r"
  by (simp add: row_later_def)

lemma row_later_ex [intro]: "r \<in> S \<Longrightarrow> \<exists>x \<in> S. row_later r x" "r \<in> S \<Longrightarrow> \<exists>x \<in> S. row_later x r"
  by (auto intro: bexI [of _ r])

lemma row_later_id: "row_later r r' \<Longrightarrow> pr_id r' = pr_id r"
  by (simp add: row_later_def)

lemma row_later_trans: "row_later r r' \<Longrightarrow> row_later r' r'' \<Longrightarrow> row_later r r''"
  by (auto simp: row_later_def)

text \<open>A rewriting of the table of friends: each row evolves in place.\<close>

definition peers_rewritten :: "database \<Rightarrow> database \<Rightarrow> bool" where
  "peers_rewritten db db' \<longleftrightarrow> list_all2 row_later (db_peers db) (db_peers db') \<and> db_last_peer db' = db_last_peer db"

lemma peers_rewritten_same:
  "db_peers db' = db_peers db \<Longrightarrow> db_last_peer db' = db_last_peer db \<Longrightarrow> peers_rewritten db db'"
  by (simp add: peers_rewritten_def list.rel_refl)

lemma update_peers_rewritten:
  "(\<And>r. cond r \<Longrightarrow> row_later r (assign r)) \<Longrightarrow> peers_rewritten db (fst (update_peers cond assign db))"
  by (auto simp: peers_rewritten_def update_peers_def sql_update_def list_all2_conv_all_nth)

lemma update_peers_rewritten_from:
  "db_peers db1 = db_peers db \<Longrightarrow> db_last_peer db1 = db_last_peer db \<Longrightarrow> (\<And>r. row_later r (assign r)) \<Longrightarrow>
   peers_rewritten db (fst (update_peers cond assign db1))"
  using update_peers_rewritten [of cond assign db1] by (simp add: peers_rewritten_def)

lemmas peer_updates = touch_write_def revoke_peer_def set_peer_limits_def set_peer_scope_def bind_peer_pubkey_def
  set_peer_gossip_record_def

lemma step_rewrites:
  assumes "\<forall>gap now label key scope. e \<noteq> CreatePeer gap now label key scope" "\<forall>i. e \<noteq> DeletePeer i"
  shows "peers_rewritten db (db_step hash_key url_parse db e)"
proof (cases e)
  case (SetGossipUrl i u)
  have "db_step hash_key url_parse db e = db \<or>
      (\<exists>x. db_step hash_key url_parse db e = fst (update_peers (\<lambda>r. pr_id r = i) (\<lambda>r. r\<lparr>pr_gossip_url := x\<rparr>) db))"
    using SetGossipUrl
    by (auto simp: db_step_def or_keep_def set_peer_gossip_url_def case_prod_beta split: sum.split)
       (metis fst_conv)
  then show ?thesis
    by (auto simp: row_later_def intro!: update_peers_rewritten intro: peers_rewritten_same)
next
  case (RecordTransfer now i d u)
  then show ?thesis
    by (auto simp: db_step_def record_transfer_def Let_def row_later_def
        intro!: update_peers_rewritten_from intro: peers_rewritten_same split: option.split)
qed (use assms in \<open>auto simp: db_step_def peer_updates row_later_def item_write_def or_keep_def record_peer_endpoint_def
    upsert_endpoint_def replace_peer_catalog_def replace_audience_def record_swarm_sample_def begin_run_def finish_run_def
    set_retention_def Let_def case_prod_beta intro!: update_peers_rewritten peers_rewritten_same
    split: sum.split touch.split option.splits\<close>)


lemma list_all2_ex1: "list_all2 P xs ys \<Longrightarrow> x \<in> set xs \<Longrightarrow> \<exists>y \<in> set ys. P x y"
  by (induction rule: list_all2_induct) auto

lemma list_all2_ex2: "list_all2 P xs ys \<Longrightarrow> y \<in> set ys \<Longrightarrow> \<exists>x \<in> set xs. P x y"
  by (induction rule: list_all2_induct) auto

lemma create_peer_cases:
  obtains "db_step hash_key url_parse db (CreatePeer gap now label key scope) = db"
  | l where "validate_label label = Inr l" "\<forall>r \<in> set (db_peers db). pr_label r \<noteq> l \<and> pr_key_hash r \<noteq> hash_key key"
      "db_step hash_key url_parse db (CreatePeer gap now label key scope) =
        db\<lparr>db_peers := db_peers db @ [new_peer_row (db_last_peer db + 1 + int gap) l (hash_key key) now scope],
           db_last_peer := db_last_peer db + 1 + int gap\<rparr>"
proof (cases "validate_label label")
  case (Inl e)
  then show thesis using that(1) by (simp add: db_step_def or_keep_def create_peer_def)
next
  case (Inr l)
  show thesis
  proof (cases "list_ex (\<lambda>r. pr_label r = l \<or> pr_key_hash r = hash_key key) (db_peers db)")
    case True
    then show thesis using that(1) Inr by (simp add: db_step_def or_keep_def create_peer_def)
  next
    case False
    then show thesis using that(2) [OF Inr] Inr
      by (auto simp: db_step_def or_keep_def create_peer_def Let_def row_to_peer_def read_i64_def new_peer_row_def list_ex_iff)
  qed
qed

text \<open>So a step issues a friend, deletes one, or rewrites rows in place.\<close>

lemma step_cases:
  obtains (same) "peers_rewritten db (db_step hash_key url_parse db e)"
  | (issued) gap now l key scope where "\<forall>r \<in> set (db_peers db). pr_label r \<noteq> l \<and> pr_key_hash r \<noteq> hash_key key"
      "db_step hash_key url_parse db e =
        db\<lparr>db_peers := db_peers db @ [new_peer_row (db_last_peer db + 1 + int gap) l (hash_key key) now scope],
           db_last_peer := db_last_peer db + 1 + int gap\<rparr>"
  | (deleted) i where "e = DeletePeer i" "db_step hash_key url_parse db e = fst (delete_peer i db)"
proof (cases "\<exists>gap now label key scope. e = CreatePeer gap now label key scope")
  case True
  then obtain gap now label key scope where e: "e = CreatePeer gap now label key scope" by blast
  show thesis
    by (rule create_peer_cases [of hash_key url_parse db gap now label key scope])
       (use e same issued peers_rewritten_same in auto)
next
  case False
  show thesis
  proof (cases "\<exists>i. e = DeletePeer i")
    case True
    then show thesis using deleted by (auto simp: db_step_def)
  next
    case False': False
    show thesis by (rule same, rule step_rewrites) (use False False' in auto)
  qed
qed

text \<open>Every later row comes from an earlier one or is newly issued; every earlier row survives unless its friend is deleted.\<close>

lemma step_rows_from:
  assumes "r' \<in> set (db_peers (db_step hash_key url_parse db e))"
  shows "(\<exists>r \<in> set (db_peers db). row_later r r') \<or> db_last_peer db < pr_id r'"
proof (cases rule: step_cases [of db hash_key url_parse e])
  case same
  then have "list_all2 row_later (db_peers db) (db_peers (db_step hash_key url_parse db e))" by (simp add: peers_rewritten_def)
  from list_all2_ex2 [OF this assms] show ?thesis by blast
next
  case (issued gap now l key scope)
  then show ?thesis using assms by (auto simp: new_peer_row_def)
next
  case (deleted i)
  then show ?thesis using assms by (auto simp: delete_peer_def)
qed

lemma step_rows_survive:
  assumes "r \<in> set (db_peers db)" "e \<noteq> DeletePeer (pr_id r)"
  shows "\<exists>r' \<in> set (db_peers (db_step hash_key url_parse db e)). row_later r r'"
proof (cases rule: step_cases [of db hash_key url_parse e])
  case same
  then have "list_all2 row_later (db_peers db) (db_peers (db_step hash_key url_parse db e))" by (simp add: peers_rewritten_def)
  from list_all2_ex1 [OF this assms(1)] show ?thesis .
next
  case (issued gap now l key scope)
  then show ?thesis using assms by (auto intro: bexI [of _ r])
next
  case (deleted i)
  then show ?thesis using assms by (auto simp: delete_peer_def intro: bexI [of _ r])
qed

lemma step_last_peer: "db_last_peer db \<le> db_last_peer (db_step hash_key url_parse db e)"
  by (cases rule: step_cases [of db hash_key url_parse e]) (auto simp: peers_rewritten_def delete_peer_def)

text \<open>A friend's row over a run that does not delete them.\<close>

definition friend_later :: "int \<Rightarrow> database \<Rightarrow> database \<Rightarrow> bool" where
  "friend_later i db db' \<longleftrightarrow> (\<forall>r \<in> set (db_peers db). pr_id r = i \<longrightarrow> (\<exists>r' \<in> set (db_peers db'). row_later r r'))"

interpretation friend: evolution "db_step hash_key url_parse" "friend_later i" "\<lambda>e. e \<noteq> DeletePeer i"
  for hash_key url_parse i
proof
  show "friend_later i db db" for db by (auto simp: friend_later_def)
  show "friend_later i db db' \<Longrightarrow> friend_later i db' db'' \<Longrightarrow> friend_later i db db''" for db db' db''
    unfolding friend_later_def by (metis row_later_def row_later_trans)
  show "e \<noteq> DeletePeer i \<Longrightarrow> friend_later i db (db_step hash_key url_parse db e)" for e db
    using step_rows_survive by (auto simp: friend_later_def)
qed

section \<open>The database's invariant\<close>

definition peers_ok :: "database \<Rightarrow> bool" where
  "peers_ok db \<longleftrightarrow>
     distinct (map pr_id (db_peers db)) \<and> distinct (map pr_label (db_peers db)) \<and> distinct (map pr_key_hash (db_peers db)) \<and>
     list_all (\<lambda>r. pr_id r \<le> db_last_peer db) (db_peers db)"

definition peer_ids :: "database \<Rightarrow> int set" where
  "peer_ids db = pr_id ` set (db_peers db)"

text \<open>The friends other tables refer to.\<close>

definition origin_refs :: "items_table \<Rightarrow> int set" where
  "origin_refs t = {i. \<exists>r \<in> set (origins t). or_peer_id r = Some i}"

definition peer_refs :: "database \<Rightarrow> int set" where
  "peer_refs db = er_peer_id ` set (db_endpoints db) \<union> cr_peer_id ` set (db_catalog db) \<union> origin_refs (db_items db)"

abbreviation sighting_key :: "endpoint_row \<Rightarrow> int \<times> string \<times> string" where
  "sighting_key r \<equiv> (er_peer_id r, er_kind r, er_addr r)"

definition endpoints_ok :: "database \<Rightarrow> bool" where
  "endpoints_ok db \<longleftrightarrow>
     distinct (map sighting_key (db_endpoints db)) \<and> distinct (map er_id (db_endpoints db)) \<and>
     list_all (\<lambda>r. er_id r \<le> db_last_endpoint db) (db_endpoints db)"

definition db_ok :: "database \<Rightarrow> bool" where
  "db_ok db \<longleftrightarrow> items_ok (db_items db) \<and> peers_ok db \<and> endpoints_ok db \<and> peer_refs db \<subseteq> peer_ids db"

lemma list_all2_map_eq: "list_all2 P xs ys \<Longrightarrow> (\<And>x y. P x y \<Longrightarrow> k y = k x) \<Longrightarrow> map k ys = map k xs"
  by (induction rule: list_all2_induct) auto

lemma peer_exists_ids: "peer_exists db i \<longleftrightarrow> i \<in> peer_ids db"
  by (auto simp: peer_exists_def peer_ids_def list_ex_iff)

lemma rewritten_keys:
  assumes "peers_rewritten db db'"
  shows "map pr_id (db_peers db') = map pr_id (db_peers db)" "map pr_label (db_peers db') = map pr_label (db_peers db)"
    "map pr_key_hash (db_peers db') = map pr_key_hash (db_peers db)"
  using assms unfolding peers_rewritten_def by (auto intro!: list_all2_map_eq simp: row_later_def)

lemma rewritten_ids: "peers_rewritten db db' \<Longrightarrow> peer_ids db' = peer_ids db"
  using rewritten_keys(1) by (metis peer_ids_def set_map)

lemma peers_ok_rewritten: "peers_rewritten db db' \<Longrightarrow> peers_ok db \<Longrightarrow> peers_ok db'"
proof -
  assume rw: "peers_rewritten db db'" and ok: "peers_ok db"
  have "pr_id r \<le> db_last_peer db" if "r \<in> set (db_peers db')" for r
    using rw ok that rewritten_ids [OF rw]
    by (force simp: peers_ok_def list_all_iff peer_ids_def)
  then show ?thesis using rw ok rewritten_keys [OF rw]
    by (simp add: peers_ok_def list_all_iff) (simp add: peers_rewritten_def)
qed

lemma peers_ok_step: "peers_ok db \<Longrightarrow> peers_ok (db_step hash_key url_parse db e)"
proof (cases rule: step_cases [of db hash_key url_parse e])
  case (issued gap now l key scope)
  assume "peers_ok db"
  then show ?thesis using issued
    by (fastforce simp: peers_ok_def list_all_iff new_peer_row_def)
next
  case (deleted i)
  assume "peers_ok db"
  then show ?thesis using deleted
    by (auto simp: peers_ok_def list_all_iff delete_peer_def distinct_map_filter)
qed (auto intro: peers_ok_rewritten)

lemma item_write_items: "\<exists>op'. db_items (item_write op db) = items_step (db_items db) op'"
  by (auto simp: item_write_def)

text \<open>What a write that issues or deletes nobody can make other tables refer to.\<close>

lemma origin_refs_items_step:
  "(\<forall>known source file_id origin. op = SetItemOrigin known source file_id origin \<longrightarrow> (\<forall>i. known i \<longrightarrow> i \<in> S)) \<Longrightarrow>
   origin_refs (items_step t op) \<subseteq> origin_refs t \<union> S"
  by (cases op) (auto simp: items_step_def item_writes item_upsert_def update_item_def origin_refs_def clear_item_origin_def
      set_item_origin_def origin_conflict_def Let_def split: option.splits sum.splits if_splits)

lemma set_foldl_insert_or_replace: "set (foldl insert_or_replace rs xs) \<subseteq> set rs \<union> set xs"
proof (induction xs arbitrary: rs)
  case (Cons x xs)
  have "set (insert_or_replace rs x) \<subseteq> insert x (set rs)" by (auto simp: insert_or_replace_def)
  then show ?case using Cons [of "insert_or_replace rs x"] by auto
qed simp

lemma update_peers_other [simp]:
  "db_endpoints (fst (update_peers cond assign db)) = db_endpoints db" "db_catalog (fst (update_peers cond assign db)) = db_catalog db"
  "db_items (fst (update_peers cond assign db)) = db_items db" "db_last_endpoint (fst (update_peers cond assign db)) = db_last_endpoint db"
  by (simp_all add: update_peers_def sql_update_def)

definition untouched :: "database \<Rightarrow> database \<Rightarrow> bool" where
  "untouched db db' \<longleftrightarrow> db_endpoints db' = db_endpoints db \<and> db_last_endpoint db' = db_last_endpoint db \<and>
     db_catalog db' = db_catalog db \<and> db_items db' = db_items db"

lemma untouched_refl [simp]: "untouched db db"
  by (simp add: untouched_def)

lemma untouched_update_peers [simp]: "untouched db (fst (update_peers cond assign db))"
  by (simp add: untouched_def)

lemma gossip_url_untouched: "set_peer_gossip_url url_parse i u db = Inr (db', c) \<Longrightarrow> untouched db db'"
  by (auto simp: set_peer_gossip_url_def dest!: arg_cong [of "update_peers _ _ _" _ fst])

lemma create_peer_untouched: "create_peer hash_key gap now label key scope db = Inr (db', p) \<Longrightarrow> untouched db db'"
  by (auto simp: create_peer_def untouched_def Let_def split: if_splits)

text \<open>Only these writes reach the tables that refer to friends.\<close>

lemma step_touches:
  obtains (unchanged) "untouched db (db_step hash_key url_parse db e)"
  | (items) op where "e = ItemWrite op"
  | (endpoint) gap now i k addr t v where "e = RecordEndpoint gap now i k addr t v"
  | (catalog) i es where "e = ReplaceCatalog i es"
  | (delete) i where "e = DeletePeer i"
proof (cases e)
  case (SetGossipUrl i u)
  show thesis by (rule unchanged)
    (auto simp: SetGossipUrl db_step_def or_keep_def and_then_def case_prod_beta split: sum.split intro: gossip_url_untouched prod_eqI)
next
  case (CreatePeer gap now label key scope)
  show thesis by (rule unchanged)
    (auto simp: CreatePeer db_step_def or_keep_def and_then_def case_prod_beta split: sum.split intro: create_peer_untouched prod_eqI)
next
  case (RecordTransfer now i d u)
  show thesis by (rule unchanged)
    (auto simp: RecordTransfer db_step_def record_transfer_def Let_def untouched_def split: option.split)
next
  case (TouchWrite t now i)
  show thesis by (rule unchanged)
    (auto simp: TouchWrite db_step_def touch_write_def case_prod_beta split: touch.split)
qed (auto simp: db_step_def peer_updates untouched_def replace_audience_def record_swarm_sample_def begin_run_def
    finish_run_def set_retention_def Let_def intro: that unchanged)

lemma items_ok_delete_origins: "items_ok t \<Longrightarrow> items_ok (t\<lparr>origins := filter P (origins t)\<rparr>)"
  by (simp add: items_ok_def distinct_map_filter)

lemma items_ok_db_step: "items_ok (db_items db) \<Longrightarrow> items_ok (db_items (db_step hash_key url_parse db e))"
proof (cases rule: step_touches [of db hash_key url_parse e])
  case (items op)
  assume "items_ok (db_items db)"
  then show ?thesis using item_write_items [of op db] items by (auto simp: db_step_def intro: items_ok_step)
qed (auto simp: untouched_def db_step_def or_keep_def record_peer_endpoint_def upsert_endpoint_def replace_peer_catalog_def
    delete_peer_def Let_def intro: items_ok_delete_origins split: option.splits sum.splits prod.splits if_splits)

lemma upsert_endpoint_refs:
  "er_peer_id ` set (db_endpoints (fst (upsert_endpoint newer gap i kind addr at via db))) \<subseteq> insert i (er_peer_id ` set (db_endpoints db))"
  by (auto simp: upsert_endpoint_def Let_def new_endpoint_def split: option.split)

lemma upsert_endpoint_other [simp]:
  "db_catalog (fst (upsert_endpoint newer gap i kind addr at via db)) = db_catalog db"
  "db_items (fst (upsert_endpoint newer gap i kind addr at via db)) = db_items db"
  "db_peers (fst (upsert_endpoint newer gap i kind addr at via db)) = db_peers db"
  by (auto simp: upsert_endpoint_def Let_def split: option.split)

lemma record_endpoint_refs:
  assumes "record_peer_endpoint gap now i k addr t v db = Inr db'"
  shows "db_catalog db' = db_catalog db" "db_items db' = db_items db" "i \<in> peer_ids db"
    "er_peer_id ` set (db_endpoints db') \<subseteq> insert i (er_peer_id ` set (db_endpoints db))"
proof -
  let ?u = "upsert_endpoint (t \<noteq> None) gap i (endpoint_kind_str k) addr (observation_time now t) (observed_via_str v) db"
  have eq: "db' = (if snd ?u then (fst ?u)\<lparr>db_endpoints := prune er_id er_observed_at (history_scope i (endpoint_kind_str k))
      (rt_endpoint_history (db_retention db)) (db_endpoints (fst ?u))\<rparr> else fst ?u)" and "i \<in> peer_ids db"
    using assms by (auto simp: record_peer_endpoint_def peer_exists_ids case_prod_beta split: if_splits)
  have "set (db_endpoints db') \<subseteq> set (db_endpoints (fst ?u))"
    unfolding eq using set_prune [of er_id er_observed_at "history_scope i (endpoint_kind_str k)"] by auto
  then show "er_peer_id ` set (db_endpoints db') \<subseteq> insert i (er_peer_id ` set (db_endpoints db))"
    using upsert_endpoint_refs [of "t \<noteq> None" gap i "endpoint_kind_str k" addr "observation_time now t" "observed_via_str v" db]
    by (meson image_mono subset_trans)
  show "db_catalog db' = db_catalog db" "db_items db' = db_items db" "i \<in> peer_ids db"
    using eq \<open>i \<in> peer_ids db\<close> by (auto split: if_splits)
qed

lemma replace_catalog_refs:
  assumes "replace_peer_catalog i es db = Inr db'"
  shows "peer_refs db' \<subseteq> peer_refs db \<union> peer_ids db" "peer_ids db' = peer_ids db"
proof -
  let ?cat = "foldl insert_or_replace (filter (\<lambda>r. cr_peer_id r \<noteq> i) (db_catalog db)) (map (catalog_row_of i) es)"
  have db': "db' = db\<lparr>db_catalog := ?cat\<rparr>" and i: "es \<noteq> [] \<Longrightarrow> i \<in> peer_ids db"
    using assms by (auto simp: replace_peer_catalog_def peer_exists_ids split: if_splits)
  have "cr_peer_id r \<in> cr_peer_id ` set (db_catalog db) \<union> peer_ids db" if "r \<in> set ?cat" for r
    using subsetD [OF set_foldl_insert_or_replace that] i by (cases es) (auto simp: catalog_row_of_def)
  then show "peer_refs db' \<subseteq> peer_refs db \<union> peer_ids db" unfolding db' peer_refs_def by auto
  show "peer_ids db' = peer_ids db" by (simp add: db' peer_ids_def)
qed

lemma delete_refs:
  "peer_refs (fst (delete_peer i db)) = peer_refs db - {i}" "peer_ids (fst (delete_peer i db)) = peer_ids db - {i}"
  by (auto simp: delete_peer_def peer_refs_def origin_refs_def peer_ids_def)

lemma peer_refs_step:
  assumes "peer_refs db \<subseteq> peer_ids db"
  shows "peer_refs (db_step hash_key url_parse db e) \<subseteq> peer_ids (db_step hash_key url_parse db e)"
proof -
  have ids: "peer_ids db \<subseteq> peer_ids (db_step hash_key url_parse db e)" if nd: "\<forall>i. e \<noteq> DeletePeer i"
  proof
    fix i assume "i \<in> peer_ids db"
    then obtain r where r: "r \<in> set (db_peers db)" "pr_id r = i" by (auto simp: peer_ids_def)
    then obtain r' where "r' \<in> set (db_peers (db_step hash_key url_parse db e))" "row_later r r'"
      using step_rows_survive [of r db e hash_key url_parse] nd by blast
    then show "i \<in> peer_ids (db_step hash_key url_parse db e)" using r row_later_id unfolding peer_ids_def by (metis image_eqI)
  qed
  show ?thesis
  proof (cases rule: step_touches [of db hash_key url_parse e])
    case unchanged
    show ?thesis
    proof (cases "\<exists>i. e = DeletePeer i")
      case True
      then show ?thesis using assms by (auto simp: db_step_def delete_refs)
    next
      case False
      have "peer_refs (db_step hash_key url_parse db e) = peer_refs db"
        using unchanged by (simp add: untouched_def peer_refs_def)
      then show ?thesis using ids False assms by blast
    qed
  next
    case (items op)
    have "origin_refs (db_items (item_write op db)) \<subseteq> origin_refs (db_items db) \<union> peer_ids db"
      unfolding item_write_def by (simp, rule origin_refs_items_step) (auto simp: peer_exists_ids split: item_op.splits)
    then have "peer_refs (item_write op db) \<subseteq> peer_refs db \<union> peer_ids db"
      by (simp add: peer_refs_def) (simp add: item_write_def, blast)
    moreover have "peer_ids (item_write op db) = peer_ids db" by (simp add: item_write_def peer_ids_def)
    ultimately show ?thesis using items assms by (auto simp: db_step_def)
  next
    case (endpoint gap now i k addr t v)
    show ?thesis
    proof (cases "record_peer_endpoint gap now i k addr t v db")
      case (Inl e)
      then show ?thesis using endpoint assms by (simp add: db_step_def or_keep_def)
    next
      case (Inr db')
      then show ?thesis using record_endpoint_refs [OF Inr] endpoint ids assms
        by (auto simp: db_step_def or_keep_def peer_refs_def)
    qed
  next
    case (catalog i es)
    show ?thesis
    proof (cases "replace_peer_catalog i es db")
      case (Inl x)
      then show ?thesis using catalog assms by (simp add: db_step_def or_keep_def)
    next
      case (Inr db')
      then show ?thesis using replace_catalog_refs [OF Inr] catalog assms
        by (auto simp: db_step_def or_keep_def)
    qed
  next
    case (delete i)
    then show ?thesis using assms by (auto simp: db_step_def delete_refs)
  qed
qed

lemma upsert_endpoint_ok:
  "endpoints_ok db \<Longrightarrow> endpoints_ok (fst (upsert_endpoint newer gap i kind addr at via db))"
proof (cases "find (same_sighting i kind addr) (db_endpoints db)")
  case None
  assume ok: "endpoints_ok db"
  have "\<forall>r \<in> set (db_endpoints db). sighting_key r \<noteq> (i, kind, addr)"
    using None by (auto simp: find_None_iff same_sighting_def)
  then show ?thesis using ok None
    by (force simp: upsert_endpoint_def endpoints_ok_def list_all_iff Let_def new_endpoint_def)
next
  case (Some old)
  assume ok: "endpoints_ok db"
  have keep: "map f (map (\<lambda>r. if same_sighting i kind addr r then r\<lparr>er_observed_at := at, er_via := via\<rparr> else r) rs) = map f rs"
    if "\<And>r. f (r\<lparr>er_observed_at := at, er_via := via\<rparr>) = f r" for f :: "endpoint_row \<Rightarrow> 'b" and rs
    using that by simp
  show ?thesis using ok keep [of sighting_key] keep [of er_id]
    by (auto simp: upsert_endpoint_def Some endpoints_ok_def list_all_iff simp del: map_map)
qed

lemma endpoints_ok_subset:
  "endpoints_ok db \<Longrightarrow> db_last_endpoint db' = db_last_endpoint db \<Longrightarrow>
   (\<exists>P. db_endpoints db' = filter P (db_endpoints db)) \<Longrightarrow> endpoints_ok db'"
  by (auto simp: endpoints_ok_def list_all_iff distinct_map_filter)

lemma endpoints_ok_step: "endpoints_ok db \<Longrightarrow> endpoints_ok (db_step hash_key url_parse db e)"
proof (cases rule: step_touches [of db hash_key url_parse e])
  case (endpoint gap now i k addr t v)
  assume ok: "endpoints_ok db"
  let ?u = "upsert_endpoint (t \<noteq> None) gap i (endpoint_kind_str k) addr (observation_time now t) (observed_via_str v) db"
  have "endpoints_ok (fst ?u)" by (rule upsert_endpoint_ok) (rule ok)
  then have "endpoints_ok ((fst ?u)\<lparr>db_endpoints := prune er_id er_observed_at P n (db_endpoints (fst ?u))\<rparr>)" for P n
    by (rule endpoints_ok_subset) (auto simp: prune_def Let_def)
  with \<open>endpoints_ok (fst ?u)\<close> ok show ?thesis
    by (simp add: endpoint db_step_def or_keep_def record_peer_endpoint_def case_prod_beta)
next
  case (delete i)
  assume "endpoints_ok db"
  then show ?thesis by (rule endpoints_ok_subset) (auto simp: delete db_step_def delete_peer_def)
qed (auto simp: untouched_def endpoints_ok_def db_step_def item_write_def or_keep_def replace_peer_catalog_def)

interpretation store: component "\<lambda>db. \<exists>rt. db = empty_db rt" "db_step hash_key url_parse" db_ok
  for hash_key url_parse
proof
  show "\<exists>rt. db = empty_db rt \<Longrightarrow> db_ok db" for db
    by (auto simp: db_ok_def empty_db_def peers_ok_def endpoints_ok_def peer_refs_def origin_refs_def empty_items_def items_ok_def)
  show "db_ok db \<Longrightarrow> db_ok (db_step hash_key url_parse db e)" for db e
    by (simp add: db_ok_def items_ok_db_step peers_ok_step endpoints_ok_step peer_refs_step)
qed

lemma run_db_ok: "db_ok (foldl (db_step hash_key url_parse) (empty_db rt) ops)"
  by (rule store.run_from_start) blast

text \<open>
  C13. After any history of writes no two friends share a name, a key or an id, no address is recorded twice for one
  friend and kind, and nothing refers to a friend who is not there.
\<close>

theorem store_well_formed:
  "let db = foldl (db_step hash_key url_parse) (empty_db rt) ops in
     distinct (map pr_id (db_peers db)) \<and> distinct (map pr_label (db_peers db)) \<and> distinct (map pr_key_hash (db_peers db)) \<and>
     distinct (map (\<lambda>r. (er_peer_id r, er_kind r, er_addr r)) (db_endpoints db)) \<and>
     er_peer_id ` set (db_endpoints db) \<subseteq> pr_id ` set (db_peers db) \<and>
     cr_peer_id ` set (db_catalog db) \<subseteq> pr_id ` set (db_peers db) \<and>
     {i. \<exists>r \<in> set (origins (db_items db)). or_peer_id r = Some i} \<subseteq> pr_id ` set (db_peers db)"
  using run_db_ok [of hash_key url_parse rt ops]
  by (auto simp: db_ok_def peers_ok_def endpoints_ok_def peer_refs_def peer_ids_def origin_refs_def Let_def)

section \<open>Addresses\<close>

lemma record_endpoint_written:
  assumes "record_peer_endpoint gap now i k addr claimed via db = Inr db'"
  obtains "db' = db"
  | u where "u = fst (upsert_endpoint (claimed \<noteq> None) gap i (endpoint_kind_str k) addr (observation_time now claimed)
        (observed_via_str via) db)"
      "db_endpoints db' = prune er_id er_observed_at (history_scope i (endpoint_kind_str k))
         (rt_endpoint_history (db_retention db)) (db_endpoints u)"
proof -
  let ?u = "upsert_endpoint (claimed \<noteq> None) gap i (endpoint_kind_str k) addr (observation_time now claimed) (observed_via_str via) db"
  have "\<not> snd ?u \<Longrightarrow> fst ?u = db" by (auto simp: upsert_endpoint_def Let_def split: option.splits if_splits)
  then show thesis using assms that by (auto simp: record_peer_endpoint_def case_prod_beta split: if_splits)
qed

text \<open>
  Recording a sighting never rewinds what is known: a row it leaves behind is an old row or the address seen, at a
  time newer than any recorded for that address and at most the allowed skew ahead of our clock; a sighting with no time
  of its own replaces nothing. No other friend's or kind's history changes, and a write leaves at most the configured
  number of addresses.
\<close>

lemma sighting_never_rewinds:
  assumes "record_peer_endpoint gap now i k addr claimed via (foldl (db_step hash_key url_parse) (empty_db rt) ops) = Inr db'"
  shows "let db = foldl (db_step hash_key url_parse) (empty_db rt) ops; mine = history_scope i (endpoint_kind_str k) in
    (\<forall>r \<in> set (db_endpoints db'). r \<notin> set (db_endpoints db) \<longrightarrow>
       er_peer_id r = i \<and> er_kind r = endpoint_kind_str k \<and> er_addr r = addr \<and>
       er_observed_at r \<le> max now (saturating_add_i64 now MAX_FUTURE_SKEW_SECS) \<and>
       (\<forall>old \<in> set (db_endpoints db). er_peer_id old = i \<and> er_kind old = endpoint_kind_str k \<and> er_addr old = addr \<longrightarrow>
          claimed \<noteq> None \<and> er_observed_at old < er_observed_at r)) \<and>
    filter (\<lambda>r. \<not> mine r) (db_endpoints db') = filter (\<lambda>r. \<not> mine r) (db_endpoints db) \<and>
    (db' = db \<or> rt_endpoint_history (db_retention db) < 0 \<or>
     length (filter mine (db_endpoints db')) \<le> nat (rt_endpoint_history (db_retention db)))"
proof -
  define db where "db = foldl (db_step hash_key url_parse) (empty_db rt) ops"
  have ok: "endpoints_ok db" using run_db_ok by (simp add: db_def db_ok_def)
  show ?thesis
  proof (rule record_endpoint_written [OF assms])
    fix u
    let ?kind = "endpoint_kind_str k"
    let ?up = "upsert_endpoint (claimed \<noteq> None) gap i ?kind addr (observation_time now claimed) (observed_via_str via) db"
    assume u: "u = fst (upsert_endpoint (claimed \<noteq> None) gap i ?kind addr (observation_time now claimed)
        (observed_via_str via) (foldl (db_step hash_key url_parse) (empty_db rt) ops))"
      and eps: "db_endpoints db' = prune er_id er_observed_at (history_scope i ?kind)
         (rt_endpoint_history (db_retention (foldl (db_step hash_key url_parse) (empty_db rt) ops))) (db_endpoints u)"
    have uok: "endpoints_ok u" unfolding u by (rule upsert_endpoint_ok) (use ok in \<open>simp add: db_def\<close>)
    have rows: "same_sighting i ?kind addr r \<and> er_observed_at r = observation_time now claimed \<and>
        (\<forall>old \<in> set (db_endpoints db). same_sighting i ?kind addr old \<longrightarrow> claimed \<noteq> None \<and> er_observed_at old < observation_time now claimed)"
      if "r \<in> set (db_endpoints db')" "r \<notin> set (db_endpoints db)" for r
    proof -
      have "r \<in> set (db_endpoints (fst ?up))" using that(1) unfolding eps u db_def by (rule subsetD [OF set_prune])
      from upsert_endpoint_rows [OF this that(2)] ok show ?thesis unfolding endpoints_ok_def by blast
    qed
    have outside: "filter (\<lambda>r. \<not> history_scope i ?kind r) (db_endpoints db') = filter (\<lambda>r. \<not> history_scope i ?kind r) (db_endpoints db)"
      unfolding eps prune_other u upsert_endpoint_outside db_def ..
    have bound: "length (filter (history_scope i ?kind) (db_endpoints db')) \<le> nat (rt_endpoint_history (db_retention db))"
      if "0 \<le> rt_endpoint_history (db_retention db)"
      using prune_bound that uok unfolding eps db_def endpoints_ok_def by blast
    show ?thesis unfolding Let_def db_def [symmetric]
    proof (intro conjI ballI impI)
      show "db' = db \<or> rt_endpoint_history (db_retention db) < 0 \<or>
          length (filter (history_scope i ?kind) (db_endpoints db')) \<le> nat (rt_endpoint_history (db_retention db))"
        using bound by linarith
    qed (use rows outside observation_time_bound [of now claimed] in \<open>auto simp: same_sighting_def\<close>)
  qed (simp add: Let_def)
qed

section \<open>Credentials\<close>

lemma unique_row: "distinct (map k rs) \<Longrightarrow> r \<in> set rs \<Longrightarrow> r' \<in> set rs \<Longrightarrow> k r = k r' \<Longrightarrow> r = r'"
  by (auto simp: distinct_map inj_on_def)

lemma friend_after:
  assumes "r \<in> set (db_peers db)" "pr_id r = i" "DeletePeer i \<notin> set ops"
  obtains r' where "r' \<in> set (db_peers (foldl (db_step hash_key url_parse) db ops))" "row_later r r'"
proof -
  have "list_all (\<lambda>e. e \<noteq> DeletePeer i) ops" using assms(3) by (auto simp: list_all_iff)
  then have "friend_later i db (foldl (db_step hash_key url_parse) db ops)" by (rule friend.run_later)
  then show thesis using that assms by (auto simp: friend_later_def)
qed

lemma peer_by_key_hash_revoked:
  assumes "peers_ok db" "r \<in> set (db_peers db)" "pr_revoked_at r \<noteq> None"
  shows "peer_by_key_hash (pr_key_hash r) db = Inr None"
proof -
  have "\<not> (pr_key_hash x = pr_key_hash r \<and> pr_revoked_at x = None)" if "x \<in> set (db_peers db)" for x
    using unique_row [of pr_key_hash "db_peers db" x r] assms that by (auto simp: peers_ok_def)
  then have "find (\<lambda>x. pr_key_hash x = pr_key_hash r \<and> pr_revoked_at x = None) (db_peers db) = None"
    by (auto simp: find_None_iff)
  then show ?thesis by (simp add: peer_by_key_hash_def optional_row_def)
qed

lemma revoked_row_after:
  assumes "r \<in> set (db_peers (foldl (db_step hash_key url_parse) (empty_db rt) ops))" "DeletePeer (pr_id r) \<notin> set ops'"
    and "db' = foldl (db_step hash_key url_parse) (fst (revoke_peer now (pr_id r) (foldl (db_step hash_key url_parse) (empty_db rt) ops))) ops'"
  obtains r' where "peers_ok db'" "r' \<in> set (db_peers db')" "pr_id r' = pr_id r" "pr_key_hash r' = pr_key_hash r"
    "pr_revoked_at r' = (case pr_revoked_at r of None \<Rightarrow> Some now | Some t \<Rightarrow> Some t)"
proof -
  define db0 where "db0 = foldl (db_step hash_key url_parse) (empty_db rt) ops"
  define db where "db = fst (revoke_peer now (pr_id r) db0)"
  have "db = foldl (db_step hash_key url_parse) (empty_db rt) (ops @ [RevokePeer now (pr_id r)])"
    by (simp add: db_def db0_def db_step_def)
  then have ok: "peers_ok db'"
    using run_db_ok [of hash_key url_parse rt "ops @ [RevokePeer now (pr_id r)] @ ops'"] assms(3)
    by (simp add: db_ok_def db_def db0_def)
  let ?r = "if pr_revoked_at r = None then r\<lparr>pr_revoked_at := Some now\<rparr> else r"
  have r: "?r \<in> set (db_peers db)" "pr_id ?r = pr_id r"
    using assms(1) by (auto simp: db_def db0_def revoke_peer_def update_peers_def sql_update_def)
  obtain r' where r': "r' \<in> set (db_peers db')" "row_later ?r r'"
    using friend_after [OF r assms(2)] unfolding assms(3) db_def db0_def by blast
  show thesis by (rule that [OF ok r'(1)]) (use r'(2) in \<open>auto simp: row_later_def split: if_splits option.splits\<close>)
qed

lemma revoked_key_dead:
  assumes "r \<in> set (db_peers (foldl (db_step hash_key url_parse) (empty_db rt) ops))" "DeletePeer (pr_id r) \<notin> set ops'"
  shows "peer_by_key_hash (pr_key_hash r) (foldl (db_step hash_key url_parse)
    (fst (revoke_peer now (pr_id r) (foldl (db_step hash_key url_parse) (empty_db rt) ops))) ops') = Inr None"
proof (rule revoked_row_after [OF assms refl, of now])
  fix r'
  assume "peers_ok (foldl (db_step hash_key url_parse)
      (fst (revoke_peer now (pr_id r) (foldl (db_step hash_key url_parse) (empty_db rt) ops))) ops')"
    "r' \<in> set (db_peers (foldl (db_step hash_key url_parse)
      (fst (revoke_peer now (pr_id r) (foldl (db_step hash_key url_parse) (empty_db rt) ops))) ops'))"
    "pr_key_hash r' = pr_key_hash r" "pr_revoked_at r' = (case pr_revoked_at r of None \<Rightarrow> Some now | Some t \<Rightarrow> Some t)"
  then show ?thesis using peer_by_key_hash_revoked [of _ r'] by (auto split: option.splits)
qed

text \<open>
  C14. A revoked key stays revoked: whatever is written afterwards short of deleting the friend, their key
  authenticates nobody, and the recorded time of the revocation does not move.
\<close>

theorem revocation_is_final:
  assumes "r \<in> set (db_peers (foldl (db_step hash_key url_parse) (empty_db rt) ops))" "DeletePeer (pr_id r) \<notin> set ops'"
  shows "let db = fst (revoke_peer now (pr_id r) (foldl (db_step hash_key url_parse) (empty_db rt) ops));
             db' = foldl (db_step hash_key url_parse) db ops' in
           peer_by_key_hash (pr_key_hash r) db' = Inr None \<and>
           (\<exists>r' \<in> set (db_peers db'). pr_id r' = pr_id r \<and> pr_key_hash r' = pr_key_hash r \<and>
              pr_revoked_at r' = (case pr_revoked_at r of None \<Rightarrow> Some now | Some t \<Rightarrow> Some t))"
proof -
  show ?thesis unfolding Let_def
    by (rule revoked_row_after [OF assms refl, of now]) (use revoked_key_dead [OF assms, of now] in blast)
qed

lemma bound_row:
  assumes "peers_ok db" "bind_peer_pubkey i pk db = (db', True)"
  obtains r where "r \<in> set (db_peers db')" "pr_id r = i" "pr_pubkey r = Some pk"
proof -
  obtain r where r: "r \<in> set (db_peers db)" "pr_id r = i" "pr_pubkey r = None \<or> pr_pubkey r = Some pk"
      and db': "db' = fst (bind_peer_pubkey i pk db)"
    using assms(2) by (auto simp: bind_peer_pubkey_def update_peers_def sql_update_def list_ex_iff)
  then have "r\<lparr>pr_pubkey := Some pk\<rparr> \<in> set (db_peers db')"
    by (force simp: bind_peer_pubkey_def update_peers_def sql_update_def)
  then show thesis using that [of "r\<lparr>pr_pubkey := Some pk\<rparr>"] r by simp
qed

text \<open>
  C15. Trust on first use: once a gossip identity is bound to a friend, no write short of deleting them replaces it,
  and a different identity presented later is refused.
\<close>

theorem identity_binding_is_final:
  assumes "bind_peer_pubkey i pk (foldl (db_step hash_key url_parse) (empty_db rt) ops) = (db, True)"
    and "DeletePeer i \<notin> set ops'"
  shows "let db' = foldl (db_step hash_key url_parse) db ops' in
           (\<exists>r \<in> set (db_peers db'). pr_id r = i \<and> pr_pubkey r = Some pk) \<and>
           (\<forall>pk'. snd (bind_peer_pubkey i pk' db') \<longleftrightarrow> pk' = pk)"
proof -
  define db' where "db' = foldl (db_step hash_key url_parse) db ops'"
  have db: "db = foldl (db_step hash_key url_parse) (empty_db rt) (ops @ [BindPubkey i pk])"
    using assms(1) by (simp add: db_step_def)
  then have ok: "peers_ok db'"
    using run_db_ok [of hash_key url_parse rt "ops @ [BindPubkey i pk] @ ops'"] by (simp add: db'_def db_ok_def)
  have "peers_ok (foldl (db_step hash_key url_parse) (empty_db rt) ops)"
    using run_db_ok by (simp add: db_ok_def)
  from bound_row [OF this assms(1)] obtain r where r: "r \<in> set (db_peers db)" "pr_id r = i" "pr_pubkey r = Some pk" .
  obtain r' where r': "r' \<in> set (db_peers db')" "row_later r r'"
    using friend_after [OF r(1,2) assms(2)] unfolding db'_def by blast
  then have mine: "pr_id r' = i" "pr_pubkey r' = Some pk" using r by (auto simp: row_later_def)
  have "snd (bind_peer_pubkey i pk' db') \<longleftrightarrow> pk' = pk" for pk'
  proof -
    have only: "x = r'" if "x \<in> set (db_peers db')" "pr_id x = i" for x
      using unique_row [of pr_id "db_peers db'" x r'] that r'(1) mine ok by (simp add: peers_ok_def)
    have "snd (bind_peer_pubkey i pk' db') \<longleftrightarrow>
        (\<exists>x \<in> set (db_peers db'). pr_id x = i \<and> (pr_pubkey x = None \<or> pr_pubkey x = Some pk'))"
      by (simp add: bind_peer_pubkey_def update_peers_def sql_update_def list_ex_iff)
    then show ?thesis using only r'(1) mine by (metis option.discI option.inject)
  qed
  then show ?thesis using r'(1) mine unfolding Let_def db'_def [symmetric] by blast
qed

section \<open>First contact\<close>

text \<open>The results of the touches of one friend along a run, other requests' writes in between.\<close>

fun touch_results :: "(string \<Rightarrow> string) \<Rightarrow> (string \<Rightarrow> string option) \<Rightarrow> int \<Rightarrow> database \<Rightarrow> db_op list \<Rightarrow> touch list" where
  "touch_results hash_key url_parse i db [] = []"
| "touch_results hash_key url_parse i db (e # es) =
     (case e of TouchWrite t now j \<Rightarrow> (if j = i then [snd (touch_write t now i db)] else []) | _ \<Rightarrow> []) @
     touch_results hash_key url_parse i (db_step hash_key url_parse db e) es"

text \<open>The id was issued and whoever holds it has been seen.\<close>

definition seen :: "int \<Rightarrow> database \<Rightarrow> bool" where
  "seen i db \<longleftrightarrow> i \<le> db_last_peer db \<and> (\<forall>r \<in> set (db_peers db). pr_id r = i \<longrightarrow> pr_last_seen_at r \<noteq> None)"

lemma seen_step: "seen i db \<Longrightarrow> seen i (db_step hash_key url_parse db e)"
proof -
  assume s: "seen i db"
  have "pr_last_seen_at r' \<noteq> None" if "r' \<in> set (db_peers (db_step hash_key url_parse db e))" "pr_id r' = i" for r'
    using step_rows_from [OF that(1)]
  proof
    assume "\<exists>r \<in> set (db_peers db). row_later r r'"
    then obtain r where r: "r \<in> set (db_peers db)" "row_later r r'" by blast
    then have "pr_last_seen_at r \<noteq> None" using s that(2) row_later_id [OF r(2)] by (simp add: seen_def)
    then show ?thesis using r(2) by (simp add: row_later_def)
  next
    assume "db_last_peer db < pr_id r'"
    then show ?thesis using s that(2) by (simp add: seen_def)
  qed
  then show ?thesis using s step_last_peer [of db hash_key url_parse e] by (simp add: seen_def)
qed

lemma seen_no_first: "seen i db \<Longrightarrow> First \<notin> set (touch_results hash_key url_parse i db es)"
proof (induction es arbitrary: db)
  case (Cons e es)
  have "First \<noteq> snd (touch_write t now i db)" for t now
    using Cons.prems by (auto simp: touch_write_def update_peers_def sql_update_def list_ex_iff seen_def split: touch.splits)
  then show ?case using Cons.IH [OF seen_step [OF Cons.prems]] by (auto split: db_op.splits)
qed simp

lemma first_seen:
  assumes "peers_ok db" "snd (touch_write t now i db) = First"
  shows "seen i (fst (touch_write t now i db))"
  using assms by (auto simp: touch_write_def update_peers_def sql_update_def list_ex_iff seen_def peers_ok_def list_all_iff
      split: touch.splits if_splits)

text \<open>
  However requests interleave between a touch's read and its write, and whatever the reads saw, a friend's first
  contact is reported at most once in the life of the database.
\<close>

lemma first_contact_once:
  "length (filter (\<lambda>t. t = First) (touch_results hash_key url_parse i (empty_db rt) ops)) \<le> 1"
proof -
  have "length (filter (\<lambda>t. t = First) (touch_results hash_key url_parse i db es)) \<le> 1" if "db_ok db" for db es
    using that
  proof (induction es arbitrary: db)
    case (Cons e es)
    let ?db = "db_step hash_key url_parse db e"
    have rest: "length (filter (\<lambda>t. t = First) (touch_results hash_key url_parse i ?db es)) \<le> 1"
      using Cons store.step_inv by blast
    have none: "length (filter (\<lambda>t. t = First) (touch_results hash_key url_parse i ?db es)) = 0"
      if "e = TouchWrite t now i" "snd (touch_write t now i db) = First" for t now
      using seen_no_first [OF first_seen [of db t now i]] that Cons.prems by (auto simp: db_step_def db_ok_def filter_empty_conv)
    show ?case
    proof (cases "\<exists>t now. e = TouchWrite t now i \<and> snd (touch_write t now i db) = First")
      case True
      then show ?thesis using none by auto
    next
      case False
      then have "filter (\<lambda>t. t = First) (touch_results hash_key url_parse i db (e # es)) =
          filter (\<lambda>t. t = First) (touch_results hash_key url_parse i ?db es)"
        by (auto split: db_op.split)
      then show ?thesis using rest by (simp only:)
    qed
  qed simp
  moreover have "db_ok (empty_db rt)" by (rule store.start_inv) blast
  ultimately show ?thesis by blast
qed

section \<open>A sample history\<close>

definition sample_history :: "db_op list" where
  "sample_history = [CreatePeer 0 10 ''Sam'' ''k1'' ScopeAll, RecordEndpoint 0 20 1 ApiKind ''1.2.3.4'' (Some 15) ViaDirect]"

abbreviation sample_store :: database where
  "sample_store \<equiv> foldl (db_step id Some) (empty_db (retention_from 3 2 0)) sample_history"

definition sam :: peer_row where
  "sam = new_peer_row 1 ''Sam'' ''k1'' 10 ScopeAll"

lemma sample_peers: "db_peers sample_store = [sam]"
  by code_simp

text \<open>C14: Sam, revoked at 20, then touched and re-scoped, is still locked out.\<close>

theorem revocation_is_final_witness:
  "peer_by_key_hash ''k1'' (foldl (db_step id Some) (fst (revoke_peer 20 1 sample_store)) [TouchWrite First 30 1, SetPeerScope 1 ScopeTv]) = Inr None"
  using revocation_is_final [of sam id Some "retention_from 3 2 0" sample_history "[TouchWrite First 30 1, SetPeerScope 1 ScopeTv]" 20]
  by (simp add: sample_peers Let_def) (simp add: sam_def new_peer_row_def)

text \<open>C15: Sam's identity is bound; another is refused after other writes.\<close>

theorem identity_binding_is_final_witness:
  "snd (bind_peer_pubkey 1 ''aa'' sample_store) \<and>
   \<not> snd (bind_peer_pubkey 1 ''bb'' (foldl (db_step id Some) (fst (bind_peer_pubkey 1 ''aa'' sample_store)) [BindPubkey 1 ''cc'']))"
proof -
  have "snd (bind_peer_pubkey 1 ''aa'' sample_store)"
    by (simp add: bind_peer_pubkey_def update_peers_def sql_update_def sample_peers) (simp add: sam_def new_peer_row_def)
  then have eq: "bind_peer_pubkey 1 ''aa'' sample_store = (fst (bind_peer_pubkey 1 ''aa'' sample_store), True)"
    by (simp add: prod_eq_iff)
  show ?thesis
    using identity_binding_is_final [OF eq, of "[BindPubkey 1 ''cc'']"] \<open>snd (bind_peer_pubkey 1 ''aa'' sample_store)\<close>
    by (simp add: Let_def)
qed

text \<open>A later sighting of Sam's address moves the recorded time forward.\<close>

lemma sighting_never_rewinds_witness:
  "\<exists>db'. record_peer_endpoint 0 40 1 ApiKind ''1.2.3.4'' (Some 35) ViaGossip sample_store = Inr db' \<and>
     map er_observed_at (db_endpoints sample_store) = [15] \<and> map er_observed_at (db_endpoints db') = [35] \<and>
     (\<forall>r \<in> set (db_endpoints db'). r \<notin> set (db_endpoints sample_store) \<longrightarrow> er_addr r = ''1.2.3.4'')"
proof -
  have "map_option (\<lambda>db'. map er_observed_at (db_endpoints db'))
      (ok (record_peer_endpoint 0 40 1 ApiKind ''1.2.3.4'' (Some 35) ViaGossip sample_store)) = Some [35]"
    by code_simp
  then obtain db' where db': "record_peer_endpoint 0 40 1 ApiKind ''1.2.3.4'' (Some 35) ViaGossip sample_store = Inr db'"
      "map er_observed_at (db_endpoints db') = [35]"
    by auto
  moreover have "map er_observed_at (db_endpoints sample_store) = [15]" by code_simp
  ultimately show ?thesis using sighting_never_rewinds [OF db'(1)] by (simp add: Let_def)
qed

end
