(* ===== verification/Vault.thy ===== *)
theory Vault
  imports Bencode Rust_Text
begin

text \<open>
  \<^verbatim>\<open>sharerr-store/src/vault.rs\<close>: the encrypted store of credentials. Argon2 and XChaCha20-Poly1305 are parameters, as is what the
  operating system and the entropy source answer to each operation. A vault in memory is a handle; several handles share
  one file. A mutation holds two locks from its reload to its rename, so mutations of different handles do not
  interleave and each is one step.
\<close>

section \<open>Data\<close>

text \<open>An error of the operating system is its text.\<close>

type_synonym io_error = string

datatype vault_path = VaultFile | TmpFile | LockFile | ParentDirectory

datatype vault_error =
    NoMasterKey
  | EmptyMasterKey
  | MasterKeyFile string io_error
  | VaultIo vault_path io_error
  | Corrupt string
  | UnsupportedVersion nat
  | WrongKey
  | Kdf string
  | NotUtf8 string
  | InvalidValue string string

record vault_record =
  rc_nonce :: bytes
  rc_ciphertext :: bytes

record vault =
  va_salt :: bytes
  va_cipher :: bytes
  va_records :: "(string, vault_record) btree"

text \<open>The vault's file and the temporary one beside it.\<close>

record disk =
  dk_file :: "bytes option"
  dk_tmp :: "bytes option"

record vault_env =
  vx_derive :: "string \<Rightarrow> bytes \<Rightarrow> (string, bytes) result"
  vx_encrypt :: "bytes \<Rightarrow> bytes \<Rightarrow> string \<Rightarrow> bytes \<Rightarrow> bytes option"
  vx_decrypt :: "bytes \<Rightarrow> bytes \<Rightarrow> string \<Rightarrow> bytes \<Rightarrow> bytes option"

text \<open>What fails during one operation. A write that fails may leave part of the file behind.\<close>

record vault_io =
  io_read :: "io_error option"
  io_lock :: "(vault_path \<times> io_error) option"
  io_parent :: "io_error option"
  io_write :: "bytes \<Rightarrow> (io_error \<times> bytes option) option"
  io_permissions :: "io_error option"
  io_rename :: "io_error option"
  io_random :: "nat \<Rightarrow> (string, bytes) result"

abbreviation (input) VAULT_VERSION :: nat where "VAULT_VERSION \<equiv> 1"
abbreviation (input) SALT_LEN :: nat where "SALT_LEN \<equiv> 16"
abbreviation (input) NONCE_LEN :: nat where "NONCE_LEN \<equiv> 24"

section \<open>The master key\<close>

definition normalize_master_key :: "string \<Rightarrow> (vault_error, string) result" where
  "normalize_master_key raw = (let trimmed = trim raw in if trimmed = [] then Inl EmptyMasterKey else Inr trimmed)"

definition master_key_from ::
    "(string \<Rightarrow> (io_error, string) result) \<Rightarrow> string option \<Rightarrow> string option \<Rightarrow> (vault_error, string) result" where
  "master_key_from read inline file' =
     (let set' = (\<lambda>v. Option.bind v (\<lambda>raw. if trim raw = [] then None else Some raw)) in
      case set' inline of
        Some raw \<Rightarrow> normalize_master_key raw
      | None \<Rightarrow>
          (case set' file' of
             Some path \<Rightarrow> (case read path of Inl e \<Rightarrow> Inl (MasterKeyFile path e) | Inr raw \<Rightarrow> normalize_master_key raw)
           | None \<Rightarrow> Inl NoMasterKey))"

section \<open>The file format\<close>

definition le16 :: "nat \<Rightarrow> bytes" where
  "le16 n = [byte (n mod 256), byte (n div 256 mod 256)]"

definition le32 :: "nat \<Rightarrow> bytes" where
  "le32 n = map (\<lambda>i. byte (n div 256 ^ i mod 256)) [0, 1, 2, 3]"

definition from_le :: "bytes \<Rightarrow> nat" where
  "from_le bs = foldr (\<lambda>b n. code b + 256 * n) bs 0"

definition take_slice :: "bytes \<Rightarrow> nat \<Rightarrow> nat \<Rightarrow> (vault_error, bytes \<times> nat) result" where
  "take_slice raw cursor len =
     (if cursor + len > usize_max then Inl (Corrupt ''length overflow'')
      else if cursor + len \<le> length raw then Inr (take len (drop cursor raw), cursor + len)
      else Inl (Corrupt ''record truncated''))"

definition read_le :: "nat \<Rightarrow> bytes \<Rightarrow> nat \<Rightarrow> (vault_error, nat \<times> nat) result" where
  "read_le width raw cursor = and_then (take_slice raw cursor width) (\<lambda>(bs, cursor'). Inr (from_le bs, cursor'))"

definition parse_record :: "bytes \<Rightarrow> nat \<Rightarrow> (vault_error, (string \<times> vault_record) \<times> nat) result" where
  "parse_record raw cursor =
     and_then (read_le 2 raw cursor) (\<lambda>(key_len, c1).
     and_then (take_slice raw c1 key_len) (\<lambda>(key, c2).
       if \<not> utf8_valid key then Inl (Corrupt ''record key is not UTF-8'')
       else
         and_then (take_slice raw c2 NONCE_LEN) (\<lambda>(nonce, c3).
         and_then (read_le 4 raw c3) (\<lambda>(ct_len, c4).
         and_then (take_slice raw c4 ct_len) (\<lambda>(ciphertext, c5).
           Inr ((key, \<lparr>rc_nonce = nonce, rc_ciphertext = ciphertext\<rparr>), c5))))))"

lemma take_slice_Inr: "take_slice raw cursor len = Inr (bs, c) \<longleftrightarrow>
    cursor + len \<le> usize_max \<and> cursor + len \<le> length raw \<and> bs = take len (drop cursor raw) \<and> c = cursor + len"
  by (auto simp: take_slice_def)

lemma parse_record_advances: "parse_record raw cursor = Inr (e, c) \<Longrightarrow> cursor < c \<and> c \<le> length raw"
  by (auto simp: parse_record_def read_le_def and_then_eq_Inr take_slice_Inr split: if_splits)

function parse_records :: "bytes \<Rightarrow> nat \<Rightarrow> (string, vault_record) btree \<Rightarrow> (vault_error, (string, vault_record) btree) result" where
  "parse_records raw cursor records =
     (if cursor < length raw
      then (case parse_record raw cursor of
              Inl e \<Rightarrow> Inl e
            | Inr ((key, r), cursor') \<Rightarrow> parse_records raw cursor' (bt_insert key r records))
      else Inr records)"
  by pat_completeness auto

termination parse_records
  by (relation "measure (\<lambda>(raw, cursor, _). length raw - cursor)") (auto dest: parse_record_advances)

declare parse_records.simps [simp del]

definition parse_vault :: "bytes \<Rightarrow> (vault_error, bytes \<times> (string, vault_record) btree) result" where
  "parse_vault raw =
     (if length raw < 1 + SALT_LEN then Inl (Corrupt ''file shorter than header'')
      else if code (raw ! 0) \<noteq> VAULT_VERSION then Inl (UnsupportedVersion (code (raw ! 0)))
      else and_then (parse_records raw (1 + SALT_LEN) []) (\<lambda>records. Inr (take SALT_LEN (drop 1 raw), records)))"

definition serialize_record :: "string \<times> vault_record \<Rightarrow> (vault_error, bytes) result" where
  "serialize_record = (\<lambda>(key, r).
     if length key > 65535 then Inl (Corrupt ''secret key name too long'')
     else if length (rc_ciphertext r) > u32_max then Inl (Corrupt ''secret value too long'')
     else Inr (le16 (length key) @ key @ rc_nonce r @ le32 (length (rc_ciphertext r)) @ rc_ciphertext r))"

definition serialize_vault :: "vault \<Rightarrow> (vault_error, bytes) result" where
  "serialize_vault v =
     and_then (collect_result serialize_record (va_records v)) (\<lambda>parts.
       Inr (byte VAULT_VERSION # va_salt v @ concat parts))"

section \<open>Operations\<close>

definition read_if_present :: "vault_io \<Rightarrow> disk \<Rightarrow> (vault_error, bytes option) result" where
  "read_if_present io d = (case io_read io of Some e \<Rightarrow> Inl (VaultIo VaultFile e) | None \<Rightarrow> Inr (dk_file d))"

definition vault_get :: "vault_env \<Rightarrow> vault \<Rightarrow> string \<Rightarrow> (vault_error, string option) result" where
  "vault_get env v key =
     (case map_of (va_records v) key of
        None \<Rightarrow> Inr None
      | Some r \<Rightarrow>
          (case vx_decrypt env (va_cipher v) (rc_nonce r) key (rc_ciphertext r) of
             None \<Rightarrow> Inl WrongKey
           | Some plaintext \<Rightarrow> if utf8_valid plaintext then Inr (Some plaintext) else Inl (NotUtf8 key)))"

definition derive_cipher :: "vault_env \<Rightarrow> string \<Rightarrow> bytes \<Rightarrow> (vault_error, bytes) result" where
  "derive_cipher env master salt = (case vx_derive env master salt of Inl e \<Rightarrow> Inl (Kdf e) | Inr k \<Rightarrow> Inr k)"

definition random_array :: "vault_io \<Rightarrow> nat \<Rightarrow> string \<Rightarrow> (vault_error, bytes) result" where
  "random_array io n what = (case io_random io n of Inl e \<Rightarrow> Inl (Kdf (what @ '' generation failed: '' @ e)) | Inr bs \<Rightarrow> Inr bs)"

definition vault_open :: "vault_env \<Rightarrow> vault_io \<Rightarrow> string \<Rightarrow> disk \<Rightarrow> (vault_error, vault) result" where
  "vault_open env io master d =
     and_then (read_if_present io d) (\<lambda>raw.
       case raw of
         None \<Rightarrow>
           and_then (random_array io SALT_LEN ''salt'') (\<lambda>salt.
           and_then (derive_cipher env master salt) (\<lambda>cipher.
             Inr \<lparr>va_salt = salt, va_cipher = cipher, va_records = []\<rparr>))
       | Some raw \<Rightarrow>
           and_then (parse_vault raw) (\<lambda>(salt, records).
           and_then (derive_cipher env master salt) (\<lambda>cipher.
             (let v = \<lparr>va_salt = salt, va_cipher = cipher, va_records = records\<rparr> in
              case records of
                [] \<Rightarrow> Inr v
              | (key, _) # _ \<Rightarrow> and_then (vault_get env v key) (\<lambda>_. Inr v)))))"

definition vault_reload :: "vault_io \<Rightarrow> disk \<Rightarrow> vault \<Rightarrow> (vault_error, vault) result" where
  "vault_reload io d v =
     and_then (read_if_present io d) (\<lambda>raw.
       case raw of
         None \<Rightarrow> Inr v
       | Some raw \<Rightarrow>
           and_then (parse_vault raw) (\<lambda>(salt, records).
             if salt \<noteq> va_salt v then Inl (Corrupt ''the vault file was replaced since it was opened; reopen it'')
             else Inr (v\<lparr>va_records := records\<rparr>)))"

definition vault_persist :: "vault_io \<Rightarrow> vault \<Rightarrow> disk \<Rightarrow> disk \<times> (vault_error, unit) result" where
  "vault_persist io v d =
     (case serialize_vault v of
        Inl e \<Rightarrow> (d, Inl e)
      | Inr out \<Rightarrow>
          (case io_parent io of
             Some e \<Rightarrow> (d, Inl (VaultIo ParentDirectory e))
           | None \<Rightarrow>
               (case io_write io out of
                  Some (e, part) \<Rightarrow> (d\<lparr>dk_tmp := part\<rparr>, Inl (VaultIo TmpFile e))
                | None \<Rightarrow>
                    (let written = d\<lparr>dk_tmp := Some out\<rparr> in
                     case io_permissions io of
                       Some e \<Rightarrow> (written, Inl (VaultIo TmpFile e))
                     | None \<Rightarrow>
                         (case io_rename io of
                            Some e \<Rightarrow> (written, Inl (VaultIo VaultFile e))
                          | None \<Rightarrow> (\<lparr>dk_file = Some out, dk_tmp = None\<rparr>, Inr ()))))))"

definition vault_seal :: "vault_env \<Rightarrow> vault_io \<Rightarrow> vault \<Rightarrow> string \<Rightarrow> bytes \<Rightarrow> (vault_error, vault_record) result" where
  "vault_seal env io v key plaintext =
     and_then (random_array io NONCE_LEN ''nonce'') (\<lambda>nonce.
       case vx_encrypt env (va_cipher v) nonce key plaintext of
         None \<Rightarrow> Inl (Corrupt ''encryption failed'')
       | Some ciphertext \<Rightarrow> Inr \<lparr>rc_nonce = nonce, rc_ciphertext = ciphertext\<rparr>)"

text \<open>Under both locks, over the records as they are on disk now.\<close>

definition vault_locked ::
    "vault_io \<Rightarrow> (vault \<Rightarrow> disk \<Rightarrow> vault \<times> disk \<times> (vault_error, 'a) result) \<Rightarrow> vault \<Rightarrow> disk \<Rightarrow>
       vault \<times> disk \<times> (vault_error, 'a) result" where
  "vault_locked io mutate v d =
     (case io_lock io of
        Some (p, e) \<Rightarrow> (v, d, Inl (VaultIo p e))
      | None \<Rightarrow> (case vault_reload io d v of Inl e \<Rightarrow> (v, d, Inl e) | Inr v' \<Rightarrow> mutate v' d))"

definition validate_value :: "string \<Rightarrow> string \<Rightarrow> (string, unit) result" where
  "validate_value key value =
     (if key = ''tracker.token'' \<and> \<not> list_all (\<lambda>c. is_ascii_alphanumeric c \<or> c \<in> set ''-_.~'') value
      then Inl (''tracker.token may only contain letters, digits, `-`, `_`, `.` and `~`: it becomes one segment of every announce URL, '' @
                ''unencoded. Use \"Generate\" or a hex value'')
      else Inr ())"

definition vault_put ::
    "vault_env \<Rightarrow> vault_io \<Rightarrow> string \<Rightarrow> string \<Rightarrow> vault \<Rightarrow> disk \<Rightarrow> vault \<times> disk \<times> (vault_error, unit) result" where
  "vault_put env io key value v d =
     (case validate_value key value of
        Inl reason \<Rightarrow> (v, d, Inl (InvalidValue key reason))
      | Inr _ \<Rightarrow>
          (case vault_seal env io v key value of
             Inl e \<Rightarrow> (v, d, Inl e)
           | Inr r \<Rightarrow>
               vault_locked io (\<lambda>v' d'.
                 (let v'' = v'\<lparr>va_records := bt_insert key r (va_records v')\<rparr> in (v'', vault_persist io v'' d'))) v d))"

definition vault_remove ::
    "vault_io \<Rightarrow> string \<Rightarrow> vault \<Rightarrow> disk \<Rightarrow> vault \<times> disk \<times> (vault_error, bool) result" where
  "vault_remove io key =
     vault_locked io (\<lambda>v d.
       (let existed = map_of (va_records v) key \<noteq> None; v' = v\<lparr>va_records := bt_remove key (va_records v)\<rparr> in
        if existed
        then (case vault_persist io v' d of (d', Inl e) \<Rightarrow> (v', d', Inl e) | (d', Inr _) \<Rightarrow> (v', d', Inr True))
        else (v', d, Inr False)))"

definition vault_keys :: "vault \<Rightarrow> string list" where
  "vault_keys v = map fst (va_records v)"

definition key_names :: "vault_io \<Rightarrow> disk \<Rightarrow> (vault_error, string list) result" where
  "key_names io d =
     and_then (read_if_present io d) (\<lambda>raw.
       case raw of None \<Rightarrow> Inr [] | Some raw \<Rightarrow> and_then (parse_vault raw) (\<lambda>(_, records). Inr (map fst records)))"

section \<open>The format reads back\<close>

definition record_ok :: "string \<times> vault_record \<Rightarrow> bool" where
  "record_ok = (\<lambda>(key, r). utf8_valid key \<and> length (rc_nonce r) = NONCE_LEN)"

definition vault_ok :: "vault \<Rightarrow> bool" where
  "vault_ok v \<longleftrightarrow> length (va_salt v) = SALT_LEN \<and> bt_ok (va_records v) \<and> list_all record_ok (va_records v)"

lemma from_le16: "n < 65536 \<Longrightarrow> from_le (le16 n) = n"
  by (simp add: from_le_def le16_def byte_def)

lemma from_le32:
  assumes "n < 4294967296"
  shows "from_le (le32 n) = n"
proof -
  define a where "a = n div 256"
  define b where "b = a div 256"
  define c where "c = b div 256"
  have "c = n div 16777216" unfolding a_def b_def c_def by (simp only: div_mult2_eq [symmetric]) simp
  then have "c < 256" using assms by (simp add: div_less_iff_less_mult)
  then have "c mod 256 = c" by simp
  moreover have "n = n mod 256 + 256 * a" "a = a mod 256 + 256 * b" "b = b mod 256 + 256 * c"
    unfolding a_def b_def c_def by (simp_all only: mod_mult_div_eq)
  moreover have "n div 256 ^ 2 = b" "n div 256 ^ 3 = c" "n div 256 ^ 1 = a" "n div 256 ^ 0 = n"
    unfolding a_def b_def c_def by (simp_all only: div_mult2_eq [symmetric] power_0 div_by_1 power_one_right) simp_all
  ultimately show ?thesis by (simp add: from_le_def le32_def byte_def)
qed

lemma take_slice_at:
  assumes "raw = pre @ bs @ post" "length raw \<le> usize_max"
  shows "take_slice raw (length pre) (length bs) = Inr (bs, length pre + length bs)"
  using assms by (simp add: take_slice_Inr)

lemma le_lengths [simp]: "length (le16 n) = 2" "length (le32 n) = 4"
  by (simp_all add: le16_def le32_def)

text \<open>What is written of a record that fits.\<close>

definition record_fits :: "string \<times> vault_record \<Rightarrow> bool" where
  "record_fits = (\<lambda>(key, r). length key \<le> 65535 \<and> length (rc_ciphertext r) \<le> u32_max)"

definition record_bytes :: "string \<times> vault_record \<Rightarrow> bytes" where
  "record_bytes = (\<lambda>(key, r). le16 (length key) @ key @ rc_nonce r @ le32 (length (rc_ciphertext r)) @ rc_ciphertext r)"

lemma serialize_record_Inr: "serialize_record e = Inr part \<longleftrightarrow> record_fits e \<and> part = record_bytes e"
  by (auto simp: serialize_record_def record_fits_def record_bytes_def split: prod.split)

lemma serialize_records_Inr:
  "collect_result serialize_record es = Inr parts \<longleftrightarrow> list_all record_fits es \<and> parts = map record_bytes es"
  by (induction es arbitrary: parts) (auto simp: and_then_eq_Inr serialize_record_Inr)

lemma serialize_vault_Inr:
  "serialize_vault v = Inr out \<longleftrightarrow>
     list_all record_fits (va_records v) \<and> out = byte VAULT_VERSION # va_salt v @ concat (map record_bytes (va_records v))"
  by (auto simp: serialize_vault_def and_then_eq_Inr serialize_records_Inr)

lemma parse_record_at:
  assumes "record_fits e" "record_ok e" "raw = pre @ record_bytes e @ post" "length raw \<le> usize_max"
  shows "parse_record raw (length pre) = Inr (e, length pre + length (record_bytes e))"
proof -
  obtain key r where e: "e = (key, r)" by (cases e)
  let ?n = "rc_nonce r" and ?c = "rc_ciphertext r"
  have raw: "raw = pre @ le16 (length key) @ key @ ?n @ le32 (length ?c) @ ?c @ post"
    and len: "length key < 65536" "length ?c < 4294967296" "length ?n = 24" "utf8_valid key"
    using assms(1-3) by (auto simp: record_fits_def record_ok_def record_bytes_def e)
  note at = take_slice_at [OF _ assms(4)]
  define a where "a = length pre + 2"
  have 1: "take_slice raw (length pre) 2 = Inr (le16 (length key), a)"
    using at [of pre "le16 (length key)"] raw by (simp add: a_def)
  have 2: "take_slice raw a (length key) = Inr (key, a + length key)"
    using at [of "pre @ le16 (length key)" key] raw by (simp add: a_def)
  have 3: "take_slice raw (a + length key) 24 = Inr (?n, a + length key + 24)"
    using at [of "pre @ le16 (length key) @ key" ?n] raw len(3) by (simp add: a_def ac_simps)
  have 4: "take_slice raw (a + length key + 24) 4 = Inr (le32 (length ?c), a + length key + 28)"
    using at [of "pre @ le16 (length key) @ key @ ?n" "le32 (length ?c)"] raw len(3) by (simp add: a_def ac_simps)
  have 5: "take_slice raw (a + length key + 28) (length ?c) = Inr (?c, a + length key + 28 + length ?c)"
    using at [of "pre @ le16 (length key) @ key @ ?n @ le32 (length ?c)" ?c] raw len(3) by (simp add: a_def ac_simps)
  have "length pre + length (record_bytes e) = a + length key + 28 + length ?c"
    using len(3) by (simp add: record_bytes_def e a_def)
  then show ?thesis
    by (simp add: parse_record_def read_le_def and_then_def 1 2 3 4 5 from_le16 from_le32 len e del: add.assoc)
qed

lemma parse_records_at:
  assumes "list_all record_fits es" "list_all record_ok es" "raw = pre @ concat (map record_bytes es)" "length raw \<le> usize_max"
    and "bt_ok (acc @ es)"
  shows "parse_records raw (length pre) acc = Inr (acc @ es)"
  using assms
proof (induction es arbitrary: pre acc)
  case (Cons e es)
  have one: "parse_record raw (length pre) = Inr (e, length pre + length (record_bytes e))"
    by (rule parse_record_at [OF _ _ _ Cons.prems(4)]) (use Cons.prems in auto)
  have acc: "bt_insert (fst e) (snd e) acc = acc @ [e]"
    using Cons.prems(5) bt_insert_last [of acc "fst e" "snd e"] by (simp add: bt_ok_append)
  have "parse_records raw (length (pre @ record_bytes e)) (acc @ [e]) = Inr ((acc @ [e]) @ es)"
    by (rule Cons.IH) (use Cons.prems in auto)
  moreover have "length pre < length raw" using parse_record_advances [OF one] by linarith
  ultimately show ?case by (subst parse_records.simps) (simp add: one acc case_prod_beta)
qed (simp add: parse_records.simps)

lemma parse_serialized:
  assumes "vault_ok v" "serialize_vault v = Inr out" "length out \<le> usize_max"
  shows "parse_vault out = Inr (va_salt v, va_records v)"
proof -
  have out: "list_all record_fits (va_records v)" "out = (byte 1 # va_salt v) @ concat (map record_bytes (va_records v))"
    using assms(2) by (simp_all add: serialize_vault_Inr)
  have "parse_records out (length (byte 1 # va_salt v)) [] = Inr ([] @ va_records v)"
    by (rule parse_records_at [OF out(1) _ out(2)]) (use assms(1,3) in \<open>auto simp: vault_ok_def\<close>)
  then show ?thesis using assms(1) by (simp add: parse_vault_def out(2) vault_ok_def and_then_def byte_def)
qed

section \<open>Many handles, one file\<close>

text \<open>What a reader with the right key finds in the file.\<close>

definition file_records :: "disk \<Rightarrow> (bytes \<times> (string, vault_record) btree) option" where
  "file_records d = Option.bind (dk_file d) (\<lambda>raw. ok (parse_vault raw))"

definition contents :: "vault_env \<Rightarrow> bytes \<Rightarrow> disk \<Rightarrow> string \<Rightarrow> string option" where
  "contents env cipher d key =
     Option.bind (file_records d) (\<lambda>(_, records).
     Option.bind (map_of records key) (\<lambda>r. vx_decrypt env cipher (rc_nonce r) key (rc_ciphertext r)))"

datatype vault_op = Put string string | Remove string

definition vault_step ::
    "vault_env \<Rightarrow> vault_io \<Rightarrow> vault_op \<Rightarrow> vault \<Rightarrow> disk \<Rightarrow> vault \<times> disk \<times> (vault_error, unit) result" where
  "vault_step env io op v d =
     (case op of
        Put key value \<Rightarrow> vault_put env io key value v d
      | Remove key \<Rightarrow> (case vault_remove io key v d of (v', d', r) \<Rightarrow> (v', d', case r of Inl e \<Rightarrow> Inl e | Inr _ \<Rightarrow> Inr ())))"

text \<open>The specification: a map from names to values.\<close>

fun map_step :: "vault_op \<Rightarrow> (string \<Rightarrow> string option) \<Rightarrow> string \<Rightarrow> string option" where
  "map_step (Put key value) m = m(key \<mapsto> value)"
| "map_step (Remove key) m = m(key := None)"

text \<open>Operations in the order they take the lock, each by one of the open handles; the log says which succeeded.\<close>

fun vault_run ::
    "vault_env \<Rightarrow> (nat \<times> vault_op \<times> vault_io) list \<Rightarrow> (nat \<Rightarrow> vault) \<times> disk \<Rightarrow> ((nat \<Rightarrow> vault) \<times> disk) \<times> vault_op list" where
  "vault_run env [] st = (st, [])"
| "vault_run env ((i, op, io) # ops) (hs, d) =
     (case vault_step env io op (hs i) d of
        (v, d', r) \<Rightarrow>
          (case vault_run env ops (hs(i := v), d') of
             (st, done') \<Rightarrow> (st, case r of Inl _ \<Rightarrow> done' | Inr _ \<Rightarrow> op # done')))"

lemma parse_records_ok: "parse_records raw cursor records = Inr rs \<Longrightarrow> bt_ok records \<Longrightarrow> list_all record_ok records \<Longrightarrow>
    bt_ok rs \<and> list_all record_ok rs"
proof (induction raw cursor records arbitrary: rs rule: parse_records.induct)
  case (1 raw cursor records)
  show ?case
  proof (cases "cursor < length raw")
    case True
    then obtain key r c where p: "parse_record raw cursor = Inr ((key, r), c)" "parse_records raw c (bt_insert key r records) = Inr rs"
      using 1(2) by (subst (asm) parse_records.simps) (auto split: sum.splits)
    have "record_ok (key, r)"
      using p(1) by (auto simp: parse_record_def read_le_def and_then_eq_Inr take_slice_Inr record_ok_def split: if_splits)
    then have "list_all record_ok (bt_insert key r records)"
      using 1(4) set_bt_insert_subset [of key r records] by (auto simp: list_all_iff)
    then show ?thesis using 1(1) [OF True p(1) refl refl] p(2) 1(3) by simp
  next
    case False
    then show ?thesis using 1(2-4) by (simp add: parse_records.simps)
  qed
qed

lemma parse_vault_ok: "parse_vault raw = Inr (salt, rs) \<Longrightarrow> vault_ok \<lparr>va_salt = salt, va_cipher = c, va_records = rs\<rparr>"
  using parse_records_ok [of raw 17 "[]" rs]
  by (auto simp: parse_vault_def vault_ok_def and_then_eq_Inr split: if_splits)

text \<open>
  The entropy source gives as many bytes as it was asked for, and a file longer than the address space is not written.
\<close>

definition io_sane :: "vault_io \<Rightarrow> bool" where
  "io_sane io \<longleftrightarrow>
     (\<forall>n bs. io_random io n = Inr bs \<longrightarrow> length bs = n) \<and> (\<forall>out. length out > usize_max \<longrightarrow> io_write io out \<noteq> None)"

fun op_ok :: "vault_op \<Rightarrow> bool" where
  "op_ok (Put key value) = utf8_valid key"
| "op_ok (Remove key) = True"

lemma persist_result:
  assumes "vault_ok v" "io_sane io" "vault_persist io v d = (d', r)"
  shows "case r of Inl _ \<Rightarrow> dk_file d' = dk_file d | Inr _ \<Rightarrow> file_records d' = Some (va_salt v, va_records v)"
proof (cases r)
  case (Inl e)
  then show ?thesis using assms(3) by (auto simp: vault_persist_def Let_def split: sum.splits option.splits)
next
  case (Inr u)
  then obtain out where out: "serialize_vault v = Inr out" "io_write io out = None" "dk_file d' = Some out"
    using assms(3) by (auto simp: vault_persist_def Let_def split: sum.splits option.splits)
  then have "length out \<le> usize_max" using assms(2) unfolding io_sane_def by (metis not_le)
  then show ?thesis using parse_serialized [OF assms(1) out(1)] out(3) Inr by (simp add: file_records_def ok_def)
qed

lemma file_records_Some: "file_records d = Some x \<longleftrightarrow> (\<exists>raw. dk_file d = Some raw \<and> parse_vault raw = Inr x)"
proof (cases "dk_file d")
  case (Some raw)
  then show ?thesis by (cases "parse_vault raw") (simp_all add: file_records_def ok_def)
qed (simp add: file_records_def)

lemma reload_result:
  assumes "file_records d = Some (salt, rs)" "vault_reload io d v = Inr v'"
  shows "va_salt v = salt \<and> v' = v\<lparr>va_records := rs\<rparr>"
  using assms by (auto simp: file_records_Some vault_reload_def read_if_present_def and_then_def split: option.splits if_splits)

lemma file_records_ok: "file_records d = Some (salt, rs) \<Longrightarrow> vault_ok \<lparr>va_salt = salt, va_cipher = c, va_records = rs\<rparr>"
  by (auto simp: file_records_Some intro: parse_vault_ok)

lemma contents_of: "file_records d = Some (salt, rs) \<Longrightarrow>
    contents env cipher d = (\<lambda>key. Option.bind (map_of rs key) (\<lambda>r. vx_decrypt env cipher (rc_nonce r) key (rc_ciphertext r)))"
  by (simp add: contents_def fun_eq_iff)

text \<open>One operation: what it does to the file when it succeeds, and that it does nothing to it when it fails.\<close>

definition step_result :: "vault_env \<Rightarrow> bytes \<Rightarrow> bytes \<Rightarrow> vault_op \<Rightarrow> disk \<Rightarrow> disk \<Rightarrow> (vault_error, unit) result \<Rightarrow> bool" where
  "step_result env cipher salt op d d' r \<longleftrightarrow>
     (case r of
        Inl _ \<Rightarrow> dk_file d' = dk_file d
      | Inr _ \<Rightarrow> contents env cipher d' = map_step op (contents env cipher d) \<and> (\<exists>rs. file_records d' = Some (salt, rs)))"

lemma put_result:
  assumes law: "\<And>c n a m ct. vx_encrypt env c n a m = Some ct \<Longrightarrow> vx_decrypt env c n a ct = Some m"
    and d: "file_records d = Some (salt, rs)" and v: "va_salt v = salt \<longrightarrow> va_cipher v = cipher"
    and io: "io_sane io" and key: "utf8_valid key" and put: "vault_put env io key value v d = (v', d', r)"
  shows "va_salt v' = va_salt v \<and> va_cipher v' = va_cipher v \<and> step_result env cipher salt (Put key value) d d' r"
proof -
  consider (same) e where "r = Inl e" "v' = v" "d' = d"
    | (wrote) rc v1 where "vault_seal env io v key value = Inr rc" "vault_reload io d v = Inr v1"
        "v' = v1\<lparr>va_records := bt_insert key rc (va_records v1)\<rparr>" "vault_persist io v' d = (d', r)"
    using put by (auto simp: vault_put_def vault_locked_def Let_def split: sum.splits option.splits)
  then show ?thesis
  proof cases
    case same
    then show ?thesis by (simp add: step_result_def)
  next
    case wrote
    then have v1: "va_salt v = salt" "v1 = v\<lparr>va_records := rs\<rparr>" using reload_result [OF d] by blast+
    have rc: "length (rc_nonce rc) = 24" "vx_decrypt env cipher (rc_nonce rc) key (rc_ciphertext rc) = Some value"
      using wrote(1) io law v v1(1)
      by (auto simp: vault_seal_def random_array_def and_then_eq_Inr io_sane_def split: sum.splits option.splits)
    have ok: "vault_ok v'"
      using file_records_ok [OF d] rc(1) key v1 set_bt_insert_subset [of key rc rs]
      by (auto simp: wrote(3) vault_ok_def list_all_iff record_ok_def)
    have "case r of Inl _ \<Rightarrow> dk_file d' = dk_file d | Inr _ \<Rightarrow> file_records d' = Some (va_salt v', va_records v')"
      by (rule persist_result [OF ok io wrote(4)])
    moreover have "contents env cipher d' = map_step (Put key value) (contents env cipher d)"
      if "file_records d' = Some (va_salt v', va_records v')"
      using contents_of [OF that] contents_of [OF d] rc(2) v1 by (auto simp: wrote(3) fun_eq_iff)
    ultimately show ?thesis using v1 by (auto simp: step_result_def wrote(3) split: sum.splits)
  qed
qed

lemma remove_result:
  assumes d: "file_records d = Some (salt, rs)" and io: "io_sane io" and rm: "vault_remove io key v d = (v', d', r)"
  shows "va_salt v' = va_salt v \<and> va_cipher v' = va_cipher v \<and>
    step_result env cipher salt (Remove key) d d' (case r of Inl e \<Rightarrow> Inl e | Inr _ \<Rightarrow> Inr ())"
proof -
  consider (same) e where "r = Inl e" "v' = v" "d' = d"
    | (absent) v1 where "vault_reload io d v = Inr v1" "map_of (va_records v1) key = None" "v' = v1\<lparr>va_records := bt_remove key (va_records v1)\<rparr>"
        "d' = d" "r = Inr False"
    | (wrote) v1 r' where "vault_reload io d v = Inr v1" "v' = v1\<lparr>va_records := bt_remove key (va_records v1)\<rparr>"
        "vault_persist io v' d = (d', r')" "r = (case r' of Inl e \<Rightarrow> Inl e | Inr _ \<Rightarrow> Inr True)"
  proof (cases "io_lock io")
    case (Some pe)
    then show ?thesis using rm same by (cases pe) (auto simp: vault_remove_def vault_locked_def)
  next
    case None
    show ?thesis
    proof (cases "vault_reload io d v")
      case (Inl e)
      then show ?thesis using rm same None by (auto simp: vault_remove_def vault_locked_def)
    next
      case (Inr v1)
      let ?v = "v1\<lparr>va_records := bt_remove key (va_records v1)\<rparr>"
      obtain d1 r1 where p: "vault_persist io ?v d = (d1, r1)" by (cases "vault_persist io ?v d")
      show ?thesis
      proof (cases "map_of (va_records v1) key = None")
        case True
        then have "v' = ?v" "d' = d" "r = Inr False" using rm Inr None by (simp_all add: vault_remove_def vault_locked_def)
        then show ?thesis by (intro absent [OF Inr True])
      next
        case False
        then have "v' = ?v" "d' = d1" "r = (case r1 of Inl e \<Rightarrow> Inl e | Inr _ \<Rightarrow> Inr True)"
          using rm p Inr None by (auto simp: vault_remove_def vault_locked_def Let_def split: sum.splits)
        then show ?thesis using p by (intro wrote [OF Inr]) simp_all
      qed
    qed
  qed
  then show ?thesis
  proof cases
    case same
    then show ?thesis by (simp add: step_result_def)
  next
    case absent
    then have "va_salt v = salt" "v1 = v\<lparr>va_records := rs\<rparr>" using reload_result [OF d] by blast+
    then show ?thesis using absent contents_of [OF d] d by (auto simp: step_result_def fun_eq_iff)
  next
    case wrote
    then have v1: "va_salt v = salt" "v1 = v\<lparr>va_records := rs\<rparr>" using reload_result [OF d] by blast+
    have "vault_ok v'" using file_records_ok [OF d] v1 by (auto simp: wrote(2) vault_ok_def list_all_iff bt_remove_def bt_ok_filter)
    then have "case r' of Inl _ \<Rightarrow> dk_file d' = dk_file d | Inr _ \<Rightarrow> file_records d' = Some (va_salt v', va_records v')"
      using persist_result io wrote(3) by blast
    moreover have "contents env cipher d' = map_step (Remove key) (contents env cipher d)"
      if "file_records d' = Some (va_salt v', va_records v')"
      using contents_of [OF that] contents_of [OF d] v1 by (auto simp: wrote(2) fun_eq_iff)
    ultimately show ?thesis using v1 by (auto simp: step_result_def wrote(2,4) split: sum.splits)
  qed
qed

lemma step_is_map_step:
  assumes law: "\<And>c n a m ct. vx_encrypt env c n a m = Some ct \<Longrightarrow> vx_decrypt env c n a ct = Some m"
    and d: "file_records d = Some (salt, rs)" and v: "va_salt v = salt \<longrightarrow> va_cipher v = cipher"
    and io: "io_sane io" and op: "op_ok op" and st: "vault_step env io op v d = (v', d', r)"
  shows "va_salt v' = va_salt v \<and> va_cipher v' = va_cipher v \<and> step_result env cipher salt op d d' r"
proof (cases op)
  case (Put key val)
  then show ?thesis using put_result [OF law d v io, of key val v' d' r] op st by (simp add: vault_step_def)
next
  case (Remove key)
  obtain w e q where "vault_remove io key v d = (w, e, q)" by (cases "vault_remove io key v d")
  with remove_result [OF d io this, of env cipher] show ?thesis using Remove st by (auto simp: vault_step_def)
qed

text \<open>
  C19. A vault that exists loses no write. From a vault file that is there and parses: however many handles are open on
  it, in one process or several, opened before or after one another's writes, and whatever fails on the way, after any
  sequence of mutations the file holds exactly what the mutations that reported success wrote, in their order, as a
  map from names to values; one that reported failure left the file as it was. Handles opened on another vault that stood
  at the path are refused. The cipher decrypts what it encrypted, handles of this vault were opened with its key, names are
  text, and the entropy source gives what it is asked for. While there is no file yet this does not hold: a
  failed first write can still be written by the same handle later (below).
\<close>

theorem vault_loses_no_write:
  assumes law: "\<And>c n a m ct. vx_encrypt env c n a m = Some ct \<Longrightarrow> vx_decrypt env c n a ct = Some m"
    and "file_records d = Some (salt, rs)" "\<forall>i. va_salt (hs i) = salt \<longrightarrow> va_cipher (hs i) = cipher"
    and "\<forall>(i, op, io) \<in> set ops. io_sane io \<and> op_ok op"
    and "vault_run env ops (hs, d) = ((hs', d'), done')"
  shows "contents env cipher d' = fold map_step done' (contents env cipher d)"
  using assms(2-5)
proof (induction ops arbitrary: hs d rs hs' d' done')
  case (Cons x ops)
  obtain i op io where x: "x = (i, op, io)" by (cases x)
  obtain v1 d1 r where s: "vault_step env io op (hs i) d = (v1, d1, r)" by (cases "vault_step env io op (hs i) d")
  obtain rest where rest: "vault_run env ops (hs(i := v1), d1) = ((hs', d'), rest)" "done' = (case r of Inl _ \<Rightarrow> rest | Inr _ \<Rightarrow> op # rest)"
    using Cons.prems(4) by (auto simp: x s split: prod.splits)
  have one: "va_salt v1 = va_salt (hs i)" "va_cipher v1 = va_cipher (hs i)" "step_result env cipher salt op d d1 r"
    using step_is_map_step [OF law Cons.prems(1) _ _ _ s, of cipher] Cons.prems(2,3) by (auto simp: x)
  obtain rs1 where rs1: "file_records d1 = Some (salt, rs1)"
    using one(3) Cons.prems(1) by (cases r) (auto simp: step_result_def file_records_def)
  have "\<forall>j. va_salt ((hs(i := v1)) j) = salt \<longrightarrow> va_cipher ((hs(i := v1)) j) = cipher"
    using Cons.prems(2) one(1,2) by simp
  from Cons.IH [OF rs1 this _ rest(1)] Cons.prems(3)
  have "contents env cipher d' = fold map_step rest (contents env cipher d1)" by simp
  moreover have "contents env cipher d1 = (case r of Inl _ \<Rightarrow> contents env cipher d | Inr _ \<Rightarrow> map_step op (contents env cipher d))"
    using one(3) by (auto simp: step_result_def contents_def file_records_def fun_eq_iff split: sum.splits)
  ultimately show ?case by (simp add: rest(2) split: sum.splits)
qed simp

text \<open>Two handles on an empty vault, and a cipher that leaves its message in the clear.\<close>

definition clear_env :: vault_env where
  "clear_env = \<lparr>vx_derive = (\<lambda>master _. Inr master), vx_encrypt = (\<lambda>_ _ _ m. Some m), vx_decrypt = (\<lambda>_ _ _ ct. Some ct)\<rparr>"

definition calm_io :: vault_io where
  "calm_io =
     \<lparr>io_read = None, io_lock = None, io_parent = None,
      io_write = (\<lambda>out. if length out > usize_max then Some ([], None) else None),
      io_permissions = None, io_rename = None, io_random = (\<lambda>n. Inr (replicate n CHR ''r''))\<rparr>"

definition empty_vault :: vault where
  "empty_vault = \<lparr>va_salt = replicate 16 CHR ''s'', va_cipher = ''key'', va_records = []\<rparr>"

definition empty_disk :: disk where
  "empty_disk = \<lparr>dk_file = Some (byte 1 # replicate 16 CHR ''s''), dk_tmp = None\<rparr>"

text \<open>
  Witness of C19: each handle writes one name, the first removes its own, and a write whose rename fails leaves no trace in the file.
\<close>

theorem vault_loses_no_write_witness:
  "\<exists>hs' d' done'.
     vault_run clear_env [(0, Put ''a'' ''x'', calm_io), (1, Put ''b'' ''y'', calm_io), (1, Put ''c'' ''z'', calm_io\<lparr>io_rename := Some []\<rparr>),
       (0, Remove ''a'', calm_io)] (\<lambda>_. empty_vault, empty_disk) = ((hs', d'), done') \<and>
     contents clear_env ''key'' d' ''b'' = Some ''y'' \<and> contents clear_env ''key'' d' ''a'' = None \<and> contents clear_env ''key'' d' ''c'' = None"
proof -
  let ?ops = "[(0, Put ''a'' ''x'', calm_io), (1, Put ''b'' ''y'', calm_io), (1, Put ''c'' ''z'', calm_io\<lparr>io_rename := Some []\<rparr>),
       (0, Remove ''a'', calm_io)] :: (nat \<times> vault_op \<times> vault_io) list"
  obtain hs' d' done' where run: "vault_run clear_env ?ops (\<lambda>_. empty_vault, empty_disk) = ((hs', d'), done')"
    by (metis prod.collapse)
  have "snd (vault_run clear_env ?ops (\<lambda>_. empty_vault, empty_disk)) = [Put ''a'' ''x'', Put ''b'' ''y'', Remove ''a'']" by code_simp
  then have d: "done' = [Put ''a'' ''x'', Put ''b'' ''y'', Remove ''a'']" using run by simp
  have empty: "file_records empty_disk = Some (replicate 16 CHR ''s'', [])" by code_simp
  have "\<forall>(i, op, io) \<in> set ?ops. io_sane io \<and> op_ok op" by (auto simp: io_sane_def calm_io_def)
  from vault_loses_no_write [OF _ empty _ this run, of "''key''"]
  have "contents clear_env ''key'' d' = fold map_step done' (contents clear_env ''key'' empty_disk)"
    by (simp add: clear_env_def empty_vault_def)
  then show ?thesis using run unfolding d by (auto simp: contents_of [OF empty])
qed

section \<open>Reading\<close>

lemma opened_reads_contents:
  assumes "file_records d = Some (salt, rs)" "vault_open env io master d = Inr v" "vx_derive env master salt = Inr cipher"
  shows "va_salt v = salt \<and> va_cipher v = cipher \<and>
    (case contents env cipher d key of
       Some plain \<Rightarrow> vault_get env v key = (if utf8_valid plain then Inr (Some plain) else Inl (NotUtf8 key))
     | None \<Rightarrow> vault_get env v key = Inr None \<or> vault_get env v key = Inl WrongKey)"
proof -
  have "v = \<lparr>va_salt = salt, va_cipher = cipher, va_records = rs\<rparr>"
    using assms by (auto simp: file_records_Some vault_open_def read_if_present_def derive_cipher_def and_then_def Let_def
        split: option.splits list.splits sum.splits prod.splits)
  then show ?thesis by (simp add: contents_of [OF assms(1)] vault_get_def split: option.split)
qed

text \<open>
  With no file yet, a handle is all there is: a write that failed stays in it, and is written by its next mutation that succeeds.
\<close>

lemma failed_first_write_returns:
  "let (v1, d1, r1) = vault_put clear_env (calm_io\<lparr>io_rename := Some []\<rparr>) ''a'' ''x'' empty_vault \<lparr>dk_file = None, dk_tmp = None\<rparr>;
       (v2, d2, r2) = vault_put clear_env calm_io ''b'' ''y'' v1 d1
   in r1 = Inl (VaultIo VaultFile []) \<and> r2 = Inr () \<and> contents clear_env ''key'' d2 ''a'' = Some ''x''"
  by code_simp

end
