(* ===== verification/Secrets.thy ===== *)
theory Secrets
  imports Vault
begin

text \<open>
  \<^verbatim>\<open>sharerr/src/secrets.rs\<close>: comparing secrets, and the seeds an instance mints for itself and keeps in the vault.
\<close>

section \<open>Comparing secrets\<close>

definition constant_time_eq :: "string \<Rightarrow> string \<Rightarrow> bool" where
  "constant_time_eq a b \<longleftrightarrow>
     length a = length b \<and>
     foldl (\<lambda>differences (x, y). or differences (xor (code x) (code y))) (0 :: nat) (zip a b) = 0"

lemma fold_or_zero:
  "foldl (\<lambda>d (x, y). or d (xor (code x) (code y))) (n :: nat) ps = 0 \<longleftrightarrow> n = 0 \<and> (\<forall>(x, y) \<in> set ps. x = y)"
proof (induction ps arbitrary: n)
  case (Cons p ps)
  have or0: "or m k = 0 \<longleftrightarrow> m = 0 \<and> k = 0" for m k :: nat
    by (auto simp: bit_eq_iff bit_or_iff)
  have xor0: "xor m k = 0 \<longleftrightarrow> m = k" for m k :: nat
    by (auto simp: bit_eq_iff bit_xor_iff)
  show ?case by (cases p) (auto simp: Cons.IH or0 xor0)
qed simp

lemma zip_all_eq: "length a = length b \<Longrightarrow> (\<forall>(x, y) \<in> set (zip a b). x = y) \<longleftrightarrow> a = b"
  by (induction a b rule: list_induct2) auto

lemma constant_time_eq_iff [simp]: "constant_time_eq a b \<longleftrightarrow> a = b"
  using zip_all_eq [of a b] by (auto simp: constant_time_eq_def fold_or_zero)

section \<open>Seeds\<close>

text \<open>\<^verbatim>\<open>hex::encode\<close> and \<^verbatim>\<open>hex::decode_to_slice\<close> are parameters.\<close>

definition random_hex :: "(bytes \<Rightarrow> string) \<Rightarrow> vault_io \<Rightarrow> nat \<Rightarrow> (string, string) result" where
  "random_hex hex io n =
     (case io_random io n of Inl err \<Rightarrow> Inl (''could not generate a secret: '' @ err) | Inr raw \<Rightarrow> Inr (hex raw))"

definition random_bytes :: "vault_io \<Rightarrow> nat \<Rightarrow> (string, bytes) result" where
  "random_bytes io n =
     (case io_random io n of Inl err \<Rightarrow> Inl (''could not generate key material: '' @ err) | Inr raw \<Rightarrow> Inr raw)"

text \<open>What goes wrong with a seed: it cannot be made, it cannot be stored, or what is stored is something else.\<close>

datatype seed_problem = NotMinted string | NotStored vault_error | NotASeed

definition load_or_create_seed ::
    "vault_env \<Rightarrow> (bytes \<Rightarrow> string) \<Rightarrow> (string \<Rightarrow> bytes option) \<Rightarrow> vault_io \<Rightarrow> string \<Rightarrow> vault \<Rightarrow> disk \<Rightarrow>
       vault \<times> disk \<times> (seed_problem, bytes \<times> bool) result" where
  "load_or_create_seed env hex unhex io key v d =
     (case vault_get env v key of
        Inr (Some stored) \<Rightarrow>
          (v, d, case unhex stored of Some bs \<Rightarrow> if length bs = 32 then Inr (bs, False) else Inl NotASeed | None \<Rightarrow> Inl NotASeed)
      | _ \<Rightarrow>
          (case random_bytes io 32 of
             Inl err \<Rightarrow> (v, d, Inl (NotMinted err))
           | Inr seed \<Rightarrow>
               (case vault_put env io key (hex seed) v d of
                  (v', d', Inl err) \<Rightarrow> (v', d', Inl (NotStored err))
                | (v', d', Inr _) \<Rightarrow> (v', d', Inr (seed, True)))))"

text \<open>A seed once minted is the one answered from then on.\<close>

lemma seed_is_stable:
  assumes law: "\<And>c n a m ct. vx_encrypt env c n a m = Some ct \<Longrightarrow> vx_decrypt env c n a ct = Some m"
    and hex: "\<And>bs. unhex (hex bs) = Some bs" "\<And>bs. utf8_valid (hex bs)"
    and io: "io_sane io" and load: "load_or_create_seed env hex unhex io key v d = (v', d', Inr (seed, minted))"
  shows "load_or_create_seed env hex unhex io' key v' d' = (v', d', Inr (seed, False))"
proof (cases minted)
  case True
  then have mint: "io_random io 32 = Inr seed" "vault_put env io key (hex seed) v d = (v', d', Inr ())"
    using load by (auto simp: load_or_create_seed_def random_bytes_def split: sum.splits option.splits prod.splits if_splits)
  then obtain rc rs where "vault_seal env io v key (hex seed) = Inr rc" "va_cipher v' = va_cipher v"
      "va_records v' = bt_insert key rc rs"
    by (auto simp: vault_put_def vault_locked_def Let_def vault_reload_def and_then_eq_Inr split: sum.splits option.splits if_splits)
  then have "vault_get env v' key = Inr (Some (hex seed))"
    using law hex(2) by (auto simp: vault_get_def vault_seal_def and_then_eq_Inr split: option.splits)
  then show ?thesis using io mint(1) hex(1) by (simp add: load_or_create_seed_def io_sane_def)
next
  case False
  then show ?thesis
    using load by (auto simp: load_or_create_seed_def random_bytes_def split: sum.splits option.splits if_splits prod.splits)
qed

text \<open>A record that is there and does not open is replaced as if it were not there.\<close>

lemma damaged_seed_is_replaced:
  assumes "vault_get env v key = Inl err" "io_random io 32 = Inr seed" "vault_put env io key (hex seed) v d = (v', d', Inr ())"
  shows "load_or_create_seed env hex unhex io key v d = (v', d', Inr (seed, True))"
  using assms by (simp add: load_or_create_seed_def random_bytes_def)

end
