(* ===== verification/Tracker_Http.thy ===== *)
theory Tracker_Http
  imports Announce Factory Store Secrets
begin

text \<open>
  \<^verbatim>\<open>sharerr/src/tracker.rs\<close>: the announce, scrape and \<^verbatim>\<open>.torrent\<close> routes, where the swarms, the store and the
  tokens meet; and \<^verbatim>\<open>record_sighting\<close> of \<^verbatim>\<open>torznab/mod.rs\<close>. What one
  request finds around it (whether the database and the vault open, the tokens, the clocks) is its environment.
\<close>

section \<open>State and environment\<close>

record serve_state =
  sv_db :: database
  sv_swarms :: swarms
  sv_legacy_used :: "int option"
  sv_first_contacts :: "(int \<times> endpoint_kind) list"
  sv_endpoint :: advertised_endpoint

text \<open>
  \<^verbatim>\<open>env_tokens\<close> is \<^verbatim>\<open>tracker_tokens()\<close>: nothing when the vault does not open, otherwise the current and the
  previous token. A request reads each clock once.
\<close>

record request_env =
  env_store :: bool
  env_tokens :: "(string option \<times> string option) option"
  env_now :: int
  env_instant :: nat
  env_gap :: nat

definition record_used :: "int \<Rightarrow> serve_state \<Rightarrow> serve_state" where
  "record_used now st = st\<lparr>sv_legacy_used := Some now\<rparr>"

definition legacy_reset :: "serve_state \<Rightarrow> serve_state" where
  "legacy_reset st = st\<lparr>sv_legacy_used := None\<rparr>"

definition legacy_snapshot :: "serve_state \<Rightarrow> int option" where
  "legacy_snapshot st = sv_legacy_used st"

section \<open>Admission\<close>

text \<open>
  A store that does not open and one whose query fails answer alike, not served: \<^verbatim>\<open>env_store\<close> stands for both.
\<close>

definition is_served :: "(bytes \<Rightarrow> string) \<Rightarrow> request_env \<Rightarrow> serve_state \<Rightarrow> bytes \<Rightarrow> bool" where
  "is_served hex env st h \<longleftrightarrow> env_store env \<and> is_shared (hex h) (db_items (sv_db st))"

record token_auth =
  attributed_to :: "int option"
  via_previous :: bool

definition token_auth_default :: token_auth where
  "token_auth_default = \<lparr>attributed_to = None, via_previous = False\<rparr>"

definition authenticate_token ::
    "database \<Rightarrow> string option \<Rightarrow> string option \<Rightarrow> string option \<Rightarrow> (announce_error, token_auth) result" where
  "authenticate_token db required previous supplied =
     (case required of
        None \<Rightarrow> Inr token_auth_default
      | Some req \<Rightarrow>
          (case supplied of
             None \<Rightarrow> Inl BadToken
           | Some s \<Rightarrow>
               if constant_time_eq req s then Inr token_auth_default
               else if (case previous of None \<Rightarrow> False | Some prev \<Rightarrow> constant_time_eq prev s)
               then Inr (token_auth_default\<lparr>via_previous := True\<rparr>)
               else (case peer_by_key_hash s db of
                       Inr (Some p) \<Rightarrow> Inr (token_auth_default\<lparr>attributed_to := Some (p_id p)\<rparr>)
                     | Inr None \<Rightarrow> Inl BadToken
                     | Inl _ \<Rightarrow> Inl BadToken)))"

definition authenticate ::
    "request_env \<Rightarrow> string option \<Rightarrow> serve_state \<Rightarrow> serve_state \<times> (announce_error, token_auth) result" where
  "authenticate env supplied st =
     (if \<not> env_store env then (st, Inl BadToken)
      else (case env_tokens env of
              None \<Rightarrow> (st, Inl BadToken)
            | Some (required, previous) \<Rightarrow>
                (case authenticate_token (sv_db st) required previous supplied of
                   Inl e \<Rightarrow> (st, Inl e)
                 | Inr auth \<Rightarrow> (if via_previous auth then record_used (env_now env) st else st, Inr auth))))"

section \<open>Announce\<close>

definition show_socket_addr :: "socket_addr \<Rightarrow> string" where
  "show_socket_addr a =
     (case fst a of V4 _ \<Rightarrow> show_ip (fst a) | V6 _ \<Rightarrow> ''['' @ show_ip (fst a) @ '']'') @ '':'' @ show_nat (snd a)"

text \<open>
  \<^verbatim>\<open>record_sighting\<close>: the touch, the address when the touch moved, and the first-contact notification, kept here as
  the list of those sent. Failures are logged and swallowed.
\<close>

definition record_sighting :: "request_env \<Rightarrow> int \<Rightarrow> endpoint_kind \<Rightarrow> string option \<Rightarrow> serve_state \<Rightarrow> serve_state" where
  "record_sighting env peer_id kind where_seen st =
     (case touch_peer (env_now env) peer_id (sv_db st) of
        (db, touched) \<Rightarrow>
          (let db' = (case where_seen of
                        Some a \<Rightarrow>
                          if touch_updated touched
                          then or_keep db (record_peer_endpoint (env_gap env) (env_now env) peer_id kind a (Some (env_now env)) ViaDirect db)
                          else db
                      | None \<Rightarrow> db)
           in st\<lparr>sv_db := db',
                 sv_first_contacts := sv_first_contacts st @ (if touched = First then [(peer_id, kind)] else [])\<rparr>))"

definition handle_announce ::
    "(bytes \<Rightarrow> bytes) \<Rightarrow> (bytes \<Rightarrow> string) \<Rightarrow> (swarm \<Rightarrow> swarm) \<Rightarrow> request_env \<Rightarrow> string option \<Rightarrow> socket_addr \<Rightarrow> bytes \<Rightarrow>
       serve_state \<Rightarrow> serve_state \<times> (announce_error, bytes) result" where
  "handle_announce unescape hex iter env token remote query st =
     (case announce_parse unescape query of
        Inl e \<Rightarrow> (st, Inl e)
      | Inr request \<Rightarrow>
          (case authenticate env token st of
             (st1, Inl e) \<Rightarrow> (st1, Inl e)
           | (st1, Inr auth) \<Rightarrow>
               if \<not> is_served hex env st (ar_info_hash request) then (st1, Inl UnknownTorrent)
               else
                 (let a = resolve_addr request (fst remote);
                      (sw, response) = swarms_announce iter (env_instant env) request a (sv_swarms st1);
                      st2 = st1\<lparr>sv_swarms := sw\<rparr>;
                      st3 = (case attributed_to auth of
                               None \<Rightarrow> st2
                             | Some i \<Rightarrow> record_sighting env i ClientKind (Some (show_socket_addr a)) st2);
                      moved = resp_transferred response;
                      st4 = st3\<lparr>sv_db := record_transfer (env_now env) (attributed_to auth) (tr_downloaded moved) (tr_uploaded moved) (sv_db st3)\<rparr>
                  in (st4, Inr (to_bencode response (ar_compact request))))))"

text \<open>The \<^verbatim>\<open>Display\<close> of an error, with \<^verbatim>\<open>{0:?}\<close> quoting the field names, which hold nothing to escape.\<close>

definition announce_error_text :: "announce_error \<Rightarrow> string" where
  "announce_error_text e =
     (case e of
        Missing f \<Rightarrow> ''missing required parameter '' @ [CHR 0x22] @ f @ [CHR 0x22]
      | BadLength f n \<Rightarrow> f @ '' must be exactly 20 bytes, got '' @ show_nat n
      | NotANumber f \<Rightarrow> f @ '' is not a number''
      | UnknownTorrent \<Rightarrow> ''this tracker does not serve that torrent''
      | BadToken \<Rightarrow> ''invalid announce token'')"

definition respond ::
    "(bytes \<Rightarrow> bytes) \<Rightarrow> (bytes \<Rightarrow> string) \<Rightarrow> (swarm \<Rightarrow> swarm) \<Rightarrow> request_env \<Rightarrow> string option \<Rightarrow> socket_addr \<Rightarrow> bytes option \<Rightarrow>
       serve_state \<Rightarrow> serve_state \<times> bytes" where
  "respond unescape hex iter env token remote query st =
     (case handle_announce unescape hex iter env token remote (case query of None \<Rightarrow> [] | Some q \<Rightarrow> q) st of
        (st', Inr body) \<Rightarrow> (st', body)
      | (st', Inl e) \<Rightarrow> (st', failure_bencode (announce_error_text e)))"

section \<open>Scrape\<close>

definition handle_scrape ::
    "(bytes \<Rightarrow> bytes) \<Rightarrow> (bytes \<Rightarrow> string) \<Rightarrow> request_env \<Rightarrow> string option \<Rightarrow> bytes option \<Rightarrow> serve_state \<Rightarrow> serve_state \<times> bytes" where
  "handle_scrape unescape hex env token query st =
     (case authenticate env token st of
        (st1, Inl e) \<Rightarrow> (st1, failure_bencode (announce_error_text e))
      | (st1, Inr _) \<Rightarrow>
          (case map_of (parse_query unescape (case query of None \<Rightarrow> [] | Some q \<Rightarrow> q)) ''info_hash'' of
             None \<Rightarrow> (st1, failure_bencode ''this tracker only scrapes specific torrents'')
           | Some raw \<Rightarrow>
               if length raw \<noteq> HASH_LEN then (st1, failure_bencode ''info_hash must be exactly 20 bytes'')
               else if \<not> is_served hex env st1 raw then (st1, scrape_bencode [])
               else (case Announce.scrape (sv_swarms st1) (env_instant env) raw of
                       (complete, incomplete) \<Rightarrow> (st1, scrape_bencode [(raw, complete, incomplete)]))))"

section \<open>The \<^verbatim>\<open>.torrent\<close> file\<close>

definition torrent_download_path :: "string \<Rightarrow> string" where
  "torrent_download_path h = ''/torrents/'' @ h @ ''.torrent''"

definition strip_suffix :: "string \<Rightarrow> string \<Rightarrow> string option" where
  "strip_suffix suf s =
     (if length suf \<le> length s \<and> drop (length s - length suf) s = suf
      then Some (take (length s - length suf) s) else None)"

text \<open>\<^verbatim>\<open>url::Url::parse\<close> and the reading of a whole file are parameters.\<close>

definition attributed_bytes ::
    "(string \<Rightarrow> ('p, url) result) \<Rightarrow> request_env \<Rightarrow> serve_state \<Rightarrow> bytes \<Rightarrow> string \<Rightarrow> bytes" where
  "attributed_bytes url_parse env st bytes supplied =
     (if \<not> env_store env then bytes
      else (case peer_by_key_hash supplied (sv_db st) of
              Inr (Some p) \<Rightarrow>
                (case (announce_set_for url_parse (sv_endpoint st) (Some (p_key_hash p)) :: (('p, unit) terror, announce_set) result) of
                   Inl _ \<Rightarrow> bytes
                 | Inr ann \<Rightarrow>
                     (case (rewrite_announce bytes ann :: (('p, unit) terror, bytes) result) of
                        Inl _ \<Rightarrow> bytes
                      | Inr rewritten \<Rightarrow> rewritten))
            | _ \<Rightarrow> bytes))"

datatype http_response = NotFound string | TorrentBody string bytes

definition torrent_file ::
    "(string \<Rightarrow> ('p, url) result) \<Rightarrow> (string \<Rightarrow> bytes option) \<Rightarrow> (bytes \<Rightarrow> string) \<Rightarrow> (rpath \<Rightarrow> bytes option) \<Rightarrow> rpath \<Rightarrow>
       request_env \<Rightarrow> string \<Rightarrow> string option \<Rightarrow> serve_state \<Rightarrow> http_response" where
  "torrent_file url_parse hex_decode hex read_file torrent_dir env name token st =
     (case Option.bind (strip_suffix ''.torrent'' name) (info_hash_from_hex hex_decode) of
        None \<Rightarrow> NotFound ''not a torrent''
      | Some h \<Rightarrow>
          if \<not> is_served hex env st h then NotFound ''not shared''
          else
            (case read_file (torrent_file_path torrent_dir (hex h)) of
               None \<Rightarrow> NotFound ''torrent file missing''
             | Some bytes \<Rightarrow>
                 TorrentBody (torrent_file_name (hex h))
                   (case token of None \<Rightarrow> bytes | Some supplied \<Rightarrow> attributed_bytes url_parse env st bytes supplied)))"

section \<open>Who is let in\<close>

text \<open>Whom the tracker admits, from the outcomes the code documents.\<close>

definition authorised :: "request_env \<Rightarrow> database \<Rightarrow> string option \<Rightarrow> bool" where
  "authorised env db token \<longleftrightarrow>
     (case env_tokens env of
        None \<Rightarrow> False
      | Some (None, _) \<Rightarrow> True
      | Some (Some req, previous) \<Rightarrow>
          \<exists>s. token = Some s \<and> (s = req \<or> previous = Some s \<or> (\<exists>p. peer_by_key_hash s db = Inr (Some p))))"

lemma authenticate_authorised:
  "(\<exists>auth. snd (authenticate env token st) = Inr auth) \<longleftrightarrow> env_store env \<and> authorised env (sv_db st) token"
  by (auto simp: authenticate_def authorised_def authenticate_token_def split: option.splits sum.splits prod.splits)

lemma authenticate_keeps [simp]:
  "sv_db (fst (authenticate env token st)) = sv_db st" "sv_swarms (fst (authenticate env token st)) = sv_swarms st"
  "sv_first_contacts (fst (authenticate env token st)) = sv_first_contacts st"
  by (auto simp: authenticate_def record_used_def split: option.splits sum.splits prod.splits)

lemma is_served_authenticated [simp]:
  "is_served hex env (fst (authenticate env token st)) h = is_served hex env st h"
  by (simp add: is_served_def)

text \<open>
  C16. An announce is answered with peers exactly when its query is well formed, the database and the vault could be
  read, its token is one the instance or an active friend holds (or none is required), and the torrent is one this
  instance shares. A refused announce joins no swarm and changes nothing in the database.
\<close>

theorem announce_admission:
  "let res = handle_announce unescape hex iter env token remote query st in
     ((\<exists>body. snd res = Inr body) \<longleftrightarrow>
        (\<exists>request. announce_parse unescape query = Inr request \<and> env_store env \<and> authorised env (sv_db st) token \<and>
           is_shared (hex (ar_info_hash request)) (db_items (sv_db st)))) \<and>
     ((\<exists>body. snd res = Inr body) \<or>
        sv_swarms (fst res) = sv_swarms st \<and> sv_db (fst res) = sv_db st \<and> sv_first_contacts (fst res) = sv_first_contacts st)"
proof (cases "announce_parse unescape query")
  case (Inl e)
  then show ?thesis by (simp add: handle_announce_def)
next
  case (Inr request)
  obtain st1 auth where auth: "authenticate env token st = (st1, auth)" by fastforce
  have keep: "sv_db st1 = sv_db st" "sv_swarms st1 = sv_swarms st" "sv_first_contacts st1 = sv_first_contacts st"
    using authenticate_keeps [of env token st] auth by simp_all
  have iff: "(\<exists>a. auth = Inr a) \<longleftrightarrow> env_store env \<and> authorised env (sv_db st) token"
    using authenticate_authorised [of env token st] auth by simp
  show ?thesis
  proof (cases auth)
    case (Inl e)
    then show ?thesis using Inr auth keep iff by (auto simp: handle_announce_def)
  next
    case (Inr a)
    then show ?thesis using \<open>announce_parse unescape query = Inr request\<close> auth keep iff
      by (auto simp: handle_announce_def is_served_def Let_def case_prod_beta)
  qed
qed

text \<open>
  C17. Cutting a friend off reaches the tracker. On an instance that has a tracker token configured, and for a friend's key
  that is not itself its current or previous token: once the key is revoked, whatever the store writes afterwards
  short of deleting the friend, an announce with it that parses is refused without a trace, and a \<^verbatim>\<open>.torrent\<close> download
  with it is not attributed. (Where no token is configured, the tracker admits everybody and revoking a friend
  does not keep them out.)
\<close>

theorem revoked_friend_cannot_announce:
  assumes "r \<in> set (db_peers (foldl (db_step hash_key url_norm) (empty_db rt) ops))" "DeletePeer (pr_id r) \<notin> set ops'"
    and "sv_db st = foldl (db_step hash_key url_norm)
           (fst (revoke_peer now (pr_id r) (foldl (db_step hash_key url_norm) (empty_db rt) ops))) ops'"
    and "env_tokens env = Some (Some req, previous)" "req \<noteq> pr_key_hash r" "previous \<noteq> Some (pr_key_hash r)"
    and "announce_parse unescape query = Inr request"
  shows "handle_announce unescape hex iter env (Some (pr_key_hash r)) remote query st = (st, Inl BadToken) \<and>
    attributed_bytes (url_parse :: string \<Rightarrow> ('p, url) result) env st data (pr_key_hash r) = data"
proof -
  have dead: "peer_by_key_hash (pr_key_hash r) (sv_db st) = Inr None"
    unfolding assms(3) by (rule revoked_key_dead [OF assms(1,2)])
  then have "authenticate_token (sv_db st) (Some req) previous (Some (pr_key_hash r)) = Inl BadToken"
    using assms(5,6) by (auto simp: authenticate_token_def split: option.split)
  then have "authenticate env (Some (pr_key_hash r)) st = (st, Inl BadToken)"
    using assms(4) by (simp add: authenticate_def)
  then show ?thesis using dead assms(7) by (simp add: handle_announce_def attributed_bytes_def)
qed

section \<open>What a download serves\<close>

lemma announce_set_for_ok:
  assumes "\<And>x u. url_parse x = Inr u \<Longrightarrow> utf8_valid u"
    and "announce_set_for url_parse e token = (Inr ann :: (('p, 'io) terror, announce_set) result)"
  shows "announce_set_ok ann \<and> (\<forall>u \<in> set (tiers ann). utf8_valid u)"
proof -
  obtain ts where ts: "collect_result (\<lambda>b. announce_url url_parse b token) (recent e) = (Inr ts :: (('p, 'io) terror, url list) result)"
      "from_tiers ts = Some ann"
    using assms(2) by (auto simp: announce_set_for_def)
  have "\<forall>u \<in> set ts. \<exists>b. announce_url url_parse b token = (Inr u :: (('p, 'io) terror, url) result)"
    using ts(1) unfolding collect_result_Inr_iff by (auto dest: list_all2_ex2)
  then have "\<forall>u \<in> set ts. utf8_valid u" using assms(1) by (fastforce simp: announce_url_def split: sum.splits)
  then show ?thesis using ts(2) by (auto simp: from_tiers_def announce_set_ok_def split: if_splits)
qed

text \<open>
  C18. A download is only ever of a shared torrent, read from its own file in the cache and never from elsewhere; and
  rewriting the announce URLs for the friend who asks never changes which torrent it is. (The URL parser returns
  ASCII; the rewritten file fits in memory.)
\<close>

theorem torrent_download_keeps_identity:
  assumes "torrent_file url_parse hex_decode hex read_file dir env name token st = TorrentBody fname body"
    and "\<And>x u. (url_parse :: string \<Rightarrow> ('p, url) result) x = Inr u \<Longrightarrow> utf8_valid u"
    and "\<And>p data. read_file p = Some data \<Longrightarrow> length data \<le> usize_max" "length body \<le> usize_max"
  shows "\<exists>h data. length h = 20 \<and> is_shared (hex h) (db_items (sv_db st)) \<and>
    read_file (torrent_file_path dir (hex h)) = Some data \<and> fname = hex h @ ''.torrent'' \<and>
    (\<forall>t. read_from_bytes data = Inr t \<longrightarrow>
       (\<exists>t'. read_from_bytes body = Inr t' \<and> info t' = info t \<and> info_hash sha1 hex t' = info_hash sha1 hex t))"
proof -
  obtain h data where h: "length h = 20" "is_served hex env st h" "read_file (torrent_file_path dir (hex h)) = Some data"
      "fname = torrent_file_name (hex h)"
      "body = (case token of None \<Rightarrow> data | Some supplied \<Rightarrow> attributed_bytes url_parse env st data supplied)"
    using assms(1)
    by (auto simp: torrent_file_def info_hash_from_hex_def split: option.splits if_splits bind_splits)
  have "\<exists>t'. read_from_bytes (attributed_bytes url_parse env st data supplied) = Inr t' \<and> info t' = info t"
    if t: "read_from_bytes data = Inr t" and fits: "length (attributed_bytes url_parse env st data supplied) \<le> usize_max" for t supplied
  proof (cases "attributed_bytes url_parse env st data supplied = data")
    case False
    then obtain tok ann where ann: "announce_set_for url_parse (sv_endpoint st) tok = (Inr ann :: (('p, unit) terror, announce_set) result)"
        "attributed_bytes url_parse env st data supplied =
           torrent_encode (t\<lparr>announce := Some (primary ann), announce_list := tier_list ann\<rparr>)"
      using t by (auto simp: attributed_bytes_def rewrite_announce_def split: sum.splits option.splits if_splits)
    have "torrent_ok t" using read_from_bytes_Inr [OF t] assms(3) [OF h(3)] by simp
    moreover have "announce_set_ok ann \<and> (\<forall>u \<in> set (tiers ann). utf8_valid u)"
      by (rule announce_set_for_ok [OF assms(2) ann(1)])
    ultimately have "torrent_ok (t\<lparr>announce := Some (primary ann), announce_list := tier_list ann\<rparr>)"
      by (auto intro: retarget_ok)
    from read_torrent_encode [OF this] show ?thesis using ann(2) fits by simp
  qed (use t in simp)
  then have "\<forall>t. read_from_bytes data = Inr t \<longrightarrow> (\<exists>t'. read_from_bytes body = Inr t' \<and> info t' = info t)"
    using assms(4) unfolding h(5) by (auto split: option.splits)
  then have "\<forall>t. read_from_bytes data = Inr t \<longrightarrow>
      (\<exists>t'. read_from_bytes body = Inr t' \<and> info t' = info t \<and> info_hash sha1 hex t' = info_hash sha1 hex t)"
    by (fastforce simp: info_hash_def)
  then show ?thesis using h(1-4) unfolding is_served_def torrent_file_name_def by blast
qed

section \<open>A sample instance\<close>

definition sample_env :: request_env where
  "sample_env = \<lparr>env_store = True, env_tokens = Some (Some ''shared'', None), env_now = 50, env_instant = 0, env_gap = 0\<rparr>"

definition serving :: "database \<Rightarrow> serve_state" where
  "serving db = \<lparr>sv_db = db, sv_swarms = [], sv_legacy_used = None, sv_first_contacts = [],
     sv_endpoint = endpoint_new (Some ''http://a'')\<rparr>"

definition sample_query :: string where
  "sample_query = ''info_hash=AAAAAAAAAAAAAAAAAAAA&peer_id=BBBBBBBBBBBBBBBBBBBB&port=1&left=0''"

text \<open>C17: Sam, revoked, announces with his key.\<close>

theorem revoked_friend_cannot_announce_witness:
  "snd (handle_announce id (\<lambda>_. ''hh'') id sample_env (Some ''k1'') (V4 [1, 2, 3, 4], 9) sample_query
     (serving (foldl (db_step id Some) (fst (revoke_peer 20 1 sample_store)) [SetPeerScope 1 ScopeTv]))) = Inl BadToken"
proof -
  have "map_option ar_port (ok (announce_parse id sample_query)) = Some 1" by code_simp
  then obtain request where rq: "announce_parse id sample_query = Inr request" by auto
  have sam: "pr_id sam = 1" "pr_key_hash sam = ''k1''" by (simp_all add: sam_def new_peer_row_def)
  show ?thesis
    using revoked_friend_cannot_announce [of sam id Some "retention_from 3 2 0" sample_history "[SetPeerScope 1 ScopeTv]"
        "serving (foldl (db_step id Some) (fst (revoke_peer 20 1 sample_store)) [SetPeerScope 1 ScopeTv])" 20 sample_env "''shared''" None,
        OF _ _ _ _ _ _ rq, of "\<lambda>_. ''hh''" id "(V4 [1, 2, 3, 4], 9)" "\<lambda>_. Inl ()" "[]"] sam
    by (simp add: sample_peers) (simp add: serving_def sample_env_def)
qed

definition sample_url_parse :: "string \<Rightarrow> (unit, url) result" where
  "sample_url_parse x = (if utf8_valid x then Inr x else Inl ())"

definition sample_read :: "rpath \<Rightarrow> bytes option" where
  "sample_read p = (if p = [RootDir, Normal ''hh.torrent''] then Some ''d4:infodee'' else None)"

definition sample_download :: http_response where
  "sample_download = torrent_file sample_url_parse (\<lambda>_. Some (replicate 20 CHR ''A'')) (\<lambda>_. ''hh'') sample_read [RootDir] sample_env
     ''x.torrent'' (Some ''k1'') (serving (sample_store\<lparr>db_items := foldl items_step empty_items sample_ops\<rparr>))"

text \<open>C18: Sam downloads the shared film's file, rewritten to announce with his key.\<close>

theorem torrent_download_keeps_identity_witness:
  "\<exists>body t'. sample_download = TorrentBody ''hh.torrent'' body \<and> body \<noteq> ''d4:infodee'' \<and> read_from_bytes body = Inr t' \<and> info t' = []"
proof -
  have "case sample_download of TorrentBody n b \<Rightarrow> n = ''hh.torrent'' \<and> b \<noteq> ''d4:infodee'' \<and> length b \<le> usize_max | _ \<Rightarrow> False"
    by code_simp
  then obtain body where body: "sample_download = TorrentBody ''hh.torrent'' body" "body \<noteq> ''d4:infodee''" "length body \<le> usize_max"
    by (auto split: http_response.splits)
  have cached: "read_from_bytes ''d4:infodee'' = Inr \<lparr>announce = None, announce_list = None, info = [], extra = []\<rparr>" by code_simp
  have "utf8_valid u" if "sample_url_parse x = Inr u" for x u
    using that by (simp add: sample_url_parse_def split: if_splits)
  moreover have "length data \<le> usize_max" if "sample_read p = Some data" for p data
    using that by (auto simp: sample_read_def split: if_splits)
  ultimately obtain data where "sample_read (torrent_file_path [RootDir] ''hh'') = Some data"
      "\<forall>t. read_from_bytes data = Inr t \<longrightarrow> (\<exists>t'. read_from_bytes body = Inr t' \<and> info t' = info t)"
    using torrent_download_keeps_identity [OF body(1) [unfolded sample_download_def] _ _ body(3), where ?sha1.0 = id] by blast
  then show ?thesis using body cached by (auto simp: sample_read_def split: if_splits)
qed

end
