(* ===== verification/Lighthouse.thy ===== *)
theory Lighthouse
  imports Net Rust_Text
begin

text \<open>
  \<^verbatim>\<open>sharerr-lighthouse/src/lib.rs\<close>: a rendezvous table of signed records, one per key hash, that answers every lookup
  with a record of the same shape. SHA-256, hex, \<^verbatim>\<open>serde_json\<close> and Ed25519 are parameters, gathered in a record; the
  clock's value is an argument of each operation.
\<close>

section \<open>Records\<close>

record record_endpoint =
  re_kind :: string
  re_addr :: string
  re_observed_at :: int

record endpoint_record =
  ep_pubkey :: string
  ep_endpoints :: "record_endpoint list"
  ep_signed_at :: int
  ep_signature :: string

text \<open>\<^verbatim>\<open>cr_decode n\<close> is \<^verbatim>\<open>hex::decode_to_slice\<close> into \<open>n\<close> bytes.\<close>

record 'k crypto =
  cr_decode :: "nat \<Rightarrow> string \<Rightarrow> bytes option"
  cr_encode :: "bytes \<Rightarrow> string"
  cr_sha256 :: "bytes \<Rightarrow> bytes"
  cr_key :: "bytes \<Rightarrow> 'k option"
  cr_verify :: "'k \<Rightarrow> bytes \<Rightarrow> bytes \<Rightarrow> bool"
  cr_json :: "string \<Rightarrow> record_endpoint list \<Rightarrow> int \<Rightarrow> bytes option"

definition signable_bytes :: "'k crypto \<Rightarrow> string \<Rightarrow> record_endpoint list \<Rightarrow> int \<Rightarrow> bytes option" where
  "signable_bytes c pubkey endpoints signed_at = cr_json c pubkey endpoints signed_at"

definition verify :: "'k crypto \<Rightarrow> endpoint_record \<Rightarrow> (string, unit) result" where
  "verify c r =
     and_then (ok_or (cr_decode c 32 (ep_pubkey r)) ''pubkey is not 32 hex bytes'') (\<lambda>key_bytes.
     and_then (ok_or (cr_key c key_bytes) ''pubkey is not a valid Ed25519 key'') (\<lambda>key.
     and_then (ok_or (cr_decode c 64 (ep_signature r)) ''signature is not 64 hex bytes'') (\<lambda>sig.
     and_then (ok_or (signable_bytes c (ep_pubkey r) (ep_endpoints r) (ep_signed_at r)) ''record could not be serialised'') (\<lambda>b.
       if cr_verify c key b sig then Inr () else Inl ''signature does not verify''))))"

definition is_ascii_hexdigit :: "char \<Rightarrow> bool" where
  "is_ascii_hexdigit b \<longleftrightarrow> is_digit b \<or> (CHR ''a'' \<le> b \<and> b \<le> CHR ''f'') \<or> (CHR ''A'' \<le> b \<and> b \<le> CHR ''F'')"

definition is_hex_32_bytes :: "string \<Rightarrow> bool" where
  "is_hex_32_bytes s \<longleftrightarrow> length s = 64 \<and> list_all is_ascii_hexdigit s"

definition lh_hash_key :: "'k crypto \<Rightarrow> string \<Rightarrow> string" where
  "lh_hash_key c raw = cr_encode c (cr_sha256 c raw)"

section \<open>State\<close>

record lighthouse =
  lh_map :: "(string, endpoint_record) hashmap"
  lh_last_sweep_at :: int
  lh_decoy_secret :: bytes

datatype report_outcome = Accepted | Stale

datatype report_error = BadKeyHash | InvalidRecord | FutureTimestamp | Full | PubkeyMismatch

abbreviation (input) LH_MAX_FUTURE_SKEW_SECS :: int where "LH_MAX_FUTURE_SKEW_SECS \<equiv> 5 * 60"
abbreviation (input) RECORD_TTL_SECS :: int where "RECORD_TTL_SECS \<equiv> 30 * 24 * 60 * 60"
abbreviation (input) MAX_RECORDS :: nat where "MAX_RECORDS \<equiv> 10000"
abbreviation (input) SWEEP_INTERVAL_SECS :: int where "SWEEP_INTERVAL_SECS \<equiv> 60"

definition lighthouse_new :: "bytes \<Rightarrow> lighthouse" where
  "lighthouse_new secret = \<lparr>lh_map = [], lh_last_sweep_at = 0, lh_decoy_secret = secret\<rparr>"

definition expired :: "int \<Rightarrow> endpoint_record \<Rightarrow> bool" where
  "expired now r \<longleftrightarrow> saturating_sub_i64 now (ep_signed_at r) \<ge> RECORD_TTL_SECS"

text \<open>The arm taken when a record already stands under the key hash: an early return, or nothing.\<close>

definition check_existing :: "int \<Rightarrow> endpoint_record \<Rightarrow> endpoint_record \<Rightarrow> (report_error, report_outcome) result option" where
  "check_existing now existing r =
     (if \<not> expired now existing \<and> \<not> eq_ignore_ascii_case (ep_pubkey existing) (ep_pubkey r) then Some (Inl PubkeyMismatch)
      else if ep_signed_at existing \<ge> ep_signed_at r then Some (Inr Stale)
      else None)"

text \<open>The arm taken when there is none: make room in a full table, or refuse.\<close>

definition make_room :: "int \<Rightarrow> lighthouse \<Rightarrow> lighthouse \<times> bool" where
  "make_room now lh =
     (if length (lh_map lh) < MAX_RECORDS then (lh, True)
      else if saturating_sub_i64 now (lh_last_sweep_at lh) < SWEEP_INTERVAL_SECS then (lh, False)
      else (let lh' = lh\<lparr>lh_last_sweep_at := now, lh_map := filter (\<lambda>(_, r). \<not> expired now r) (lh_map lh)\<rparr>
            in (lh', length (lh_map lh') < MAX_RECORDS)))"

definition report ::
    "'k crypto \<Rightarrow> int \<Rightarrow> string \<Rightarrow> endpoint_record \<Rightarrow> lighthouse \<Rightarrow> lighthouse \<times> (report_error, report_outcome) result" where
  "report c now key_hash0 r lh =
     (let key_hash = to_ascii_lowercase key_hash0 in
      if \<not> is_hex_32_bytes key_hash then (lh, Inl BadKeyHash)
      else case verify c r of
        Inl _ \<Rightarrow> (lh, Inl InvalidRecord)
      | Inr _ \<Rightarrow>
          if ep_signed_at r > saturating_add_i64 now LH_MAX_FUTURE_SKEW_SECS then (lh, Inl FutureTimestamp)
          else
            (case map_of (lh_map lh) key_hash of
               Some existing \<Rightarrow>
                 (case check_existing now existing r of
                    Some res \<Rightarrow> (lh, res)
                  | None \<Rightarrow> (lh\<lparr>lh_map := hm_insert key_hash r (lh_map lh)\<rparr>, Inr Accepted))
             | None \<Rightarrow>
                 (case make_room now lh of
                    (lh', room) \<Rightarrow>
                      if room then (lh'\<lparr>lh_map := hm_insert key_hash r (lh_map lh')\<rparr>, Inr Accepted)
                      else (lh', Inl Full))))"

section \<open>Lookup and decoys\<close>

definition derive :: "'k crypto \<Rightarrow> lighthouse \<Rightarrow> string \<Rightarrow> string \<Rightarrow> bytes" where
  "derive c lh label key_hash = cr_sha256 c (lh_decoy_secret lh @ label @ key_hash)"

definition decoy_octet :: "nat \<Rightarrow> nat" where
  "decoy_octet b = (if b \<in> {0, 10, 127, 255} then 1 else b)"

text \<open>\<^verbatim>\<open>[i]\<close> on a 32-byte array never fails; the digest parameter is only read within its first six bytes.\<close>

definition byte_at :: "bytes \<Rightarrow> nat \<Rightarrow> nat" where
  "byte_at b i = (if i < length b then code (b ! i) else 0)"

definition decoy_port :: "bytes \<Rightarrow> nat" where
  "decoy_port b = 1024 + (byte_at b 4 * 256 + byte_at b 5) mod (65535 - 1024)"

definition decoy_addr :: "bytes \<Rightarrow> string" where
  "decoy_addr b =
     show_nat (decoy_octet (byte_at b 0)) @ ''.'' @ show_nat (byte_at b 1) @ ''.'' @ show_nat (byte_at b 2) @ ''.'' @
     show_nat (byte_at b 3) @ '':'' @ show_nat (decoy_port b)"

definition decoy_offset :: "bytes \<Rightarrow> int" where
  "decoy_offset b = int ((byte_at b 0 * 2 ^ 24 + byte_at b 1 * 2 ^ 16 + byte_at b 2 * 2 ^ 8 + byte_at b 3) mod 86400)"

definition decoy :: "'k crypto \<Rightarrow> int \<Rightarrow> lighthouse \<Rightarrow> string \<Rightarrow> endpoint_record" where
  "decoy c now lh key_hash =
     (let signed_at = now - decoy_offset (derive c lh ''signed_at'' key_hash)
      in \<lparr>ep_pubkey = cr_encode c (derive c lh ''pubkey'' key_hash),
          ep_endpoints = [\<lparr>re_kind = ''tracker'', re_addr = decoy_addr (derive c lh ''addr'' key_hash), re_observed_at = signed_at\<rparr>],
          ep_signed_at = signed_at,
          ep_signature = cr_encode c (derive c lh ''sig-a'' key_hash @ derive c lh ''sig-b'' key_hash)\<rparr>)"

definition lookup :: "'k crypto \<Rightarrow> int \<Rightarrow> lighthouse \<Rightarrow> string \<Rightarrow> endpoint_record" where
  "lookup c now lh key_hash =
     (case map_of (lh_map lh) key_hash of Some stored \<Rightarrow> stored | None \<Rightarrow> decoy c now lh key_hash)"

text \<open>The routes. \<^verbatim>\<open>str::to_lowercase\<close>, which folds beyond ASCII, is a parameter.\<close>

definition report_route :: "(report_error, report_outcome) result \<Rightarrow> nat \<times> string" where
  "report_route res =
     (case res of
        Inr Accepted \<Rightarrow> (200, ''accepted'')
      | Inr Stale \<Rightarrow> (200, ''stale'')
      | Inl BadKeyHash \<Rightarrow> (400, ''key hash must be 64 hex characters'')
      | Inl InvalidRecord \<Rightarrow> (400, ''record did not verify'')
      | Inl FutureTimestamp \<Rightarrow>
          (400, ''signed_at is in the future '' @ [CHR 0xE2, CHR 0x80, CHR 0x94] @ '' check the reporting host'' @ [CHR 0x27] @ ''s clock'')
      | Inl Full \<Rightarrow> (503, ''lighthouse is full'')
      | Inl PubkeyMismatch \<Rightarrow> (403, ''this key hash is already claimed by a different keypair''))"

definition lookup_route :: "(string \<Rightarrow> string) \<Rightarrow> 'k crypto \<Rightarrow> int \<Rightarrow> lighthouse \<Rightarrow> string \<Rightarrow> endpoint_record" where
  "lookup_route to_lowercase c now lh raw =
     (let key_hash = to_lowercase raw
      in lookup c now lh (if is_hex_32_bytes key_hash then key_hash else lh_hash_key c key_hash))"

section \<open>The table's invariant\<close>

definition lighthouse_ok :: "'k crypto \<Rightarrow> lighthouse \<Rightarrow> bool" where
  "lighthouse_ok c lh \<longleftrightarrow>
     hm_ok (lh_map lh) \<and> length (lh_map lh) \<le> MAX_RECORDS \<and>
     list_all (\<lambda>(k, r). is_hex_32_bytes k \<and> to_ascii_lowercase k = k \<and> verify c r = Inr ()) (lh_map lh)"

lemma length_hm_insert_same: "k \<in> fst ` set m \<Longrightarrow> length (hm_insert k v m) = length m"
  by (induction m) (auto simp: hm_insert_def)

lemma length_hm_insert_new: "k \<notin> fst ` set m \<Longrightarrow> length (hm_insert k v m) = Suc (length m)"
  by (simp add: hm_insert_fresh)

lemma make_room_ok: "lighthouse_ok c lh \<Longrightarrow> lighthouse_ok c (fst (make_room now lh))"
  by (auto simp: make_room_def lighthouse_ok_def Let_def list_all_iff intro: le_trans [OF length_filter_le])

lemma make_room_room: "snd (make_room now lh) \<Longrightarrow> length (lh_map (fst (make_room now lh))) < MAX_RECORDS"
  by (auto simp: make_room_def Let_def split: if_splits)

lemma make_room_map_of:
  assumes "hm_ok (lh_map lh)"
  shows "map_of (lh_map (fst (make_room now lh))) k = map_of (lh_map lh) k \<or>
    map_of (lh_map (fst (make_room now lh))) k = None \<and> (\<exists>old. map_of (lh_map lh) k = Some old \<and> expired now old)"
  using map_of_filter_Some [of "lh_map lh" "\<lambda>(_, r). \<not> expired now r" k] assms
  by (auto simp: make_room_def Let_def hm_ok_def split: bind_splits if_splits)

lemma make_room_fresh: "k \<notin> fst ` set (lh_map lh) \<Longrightarrow> k \<notin> fst ` set (lh_map (fst (make_room now lh)))"
  by (auto simp: make_room_def Let_def)

lemma lighthouse_ok_insert:
  assumes "lighthouse_ok c lh" "is_hex_32_bytes k" "to_ascii_lowercase k = k" "verify c r = Inr ()"
    and "k \<in> fst ` set (lh_map lh) \<or> length (lh_map lh) < MAX_RECORDS"
  shows "lighthouse_ok c (lh\<lparr>lh_map := hm_insert k r (lh_map lh)\<rparr>)"
proof -
  have "length (hm_insert k r (lh_map lh)) \<le> MAX_RECORDS"
    using assms(1,5) by (cases "k \<in> fst ` set (lh_map lh)")
      (auto simp: lighthouse_ok_def length_hm_insert_same length_hm_insert_new)
  then show ?thesis using assms by (auto simp: lighthouse_ok_def list_all_iff set_hm_insert)
qed

lemma report_accepted:
  assumes "report c now key_hash r lh = (lh', res)"
  obtains "lh' = lh" "res \<noteq> Inr Accepted"
  | "lh' = fst (make_room now lh)" "res \<noteq> Inr Accepted"
  | old where "map_of (lh_map lh) (to_ascii_lowercase key_hash) = Some old" "check_existing now old r = None"
      "lh' = lh\<lparr>lh_map := hm_insert (to_ascii_lowercase key_hash) r (lh_map lh)\<rparr>" "res = Inr Accepted"
      "is_hex_32_bytes (to_ascii_lowercase key_hash)" "verify c r = Inr ()" "ep_signed_at r \<le> saturating_add_i64 now LH_MAX_FUTURE_SKEW_SECS"
  | "map_of (lh_map lh) (to_ascii_lowercase key_hash) = None" "snd (make_room now lh)"
      "lh' = (fst (make_room now lh))\<lparr>lh_map := hm_insert (to_ascii_lowercase key_hash) r (lh_map (fst (make_room now lh)))\<rparr>"
      "res = Inr Accepted" "is_hex_32_bytes (to_ascii_lowercase key_hash)" "verify c r = Inr ()"
      "ep_signed_at r \<le> saturating_add_i64 now LH_MAX_FUTURE_SKEW_SECS"
  using assms
  by (auto simp: report_def Let_def check_existing_def split: if_splits sum.splits option.splits prod.splits)

lemma report_ok: "lighthouse_ok c lh \<Longrightarrow> lighthouse_ok c (fst (report c now key_hash r lh))"
proof -
  assume ok: "lighthouse_ok c lh"
  obtain lh' res where rep: "report c now key_hash r lh = (lh', res)" by fastforce
  show ?thesis
  proof (rule report_accepted [OF rep])
    fix old
    assume a: "map_of (lh_map lh) (to_ascii_lowercase key_hash) = Some old"
      "lh' = lh\<lparr>lh_map := hm_insert (to_ascii_lowercase key_hash) r (lh_map lh)\<rparr>"
      "is_hex_32_bytes (to_ascii_lowercase key_hash)" "verify c r = Inr ()"
    have "to_ascii_lowercase key_hash \<in> fst ` set (lh_map lh)" using a(1) by (metis domI dom_map_of_conv_image_fst)
    then show ?thesis using rep a lighthouse_ok_insert [OF ok a(3) _ a(4)] by simp
  next
    assume a: "map_of (lh_map lh) (to_ascii_lowercase key_hash) = None" "snd (make_room now lh)"
      "lh' = (fst (make_room now lh))\<lparr>lh_map := hm_insert (to_ascii_lowercase key_hash) r (lh_map (fst (make_room now lh)))\<rparr>"
      "is_hex_32_bytes (to_ascii_lowercase key_hash)" "verify c r = Inr ()"
    show ?thesis
      using rep a lighthouse_ok_insert [OF make_room_ok [OF ok] a(4) _ a(5)] make_room_room [OF a(2)] by simp
  qed (use rep ok make_room_ok in auto)
qed

type_synonym report_event = "int \<times> string \<times> endpoint_record"

definition lighthouse_step :: "'k crypto \<Rightarrow> lighthouse \<Rightarrow> report_event \<Rightarrow> lighthouse" where
  "lighthouse_step c lh e = (case e of (now, key_hash, r) \<Rightarrow> fst (report c now key_hash r lh))"

interpretation lighthouse: component "\<lambda>lh. \<exists>secret. lh = lighthouse_new secret" "lighthouse_step c" "lighthouse_ok c"
  for c
proof
  show "\<exists>secret. lh = lighthouse_new secret \<Longrightarrow> lighthouse_ok c lh" for lh
    by (auto simp: lighthouse_ok_def lighthouse_new_def)
  show "lighthouse_ok c lh \<Longrightarrow> lighthouse_ok c (lighthouse_step c lh e)" for lh e
    by (cases e) (simp add: lighthouse_step_def report_ok)
qed

text \<open>What one report may do to what stands under one key hash.\<close>

definition slot_step ::
    "'k crypto \<Rightarrow> int \<Rightarrow> endpoint_record \<Rightarrow> bool \<Rightarrow> endpoint_record option \<Rightarrow> endpoint_record option \<Rightarrow> bool" where
  "slot_step c now r mine before after \<longleftrightarrow>
     after = before \<or>
     (after = None \<and> (\<exists>old. before = Some old \<and> expired now old)) \<or>
     (mine \<and> after = Some r \<and> verify c r = Inr () \<and> ep_signed_at r \<le> saturating_add_i64 now (5 * 60) \<and>
      (case before of
         None \<Rightarrow> True
       | Some old \<Rightarrow> ep_signed_at old < ep_signed_at r \<and>
           (expired now old \<or> eq_ignore_ascii_case (ep_pubkey old) (ep_pubkey r))))"

lemma report_slot:
  assumes ok: "hm_ok (lh_map lh)" and rep: "report c now key_hash r lh = (lh', res)"
  shows "slot_step c now r (k = to_ascii_lowercase key_hash \<and> res = Inr Accepted) (map_of (lh_map lh) k) (map_of (lh_map lh') k)"
proof (rule report_accepted [OF rep])
  assume "lh' = fst (make_room now lh)"
  then show ?thesis using make_room_map_of [OF ok, of now k] unfolding slot_step_def by auto
next
  fix old
  assume "map_of (lh_map lh) (to_ascii_lowercase key_hash) = Some old" "check_existing now old r = None"
    "lh' = lh\<lparr>lh_map := hm_insert (to_ascii_lowercase key_hash) r (lh_map lh)\<rparr>" "res = Inr Accepted" "verify c r = Inr ()"
    "ep_signed_at r \<le> saturating_add_i64 now LH_MAX_FUTURE_SKEW_SECS"
  then show ?thesis by (auto simp: slot_step_def check_existing_def split: if_splits)
next
  assume a: "map_of (lh_map lh) (to_ascii_lowercase key_hash) = None" "res = Inr Accepted" "verify c r = Inr ()"
    "lh' = (fst (make_room now lh))\<lparr>lh_map := hm_insert (to_ascii_lowercase key_hash) r (lh_map (fst (make_room now lh)))\<rparr>"
    "ep_signed_at r \<le> saturating_add_i64 now LH_MAX_FUTURE_SKEW_SECS"
  show ?thesis
  proof (cases "k = to_ascii_lowercase key_hash")
    case True
    then show ?thesis using a by (simp add: slot_step_def)
  next
    case False
    then have "map_of (lh_map lh') k = map_of (lh_map (fst (make_room now lh))) k" using a(4) by simp
    then show ?thesis using make_room_map_of [OF ok, of now k] unfolding slot_step_def by argo
  qed
qed (simp add: slot_step_def)

text \<open>
  C29. Whatever is posted to it, the table holds at most ten thousand records, each under the lowercase form of a
  64-digit key hash and each carrying a signature that verifies.
\<close>

theorem lighthouse_bounded_and_verified:
  "let lh = foldl (lighthouse_step c) (lighthouse_new secret) es in
     length (lh_map lh) \<le> 10000 \<and> distinct (map fst (lh_map lh)) \<and>
     list_all (\<lambda>(k, r). is_hex_32_bytes k \<and> to_ascii_lowercase k = k \<and> verify c r = Inr ()) (lh_map lh)"
  using lighthouse.run_from_start [of "lighthouse_new secret" c es] by (auto simp: Let_def lighthouse_ok_def hm_ok_def)

text \<open>
  One report touches one slot. The first keypair to claim a key hash keeps it until its record expires: a report
  replaces a standing record only by a later-signed one of the same keypair or over an expired one, and nothing but an
  expired record is ever dropped. An accepted record is what lookups of that key hash answer from then on.
\<close>

lemma report_never_displaces:
  "let lh = foldl (lighthouse_step c) (lighthouse_new secret) es; (lh', res) = report c now key_hash r lh;
       slot = to_ascii_lowercase key_hash
   in (\<forall>k. map_of (lh_map lh') k = map_of (lh_map lh) k \<or>
           (map_of (lh_map lh') k = None \<and> (\<exists>old. map_of (lh_map lh) k = Some old \<and> expired now old)) \<or>
           (k = slot \<and> res = Inr Accepted \<and> map_of (lh_map lh') k = Some r \<and> verify c r = Inr () \<and>
            ep_signed_at r \<le> saturating_add_i64 now (5 * 60) \<and>
            (case map_of (lh_map lh) k of
               None \<Rightarrow> True
             | Some old \<Rightarrow> ep_signed_at old < ep_signed_at r \<and>
                 (expired now old \<or> eq_ignore_ascii_case (ep_pubkey old) (ep_pubkey r))))) \<and>
      (res = Inr Accepted \<longrightarrow> lookup c now' lh' slot = r)"
proof -
  define lh where "lh = foldl (lighthouse_step c) (lighthouse_new secret) es"
  have ok: "hm_ok (lh_map lh)"
    using lighthouse.run_from_start [of "lighthouse_new secret" c es] by (auto simp: lh_def lighthouse_ok_def)
  obtain lh' res where rep: "report c now key_hash r lh = (lh', res)" by fastforce
  have "lookup c now' lh' (to_ascii_lowercase key_hash) = r" if "res = Inr Accepted"
    by (rule report_accepted [OF rep]) (use that in \<open>auto simp: lookup_def\<close>)
  then show ?thesis using report_slot [OF ok rep]
    unfolding Let_def lh_def [symmetric] rep prod.case slot_step_def by blast
qed

definition sample_crypto :: "unit crypto" where
  "sample_crypto = \<lparr>cr_decode = (\<lambda>_ s. Some s), cr_encode = id, cr_sha256 = id, cr_key = (\<lambda>_. Some ()),
     cr_verify = (\<lambda>_ _ _. True), cr_json = (\<lambda>_ _ _. Some [])\<rparr>"

definition sample_record :: endpoint_record where
  "sample_record = \<lparr>ep_pubkey = ''aa'', ep_endpoints = [], ep_signed_at = 90, ep_signature = ''bb''\<rparr>"

text \<open>A first report, under an upper-case key hash, is what a lookup then finds.\<close>

lemma report_never_displaces_witness:
  "snd (report sample_crypto 100 (replicate 64 CHR ''A'') sample_record (lighthouse_new [])) = Inr Accepted \<and>
   lookup sample_crypto 7 (fst (report sample_crypto 100 (replicate 64 CHR ''A'') sample_record (lighthouse_new []))) (replicate 64 CHR ''a'') =
     sample_record"
proof -
  have acc: "snd (report sample_crypto 100 (replicate 64 CHR ''A'') sample_record (lighthouse_new [])) = Inr Accepted"
    by code_simp
  have "to_ascii_lowercase (replicate 64 CHR ''A'') = replicate 64 CHR ''a''" by code_simp
  then show ?thesis
    using report_never_displaces [of sample_crypto "[]" "[]" 100 "replicate 64 CHR ''A''" sample_record 7] acc
    by (auto simp: Let_def case_prod_beta)
qed

text \<open>
  A decoy's timestamp is an offset from the clock, so two probes of an unknown key hash at different moments differ,
  while a stored record answers the same both times.
\<close>

lemma decoy_moves_with_clock:
  "map_of (lh_map lh) k = None \<Longrightarrow> now \<noteq> now' \<Longrightarrow> lookup c now lh k \<noteq> lookup c now' lh k"
  "map_of (lh_map lh) k = Some r \<Longrightarrow> lookup c now lh k = lookup c now' lh k"
  by (simp_all add: lookup_def decoy_def Let_def)

lemma decoy_port_range: "1024 \<le> decoy_port b \<and> decoy_port b < 65535"
  by (auto simp: decoy_port_def)

end
