(* ===== verification/Gossip.thy ===== *)
theory Gossip
  imports Store Lighthouse
begin

text \<open>
  \<^verbatim>\<open>sharerr/src/gossip.rs\<close>: signed endpoint records between friends. A batch presented by an authenticated friend is
  taken in record by record; a pull answers our own record and those of friends the caller already knows. The JSON
  spelling of a record and the reading of its \<^verbatim>\<open>signed_at\<close> are parameters. \<^verbatim>\<open>gap_of\<close> is SQLite's choice of ids, and
  \<^verbatim>\<open>fails\<close> says which statements the database refuses: a statement refused changes nothing, and the code goes on
  without its answer.
\<close>

abbreviation (input) GOSSIP_MAX_RECORDS :: nat where "GOSSIP_MAX_RECORDS \<equiv> 64"

section \<open>Our own record\<close>

definition sign_record ::
    "'k crypto \<Rightarrow> string \<Rightarrow> (bytes \<Rightarrow> bytes) \<Rightarrow> record_endpoint list \<Rightarrow> int \<Rightarrow> (string, endpoint_record) result" where
  "sign_record c pubkey sign endpoints signed_at =
     and_then (ok_or (signable_bytes c pubkey endpoints signed_at) ''serialising the record'') (\<lambda>b.
       Inr \<lparr>ep_pubkey = pubkey, ep_endpoints = endpoints, ep_signed_at = signed_at, ep_signature = cr_encode c (sign b)\<rparr>)"

text \<open>The identity is missing when the vault does not open.\<close>

definition self_record ::
    "'k crypto \<Rightarrow> (string \<times> (bytes \<Rightarrow> bytes)) option \<Rightarrow> int \<Rightarrow> advertised_endpoint \<Rightarrow> advertised_endpoint \<Rightarrow> endpoint_record option" where
  "self_record c identity now own client =
     (case identity of
        None \<Rightarrow> None
      | Some (pubkey, sign) \<Rightarrow>
          (let ep = (\<lambda>k b. \<lparr>re_kind = endpoint_kind_str k, re_addr = base_string b, re_observed_at = now\<rparr>);
               endpoints = (case current own of None \<Rightarrow> [] | Some b \<Rightarrow> [ep TrackerKind b, ep ApiKind b]) @
                           (case current client of None \<Rightarrow> [] | Some b \<Rightarrow> [ep ClientKind b])
           in ok (sign_record c pubkey sign endpoints now)))"

section \<open>Ingest\<close>

text \<open>
  The statements of one exchange: the two reads, and for record \<open>n\<close> of the batch the binding, the write of its \<open>k\<close>th
  address and the write of the record.
\<close>

datatype gossip_statement = ListPeers | ReadRecords | BindPresenter nat | RecordAddress nat nat | StoreRecord nat

record ingest_summary =
  ig_accepted :: nat
  ig_invalid :: nat
  ig_unknown :: nat
  ig_stale :: nat

definition empty_summary :: ingest_summary where
  "empty_summary = \<lparr>ig_accepted = 0, ig_invalid = 0, ig_unknown = 0, ig_stale = 0\<rparr>"

record ingest_state =
  is_db :: database
  is_signed :: "(int, int) hashmap"
  is_summary :: ingest_summary

definition record_endpoints ::
    "(nat \<Rightarrow> bool) \<Rightarrow> (database \<Rightarrow> nat) \<Rightarrow> int \<Rightarrow> int \<Rightarrow> record_endpoint list \<Rightarrow> observed_via \<Rightarrow> database \<Rightarrow> database" where
  "record_endpoints fails_at gap_of now peer_id endpoints via db =
     foldl (\<lambda>db (k, e).
       case endpoint_kind_parse (re_kind e) of
         None \<Rightarrow> db
       | Some kind \<Rightarrow>
           if fails_at k then db
           else or_keep db (record_peer_endpoint (gap_of db) now peer_id kind (re_addr e) (Some (re_observed_at e)) via db))
       db (enumerate 0 endpoints)"

definition by_pubkey :: "peer list \<Rightarrow> (string, peer) hashmap" where
  "by_pubkey ps = foldl (\<lambda>m p. case p_pubkey p of None \<Rightarrow> m | Some k \<Rightarrow> hm_insert k p m) [] ps"

text \<open>
  Who a record is about: a friend bound to its key, or the presenter, bound to it now. A binding the database refuses
  is no binding.
\<close>

definition subject_of :: "bool \<Rightarrow> peer list \<Rightarrow> int \<Rightarrow> endpoint_record \<Rightarrow> database \<Rightarrow> database \<times> int option" where
  "subject_of bind_fails ps presenter_id r db =
     (case map_of (by_pubkey ps) (ep_pubkey r) of
        Some subject \<Rightarrow> (db, if is_revoked subject then None else Some (p_id subject))
      | None \<Rightarrow>
          (let presenter_unbound = (case find (\<lambda>p. p_id p = presenter_id) ps of None \<Rightarrow> False | Some p \<Rightarrow> p_pubkey p = None)
           in if presenter_unbound \<and> \<not> bind_fails
              then (case bind_peer_pubkey presenter_id (ep_pubkey r) db of
                      (db', bound) \<Rightarrow> (db', if bound then Some presenter_id else None))
              else (db, None)))"

text \<open>A record whose own write is refused, or that does not serialise, is counted as accepted all the same.\<close>

definition ingest_one ::
    "(gossip_statement \<Rightarrow> bool) \<Rightarrow> 'k crypto \<Rightarrow> (endpoint_record \<Rightarrow> string option) \<Rightarrow> (database \<Rightarrow> nat) \<Rightarrow> int \<Rightarrow> peer list \<Rightarrow> int \<Rightarrow>
       ingest_state \<Rightarrow> nat \<times> endpoint_record \<Rightarrow> ingest_state" where
  "ingest_one fails c to_json gap_of now ps presenter_id st nr =
     (case nr of (n, r) \<Rightarrow>
      let sm = is_summary st in
      if verify c r \<noteq> Inr () \<or> ep_signed_at r > saturating_add_i64 now MAX_FUTURE_SKEW_SECS
      then st\<lparr>is_summary := sm\<lparr>ig_invalid := ig_invalid sm + 1\<rparr>\<rparr>
      else
        (case subject_of (fails (BindPresenter n)) ps presenter_id r (is_db st) of
           (db1, None) \<Rightarrow> st\<lparr>is_db := db1, is_summary := sm\<lparr>ig_unknown := ig_unknown sm + 1\<rparr>\<rparr>
         | (db1, Some subject_id) \<Rightarrow>
             if (case map_of (is_signed st) subject_id of None \<Rightarrow> False | Some stored \<Rightarrow> stored \<ge> ep_signed_at r)
             then st\<lparr>is_db := db1, is_summary := sm\<lparr>ig_stale := ig_stale sm + 1\<rparr>\<rparr>
             else
               (let via = (if subject_id = presenter_id then ViaDirect else ViaGossip);
                    db2 = record_endpoints (\<lambda>k. fails (RecordAddress n k)) gap_of now subject_id (ep_endpoints r) via db1;
                    accepted = sm\<lparr>ig_accepted := ig_accepted sm + 1\<rparr>
                in case to_json r of
                     Some raw \<Rightarrow>
                       if fails (StoreRecord n) then st\<lparr>is_db := db2, is_summary := accepted\<rparr>
                       else \<lparr>is_db = set_peer_gossip_record subject_id raw db2,
                             is_signed = hm_insert subject_id (ep_signed_at r) (is_signed st), is_summary = accepted\<rparr>
                   | None \<Rightarrow> st\<lparr>is_db := db2, is_summary := accepted\<rparr>)))"

text \<open>\<^verbatim>\<open>unwrap_or_default\<close>: when the stored records cannot be read, no time is known for anybody.\<close>

definition stored_signed_at :: "bool \<Rightarrow> (string \<Rightarrow> int option) \<Rightarrow> peer list \<Rightarrow> database \<Rightarrow> (int, int) hashmap" where
  "stored_signed_at read_fails signed_at_of ps db =
     (if read_fails then []
      else List.map_filter (\<lambda>(i, raw). map_option (Pair i) (signed_at_of raw)) (peer_gossip_records (map p_id ps) db))"

definition ingest ::
    "(gossip_statement \<Rightarrow> bool) \<Rightarrow> 'k crypto \<Rightarrow> (endpoint_record \<Rightarrow> string option) \<Rightarrow> (string \<Rightarrow> int option) \<Rightarrow> (database \<Rightarrow> nat) \<Rightarrow>
       int \<Rightarrow> int \<Rightarrow> endpoint_record list \<Rightarrow> database \<Rightarrow> database \<times> ingest_summary" where
  "ingest fails c to_json signed_at_of gap_of now presenter_id records db =
     (if fails ListPeers then (db, empty_summary)
      else
        (case list_peers db of
           Inl _ \<Rightarrow> (db, empty_summary)
         | Inr ps \<Rightarrow>
             (let st = foldl (ingest_one fails c to_json gap_of now ps presenter_id)
                         \<lparr>is_db = db, is_signed = stored_signed_at (fails ReadRecords) signed_at_of ps db, is_summary = empty_summary\<rparr>
                         (enumerate 0 (take GOSSIP_MAX_RECORDS records))
              in (is_db st, is_summary st))))"

section \<open>Pull\<close>

definition wanted_pubkeys :: "string \<Rightarrow> string list" where
  "wanted_pubkeys peers = filter (\<lambda>p. p \<noteq> []) (map trim (split_on CHR '','' peers))"

definition pull ::
    "(gossip_statement \<Rightarrow> bool) \<Rightarrow> (string \<Rightarrow> endpoint_record option) \<Rightarrow> endpoint_record option \<Rightarrow> string \<Rightarrow> database \<Rightarrow>
       endpoint_record list" where
  "pull fails read_record own peers db =
     (let wanted = wanted_pubkeys peers;
          mine = (case own of None \<Rightarrow> [] | Some r \<Rightarrow> [r])
      in mine @
         (if wanted = [] \<or> fails ListPeers then []
          else (case active_peers db of
                  Inl _ \<Rightarrow> []
                | Inr ps \<Rightarrow>
                    (let ids = List.map_filter (\<lambda>p. case p_pubkey p of None \<Rightarrow> None
                                  | Some k \<Rightarrow> if k \<in> set wanted then Some (p_id p) else None) ps;
                         records = (if fails ReadRecords then [] else peer_gossip_records ids db)
                     in List.map_filter (\<lambda>i. Option.bind (map_of records i) read_record) ids))))"

section \<open>Facts about the reads\<close>

lemma row_to_peer_fields:
  "row_to_peer r = Inr p \<Longrightarrow> p_id p = pr_id r \<and> p_pubkey p = pr_pubkey r \<and> p_revoked_at p = pr_revoked_at r"
  by (auto simp: row_to_peer_def)

lemma set_peers_newest [simp]: "set (peers_newest rs) = set rs"
  by (simp add: peers_newest_def)

lemma list_peers_rows:
  assumes "list_peers db = Inr ps"
  shows "p \<in> set ps \<Longrightarrow> \<exists>r \<in> set (db_peers db). row_to_peer r = Inr p"
    and "r \<in> set (db_peers db) \<Longrightarrow> \<exists>p \<in> set ps. row_to_peer r = Inr p"
proof -
  have l: "list_all2 (\<lambda>r p. row_to_peer r = Inr p) (peers_newest (db_peers db)) ps"
    using assms by (simp add: list_peers_def collect_result_Inr_iff)
  show "p \<in> set ps \<Longrightarrow> \<exists>r \<in> set (db_peers db). row_to_peer r = Inr p" using list_all2_ex2 [OF l] by simp
  show "r \<in> set (db_peers db) \<Longrightarrow> \<exists>p \<in> set ps. row_to_peer r = Inr p" using list_all2_ex1 [OF l] by simp
qed

lemma by_pubkey_Some: "map_of (by_pubkey ps) k = Some p \<Longrightarrow> p \<in> set ps \<and> p_pubkey p = Some k"
proof (induction ps rule: rev_induct)
  case (snoc q ps)
  then show ?case by (cases "p_pubkey q") (auto simp: by_pubkey_def split: if_splits)
qed (simp add: by_pubkey_def)

lemma by_pubkey_None: "map_of (by_pubkey ps) k = None \<longleftrightarrow> (\<forall>p \<in> set ps. p_pubkey p \<noteq> Some k)"
proof (induction ps rule: rev_induct)
  case (snoc q ps)
  then show ?case by (cases "p_pubkey q") (auto simp: by_pubkey_def)
qed (simp add: by_pubkey_def)

lemma map_of_foldl_records:
  "distinct (map pr_id rs) \<Longrightarrow>
   map_of (foldl (\<lambda>m r. case pr_gossip_record r of None \<Rightarrow> m | Some rec \<Rightarrow> hm_insert (pr_id r) rec m) m rs) i =
     (case Option.bind (find (\<lambda>r. pr_id r = i) rs) pr_gossip_record of None \<Rightarrow> map_of m i | Some rec \<Rightarrow> Some rec)"
proof (induction rs arbitrary: m)
  case (Cons r rs)
  have fresh: "find (\<lambda>x. pr_id x = pr_id r) rs = None" using Cons.prems by (auto simp: find_None_iff rev_image_eqI)
  show ?case using Cons.prems fresh
    by (cases "pr_gossip_record r") (auto simp: Cons.IH image_iff split: option.split)
qed simp

lemma hm_ok_foldl_records:
  "hm_ok m \<Longrightarrow> hm_ok (foldl (\<lambda>m r. case pr_gossip_record r of None \<Rightarrow> m | Some rec \<Rightarrow> hm_insert (pr_id r) rec m) m rs)"
  by (induction rs arbitrary: m) (auto split: option.split)

lemma peer_gossip_records_map_of:
  assumes "peers_ok db"
  shows "map_of (peer_gossip_records ids db) i = (if i \<in> set ids then peer_gossip_record i db else None)"
proof -
  let ?rs = "filter (\<lambda>r. pr_id r \<in> set ids \<and> pr_gossip_record r \<noteq> None) (db_peers db)"
  have dist: "distinct (map pr_id (db_peers db))" using assms by (simp add: peers_ok_def)
  then have "distinct (map pr_id ?rs)" by (rule distinct_map_filter)
  moreover have "Option.bind (find (\<lambda>r. pr_id r = i) (filter (\<lambda>r. pr_id r \<in> set ids \<and> pr_gossip_record r \<noteq> None) rs)) pr_gossip_record =
      (if i \<in> set ids then Option.bind (find (\<lambda>r. pr_id r = i) rs) pr_gossip_record else None)"
    if "distinct (map pr_id rs)" for rs
    using that
  proof (induction rs)
    case (Cons r rs)
    have "find (\<lambda>x. pr_id x = pr_id r) (filter P rs) = None" for P
      using Cons.prems by (auto simp: find_None_iff rev_image_eqI)
    then show ?case using Cons by auto
  qed simp
  note this [OF dist]
  ultimately show ?thesis
    by (auto simp: peer_gossip_records_def peer_gossip_record_def map_of_foldl_records split: option.split)
qed

lemma map_of_map_filter_pair:
  "hm_ok m \<Longrightarrow> map_of (List.map_filter (\<lambda>(i, raw). map_option (Pair i) (f raw)) m) i = Option.bind (map_of m i) f"
proof (induction m)
  case (Cons e m)
  obtain k v where e: "e = (k, v)" by (cases e)
  have "map_of m k = None" using Cons.prems by (auto simp: hm_ok_def e map_of_eq_None_iff)
  then show ?case using Cons by (cases "f v") (auto simp: e hm_ok_def map_filter_simps)
qed (simp add: map_filter_simps)

text \<open>What the loop starts from: the time every friend's stored record was signed.\<close>

lemma stored_signed_at_of:
  assumes "peers_ok db" "list_peers db = Inr ps" "r \<in> set (db_peers db)"
  shows "map_of (stored_signed_at False signed_at_of ps db) (pr_id r) = Option.bind (pr_gossip_record r) signed_at_of"
proof -
  obtain p where p: "p \<in> set ps" "row_to_peer r = Inr p" using list_peers_rows(2) [OF assms(2,3)] by blast
  have "hm_ok (peer_gossip_records (map p_id ps) db)"
    by (auto simp: peer_gossip_records_def intro: hm_ok_foldl_records)
  moreover have "find (\<lambda>x. pr_id x = pr_id r) (db_peers db) = Some r"
    using assms(1,3) by (intro find_unique) (simp_all add: peers_ok_def)
  ultimately show ?thesis using assms p row_to_peer_fields [OF p(2)]
    by (auto simp: stored_signed_at_def map_of_map_filter_pair peer_gossip_records_map_of peer_gossip_record_def rev_image_eqI)
qed

section \<open>What a batch may change\<close>

text \<open>A record worth keeping for a friend: genuine, not from the future, signed by the key the friend is bound to.\<close>

definition genuine ::
    "'k crypto \<Rightarrow> (endpoint_record \<Rightarrow> string option) \<Rightarrow> int \<Rightarrow> endpoint_record list \<Rightarrow> peer_row \<Rightarrow> endpoint_record \<Rightarrow> bool" where
  "genuine c to_json now records r rec \<longleftrightarrow>
     rec \<in> set (take GOSSIP_MAX_RECORDS records) \<and> verify c rec = Inr () \<and>
     ep_signed_at rec \<le> saturating_add_i64 now MAX_FUTURE_SKEW_SECS \<and>
     pr_pubkey r = Some (ep_pubkey rec) \<and> to_json rec \<noteq> None \<and> pr_gossip_record r = to_json rec"

text \<open>A friend's row before and after a batch presented by \<open>presenter_id\<close>.\<close>

definition gossiped ::
    "bool \<Rightarrow> 'k crypto \<Rightarrow> (endpoint_record \<Rightarrow> string option) \<Rightarrow> (string \<Rightarrow> int option) \<Rightarrow> int \<Rightarrow> int \<Rightarrow> endpoint_record list \<Rightarrow>
       peer_row \<Rightarrow> peer_row \<Rightarrow> bool" where
  "gossiped compared c to_json signed_at_of now presenter_id records r r' \<longleftrightarrow>
     row_later r r' \<and> pr_revoked_at r' = pr_revoked_at r \<and> (pr_pubkey r' = pr_pubkey r \<or> pr_id r = presenter_id) \<and>
     (pr_gossip_record r' = pr_gossip_record r \<or>
      (pr_revoked_at r = None \<or> pr_id r = presenter_id) \<and>
      (\<exists>rec. genuine c to_json now records r' rec \<and>
         (compared \<longrightarrow> (\<forall>old t. pr_gossip_record r = Some old \<and> signed_at_of old = Some t \<longrightarrow> t < ep_signed_at rec))))"

definition ingest_inv ::
    "bool \<Rightarrow> 'k crypto \<Rightarrow> (endpoint_record \<Rightarrow> string option) \<Rightarrow> (string \<Rightarrow> int option) \<Rightarrow> int \<Rightarrow> int \<Rightarrow> endpoint_record list \<Rightarrow>
       database \<Rightarrow> ingest_state \<Rightarrow> bool" where
  "ingest_inv compared c to_json signed_at_of now presenter_id records db st \<longleftrightarrow>
     list_all2 (gossiped compared c to_json signed_at_of now presenter_id records) (db_peers db) (db_peers (is_db st)) \<and>
     (compared \<longrightarrow> (\<forall>r \<in> set (db_peers db). \<forall>old t. pr_gossip_record r = Some old \<and> signed_at_of old = Some t \<longrightarrow>
        (\<exists>s. map_of (is_signed st) (pr_id r) = Some s \<and> t \<le> s)))"

lemma list_all2_update:
  assumes "list_all2 P rs rs'" "\<And>r r'. r \<in> set rs \<Longrightarrow> P r r' \<Longrightarrow> cond r' \<Longrightarrow> P r (assign r')"
  shows "list_all2 P rs (map (\<lambda>r. if cond r then assign r else r) rs')"
  using assms by (auto simp: list_all2_conv_all_nth)

lemma list_all2_weaken:
  assumes "list_all2 P rs rs'" "\<And>r r'. r \<in> set rs \<Longrightarrow> r' \<in> set rs' \<Longrightarrow> P r r' \<Longrightarrow> Q r r'"
  shows "list_all2 Q rs rs'"
  using assms by (auto simp: list_all2_conv_all_nth)

lemma record_endpoints_peers [simp]: "db_peers (record_endpoints fails_at gap_of now i es via db) = db_peers db"
proof -
  have step: "db_peers (or_keep db (record_peer_endpoint gap now i k a t v db)) = db_peers db" for gap k a t v db
    by (auto simp: or_keep_def record_peer_endpoint_def case_prod_beta split: sum.split)
  have "db_peers (foldl (\<lambda>db (k, e). case endpoint_kind_parse (re_kind e) of None \<Rightarrow> db | Some kind \<Rightarrow>
      if fails_at k then db else or_keep db (record_peer_endpoint (gap_of db) now i kind (re_addr e) (Some (re_observed_at e)) via db))
      db kes) = db_peers db" for kes
    by (induction kes arbitrary: db) (auto simp: step split: option.split)
  then show ?thesis by (simp add: record_endpoints_def)
qed

text \<open>
  Finding the subject of a record leaves every row as the batch may leave it, and the subject's row is bound to the
  key that signed it: by the rows the batch started from, or by the binding just made.
\<close>

lemma subject_of_rows:
  assumes ok: "peers_ok db" and ps: "list_peers db = Inr ps"
    and inv: "list_all2 (gossiped compared c to_json signed_at_of now presenter_id records) (db_peers db) (db_peers db0)"
    and sub: "subject_of bind_fails ps presenter_id rec db0 = (db1, subject)"
  shows "list_all2 (\<lambda>r r'. gossiped compared c to_json signed_at_of now presenter_id records r r' \<and>
           (subject = Some (pr_id r) \<longrightarrow> pr_pubkey r' = Some (ep_pubkey rec) \<and> (pr_revoked_at r = None \<or> pr_id r = presenter_id)))
         (db_peers db) (db_peers db1)"
proof (cases "map_of (by_pubkey ps) (ep_pubkey rec)")
  case (Some p)
  then have p: "p \<in> set ps" "p_pubkey p = Some (ep_pubkey rec)" using by_pubkey_Some by blast+
  obtain r0 where r0: "r0 \<in> set (db_peers db)" "row_to_peer r0 = Inr p" using list_peers_rows(1) [OF ps p(1)] by blast
  have eq: "db1 = db0" "subject = (if is_revoked p then None else Some (p_id p))"
    using sub Some by (auto simp: subject_of_def)
  have "pr_pubkey r' = Some (ep_pubkey rec) \<and> pr_revoked_at r = None"
    if "r \<in> set (db_peers db)" "gossiped compared c to_json signed_at_of now presenter_id records r r'" "subject = Some (pr_id r)" for r r'
  proof -
    have same: "pr_id r = pr_id r0" and nr: "p_revoked_at p = None"
      using that(3) eq row_to_peer_fields [OF r0(2)] by (auto simp: is_revoked_def split: if_splits)
    have "r = r0" by (rule unique_row [OF _ that(1) r0(1) same]) (use ok in \<open>simp add: peers_ok_def\<close>)
    then show ?thesis using that(2) p(2) nr row_to_peer_fields [OF r0(2)] by (auto simp: gossiped_def row_later_def)
  qed
  then show ?thesis unfolding eq(1) by (intro list_all2_weaken [OF inv]) auto
next
  case None
  show ?thesis
  proof (cases "db1 = db0 \<and> subject = None")
    case True
    then show ?thesis by (auto intro: list_all2_weaken [OF inv])
  next
    case False
    then have b: "bind_peer_pubkey presenter_id (ep_pubkey rec) db0 = (db1, subject \<noteq> None)" "subject = None \<or> subject = Some presenter_id"
      using sub None by (auto simp: subject_of_def Let_def split: if_splits prod.splits)
    let ?cond = "\<lambda>r. pr_id r = presenter_id \<and> (pr_pubkey r = None \<or> pr_pubkey r = Some (ep_pubkey rec))"
    have rows: "db_peers db1 = map (\<lambda>r. if ?cond r then r\<lparr>pr_pubkey := Some (ep_pubkey rec)\<rparr> else r) (db_peers db0)"
      and bound: "subject \<noteq> None \<longleftrightarrow> list_ex ?cond (db_peers db0)"
      using b(1) by (auto simp: bind_peer_pubkey_def update_peers_def sql_update_def)
    have l: "list_all2 (gossiped compared c to_json signed_at_of now presenter_id records) (db_peers db) (db_peers db1)"
      unfolding rows
    proof (rule list_all2_update [OF inv])
      fix r r' assume g: "gossiped compared c to_json signed_at_of now presenter_id records r r'" "?cond r'"
      show "gossiped compared c to_json signed_at_of now presenter_id records r (r'\<lparr>pr_pubkey := Some (ep_pubkey rec)\<rparr>)"
      proof (cases "pr_pubkey r' = None")
        case True
        then show ?thesis using g by (auto simp: gossiped_def genuine_def row_later_def)
      next
        case False
        then have "r'\<lparr>pr_pubkey := Some (ep_pubkey rec)\<rparr> = r'" using g(2) by auto
        then show ?thesis using g(1) by simp
      qed
    qed
    have "pr_pubkey r' = Some (ep_pubkey rec)" 
      if mine: "r' \<in> set (db_peers db1)" "pr_id r' = presenter_id" "subject \<noteq> None" for r'
    proof -
      have "map pr_id (db_peers db0) = map pr_id (db_peers db)"
        using inv by (rule list_all2_map_eq) (simp add: gossiped_def row_later_def)
      then have dist: "distinct (map pr_id (db_peers db0))" using ok by (simp add: peers_ok_def)
      obtain x where x: "x \<in> set (db_peers db0)" "?cond x" using bound mine(3) unfolding list_ex_iff by blast
      obtain y where y: "y \<in> set (db_peers db0)" "r' = (if ?cond y then y\<lparr>pr_pubkey := Some (ep_pubkey rec)\<rparr> else y)"
        using mine(1) rows by auto
      have "pr_id y = pr_id x" using y(2) mine(2) x(2) by (auto split: if_splits)
      from unique_row [OF dist y(1) x(1) this] have "y = x" .
      then show ?thesis using y(2) x(2) by auto
    qed
    then show ?thesis using b(2) by (intro list_all2_weaken [OF l]) (auto simp: gossiped_def row_later_def)
  qed
qed

lemma set_gossip_record_rows:
  "db_peers (set_peer_gossip_record i raw db) =
     map (\<lambda>r. if pr_id r = i then r\<lparr>pr_gossip_record := Some raw\<rparr> else r) (db_peers db)"
  by (simp add: set_peer_gossip_record_def update_peers_def sql_update_def)

lemma ingest_one_inv:
  assumes ok: "peers_ok db" and ps: "list_peers db = Inr ps" and rec: "rec \<in> set (take GOSSIP_MAX_RECORDS records)"
    and inv: "ingest_inv compared c to_json signed_at_of now presenter_id records db st"
  shows "ingest_inv compared c to_json signed_at_of now presenter_id records db (ingest_one fails c to_json gap_of now ps presenter_id st (n, rec))"
proof (cases "verify c rec \<noteq> Inr () \<or> ep_signed_at rec > saturating_add_i64 now MAX_FUTURE_SKEW_SECS")
  case True
  then have "is_db (ingest_one fails c to_json gap_of now ps presenter_id st (n, rec)) = is_db st"
    "is_signed (ingest_one fails c to_json gap_of now ps presenter_id st (n, rec)) = is_signed st"
    by (simp_all add: ingest_one_def Let_def)
  then show ?thesis using inv unfolding ingest_inv_def by auto
next
  case valid: False
  obtain db1 subject where sub: "subject_of (fails (BindPresenter n)) ps presenter_id rec (is_db st) = (db1, subject)"
    by (cases "subject_of (fails (BindPresenter n)) ps presenter_id rec (is_db st)")
  have rows: "list_all2 (gossiped compared c to_json signed_at_of now presenter_id records) (db_peers db) (db_peers (is_db st))"
    and signed: "\<And>r old t. compared \<Longrightarrow> r \<in> set (db_peers db) \<Longrightarrow> pr_gossip_record r = Some old \<Longrightarrow> signed_at_of old = Some t \<Longrightarrow>
      \<exists>s. map_of (is_signed st) (pr_id r) = Some s \<and> t \<le> s"
    using inv unfolding ingest_inv_def by blast+
  note rows1 = subject_of_rows [OF ok ps rows sub]
  have rows1': "list_all2 (gossiped compared c to_json signed_at_of now presenter_id records) (db_peers db) (db_peers db1)"
    by (rule list_all2_weaken [OF rows1]) blast
  show ?thesis
  proof (cases "\<exists>i raw. subject = Some i \<and> to_json rec = Some raw \<and> \<not> fails (StoreRecord n) \<and>
      \<not> (case map_of (is_signed st) i of None \<Rightarrow> False | Some stored \<Rightarrow> stored \<ge> ep_signed_at rec)")
    case False
    then have "db_peers (is_db (ingest_one fails c to_json gap_of now ps presenter_id st (n, rec))) = db_peers db1"
      "is_signed (ingest_one fails c to_json gap_of now ps presenter_id st (n, rec)) = is_signed st"
      using valid sub by (auto simp: ingest_one_def Let_def split: option.split)
    then show ?thesis using rows1' signed by (simp add: ingest_inv_def)
  next
    case True
    then obtain i raw where i: "subject = Some i" "to_json rec = Some raw" "\<not> fails (StoreRecord n)"
      and current: "\<not> (case map_of (is_signed st) i of None \<Rightarrow> False | Some stored \<Rightarrow> stored \<ge> ep_signed_at rec)" by blast
    have fresh: "s < ep_signed_at rec" if "map_of (is_signed st) i = Some s" for s using current that by simp
    let ?st = "ingest_one fails c to_json gap_of now ps presenter_id st (n, rec)"
    have st: "db_peers (is_db ?st) = map (\<lambda>r. if pr_id r = i then r\<lparr>pr_gossip_record := Some raw\<rparr> else r) (db_peers db1)"
      "is_signed ?st = hm_insert i (ep_signed_at rec) (is_signed st)"
      using valid sub i current by (simp_all add: ingest_one_def Let_def set_gossip_record_rows)
    have newer: "t < ep_signed_at rec"
      if "compared" "r \<in> set (db_peers db)" "pr_id r = i" "pr_gossip_record r = Some old" "signed_at_of old = Some t" for r old t
      using signed [OF that(1,2,4,5)] that(3) fresh by fastforce
    have "list_all2 (\<lambda>r r'. gossiped compared c to_json signed_at_of now presenter_id records r r' \<and>
        (subject = Some (pr_id r) \<longrightarrow> pr_pubkey r' = Some (ep_pubkey rec) \<and> (pr_revoked_at r = None \<or> pr_id r = presenter_id)))
        (db_peers db) (db_peers (is_db ?st))"
      unfolding st(1)
    proof (rule list_all2_update [OF rows1])
      fix r r'
      assume r: "r \<in> set (db_peers db)" and id: "pr_id r' = i"
        and g: "gossiped compared c to_json signed_at_of now presenter_id records r r' \<and>
          (subject = Some (pr_id r) \<longrightarrow> pr_pubkey r' = Some (ep_pubkey rec) \<and> (pr_revoked_at r = None \<or> pr_id r = presenter_id))"
      have same: "pr_id r = i" using g id by (simp add: gossiped_def row_later_def)
      have "genuine c to_json now records (r'\<lparr>pr_gossip_record := Some raw\<rparr>) rec"
        using g same i rec valid by (simp add: genuine_def)
      then have "\<exists>rec. genuine c to_json now records (r'\<lparr>pr_gossip_record := Some raw\<rparr>) rec \<and>
          (compared \<longrightarrow> (\<forall>old t. pr_gossip_record r = Some old \<and> signed_at_of old = Some t \<longrightarrow> t < ep_signed_at rec))"
        using newer [OF _ r same] by blast
      then show "gossiped compared c to_json signed_at_of now presenter_id records r (r'\<lparr>pr_gossip_record := Some raw\<rparr>) \<and>
          (subject = Some (pr_id r) \<longrightarrow> pr_pubkey (r'\<lparr>pr_gossip_record := Some raw\<rparr>) = Some (ep_pubkey rec) \<and>
             (pr_revoked_at r = None \<or> pr_id r = presenter_id))"
        using g same i(1) unfolding gossiped_def row_later_def by auto
    qed
    then have "list_all2 (gossiped compared c to_json signed_at_of now presenter_id records) (db_peers db) (db_peers (is_db ?st))"
      by (rule list_all2_weaken) blast
    moreover have "\<exists>s. map_of (is_signed ?st) (pr_id r) = Some s \<and> t \<le> s"
      if "compared" "r \<in> set (db_peers db)" "pr_gossip_record r = Some old" "signed_at_of old = Some t" for r old t
      using signed [OF that] newer [OF that(1,2) _ that(3,4)] by (auto simp: st(2))
    ultimately show ?thesis by (simp add: ingest_inv_def)
  qed
qed

lemma ingest_inv_run:
  assumes "peers_ok db" "list_peers db = Inr ps" "snd ` set rs \<subseteq> set (take GOSSIP_MAX_RECORDS records)"
    and "ingest_inv compared c to_json signed_at_of now presenter_id records db st"
  shows "ingest_inv compared c to_json signed_at_of now presenter_id records db (foldl (ingest_one fails c to_json gap_of now ps presenter_id) st rs)"
  using assms(3,4)
proof (induction rs arbitrary: st)
  case (Cons nr rs)
  obtain n r where nr: "nr = (n, r)" by (cases nr)
  have "r \<in> set (take GOSSIP_MAX_RECORDS records)" using Cons.prems(1) by (simp add: nr)
  from ingest_one_inv [OF assms(1,2) this Cons.prems(2)] show ?case using Cons.IH Cons.prems(1) by (simp add: nr)
qed simp

lemma run_peers_ok: "peers_ok (foldl (db_step hash_key url_parse) (empty_db rt) ops)"
  using run_db_ok by (simp add: db_ok_def)

lemma ingest_rows:
  assumes "peers_ok db"
  shows "list_all2 (gossiped (\<not> fails ReadRecords) c to_json signed_at_of now presenter_id records) (db_peers db)
    (db_peers (fst (ingest fails c to_json signed_at_of gap_of now presenter_id records db)))"
proof -
  have same: "list_all2 (gossiped (\<not> fails ReadRecords) c to_json signed_at_of now presenter_id records) (db_peers db) (db_peers db)"
    by (auto simp: gossiped_def intro!: list_all2_same [THEN iffD2])
  show ?thesis
  proof (cases "list_peers db")
    case (Inr ps)
    have "ingest_inv (\<not> fails ReadRecords) c to_json signed_at_of now presenter_id records db
        \<lparr>is_db = db, is_signed = stored_signed_at (fails ReadRecords) signed_at_of ps db, is_summary = empty_summary\<rparr>"
      using stored_signed_at_of [OF assms Inr] same by (auto simp: ingest_inv_def)
    from ingest_inv_run [OF assms Inr _ this, of "enumerate 0 (take GOSSIP_MAX_RECORDS records)" fails gap_of] Inr same
    show ?thesis by (auto simp: ingest_def Let_def ingest_inv_def simp flip: set_map)
  qed (simp add: ingest_def same)
qed

text \<open>Every record looked at is counted once.\<close>

definition counted :: "ingest_summary \<Rightarrow> nat" where
  "counted sm = ig_accepted sm + ig_invalid sm + ig_unknown sm + ig_stale sm"

lemma ingest_one_counted:
  "counted (is_summary (ingest_one fails c to_json gap_of now ps presenter_id st r)) = counted (is_summary st) + 1"
  by (auto simp: ingest_one_def counted_def Let_def split: option.split prod.split)

lemma ingest_accounts:
  "list_peers db = Inr ps \<Longrightarrow> \<not> fails ListPeers \<Longrightarrow>
   counted (snd (ingest fails c to_json signed_at_of gap_of now presenter_id records db)) = min GOSSIP_MAX_RECORDS (length records)"
proof -
  have "counted (is_summary (foldl (ingest_one fails c to_json gap_of now ps presenter_id) st rs)) = counted (is_summary st) + length rs"
    for st rs by (induction rs arbitrary: st) (simp_all add: ingest_one_counted)
  then show "list_peers db = Inr ps \<Longrightarrow> \<not> fails ListPeers \<Longrightarrow> ?thesis"
    by (simp add: ingest_def Let_def) (simp add: counted_def empty_summary_def min.commute)
qed

section \<open>The properties\<close>

text \<open>
  C30. A batch of gossip, whatever it holds and whichever statements the database refuses, teaches us nobody new and
  forges nothing. Each friend's row stays the same friend with the same key and revocation; only the presenter's identity
  may become bound, never rebound; and a stored record is replaced only by a record of the batch that verifies, is not from
  the future, and was signed with the key that friend is bound to; the record of a revoked friend who is not the presenter
  is left alone. If the stored records could be read when the batch came in, the new record is also strictly newer than
  the one it replaces; if they could not, it need not be.
\<close>

theorem gossip_batch_is_authentic:
  "let db = foldl (db_step hash_key url_parse) (empty_db rt) ops in
   list_all2 (gossiped (\<not> fails ReadRecords) c to_json signed_at_of now presenter_id records) (db_peers db)
     (db_peers (fst (ingest fails c to_json signed_at_of gap_of now presenter_id records db)))"
  unfolding Let_def by (rule ingest_rows) (rule run_peers_ok)

lemma subject_of_lands:
  assumes ok: "peers_ok db" and ps: "list_peers db = Inr ps" and r: "r \<in> set (db_peers db)"
    and who: "pr_pubkey r = Some (ep_pubkey rec) \<and> pr_revoked_at r = None \<or> pr_pubkey r = None \<and> pr_id r = presenter_id"
    and only: "\<And>x. x \<in> set (db_peers db) \<Longrightarrow> pr_pubkey x = Some (ep_pubkey rec) \<Longrightarrow> x = r"
    and bind: "pr_pubkey r = None \<Longrightarrow> \<not> bind_fails"
  shows "snd (subject_of bind_fails ps presenter_id rec db) = Some (pr_id r)"
proof -
  obtain p where p: "p \<in> set ps" "row_to_peer r = Inr p" using list_peers_rows(2) [OF ps r] by blast
  have pf: "p_id p = pr_id r" "p_pubkey p = pr_pubkey r" "p_revoked_at p = pr_revoked_at r" using row_to_peer_fields [OF p(2)] by auto
  have known: "\<exists>x \<in> set (db_peers db). pr_id x = p_id q \<and> pr_pubkey x = p_pubkey q \<and> pr_revoked_at x = p_revoked_at q" if "q \<in> set ps" for q
    using list_peers_rows(1) [OF ps that] row_to_peer_fields by metis
  show ?thesis
  proof (cases "pr_pubkey r")
    case None
    then have nobody: "map_of (by_pubkey ps) (ep_pubkey rec) = None" using known only by (fastforce simp: by_pubkey_None)
    have pid: "pr_id r = presenter_id" using who None by simp
    obtain q where q: "find (\<lambda>p. p_id p = presenter_id) ps = Some q" "q \<in> set ps" "p_id q = presenter_id"
      using p(1) pf(1) pid by (metis (mono_tags, lifting) find_None_iff find_Some_iff not_None_eq nth_mem)
    obtain x where x: "x \<in> set (db_peers db)" "pr_id x = presenter_id" "pr_pubkey x = p_pubkey q" using known [OF q(2)] q(3) by auto
    have "x = r" by (rule unique_row [of pr_id, OF _ x(1) r]) (use ok x pid in \<open>simp_all add: peers_ok_def\<close>)
    then have unbound: "p_pubkey q = None" using x(3) None by simp
    have "list_ex (\<lambda>x. pr_id x = presenter_id \<and> (pr_pubkey x = None \<or> pr_pubkey x = Some (ep_pubkey rec))) (db_peers db)"
      using r pid None by (auto simp: list_ex_iff)
    then show ?thesis using nobody q(1) unbound pid bind [OF None]
      by (simp add: subject_of_def bind_peer_pubkey_def update_peers_def sql_update_def)
  next
    case (Some k)
    then have k: "k = ep_pubkey rec" "pr_revoked_at r = None" using who by auto
    obtain q where q: "map_of (by_pubkey ps) (ep_pubkey rec) = Some q"
      using by_pubkey_None [of ps "ep_pubkey rec"] p(1) pf(2) Some k by auto
    from by_pubkey_Some [OF q] have "q \<in> set ps" "p_pubkey q = Some (ep_pubkey rec)" by auto
    then have "p_id q = pr_id r \<and> p_revoked_at q = None" using known only k(2) by metis
    then show ?thesis using q by (simp add: subject_of_def is_revoked_def)
  qed
qed

text \<open>
  C31. A genuine record does land. Take a record that verifies, is signed at most five minutes ahead of our clock, and is
  presented alone, for a friend who is not revoked and is the only one bound to its key, or for a presenter bound to
  nothing yet (nobody else being bound to the key). If the friends can be listed, the binding still to be made is not
  refused, and the record is newer than what is stored (when that can be read), then it is counted as accepted, the
  friend is bound to its key, and it is stored exactly when it serialises and the write is not refused; otherwise the
  record stored before stays.
\<close>

theorem genuine_record_lands:
  assumes "list_peers (foldl (db_step hash_key url_parse) (empty_db rt) ops) = Inr ps" "\<not> fails ListPeers"
    and "r \<in> set (db_peers (foldl (db_step hash_key url_parse) (empty_db rt) ops))"
    and "pr_pubkey r = Some (ep_pubkey rec) \<and> pr_revoked_at r = None \<or> pr_pubkey r = None \<and> pr_id r = presenter_id"
    and "\<And>x. x \<in> set (db_peers (foldl (db_step hash_key url_parse) (empty_db rt) ops)) \<Longrightarrow>
           pr_pubkey x = Some (ep_pubkey rec) \<Longrightarrow> x = r"
    and "pr_pubkey r = None \<Longrightarrow> \<not> fails (BindPresenter 0)"
    and "verify c rec = Inr ()" "ep_signed_at rec \<le> saturating_add_i64 now MAX_FUTURE_SKEW_SECS"
    and "\<And>t. \<not> fails ReadRecords \<Longrightarrow> Option.bind (pr_gossip_record r) signed_at_of = Some t \<Longrightarrow> t < ep_signed_at rec"
  shows "let db = foldl (db_step hash_key url_parse) (empty_db rt) ops;
             (db', sm) = ingest fails c to_json signed_at_of gap_of now presenter_id [rec] db in
     ig_accepted sm = 1 \<and>
     peer_gossip_record (pr_id r) db' = (if fails (StoreRecord 0) \<or> to_json rec = None then pr_gossip_record r else to_json rec) \<and>
     (\<exists>r' \<in> set (db_peers db'). pr_id r' = pr_id r \<and> pr_pubkey r' = Some (ep_pubkey rec))"
proof -
  define db where "db = foldl (db_step hash_key url_parse) (empty_db rt) ops"
  note a = assms [folded db_def]
  have ok: "peers_ok db" unfolding db_def by (rule run_peers_ok)
  let ?st = "\<lparr>is_db = db, is_signed = stored_signed_at (fails ReadRecords) signed_at_of ps db, is_summary = empty_summary\<rparr>"
  let ?res = "ingest fails c to_json signed_at_of gap_of now presenter_id [rec] db"
  let ?kept = "fails (StoreRecord 0) \<or> to_json rec = None"
  obtain db1 where sub: "subject_of (fails (BindPresenter 0)) ps presenter_id rec db = (db1, Some (pr_id r))"
    using subject_of_lands [OF ok a(1,3,4,5,6)] by (cases "subject_of (fails (BindPresenter 0)) ps presenter_id rec db") simp
  have init: "list_all2 (gossiped False c to_json signed_at_of now presenter_id []) (db_peers db) (db_peers db)"
    by (auto simp: gossiped_def intro!: list_all2_same [THEN iffD2])
  note rows = subject_of_rows [OF ok a(1) init sub]
  obtain r1 where r1: "r1 \<in> set (db_peers db1)" "pr_id r1 = pr_id r" "pr_pubkey r1 = Some (ep_pubkey rec)"
      "pr_gossip_record r1 = pr_gossip_record r"
    using list_all2_ex1 [OF rows a(3)] by (auto simp: gossiped_def row_later_def genuine_def)
  have "map pr_id (db_peers db1) = map pr_id (db_peers db)"
    using rows by (rule list_all2_map_eq) (simp add: gossiped_def row_later_def)
  then have dist: "distinct (map pr_id (db_peers db1))" using ok by (simp add: peers_ok_def)
  have current: "\<not> (case map_of (is_signed ?st) (pr_id r) of None \<Rightarrow> False | Some stored \<Rightarrow> stored \<ge> ep_signed_at rec)"
    using a(9) stored_signed_at_of [OF ok a(1,3), of signed_at_of]
    by (cases "fails ReadRecords") (auto simp: stored_signed_at_def [of True] split: option.split)
  define upd where "upd x = (if pr_id x = pr_id r \<and> \<not> ?kept then x\<lparr>pr_gossip_record := to_json rec\<rparr> else x)" for x :: peer_row
  have upd_id: "pr_id (upd x) = pr_id x" for x by (simp add: upd_def)
  have res: "ig_accepted (snd ?res) = 1" "db_peers (fst ?res) = map upd (db_peers db1)"
    using a(1,2,7,8) sub current
    by (auto simp: ingest_def ingest_one_def Let_def empty_summary_def set_gossip_record_rows upd_def map_idI split: option.split)
  have r2: "upd r1 \<in> set (map upd (db_peers db1))" using r1(1) by simp
  moreover have "distinct (map pr_id (map upd (db_peers db1)))" using dist by (simp add: comp_def upd_id)
  from find_unique [OF this r2] r1 have "find (\<lambda>x. pr_id x = pr_id r) (map upd (db_peers db1)) = Some (upd r1)"
    by (simp add: upd_id)
  moreover have "pr_pubkey (upd r1) = Some (ep_pubkey rec)" "pr_id (upd r1) = pr_id r"
      "pr_gossip_record (upd r1) = (if ?kept then pr_gossip_record r else to_json rec)"
    using r1 by (simp_all add: upd_def)
  ultimately show ?thesis unfolding db_def [symmetric] using res
    by (simp only: Let_def case_prod_beta peer_gossip_record_def) auto
qed

text \<open>C31: Sam presents his first record, and again with every later write refused: the key is bound either way.\<close>

theorem genuine_record_lands_witness:
  "(let (db', sm) = ingest (\<lambda>_. False) sample_crypto (\<lambda>_. Some ''json'') (\<lambda>_. None) (\<lambda>_. 0) 100 1 [sample_record] sample_store in
     ig_accepted sm = 1 \<and> peer_gossip_record 1 db' = Some ''json'') \<and>
   (let (db', sm) = ingest (\<lambda>s. s \<notin> {ListPeers, ReadRecords, BindPresenter 0}) sample_crypto (\<lambda>_. Some ''json'') (\<lambda>_. None)
        (\<lambda>_. 0) 100 1 [sample_record] sample_store in
     ig_accepted sm = 1 \<and> peer_gossip_record 1 db' = None \<and>
     (\<exists>r' \<in> set (db_peers db'). pr_id r' = 1 \<and> pr_pubkey r' = Some (ep_pubkey sample_record)))"
proof -
  have sam: "pr_id sam = 1" "pr_pubkey sam = None" "pr_gossip_record sam = None" "\<exists>p. row_to_peer sam = Inr p"
    by (simp_all add: sam_def new_peer_row_def row_to_peer_def read_i64_def)
  then obtain p where p: "list_peers sample_store = Inr [p]"
    by (auto simp: list_peers_def sample_peers peers_newest_def)
  have ver: "verify sample_crypto sample_record = Inr ()" "ep_signed_at sample_record \<le> saturating_add_i64 100 300" by code_simp+
  note lands = genuine_record_lands [OF p, of _ sam sample_record 1 sample_crypto 100 "\<lambda>_. None" "\<lambda>_. Some ''json''" "\<lambda>_. 0"]
  show ?thesis
    using lands [of "\<lambda>_. False"] lands [of "\<lambda>s. s \<notin> {ListPeers, ReadRecords, BindPresenter 0}"] sam ver
    by (simp add: sample_peers Let_def case_prod_beta)
qed

text \<open>
  What a failed read costs: a friend's record signed at 90 is stored; while the stored records cannot be read, an
  older genuine one replaces it.
\<close>

lemma failed_read_rewinds:
  "let push = (\<lambda>fails. ingest fails sample_crypto (\<lambda>r. Some (show_int (ep_signed_at r))) parse_i64 (\<lambda>_. 0) 100 1);
       newer = fst (push (\<lambda>_. False) [sample_record] sample_store);
       older = sample_record\<lparr>ep_signed_at := 40\<rparr>
   in peer_gossip_record 1 newer = Some ''90'' \<and>
      peer_gossip_record 1 (fst (push (\<lambda>_. False) [older] newer)) = Some ''90'' \<and>
      peer_gossip_record 1 (fst (push (\<lambda>s. s = ReadRecords) [older] newer)) = Some ''40''"
  by code_simp

text \<open>
  The intersection rule: besides our own record, a pull answers only what is stored for friends who are not revoked
  and whose identity the caller named.
\<close>

lemma pull_failing_subset:
  "set (pull fails read_record own peers db) \<subseteq> set (pull (\<lambda>_. False) read_record own peers db)"
  by (auto simp: pull_def Let_def set_map_filter split: sum.split)

lemma pull_intersection:
  "set (pull fails read_record own peers (foldl (db_step hash_key url_parse) (empty_db rt) ops)) \<subseteq>
     set_option own \<union>
     {rec. \<exists>r \<in> set (db_peers (foldl (db_step hash_key url_parse) (empty_db rt) ops)). \<exists>k raw.
        pr_revoked_at r = None \<and> pr_pubkey r = Some k \<and> k \<in> set (wanted_pubkeys peers) \<and>
        pr_gossip_record r = Some raw \<and> read_record raw = Some rec}"
proof -
  define db where "db = foldl (db_step hash_key url_parse) (empty_db rt) ops"
  have ok: "peers_ok db" unfolding db_def by (rule run_peers_ok)
  have dist: "distinct (map pr_id (db_peers db))" using ok by (simp add: peers_ok_def)
  have relayed: "\<exists>r \<in> set (db_peers db). \<exists>k raw. pr_revoked_at r = None \<and> pr_pubkey r = Some k \<and>
      k \<in> set (wanted_pubkeys peers) \<and> pr_gossip_record r = Some raw \<and> read_record raw = Some rec"
    if ps: "active_peers db = Inr ps" and p: "p \<in> set ps" "p_pubkey p = Some k" "k \<in> set (wanted_pubkeys peers)"
      and rec: "Option.bind (map_of (peer_gossip_records ids db) (p_id p)) read_record = Some rec" for ps p k ids rec
  proof -
    have "list_all2 (\<lambda>r p. row_to_peer r = Inr p) (peers_newest (filter (\<lambda>r. pr_revoked_at r = None) (db_peers db))) ps"
      using ps by (simp add: active_peers_def collect_result_Inr_iff)
    from list_all2_ex2 [OF this p(1)] obtain r
      where r: "r \<in> set (db_peers db)" "pr_revoked_at r = None" "row_to_peer r = Inr p" by auto
    note f = row_to_peer_fields [OF r(3)]
    obtain raw where raw: "peer_gossip_record (p_id p) db = Some raw" "read_record raw = Some rec"
      using rec by (auto simp: peer_gossip_records_map_of [OF ok] bind_eq_Some_conv split: if_splits)
    have "pr_gossip_record r = Some raw"
      using raw(1) f find_unique [OF dist r(1)] by (simp add: peer_gossip_record_def)
    moreover have "pr_pubkey r = Some k" using f p(2) by simp
    ultimately show ?thesis using r(1,2) p(3) raw(2) by blast
  qed
  show ?thesis unfolding db_def [symmetric]
  proof
    fix rec assume "rec \<in> set (pull fails read_record own peers db)"
    then have rec: "rec \<in> set (pull (\<lambda>_. False) read_record own peers db)" using pull_failing_subset by blast
    let ?ids = "\<lambda>ps. List.map_filter (\<lambda>p. case p_pubkey p of None \<Rightarrow> None
        | Some k \<Rightarrow> if k \<in> set (wanted_pubkeys peers) then Some (p_id p) else None) ps"
    consider "rec \<in> set_option own" | ps i where "active_peers db = Inr ps" "i \<in> set (?ids ps)"
        "Option.bind (map_of (peer_gossip_records (?ids ps) db) i) read_record = Some rec"
      using rec by (auto simp: pull_def Let_def set_map_filter split: option.splits sum.splits if_splits)
    then show "rec \<in> set_option own \<union> {rec. \<exists>r \<in> set (db_peers db). \<exists>k raw. pr_revoked_at r = None \<and> pr_pubkey r = Some k \<and>
        k \<in> set (wanted_pubkeys peers) \<and> pr_gossip_record r = Some raw \<and> read_record raw = Some rec}"
    proof cases
      case (2 ps i)
      then obtain p k where "p \<in> set ps" "p_pubkey p = Some k" "k \<in> set (wanted_pubkeys peers)" "p_id p = i"
        by (auto simp: set_map_filter split: option.splits if_splits)
      then show ?thesis using relayed 2 by blast
    qed simp
  qed
qed

end
