(* ===== verification/Client.thy ===== *)
theory Client
  imports Media_Model Rust_Path Announce_Url
begin

text \<open>
  \<^verbatim>\<open>sharerr-client/src/lib.rs\<close>: what this program asks of a torrent client. The clients themselves are separate
  programs behind HTTP, so a client is a parameter: a record of the operations of the trait \<^verbatim>\<open>TorrentClient\<close>, each a
  function of the client's own state.
\<close>

section \<open>Data\<close>

datatype client_kind = QBittorrent | Transmission | Rtorrent | Deluge

definition client_kind_str :: "client_kind \<Rightarrow> string" where
  "client_kind_str k =
     (case k of QBittorrent \<Rightarrow> ''qBittorrent'' | Transmission \<Rightarrow> ''Transmission'' | Rtorrent \<Rightarrow> ''rTorrent'' | Deluge \<Rightarrow> ''Deluge'')"

definition hybrid_torrents :: "client_kind \<Rightarrow> bool" where
  "hybrid_torrents k = (case k of QBittorrent \<Rightarrow> True | Transmission \<Rightarrow> True | Rtorrent \<Rightarrow> True | Deluge \<Rightarrow> False)"

datatype client_error =
    Unreachable client_kind string string
  | AuthRejected client_kind
  | Api client_kind string
  | ClientMalformed client_kind string
  | ClientConfig string

definition is_auth_failure :: "client_error \<Rightarrow> bool" where
  "is_auth_failure e = (case e of AuthRejected _ \<Rightarrow> True | _ \<Rightarrow> False)"

definition is_unreachable :: "client_error \<Rightarrow> bool" where
  "is_unreachable e = (case e of Unreachable _ _ _ \<Rightarrow> True | _ \<Rightarrow> False)"

record torrent_summary =
  ts_hash :: string
  ts_name :: string
  ts_save_path :: string
  ts_content_path :: string
  ts_category :: string
  ts_tags :: "string list"
  ts_is_seeding :: bool
  ts_is_stopped :: bool
  ts_ratio :: "f64 option"
  ts_ratio_limit :: "f64 option"
  ts_upload_limit_kib :: "nat option"

record seeding_limits =
  sl_upload_limit_kib :: "nat option"
  sl_ratio_limit :: "f64 option"

definition limits_is_empty :: "seeding_limits \<Rightarrow> bool" where
  "limits_is_empty l \<longleftrightarrow> sl_upload_limit_kib l = None \<and> sl_ratio_limit l = None"

text \<open>\<^verbatim>\<open>(have - want).abs() < 0.001\<close> on \<^verbatim>\<open>f64\<close> is the parameter \<open>close\<close>.\<close>

definition limits_match :: "(f64 \<Rightarrow> f64 \<Rightarrow> bool) \<Rightarrow> seeding_limits \<Rightarrow> torrent_summary \<Rightarrow> bool" where
  "limits_match close l reported \<longleftrightarrow>
     (case sl_upload_limit_kib l of None \<Rightarrow> True | Some want \<Rightarrow> ts_upload_limit_kib reported = Some want) \<and>
     (case sl_ratio_limit l of
        None \<Rightarrow> True
      | Some want \<Rightarrow> (case ts_ratio_limit reported of None \<Rightarrow> False | Some have' \<Rightarrow> close have' want))"

record torrent_file_entry =
  fe_name :: string
  fe_size :: nat

text \<open>The save path is kept as the path it spells.\<close>

record add_request =
  aq_data :: bytes
  aq_info_hash :: string
  aq_filename :: string
  aq_save_path :: rpath
  aq_root_folder :: "string option"
  aq_category :: "string option"
  aq_tags :: "string option"
  aq_skip_checking :: bool
  aq_stopped :: bool
  aq_limits :: seeding_limits

definition add_request_new :: "bytes \<Rightarrow> string \<Rightarrow> string \<Rightarrow> rpath \<Rightarrow> add_request" where
  "add_request_new data h filename save_path =
     \<lparr>aq_data = data, aq_info_hash = h, aq_filename = filename, aq_save_path = save_path, aq_root_folder = None,
      aq_category = None, aq_tags = None, aq_skip_checking = False, aq_stopped = False,
      aq_limits = \<lparr>sl_upload_limit_kib = None, sl_ratio_limit = None\<rparr>\<rparr>"

definition split_tags :: "string \<Rightarrow> string list" where
  "split_tags raw = filter (\<lambda>t. t \<noteq> []) (map trim (split_on CHR '','' raw))"

definition tag_list :: "add_request \<Rightarrow> string list" where
  "tag_list r = split_tags (case aq_tags r of None \<Rightarrow> [] | Some t \<Rightarrow> t)"

definition single_tag :: "string \<Rightarrow> string list" where
  "single_tag label = (if label = [] then [] else [label])"

definition trim_end_slashes :: "string \<Rightarrow> string" where
  "trim_end_slashes s = rev (dropWhile (\<lambda>c. c = CHR ''/'') (rev s))"

definition joined_content_path :: "string \<Rightarrow> string \<Rightarrow> string" where
  "joined_content_path dir name = (if dir = [] \<or> name = [] then [] else trim_end_slashes dir @ ''/'' @ name)"

definition missing_urls :: "url list \<Rightarrow> (string \<Rightarrow> bool) \<Rightarrow> string list" where
  "missing_urls wanted listed = filter (\<lambda>u. \<not> listed u) wanted"

text \<open>HTTP status codes as numbers; how one is spelled out is the parameter \<open>show_status\<close>.\<close>

definition is_auth_rejection :: "nat \<Rightarrow> bool" where
  "is_auth_rejection status \<longleftrightarrow> status = 401 \<or> status = 403"

definition check_status :: "(nat \<Rightarrow> string) \<Rightarrow> client_kind \<Rightarrow> nat \<Rightarrow> string \<Rightarrow> (client_error, unit) result" where
  "check_status show_status kind status what =
     (if is_auth_rejection status then Inl (AuthRejected kind)
      else if \<not> (200 \<le> status \<and> status < 300) then Inl (Api kind (''HTTP '' @ show_status status @ '' from '' @ what))
      else Inr ())"

section \<open>The client\<close>

record 'w client =
  cl_kind :: client_kind
  cl_list :: "'w \<Rightarrow> 'w \<times> (client_error, torrent_summary list) result"
  cl_files :: "string \<Rightarrow> 'w \<Rightarrow> 'w \<times> (client_error, torrent_file_entry list) result"
  cl_add :: "add_request \<Rightarrow> 'w \<Rightarrow> 'w \<times> (client_error, unit) result"
  cl_remove :: "string \<Rightarrow> 'w \<Rightarrow> 'w \<times> (client_error, unit) result"
  cl_set_trackers :: "string \<Rightarrow> url list \<Rightarrow> 'w \<Rightarrow> 'w \<times> (client_error, unit) result"
  cl_add_trackers :: "string \<Rightarrow> url list \<Rightarrow> 'w \<Rightarrow> 'w \<times> (client_error, unit) result"
  cl_apply_limits :: "string \<Rightarrow> seeding_limits \<Rightarrow> 'w \<Rightarrow> 'w \<times> (client_error, unit) result"
  cl_export :: "string \<Rightarrow> 'w \<Rightarrow> 'w \<times> (client_error, bytes option) result"

definition set_limits :: "'w client \<Rightarrow> string \<Rightarrow> seeding_limits \<Rightarrow> 'w \<Rightarrow> 'w \<times> (client_error, unit) result" where
  "set_limits cl h l w = (if limits_is_empty l then (w, Inr ()) else cl_apply_limits cl h l w)"

text \<open>What is asked of the client that changes something there, in the order asked.\<close>

datatype client_call =
    CallAdd add_request
  | CallRemove string
  | CallSetTrackers string "url list"
  | CallAddTrackers string "url list"
  | CallLimits string seeding_limits

section \<open>Steps that may fail\<close>

text \<open>
  A computation on a state with an outcome, and the sequencing of \<^verbatim>\<open>?\<close>: the first failure ends it, with what was
  changed until then.
\<close>

type_synonym ('s, 'e, 'a) fallible = "'s \<Rightarrow> 's \<times> ('e, 'a) result"

definition return_ok :: "'a \<Rightarrow> ('s, 'e, 'a) fallible" where
  "return_ok x s = (s, Inr x)"

definition fail_with :: "'e \<Rightarrow> ('s, 'e, 'a) fallible" where
  "fail_with e s = (s, Inl e)"

definition of_result :: "('e, 'a) result \<Rightarrow> ('s, 'e, 'a) fallible" where
  "of_result r s = (s, r)"

definition run_then :: "('s, 'e, 'a) fallible \<Rightarrow> ('a \<Rightarrow> ('s, 'e, 'b) fallible) \<Rightarrow> ('s, 'e, 'b) fallible" where
  "run_then m f s = (case m s of (s', Inl e) \<Rightarrow> (s', Inl e) | (s', Inr x) \<Rightarrow> f x s')"

definition map_err :: "('e \<Rightarrow> 'f) \<Rightarrow> ('s, 'e, 'a) fallible \<Rightarrow> ('s, 'f, 'a) fallible" where
  "map_err g m s = (case m s of (s', Inl e) \<Rightarrow> (s', Inl (g e)) | (s', Inr x) \<Rightarrow> (s', Inr x))"

text \<open>What the code does with a failure it only logs.\<close>

definition attempt :: "('s, 'e, 'a) fallible \<Rightarrow> 's \<Rightarrow> 's \<times> 'a option" where
  "attempt m s = (case m s of (s', Inl _) \<Rightarrow> (s', None) | (s', Inr x) \<Rightarrow> (s', Some x))"

lemma step_simps [simp]:
  "return_ok x s = (s, Inr x)" "fail_with e s = (s, Inl e)" "of_result r s = (s, r)"
  by (simp_all add: return_ok_def fail_with_def of_result_def)

text \<open>An outcome of a sequence is an outcome of its first part, or of the rest after that part succeeded.\<close>

lemma run_then_Inr: "run_then m f s = (s', Inr y) \<longleftrightarrow> (\<exists>s1 x. m s = (s1, Inr x) \<and> f x s1 = (s', Inr y))"
  by (auto simp: run_then_def split: prod.splits sum.splits)

lemma run_then_cases:
  assumes "run_then m f s = (s', r)"
  obtains (failed) e where "m s = (s', Inl e)" "r = Inl e"
  | (continued) s1 x where "m s = (s1, Inr x)" "f x s1 = (s', r)"
  using assms by (auto simp: run_then_def split: prod.splits sum.splits)

lemma map_err_cases:
  assumes "map_err g m s = (s', r)"
  obtains (failed) e where "m s = (s', Inl e)" "r = Inl (g e)"
  | (passed) x where "m s = (s', Inr x)" "r = Inr x"
  using assms by (auto simp: map_err_def split: prod.splits sum.splits)

text \<open>
  A relation between the states before and after that every step respects, whatever its outcome, is respected by
  sequences of steps.
\<close>

locale step_order =
  fixes rel :: "'s \<Rightarrow> 's \<Rightarrow> bool"
  assumes rel_refl: "rel s s"
    and rel_trans: "rel s s' \<Longrightarrow> rel s' s'' \<Longrightarrow> rel s s''"
begin

lemma rel_run_then:
  assumes "rel s (fst (m s))" "\<And>x. snd (m s) = Inr x \<Longrightarrow> rel (fst (m s)) (fst (f x (fst (m s))))"
  shows "rel s (fst (run_then m f s))"
proof (cases "m s")
  case (Pair s1 r)
  then show ?thesis using assms by (cases r) (auto simp: run_then_def intro: rel_trans)
qed

lemma rel_map_err: "rel s (fst (m s)) \<Longrightarrow> rel s (fst (map_err g m s))"
  by (auto simp: map_err_def split: prod.split sum.split)

lemma rel_pure: "rel s (fst (return_ok x s))" "rel s (fst (fail_with e s))" "rel s (fst (of_result r s))"
  by (simp_all add: rel_refl)

end

lemma fst_run_then: "fst (run_then m f s) = (case snd (m s) of Inl _ \<Rightarrow> fst (m s) | Inr x \<Rightarrow> fst (f x (fst (m s))))"
  by (simp add: run_then_def case_prod_beta split: sum.split)

lemma snd_run_then: "snd (run_then m f s) = (case snd (m s) of Inl e \<Rightarrow> Inl e | Inr x \<Rightarrow> snd (f x (fst (m s))))"
  by (simp add: run_then_def case_prod_beta split: sum.split)

lemma fst_map_err [simp]: "fst (map_err g m s) = fst (m s)"
  by (auto simp: map_err_def split: prod.split sum.split)

lemma fst_attempt [simp]: "fst (attempt m s) = fst (m s)"
  by (auto simp: attempt_def split: prod.split sum.split)

end
