(* ===== verification/Seeding_Config.thy ===== *)
theory Seeding_Config
  imports Media_Model
begin

text \<open>
  \<^verbatim>\<open>SeedingConfig\<close> and \<^verbatim>\<open>QuietHours\<close> of \<^verbatim>\<open>sharerr-core/src/config.rs\<close>: the upload cap in force at a minute of the day.
\<close>

record quiet_hours =
  qh_start :: nat
  qh_end :: nat

record seeding_config =
  sg_upload_limit_kib :: "nat option"
  sg_ratio_limit :: "f64 option"
  sg_private :: bool
  sg_sidecars :: bool
  sg_hybrid :: bool
  sg_quiet_hours :: "quiet_hours option"
  sg_quiet_upload_limit_kib :: "nat option"

definition seeding_config_default :: seeding_config where
  "seeding_config_default =
     \<lparr>sg_upload_limit_kib = None, sg_ratio_limit = None, sg_private = True, sg_sidecars = False, sg_hybrid = False,
      sg_quiet_hours = None, sg_quiet_upload_limit_kib = None\<rparr>"

definition in_quiet_hours :: "quiet_hours \<Rightarrow> nat \<Rightarrow> bool" where
  "in_quiet_hours q minute_of_day =
     (if qh_start q < qh_end q then qh_start q \<le> minute_of_day \<and> minute_of_day < qh_end q
      else minute_of_day \<ge> qh_start q \<or> minute_of_day < qh_end q)"

definition upload_limit_at :: "seeding_config \<Rightarrow> nat \<Rightarrow> nat option" where
  "upload_limit_at sg minute_of_day =
     (case (sg_quiet_hours sg, sg_quiet_upload_limit_kib sg, sg_upload_limit_kib sg) of
        (Some window, Some quiet, Some _) \<Rightarrow>
          if in_quiet_hours window minute_of_day then Some quiet else sg_upload_limit_kib sg
      | _ \<Rightarrow> sg_upload_limit_kib sg)"

datatype quiet_hours_error = NotHours string | SameMinute string

definition clock_minutes :: "string \<Rightarrow> nat option" where
  "clock_minutes part =
     Option.bind (split_once_by (\<lambda>c. c = CHR '':'') (trim part)) (\<lambda>(hours, mins).
     Option.bind (parse_u16 hours) (\<lambda>h. Option.bind (parse_u16 mins) (\<lambda>m.
       if h < 24 \<and> m < 60 \<and> length (trim part) = 5 then Some (h * 60 + m) else None)))"

definition quiet_hours_from_str :: "string \<Rightarrow> (quiet_hours_error, quiet_hours) result" where
  "quiet_hours_from_str text =
     (case split_once_by (\<lambda>c. c = CHR ''-'') text of
        None \<Rightarrow> Inl (NotHours text)
      | Some (a, b) \<Rightarrow>
          (case (clock_minutes a, clock_minutes b) of
             (Some s, Some e) \<Rightarrow> if s = e then Inl (SameMinute text) else Inr \<lparr>qh_start = s, qh_end = e\<rparr>
           | _ \<Rightarrow> Inl (NotHours text)))"

definition show_clock :: "nat \<Rightarrow> string" where
  "show_clock minute = show_pad2 (minute div 60) @ '':'' @ show_pad2 (minute mod 60)"

definition quiet_hours_str :: "quiet_hours \<Rightarrow> string" where
  "quiet_hours_str q = show_clock (qh_start q) @ ''-'' @ show_clock (qh_end q)"

section \<open>Printing and parsing\<close>

lemma pad2_length:
  assumes "n < 100"
  shows "length (show_pad2 n) = 2"
proof -
  have "n div 10 < 10" using assms by (simp add: less_mult_imp_div_less)
  then show ?thesis using show_nat.simps [of n] show_nat.simps [of "n div 10"] by (simp add: show_pad2_def)
qed

lemma digit_graphic: "is_digit c \<Longrightarrow> is_graphic c"
  by (auto simp: is_digit_code is_graphic_def)

lemma split_once_by_append: "list_all (\<lambda>c. \<not> P c) a \<Longrightarrow> P c \<Longrightarrow> split_once_by P (a @ c # b) = Some (a, b)"
  by (induction a) auto

lemma digits_avoid: "list_all is_digit w \<Longrightarrow> \<not> is_digit c \<Longrightarrow> list_all (\<lambda>x. x \<noteq> c) w"
  by (auto simp: list_all_iff)

lemma clock_minutes_show:
  assumes "m < 1440"
  shows "clock_minutes (show_clock m) = Some m"
proof -
  have h: "m div 60 < 24" using assms by (simp add: less_mult_imp_div_less)
  have "trim (show_clock m) = show_clock m"
    using show_pad2_digits [of "m div 60"] show_pad2_digits [of "m mod 60"]
    by (intro trim_graphic) (auto simp: show_clock_def list_all_iff intro!: digit_graphic)
  moreover have "split_once_by (\<lambda>c. c = CHR '':'') (show_clock m) = Some (show_pad2 (m div 60), show_pad2 (m mod 60))"
    using digits_avoid [OF show_pad2_digits(1), of "CHR '':''"] unfolding show_clock_def
    by (simp add: split_once_by_append is_digit_code)
  moreover have "length (show_clock m) = 5" using h by (simp add: show_clock_def pad2_length)
  ultimately show ?thesis using h by (simp add: clock_minutes_def parse_pad2)
qed

text \<open>A window survives being printed into the settings file and read back.\<close>

lemma quiet_hours_roundtrip:
  assumes "qh_start q < 1440" "qh_end q < 1440" "qh_start q \<noteq> qh_end q"
  shows "quiet_hours_from_str (quiet_hours_str q) = Inr q"
proof -
  have "list_all (\<lambda>c. c \<noteq> CHR ''-'') (show_clock (qh_start q))"
    using digits_avoid [OF show_pad2_digits(1), of "CHR ''-''"] by (simp add: show_clock_def is_digit_code)
  then show ?thesis
    using assms split_once_by_append [of "\<lambda>c. c = CHR ''-''"]
    by (simp add: quiet_hours_from_str_def quiet_hours_str_def clock_minutes_show)
qed

lemma parsed_window_in_day:
  assumes "quiet_hours_from_str s = Inr q"
  shows "qh_start q < 1440 \<and> qh_end q < 1440 \<and> qh_start q \<noteq> qh_end q"
proof -
  have "clock_minutes t = Some m \<Longrightarrow> m < 1440" for t m
    by (auto simp: clock_minutes_def bind_eq_Some_conv split: if_splits)
  then show ?thesis using assms by (auto simp: quiet_hours_from_str_def split: option.splits if_splits)
qed

text \<open>The hour is read as a number, sign included.\<close>

lemma signed_hour_is_accepted: "quiet_hours_from_str ''+1:00-07:00'' = Inr \<lparr>qh_start = 60, qh_end = 420\<rparr>"
  by code_simp

text \<open>How long the window is: its minutes of the day, whether or not it spans midnight.\<close>

lemma quiet_minutes:
  assumes "qh_start q < 1440" "qh_end q < 1440"
  shows "in_quiet_hours q m \<and> m < 1440 \<longleftrightarrow>
    m < 1440 \<and> (m + 1440 - qh_start q) mod 1440 < (if qh_start q = qh_end q then 1440 else (qh_end q + 1440 - qh_start q) mod 1440)"
proof -
  have shift: "(k + 1440 - qh_start q) mod 1440 = (if qh_start q \<le> k then k - qh_start q else k + 1440 - qh_start q)"
    if "k < 1440" for k
  proof (cases "qh_start q \<le> k")
    case True
    then have "k + 1440 - qh_start q = (k - qh_start q) + 1440" by simp
    then have "(k + 1440 - qh_start q) mod 1440 = (k - qh_start q) mod 1440" by (metis mod_add_self2)
    then show ?thesis using True that by simp
  next
    case False
    then show ?thesis using that assms(1) by simp
  qed
  show ?thesis
  proof (cases "m < 1440")
    case True
    then show ?thesis using shift [OF True] shift [OF assms(2)] assms by (auto simp: in_quiet_hours_def)
  qed simp
qed

end
