(* ===== verification/Seeder.thy ===== *)
theory Seeder
  imports Client Factory Paths Items Seeding_Config
begin

text \<open>
  \<^verbatim>\<open>sharerr/src/sync/seed.rs\<close>: handing a file to the torrent client without disturbing what is already there.
  The client, the friend's web server and the failures of the file system are parameters; the cache of \<^verbatim>\<open>.torrent\<close>
  files is part of the state. A write that fails leaves of the old file what the parameter says. Paths given to the client
  are kept as their components; the code prints them, with U+FFFD for what is not UTF-8.
\<close>

section \<open>State and environment\<close>

record 'w seed_state =
  wd_client :: 'w
  wd_calls :: "client_call list"
  wd_cache :: "rpath \<Rightarrow> bytes option"
  wd_confirmed :: "(string, announce_set) hashmap"

record ('p, 'io) seed_env =
  se_sha1 :: "bytes \<Rightarrow> bytes"
  se_sha256 :: "bytes \<Rightarrow> bytes"
  se_hex :: "bytes \<Rightarrow> string"
  se_fmt :: "nat \<Rightarrow> string"
  se_url_parse :: "string \<Rightarrow> ('p, url) result"
  se_fs :: "'io fs"
  se_subtitles :: "rpath \<Rightarrow> string list"
  se_read_fails :: "rpath \<Rightarrow> 'io option"
  se_write_fails :: "rpath \<Rightarrow> ('io \<times> (bytes option \<Rightarrow> bytes option)) option"
  se_fetch :: "string \<Rightarrow> (string, nat option \<times> (string, bytes) result) result"

text \<open>The settings of a \<^verbatim>\<open>Seeder\<close>.\<close>

record seeder =
  sd_category :: string
  sd_tag :: string
  sd_skip_checking :: bool
  sd_seeding :: seeding_config
  sd_sidecar_roots :: "rpath list"
  sd_torrent_dir :: rpath

datatype ('p, 'io) seed_error =
    ClientFailed client_error
  | CacheIo rpath 'io
  | TorrentFailed "('p, 'io) terror"
  | NoExport string
  | WrongExport string string
  | NoParent rpath
  | FetchFailed string
  | TooLarge nat
  | WrongFriendTorrent string string

record friend_torrents =
  ft_matches :: "(int \<times> catalog_entry) list"
  ft_joined :: "item_origin option"

record added_torrent =
  at_private :: bool
  at_info_hash_v2 :: "string option"

datatype announce_refresh = RefreshCurrent | RefreshUpdated | NoCachedTorrent

datatype seed_outcome =
    Reused string "string list"
  | Added string bool "string option"
  | Joined string item_origin "added_torrent option"

definition outcome_info_hash :: "seed_outcome \<Rightarrow> string" where
  "outcome_info_hash o' = (case o' of Reused h _ \<Rightarrow> h | Added h _ _ \<Rightarrow> h | Joined h _ _ \<Rightarrow> h)"

abbreviation (input) MAX_FRIEND_TORRENT_BYTES :: nat where "MAX_FRIEND_TORRENT_BYTES \<equiv> 16 * 1024 * 1024"

section \<open>Asking the client, reading and writing the cache\<close>

definition query :: "('w \<Rightarrow> 'w \<times> (client_error, 'a) result) \<Rightarrow> ('w seed_state, ('p, 'io) seed_error, 'a) fallible" where
  "query f st = (case f (wd_client st) of (w, r) \<Rightarrow> map_err ClientFailed (of_result r) (st\<lparr>wd_client := w\<rparr>))"

definition command ::
    "client_call \<Rightarrow> ('w \<Rightarrow> 'w \<times> (client_error, 'a) result) \<Rightarrow> ('w seed_state, ('p, 'io) seed_error, 'a) fallible" where
  "command c f st = query f (st\<lparr>wd_calls := wd_calls st @ [c]\<rparr>)"

definition read_cached :: "('p, 'io) seed_env \<Rightarrow> rpath \<Rightarrow> ('w seed_state, ('p, 'io) seed_error, bytes option) fallible" where
  "read_cached env p st =
     (st, case se_read_fails env p of Some e \<Rightarrow> Inl (CacheIo p e) | None \<Rightarrow> Inr (wd_cache st p))"

definition write_torrent_file :: "('p, 'io) seed_env \<Rightarrow> rpath \<Rightarrow> bytes \<Rightarrow> ('w seed_state, ('p, 'io) seed_error, unit) fallible" where
  "write_torrent_file env p data st =
     (case se_write_fails env p of
        None \<Rightarrow> (st\<lparr>wd_cache := (wd_cache st)(p := Some data)\<rparr>, Inr ())
      | Some (e, left) \<Rightarrow> (st\<lparr>wd_cache := (wd_cache st)(p := left (wd_cache st p))\<rparr>, Inl (CacheIo p e)))"

definition torrent_result :: "(('p, 'io) terror, 'a) result \<Rightarrow> ('w seed_state, ('p, 'io) seed_error, 'a) fallible" where
  "torrent_result r = map_err TorrentFailed (of_result r)"

section \<open>Trackers\<close>

definition foreign_tiers :: "torrent \<Rightarrow> announce_set \<Rightarrow> string list" where
  "foreign_tiers t ann = filter (\<lambda>u. u \<notin> set (tiers ann)) (concat (announce_tiers t))"

definition upstream_torrent :: "torrent \<Rightarrow> announce_set \<Rightarrow> string list \<Rightarrow> torrent" where
  "upstream_torrent t ann upstream =
     (let ts = map (\<lambda>u. [u]) (tiers ann) @ map (\<lambda>u. [u]) upstream
      in t\<lparr>announce := Some (primary ann), announce_list := (if length ts > 1 then Some ts else None)\<rparr>)"

definition with_upstream :: "bytes \<Rightarrow> announce_set \<Rightarrow> string list \<Rightarrow> (('p, 'io) terror, bytes) result" where
  "with_upstream data ann upstream =
     (case read_from_bytes data of
        Inl e \<Rightarrow> Inl (Reparse e)
      | Inr t \<Rightarrow> Inr (torrent_encode (upstream_torrent t ann upstream)))"

section \<open>Finding a torrent that covers the file\<close>

definition matches_content_path :: "torrent_summary \<Rightarrow> rpath \<Rightarrow> bool" where
  "matches_content_path t target \<longleftrightarrow> path_components (ts_content_path t) = target"

definition could_contain :: "torrent_summary \<Rightarrow> rpath \<Rightarrow> bool" where
  "could_contain t target \<longleftrightarrow> ts_save_path t \<noteq> [] \<and> prefix (path_components (ts_save_path t)) target"

definition contains_file :: "rpath \<Rightarrow> torrent_file_entry list \<Rightarrow> rpath \<Rightarrow> bool" where
  "contains_file save_path files target \<longleftrightarrow>
     list_ex (\<lambda>f. path_join save_path (path_components (fe_name f)) = target) files"

text \<open>A torrent whose files cannot be listed is passed over.\<close>

fun search_files ::
    "'w client \<Rightarrow> torrent_summary list \<Rightarrow> rpath \<Rightarrow> ('w seed_state, ('p, 'io) seed_error, string option) fallible" where
  "search_files cl [] target st = (st, Inr None)"
| "search_files cl (t # ts) target st =
     (case query (cl_files cl (ts_hash t)) st of
        (st', Inl (e :: ('p, 'io) seed_error)) \<Rightarrow> search_files cl ts target st'
      | (st', Inr files) \<Rightarrow>
          if contains_file (path_components (ts_save_path t)) files target then (st', Inr (Some (ts_hash t)))
          else search_files cl ts target st')"

definition find_existing ::
    "'w client \<Rightarrow> torrent_summary list \<Rightarrow> rpath \<Rightarrow> ('w seed_state, ('p, 'io) seed_error, string option) fallible" where
  "find_existing cl torrents target =
     (case find (\<lambda>t. matches_content_path t target) torrents of
        Some found \<Rightarrow> return_ok (Some (ts_hash found))
      | None \<Rightarrow> search_files cl (filter (\<lambda>t. could_contain t target) torrents) target)"

section \<open>Adopting\<close>

definition file_adopted ::
    "('p, 'io) seed_env \<Rightarrow> rpath \<Rightarrow> string \<Rightarrow> string \<Rightarrow> bytes \<Rightarrow> string list \<Rightarrow>
       ('w seed_state, ('p, 'io) seed_error, string list) fallible" where
  "file_adopted env p h actual rewritten upstream =
     (if \<not> eq_ignore_ascii_case actual h then fail_with (WrongExport actual h)
      else run_then (write_torrent_file env p rewritten) (\<lambda>_. return_ok upstream))"

text \<open>Our cached copy, or the client's own; the flag tells which.\<close>

definition torrent_bytes ::
    "('p, 'io) seed_env \<Rightarrow> 'w client \<Rightarrow> rpath \<Rightarrow> string \<Rightarrow> ('w seed_state, ('p, 'io) seed_error, bool \<times> bytes) fallible" where
  "torrent_bytes env cl p h =
     run_then (read_cached env p) (\<lambda>cached.
       case cached of
         Some data \<Rightarrow> return_ok (True, data)
       | None \<Rightarrow> run_then (query (cl_export cl h)) (\<lambda>exported.
                   case exported of None \<Rightarrow> fail_with (NoExport h) | Some data \<Rightarrow> return_ok (False, data)))"

definition adopt ::
    "('p, 'io) seed_env \<Rightarrow> seeder \<Rightarrow> 'w client \<Rightarrow> string \<Rightarrow> announce_set \<Rightarrow>
       ('w seed_state, ('p, 'io) seed_error, string list) fallible" where
  "adopt env sd cl h ann =
     (let p = torrent_file_path (sd_torrent_dir sd) h; hash_of = info_hash (se_sha1 env) (se_hex env) in
      run_then (command (CallAddTrackers h (tiers ann)) (cl_add_trackers cl h (tiers ann))) (\<lambda>_.
      run_then (torrent_bytes env cl p h) (\<lambda>(from_cache, bytes).
      run_then (torrent_result (retarget_announce bytes ann)) (\<lambda>outcome.
        (let upstream = (if from_cache then []
                         else (case read_from_bytes bytes of Inl _ \<Rightarrow> [] | Inr exported \<Rightarrow> foreign_tiers exported ann))
         in case outcome of
              Current t \<Rightarrow> if from_cache then return_ok upstream else file_adopted env p h (hash_of t) bytes upstream
            | Updated _ t data \<Rightarrow> file_adopted env p h (hash_of t) data upstream)))))"

section \<open>Reusing the cache\<close>

fun sum_sizes :: "'io fs \<Rightarrow> rpath \<Rightarrow> nat \<Rightarrow> string list \<Rightarrow> ('io, nat) result" where
  "sum_sizes fs dir acc [] = Inr acc"
| "sum_sizes fs dir acc (name # names) =
     (case fs_metadata fs (path_join dir (path_components name)) of
        Inl e \<Rightarrow> Inl e
      | Inr (_, len) \<Rightarrow> sum_sizes fs dir (saturating_add_u64 acc len) names)"

definition content_size :: "'io fs \<Rightarrow> rpath \<Rightarrow> string list \<Rightarrow> ('io, nat) result" where
  "content_size fs p files =
     (if files = [] then and_then (fs_metadata fs p) (\<lambda>(_, len). Inr len)
      else sum_sizes fs (case path_parent p of None \<Rightarrow> [] | Some d \<Rightarrow> d) 0 files)"

definition cached_size_is_stale :: "'io fs \<Rightarrow> rpath \<Rightarrow> string list \<Rightarrow> nat \<Rightarrow> bool" where
  "cached_size_is_stale fs p files cached_length =
     (case content_size fs p files of Inl _ \<Rightarrow> True | Inr on_disk \<Rightarrow> on_disk \<noteq> cached_length)"

definition reuse_cached ::
    "('p, 'io) seed_env \<Rightarrow> seeder \<Rightarrow> string option \<Rightarrow> announce_set \<Rightarrow> resolved_paths \<Rightarrow> 'w seed_state \<Rightarrow>
       'w seed_state \<times> (string \<times> bytes) option" where
  "reuse_cached env sd known ann paths st =
     (case known of
        None \<Rightarrow> (st, None)
      | Some h \<Rightarrow>
          (let p = torrent_file_path (sd_torrent_dir sd) h in
           case attempt (read_cached env p :: ('w seed_state, ('p, 'io) seed_error, bytes option) fallible) st of
             (st1, Some (Some data)) \<Rightarrow>
               (case (retarget_announce data ann :: (('p, 'io) terror, retargeted) result) of
                  Inl _ \<Rightarrow> (st1, None)
                | Inr outcome \<Rightarrow>
                    (let t = retargeted_torrent outcome in
                     if cached_size_is_stale (se_fs env) (rp_sharerr paths) (file_paths t) (content_length t) then (st1, None)
                     else (case outcome of
                             Current _ \<Rightarrow> (st1, Some (h, data))
                           | Updated _ _ rewritten \<Rightarrow>
                               (fst (write_torrent_file env p rewritten st1), Some (h, rewritten)))))
           | (st1, _) \<Rightarrow> (st1, None)))"

section \<open>A friend's torrent\<close>

definition within_cap :: "nat \<Rightarrow> (('p, 'io) seed_error, unit) result" where
  "within_cap n = (if n \<le> MAX_FRIEND_TORRENT_BYTES then Inr () else Inl (TooLarge n))"

definition fetched_bytes :: "('p, 'io) seed_env \<Rightarrow> string \<Rightarrow> (('p, 'io) seed_error, bytes) result" where
  "fetched_bytes env url =
     (case se_fetch env url of
        Inl e \<Rightarrow> Inl (FetchFailed e)
      | Inr (len, body) \<Rightarrow>
          and_then (case len of None \<Rightarrow> Inr () | Some n \<Rightarrow> within_cap n) (\<lambda>_.
            (case body of
               Inl e \<Rightarrow> Inl (FetchFailed e)
             | Inr b \<Rightarrow> and_then (within_cap (length b)) (\<lambda>_. Inr b))))"

text \<open>Nothing of the friend's torrent is taken unless it describes this file under this name.\<close>

definition usable_friend_torrent ::
    "('p, 'io) seed_env \<Rightarrow> 'w client \<Rightarrow> resolved_paths \<Rightarrow> torrent \<Rightarrow> (('p, 'io) terror, bool) result" where
  "usable_friend_torrent env cl paths t =
     (if \<not> is_single_file t \<or> torrent_name t \<noteq> Option.bind (file_name (rp_qbit paths)) (\<lambda>n. if utf8_valid n then Some n else None)
      then Inr False
      else if info_hash_v2 (se_sha256 env) (se_hex env) t \<noteq> None \<and> \<not> hybrid_torrents (cl_kind cl) then Inr False
      else verify_single_file (se_sha1 env) (se_fs env) (rp_sharerr paths) t)"

definition fetch_from_friend ::
    "('p, 'io) seed_env \<Rightarrow> seeder \<Rightarrow> 'w client \<Rightarrow> resolved_paths \<Rightarrow> announce_set \<Rightarrow> int \<Rightarrow> catalog_entry \<Rightarrow>
       ('w seed_state, ('p, 'io) seed_error, (string \<times> bytes \<times> item_origin) option) fallible" where
  "fetch_from_friend env sd cl paths ann peer_id entry =
     run_then (of_result (fetched_bytes env (ce_download_url entry))) (\<lambda>bytes.
     run_then (torrent_result (case read_from_bytes bytes of Inl e \<Rightarrow> Inl (Reparse e) | Inr t \<Rightarrow> Inr t)) (\<lambda>t.
       (let h = info_hash (se_sha1 env) (se_hex env) t in
        if \<not> eq_ignore_ascii_case h (ce_info_hash entry) then fail_with (WrongFriendTorrent h (ce_info_hash entry))
        else
          run_then (torrent_result (usable_friend_torrent env cl paths t)) (\<lambda>usable.
            if \<not> usable then return_ok None
            else
              run_then (torrent_result (rewrite_announce bytes ann)) (\<lambda>cached.
              run_then (write_torrent_file env (torrent_file_path (sd_torrent_dir sd) h) cached) (\<lambda>_.
              (let upstream = foreign_tiers t ann in
               run_then (torrent_result (with_upstream bytes ann upstream)) (\<lambda>data.
                 return_ok (Some (h, data, \<lparr>io_peer_id = Some peer_id, io_upstream = upstream\<rparr>))))))))))"

fun fetch_from_friends ::
    "('p, 'io) seed_env \<Rightarrow> seeder \<Rightarrow> 'w client \<Rightarrow> resolved_paths \<Rightarrow> announce_set \<Rightarrow> (int \<times> catalog_entry) list \<Rightarrow>
       'w seed_state \<Rightarrow> 'w seed_state \<times> (string \<times> bytes \<times> item_origin) option" where
  "fetch_from_friends env sd cl paths ann [] st = (st, None)"
| "fetch_from_friends env sd cl paths ann ((peer_id, entry) # matches) st =
     (case fetch_from_friend env sd cl paths ann peer_id entry st of
        (st', Inr (Some found)) \<Rightarrow> (st', Some found)
      | (st', _) \<Rightarrow> fetch_from_friends env sd cl paths ann matches st')"

section \<open>Building\<close>

definition root_name_of :: "resolved_paths \<Rightarrow> string option" where
  "root_name_of paths =
     Option.bind (Option.bind (path_parent (rp_qbit paths)) file_name) (\<lambda>n. if utf8_valid n then Some n else None)"

definition build_torrent ::
    "('p, 'io) seed_env \<Rightarrow> seeder \<Rightarrow> 'w client \<Rightarrow> resolved_paths \<Rightarrow> announce_set \<Rightarrow> media_meta option \<Rightarrow>
       (('p, 'io) terror, built_torrent) result" where
  "build_torrent env sd cl paths ann media =
     (let p = rp_sharerr paths;
          wants_sidecars = list_ex (\<lambda>root. prefix root p) (sd_sidecar_roots sd);
          sidecars = (if wants_sidecars \<and> root_name_of paths \<noteq> None then se_subtitles env p else []);
          single = create (se_sha1 env) (se_sha256 env) (se_hex env) (se_fmt env) (se_fs env)
                     \<lparr>tq_path = p, tq_announce = ann, tq_media = media, tq_private = sg_private (sd_seeding sd),
                      tq_hybrid = (sg_hybrid (sd_seeding sd) \<and> hybrid_torrents (cl_kind cl))\<rparr>
      in case root_name_of paths of
           Some root_name \<Rightarrow>
             if sidecars \<noteq> []
             then create_with_sidecars (se_sha1 env) (se_sha256 env) (se_hex env) (se_fmt env) (se_fs env)
                    \<lparr>sq_path = p, sq_sidecars = sidecars, sq_root_name = root_name, sq_announce = ann, sq_media = media,
                     sq_private = sg_private (sd_seeding sd)\<rparr>
             else single
         | None \<Rightarrow> single)"

text \<open>Keeping a copy is best effort.\<close>

definition build ::
    "('p, 'io) seed_env \<Rightarrow> seeder \<Rightarrow> 'w client \<Rightarrow> resolved_paths \<Rightarrow> announce_set \<Rightarrow> media_meta option \<Rightarrow>
       ('w seed_state, ('p, 'io) seed_error, built_torrent) fallible" where
  "build env sd cl paths ann media =
     run_then (torrent_result (build_torrent env sd cl paths ann media)) (\<lambda>built st.
       (fst (write_torrent_file env (torrent_file_path (sd_torrent_dir sd) (bt_info_hash built)) (bt_data built) st), Inr built))"

section \<open>Seeding\<close>

definition obtain_torrent ::
    "('p, 'io) seed_env \<Rightarrow> seeder \<Rightarrow> 'w client \<Rightarrow> resolved_paths \<Rightarrow> announce_set \<Rightarrow> string option \<Rightarrow> media_meta option \<Rightarrow>
       friend_torrents \<Rightarrow> ('w seed_state, ('p, 'io) seed_error, string \<times> bytes \<times> item_origin option) fallible" where
  "obtain_torrent env sd cl paths ann known media friends st =
     (case reuse_cached env sd known ann paths st of
        (st1, Some (h, data)) \<Rightarrow>
          (case ft_joined friends of
             Some origin \<Rightarrow>
               run_then (torrent_result (with_upstream data ann (io_upstream origin)))
                 (\<lambda>data'. return_ok (h, data', Some origin)) st1
           | None \<Rightarrow> (st1, Inr (h, data, None)))
      | (st1, None) \<Rightarrow>
          (case fetch_from_friends env sd cl paths ann (ft_matches friends) st1 of
             (st2, Some (h, data, origin)) \<Rightarrow> (st2, Inr (h, data, Some origin))
           | (st2, None) \<Rightarrow>
               run_then (build env sd cl paths ann media) (\<lambda>b. return_ok (bt_info_hash b, bt_data b, None)) st2))"

definition save_path_of :: "resolved_paths \<Rightarrow> string option \<Rightarrow> (('p, 'io) seed_error, rpath) result" where
  "save_path_of paths root_folder =
     (let no_parent = NoParent (rp_qbit paths) in
      and_then (ok_or (path_parent (rp_qbit paths)) no_parent) (\<lambda>d.
        if root_folder \<noteq> None then ok_or (path_parent d) no_parent else Inr d))"

definition add_request_for :: "seeder \<Rightarrow> bytes \<Rightarrow> string \<Rightarrow> rpath \<Rightarrow> string option \<Rightarrow> add_request" where
  "add_request_for sd data h save_path root_folder =
     (add_request_new data h (torrent_file_name h) save_path)
       \<lparr>aq_category := Some (sd_category sd), aq_tags := Some (sd_tag sd), aq_skip_checking := sd_skip_checking sd,
        aq_root_folder := root_folder,
        aq_limits := \<lparr>sl_upload_limit_kib = sg_upload_limit_kib (sd_seeding sd), sl_ratio_limit = sg_ratio_limit (sd_seeding sd)\<rparr>\<rparr>"

definition root_folder_of :: "bytes \<Rightarrow> string option" where
  "root_folder_of data = Option.bind (ok (read_from_bytes data)) (\<lambda>t. if is_single_file t then None else torrent_name t)"

definition hand_over ::
    "('p, 'io) seed_env \<Rightarrow> seeder \<Rightarrow> 'w client \<Rightarrow> resolved_paths \<Rightarrow> string \<Rightarrow> bytes \<Rightarrow> item_origin option \<Rightarrow>
       ('w seed_state, ('p, 'io) seed_error, seed_outcome) fallible" where
  "hand_over env sd cl paths h data joined =
     (let parsed = ok (read_from_bytes data);
          private' = (case parsed of None \<Rightarrow> True | Some t \<Rightarrow> is_private t);
          v2 = Option.bind parsed (info_hash_v2 (se_sha256 env) (se_hex env))
      in run_then (of_result (save_path_of paths (root_folder_of data))) (\<lambda>save_path.
           (let rq = add_request_for sd data h save_path (root_folder_of data) in
            run_then (command (CallAdd rq) (cl_add cl rq)) (\<lambda>_.
              return_ok (case joined of
                           Some origin \<Rightarrow> Joined h origin (Some \<lparr>at_private = private', at_info_hash_v2 = v2\<rparr>)
                         | None \<Rightarrow> Added h private' v2)))))"

definition held_match :: "torrent_summary list \<Rightarrow> (int \<times> catalog_entry) list \<Rightarrow> (int \<times> catalog_entry) option" where
  "held_match torrents matches =
     find (\<lambda>(_, entry). list_ex (\<lambda>t. eq_ignore_ascii_case (ts_hash t) (ce_info_hash entry)) torrents) matches"

definition seed ::
    "('p, 'io) seed_env \<Rightarrow> seeder \<Rightarrow> 'w client \<Rightarrow> resolved_paths \<Rightarrow> announce_set \<Rightarrow> torrent_summary list \<Rightarrow> string option \<Rightarrow>
       media_meta option \<Rightarrow> friend_torrents \<Rightarrow> ('w seed_state, ('p, 'io) seed_error, seed_outcome) fallible" where
  "seed env sd cl paths ann torrents known media friends =
     run_then (find_existing cl torrents (rp_qbit paths)) (\<lambda>existing.
       case existing of
         Some h \<Rightarrow> run_then (adopt env sd cl h ann) (\<lambda>upstream. return_ok (Reused h upstream))
       | None \<Rightarrow>
           (case held_match torrents (ft_matches friends) of
              Some (peer_id, entry) \<Rightarrow>
                run_then (adopt env sd cl (ce_info_hash entry) ann) (\<lambda>upstream.
                  return_ok (Joined (ce_info_hash entry) \<lparr>io_peer_id = Some peer_id, io_upstream = upstream\<rparr> None))
            | None \<Rightarrow>
                run_then (obtain_torrent env sd cl paths ann known media friends) (\<lambda>(h, data, joined).
                  hand_over env sd cl paths h data joined)))"

section \<open>Keeping announce URLs current\<close>

definition is_confirmed :: "string \<Rightarrow> announce_set \<Rightarrow> 'w seed_state \<Rightarrow> bool" where
  "is_confirmed h ann st \<longleftrightarrow> map_of (wd_confirmed st) h = Some ann"

definition mark_confirmed :: "string \<Rightarrow> announce_set \<Rightarrow> 'w seed_state \<Rightarrow> 'w seed_state" where
  "mark_confirmed h ann st = st\<lparr>wd_confirmed := hm_insert h ann (wd_confirmed st)\<rparr>"

definition refresh_announce ::
    "('p, 'io) seed_env \<Rightarrow> seeder \<Rightarrow> 'w client \<Rightarrow> string \<Rightarrow> announce_set \<Rightarrow> string list \<Rightarrow>
       ('w seed_state, ('p, 'io) seed_error, announce_refresh) fallible" where
  "refresh_announce env sd cl h ann upstream st =
     (if is_confirmed h ann st then (st, Inr RefreshCurrent)
      else
        (let p = torrent_file_path (sd_torrent_dir sd) h in
         run_then (read_cached env p) (\<lambda>cached.
           case cached of
             None \<Rightarrow> return_ok NoCachedTorrent
           | Some data \<Rightarrow>
               run_then (torrent_result (retarget_announce data ann)) (\<lambda>outcome.
                 case outcome of
                   Current _ \<Rightarrow> (\<lambda>st. (mark_confirmed h ann st, Inr RefreshCurrent))
                 | Updated _ _ rewritten \<Rightarrow>
                     (let ts = tiers ann @ List.map_filter (\<lambda>u. ok (se_url_parse env u)) upstream in
                      run_then (command (CallSetTrackers h ts) (cl_set_trackers cl h ts)) (\<lambda>_.
                      run_then (write_torrent_file env p rewritten) (\<lambda>_ st.
                        (mark_confirmed h ann st, Inr RefreshUpdated)))))) st))"

definition recover_upstream ::
    "('p, 'io) seed_env \<Rightarrow> seeder \<Rightarrow> 'w client \<Rightarrow> string \<Rightarrow> announce_set \<Rightarrow>
       ('w seed_state, ('p, 'io) seed_error, string list option) fallible" where
  "recover_upstream env sd cl h ann =
     run_then (query (cl_export cl h)) (\<lambda>exported.
       case exported of
         None \<Rightarrow> return_ok None
       | Some b \<Rightarrow>
           run_then (torrent_result (case read_from_bytes b of Inl e \<Rightarrow> Inl (Reparse e) | Inr t \<Rightarrow> Inr t)) (\<lambda>t.
           run_then (read_cached env (torrent_file_path (sd_torrent_dir sd) h)) (\<lambda>cached.
             (let ours = (case Option.bind cached (\<lambda>data. ok (read_from_bytes data)) of
                            None \<Rightarrow> [] | Some c \<Rightarrow> concat (announce_tiers c))
              in return_ok (Some (filter (\<lambda>u. u \<notin> set ours) (foreign_tiers t ann)))))))"

section \<open>Example\<close>

text \<open>
  A three-byte file, a friend who lists a torrent of it, and a client that holds nothing: the setting of the witnesses below.
\<close>

definition example_torrent :: bytes where
  "example_torrent =
     ''d8:announce9:http://x/4:infod6:lengthi3e4:name1:f12:piece lengthi2e6:pieces40:'' @ replicate 40 CHR ''h'' @ ''ee''"

definition example_parsed :: torrent where
  "example_parsed = \<lparr>announce = Some ''http://x/'', announce_list = None,
     info = [(''length'', BInt 3), (''name'', BBytes ''f''), (''piece length'', BInt 2), (''pieces'', BBytes (replicate 40 CHR ''h''))], extra = []\<rparr>"

definition example_env :: "(nat, nat) seed_env" where
  "example_env =
     \<lparr>se_sha1 = (\<lambda>_. replicate 20 CHR ''h''), se_sha256 = (\<lambda>_. replicate 32 CHR ''s''), se_hex = id, se_fmt = (\<lambda>_. []),
      se_url_parse = Inr, se_fs = \<lparr>fs_metadata = (\<lambda>_. Inr (True, 3)), fs_open = (\<lambda>_. Inr [Inr ''ab'', Inr ''c''])\<rparr>,
      se_subtitles = (\<lambda>_. []), se_read_fails = (\<lambda>_. None), se_write_fails = (\<lambda>_. None),
      se_fetch = (\<lambda>_. Inr (None, Inr example_torrent))\<rparr>"

definition example_client :: "unit client" where
  "example_client =
     \<lparr>cl_kind = QBittorrent, cl_list = (\<lambda>w. (w, Inr [])), cl_files = (\<lambda>_ w. (w, Inr [])), cl_add = (\<lambda>_ w. (w, Inr ())),
      cl_remove = (\<lambda>_ w. (w, Inr ())), cl_set_trackers = (\<lambda>_ _ w. (w, Inr ())), cl_add_trackers = (\<lambda>_ _ w. (w, Inr ())),
      cl_apply_limits = (\<lambda>_ _ w. (w, Inr ())), cl_export = (\<lambda>_ w. (w, Inr None))\<rparr>"

definition example_seeder :: seeder where
  "example_seeder =
     \<lparr>sd_category = ''sharerr'', sd_tag = ''sharerr'', sd_skip_checking = True, sd_seeding = seeding_config_default,
      sd_sidecar_roots = [], sd_torrent_dir = [RootDir, Normal ''t'']\<rparr>"

definition example_entry :: catalog_entry where
  "example_entry =
     \<lparr>ce_info_hash = replicate 20 CHR ''H'', ce_spec = Movie ''f'' None,
      ce_ids = \<lparr>tvdb = None, tmdb = Some 1, tvmaze = None, imdb = None, musicbrainz = None, goodreads = None, hardcover = None, isbn = None\<rparr>,
      ce_size = 3, ce_private = False, ce_download_url = ''http://x/f''\<rparr>"

definition example_paths :: resolved_paths where
  "example_paths =
     \<lparr>rp_arr = [RootDir, Normal ''m'', Normal ''f''], rp_sharerr = [RootDir, Normal ''m'', Normal ''f''],
      rp_qbit = [RootDir, Normal ''m'', Normal ''f''], mapping_applied = False\<rparr>"

definition example_announce :: announce_set where
  "example_announce = \<lparr>tiers = [''http://us/'']\<rparr>"

definition example_state :: "unit seed_state" where
  "example_state = \<lparr>wd_client = (), wd_calls = [], wd_cache = (\<lambda>_. None), wd_confirmed = []\<rparr>"

section \<open>What is asked of the client\<close>

lemma query_keeps [simp]:
  "wd_calls (fst (query f st)) = wd_calls st" "wd_cache (fst (query f st)) = wd_cache st"
  "wd_confirmed (fst (query f st)) = wd_confirmed st"
  by (auto simp: query_def case_prod_beta)

lemma command_keeps [simp]:
  "wd_calls (fst (command c f st)) = wd_calls st @ [c]" "wd_cache (fst (command c f st)) = wd_cache st"
  "wd_confirmed (fst (command c f st)) = wd_confirmed st"
  by (simp_all add: command_def)

lemma read_cached_fst [simp]: "fst (read_cached env p st) = st"
  by (simp add: read_cached_def)

lemma torrent_result_simps [simp]:
  "fst (torrent_result r st) = st" "snd (torrent_result r st) = Inr x \<longleftrightarrow> r = Inr x"
  by (auto simp: torrent_result_def map_err_def split: sum.split)

lemma torrent_result_Inr: "torrent_result (Inr x) st = (st, Inr x)"
  by (simp add: torrent_result_def map_err_def)

lemma torrent_result_Inl: "torrent_result (Inl e) st = (st, Inl (TorrentFailed e))"
  by (simp add: torrent_result_def map_err_def)

lemma write_calls [simp]: "wd_calls (fst (write_torrent_file env p d st)) = wd_calls st"
  by (auto simp: write_torrent_file_def split: option.split)

text \<open>Steps that ask nothing of the client that would change it.\<close>

interpretation quiet: step_order "\<lambda>st st'. wd_calls st' = wd_calls st"
  by unfold_locales simp_all

lemma search_files_calls [simp]: "wd_calls (fst (search_files cl ts target st)) = wd_calls st"
proof (induction ts arbitrary: st)
  case (Cons t ts)
  have "wd_calls (fst (query (cl_files cl (ts_hash t)) st)) = wd_calls st" by simp
  then show ?case by (simp add: Cons case_prod_beta split: sum.split)
qed simp

lemma find_existing_calls [simp]: "wd_calls (fst (find_existing cl torrents target st)) = wd_calls st"
  by (simp add: find_existing_def split: option.split)

lemma reuse_cached_calls [simp]: "wd_calls (fst (reuse_cached env sd known ann paths st)) = wd_calls st"
  by (auto simp: reuse_cached_def attempt_def read_cached_def Let_def
      split: option.splits sum.splits prod.splits retargeted.splits)

lemma fetch_from_friend_calls [simp]:
  "wd_calls (fst (fetch_from_friend env sd cl paths ann peer_id entry st)) = wd_calls st"
  by (simp add: fetch_from_friend_def Let_def fst_run_then split: sum.split)

lemma fetch_from_friends_calls [simp]: "wd_calls (fst (fetch_from_friends env sd cl paths ann ms st)) = wd_calls st"
proof (induction ms arbitrary: st)
  case (Cons m ms)
  have "wd_calls (fst (fetch_from_friend env sd cl paths ann (fst m) (snd m) st)) = wd_calls st" by simp
  then show ?case by (cases m) (simp add: Cons case_prod_beta split: sum.split option.split)
qed simp

lemma build_calls [simp]: "wd_calls (fst (build env sd cl paths ann media st)) = wd_calls st"
  by (simp add: build_def fst_run_then split: sum.split)

lemma obtain_torrent_calls [simp]: "wd_calls (fst (obtain_torrent env sd cl paths ann known media friends st)) = wd_calls st"
  by (simp add: obtain_torrent_def fst_run_then case_prod_beta split: sum.split option.split)

lemma torrent_bytes_keeps [simp]:
  "wd_calls (fst (torrent_bytes env cl p h st)) = wd_calls st" "wd_cache (fst (torrent_bytes env cl p h st)) = wd_cache st"
  by (simp_all add: torrent_bytes_def fst_run_then split: sum.split option.split)

lemma adopt_calls: "wd_calls (fst (adopt env sd cl h ann st)) = wd_calls st @ [CallAddTrackers h (tiers ann)]"
  by (simp add: adopt_def file_adopted_def Let_def fst_run_then case_prod_beta split: sum.split option.split retargeted.split)

text \<open>
  What it means that the client holds the file under a torrent: the torrent's content path is the file, or the client,
  asked for the files of the torrents whose save path could contain it, one after the other, lists it there.
\<close>

definition asked_files :: "'w client \<Rightarrow> torrent_summary list \<Rightarrow> 'w \<Rightarrow> 'w" where
  "asked_files cl ts w = foldl (\<lambda>w t. fst (cl_files cl (ts_hash t) w)) w ts"

definition lists_file :: "'w client \<Rightarrow> 'w \<Rightarrow> torrent_summary \<Rightarrow> rpath \<Rightarrow> bool" where
  "lists_file cl w t target \<longleftrightarrow>
     (case snd (cl_files cl (ts_hash t) w) of
        Inl _ \<Rightarrow> False
      | Inr files \<Rightarrow> contains_file (path_components (ts_save_path t)) files target)"

definition holds_file :: "'w client \<Rightarrow> 'w \<Rightarrow> torrent_summary list \<Rightarrow> rpath \<Rightarrow> torrent_summary \<Rightarrow> bool" where
  "holds_file cl w torrents target t \<longleftrightarrow>
     t \<in> set torrents \<and>
     (matches_content_path t target \<or>
      (\<exists>before after. filter (\<lambda>t. could_contain t target) torrents = before @ t # after \<and>
         lists_file cl (asked_files cl before w) t target))"

lemma find_SomeD: "find P xs = Some x \<Longrightarrow> x \<in> set xs \<and> P x"
  by (auto simp: find_Some_iff)

lemma query_client: "wd_client (fst (query f st)) = fst (f (wd_client st))"
  by (simp add: query_def case_prod_beta)

lemma search_files_step:
  "search_files cl (t # ts) target st =
     (let st' = fst (query (cl_files cl (ts_hash t)) st :: _ \<times> (('p, 'io) seed_error, _) result) in
      if lists_file cl (wd_client st) t target then (st', Inr (Some (ts_hash t)) :: (('p, 'io) seed_error, _) result)
      else search_files cl ts target st')"
  by (auto simp: query_def lists_file_def Let_def case_prod_beta of_result_def map_err_def split: sum.split)

lemma search_files_result:
  fixes st :: "'w seed_state"
  shows "(\<exists>before t after. ts = before @ t # after \<and> lists_file cl (asked_files cl before (wd_client st)) t target \<and>
      snd (search_files cl ts target st :: _ \<times> (('p, 'io) seed_error, _) result) = Inr (Some (ts_hash t))) \<or>
    (\<forall>before t after. ts = before @ t # after \<longrightarrow> \<not> lists_file cl (asked_files cl before (wd_client st)) t target) \<and>
      snd (search_files cl ts target st :: _ \<times> (('p, 'io) seed_error, _) result) = Inr None"
proof (induction ts arbitrary: st)
  case (Cons t ts)
  let ?st = "fst (query (cl_files cl (ts_hash t)) st :: _ \<times> (('p, 'io) seed_error, _) result)"
  have ask: "asked_files cl (t # before) (wd_client st) = asked_files cl before (wd_client ?st)" for before
    by (simp add: asked_files_def query_client)
  show ?case
  proof (cases "lists_file cl (wd_client st) t target")
    case True
    then have "t # ts = [] @ t # ts" "lists_file cl (asked_files cl [] (wd_client st)) t target"
        "snd (search_files cl (t # ts) target st :: _ \<times> (('p, 'io) seed_error, _) result) = Inr (Some (ts_hash t))"
      unfolding search_files_step by (simp_all add: asked_files_def Let_def)
    then show ?thesis by blast
  next
    case False
    then have eq: "search_files cl (t # ts) target st = (search_files cl ts target ?st :: _ \<times> (('p, 'io) seed_error, _) result)"
      unfolding search_files_step by (simp add: Let_def)
    have first: "\<not> lists_file cl (asked_files cl [] (wd_client st)) t target" using False by (simp add: asked_files_def)
    from Cons.IH [of ?st] show ?thesis
    proof (elim disjE exE conjE)
      fix before u after assume u: "ts = before @ u # after" "lists_file cl (asked_files cl before (wd_client ?st)) u target"
        and res: "snd (search_files cl ts target ?st :: _ \<times> (('p, 'io) seed_error, _) result) = Inr (Some (ts_hash u))"
      have "t # ts = (t # before) @ u # after" "lists_file cl (asked_files cl (t # before) (wd_client st)) u target"
        using u by (simp_all add: ask)
      moreover have "snd (search_files cl (t # ts) target st :: _ \<times> (('p, 'io) seed_error, _) result) = Inr (Some (ts_hash u))"
        unfolding eq by (rule res)
      ultimately show ?thesis by blast
    next
      assume none: "\<forall>before u after. ts = before @ u # after \<longrightarrow> \<not> lists_file cl (asked_files cl before (wd_client ?st)) u target"
        and res: "snd (search_files cl ts target ?st :: _ \<times> (('p, 'io) seed_error, _) result) = Inr None"
      have "\<not> lists_file cl (asked_files cl before (wd_client st)) u target" if "t # ts = before @ u # after" for before u after
        using that none first ask by (cases before) auto
      then show ?thesis using res eq by simp
    qed
  qed
qed simp

lemma find_existing_result:
  fixes st :: "'w seed_state"
  shows "(\<exists>t. holds_file cl (wd_client st) torrents target t \<and>
      snd (find_existing cl torrents target st :: _ \<times> (('p, 'io) seed_error, _) result) = Inr (Some (ts_hash t))) \<or>
    (\<forall>t. \<not> holds_file cl (wd_client st) torrents target t) \<and>
      snd (find_existing cl torrents target st :: _ \<times> (('p, 'io) seed_error, _) result) = Inr None"
proof (cases "find (\<lambda>t. matches_content_path t target) torrents")
  case (Some t)
  then have "t \<in> set torrents" "matches_content_path t target" by (auto simp: find_Some_iff)
  then show ?thesis using Some by (auto simp: find_existing_def holds_file_def)
next
  case None
  let ?ts = "filter (\<lambda>t. could_contain t target) torrents"
  have "\<not> matches_content_path t target" if "t \<in> set torrents" for t using None that by (auto simp: find_None_iff)
  then have iff: "holds_file cl w torrents target t \<longleftrightarrow>
      (\<exists>before after. ?ts = before @ t # after \<and> lists_file cl (asked_files cl before w) t target)" for w t
    unfolding holds_file_def by (metis (no_types, lifting) filter_is_subset in_set_conv_decomp subsetD)
  show ?thesis
    using search_files_result [of ?ts cl st target, where 'p = 'p and 'io = 'io] None unfolding iff
    by (simp add: find_existing_def) blast
qed

lemma save_path_of_Inr:
  "save_path_of paths root = Inr d \<longleftrightarrow>
     (\<exists>dir. path_parent (rp_qbit paths) = Some dir \<and> (if root = None then d = dir else path_parent dir = Some d))"
  by (auto simp: save_path_of_def Let_def)

lemma hand_over_calls:
  "wd_calls (fst (hand_over env sd cl paths h data joined st)) = wd_calls st @
     (case (save_path_of paths (root_folder_of data) :: (('p, 'io) seed_error, rpath) result) of
        Inl _ \<Rightarrow> []
      | Inr d \<Rightarrow> [CallAdd (add_request_for sd data h d (root_folder_of data))])"
  for env :: "('p, 'io) seed_env"
  by (simp add: hand_over_def Let_def fst_run_then split: sum.split)

lemma held_match_None:
  "held_match torrents ms = None \<longleftrightarrow>
     list_all (\<lambda>(_, e). list_all (\<lambda>t. \<not> eq_ignore_ascii_case (ts_hash t) (ce_info_hash e)) torrents) ms"
  by (auto simp: held_match_def find_None_iff list_all_iff list_ex_iff)

lemma seed_calls:
  fixes env :: "('p, 'io) seed_env"
  shows "wd_calls (fst (seed env sd cl paths ann torrents known media friends st)) = wd_calls st @
     (case snd (find_existing cl torrents (rp_qbit paths) st :: _ \<times> (('p, 'io) seed_error, _) result) of
        Inl _ \<Rightarrow> []
      | Inr (Some h) \<Rightarrow> [CallAddTrackers h (tiers ann)]
      | Inr None \<Rightarrow>
          (case held_match torrents (ft_matches friends) of
             Some (_, e) \<Rightarrow> [CallAddTrackers (ce_info_hash e) (tiers ann)]
           | None \<Rightarrow>
               (case snd (obtain_torrent env sd cl paths ann known media friends
                           (fst (find_existing cl torrents (rp_qbit paths) st :: _ \<times> (('p, 'io) seed_error, _) result))) of
                  Inl _ \<Rightarrow> []
                | Inr (h, data, joined) \<Rightarrow>
                    (case (save_path_of paths (root_folder_of data) :: (('p, 'io) seed_error, rpath) result) of
                       Inl _ \<Rightarrow> []
                     | Inr d \<Rightarrow> [CallAdd (add_request_for sd data h d (root_folder_of data))]))))"
  by (simp add: seed_def fst_run_then adopt_calls hand_over_calls case_prod_beta split: sum.split option.split)

lemma root_folder_of_cases:
  "root_folder_of data =
     (case read_from_bytes data of Inl _ \<Rightarrow> None | Inr t \<Rightarrow> if is_single_file t then None else torrent_name t)"
  by (simp add: root_folder_of_def split: sum.split)


section \<open>What a build produces\<close>

text \<open>A built torrent: its data encodes a well-formed torrent of the hash it reports, announcing to us alone.\<close>

definition built_for :: "('p, 'io) seed_env \<Rightarrow> announce_set \<Rightarrow> built_torrent \<Rightarrow> bool" where
  "built_for env ann b \<longleftrightarrow>
     (\<exists>t. torrent_ok t \<and> announce t = Some (primary ann) \<and> announce_list t = tier_list ann \<and>
        bt_data b = torrent_encode t \<and> bt_info_hash b = info_hash (se_sha1 env) (se_hex env) t)"

lemma finish_built_for:
  assumes "bv_ok (BDict i) \<and> nesting (BDict i) \<le> 4 \<and> bv_ok (BDict e) \<and> nesting (BDict e) \<le> 4"
    and "map_of e ''announce'' = None" "map_of e ''announce-list'' = None" "map_of e ''info'' = None"
    and "announce_set_ok ann" "\<forall>u \<in> set (tiers ann). utf8_valid u"
  shows "built_for env ann (finish (se_sha1 env) (se_sha256 env) (se_hex env) fmt i e ann media sz)"
proof -
  let ?x = "case Option.bind media (describe fmt) of None \<Rightarrow> e | Some c \<Rightarrow> bt_insert ''comment'' (BBytes c) e"
  let ?t = "\<lparr>announce = Some (primary ann), announce_list = tier_list ann, info = i, extra = ?x\<rparr>"
  have "bv_ok (BDict ?x)" "nesting (BDict ?x) \<le> MAX_DEPTH"
    using assms(1) dict_insert_ok [of e "BBytes c" "''comment''" for c] dict_insert_nesting2 [of e 32 "BBytes c" "''comment''" for c]
    by (auto simp del: bv_ok.simps(4) nesting.simps(4) split: option.split)
  moreover have "map_of ?x ''announce'' = None" "map_of ?x ''announce-list'' = None" "map_of ?x ''info'' = None"
    using assms(2-4) by (auto split: option.split)
  moreover have "utf8_valid (primary ann)" using assms(5,6) by (simp add: primary_def announce_set_ok_def)
  moreover have "\<forall>ts \<in> set_option (tier_list ann). \<forall>tier \<in> set ts. \<forall>u \<in> set tier. utf8_valid u"
    using assms(6) by (auto simp: tier_list_def split: if_splits)
  ultimately have "torrent_ok ?t" using assms(1) unfolding torrent_ok_def by (simp del: bv_ok.simps nesting.simps)
  then show ?thesis unfolding built_for_def by (intro exI [of _ ?t]) (simp add: finish_def Let_def)
qed

lemma create_built_for:
  assumes "create (se_sha1 env) (se_sha256 env) (se_hex env) fmt fs q = (Inr b :: (('p, 'io) terror, built_torrent) result)"
    and "announce_set_ok (tq_announce q)" "\<forall>u \<in> set (tiers (tq_announce q)). utf8_valid u"
  shows "built_for env (tq_announce q) b"
proof -
  obtain sz name pcs v2 where b: "(case built_info name sz pcs (tq_private q) v2 of (i, e) \<Rightarrow>
      Inr (finish (se_sha1 env) (se_sha256 env) (se_hex env) fmt i e (tq_announce q) (tq_media q) sz)) =
      (Inr b :: (('p, 'io) terror, built_torrent) result)"
    using assms(1) unfolding create_def built_info_def Let_def and_then_eq_Inr by (auto simp del: bt_insert.simps)
  obtain i e where ie: "built_info name sz pcs (tq_private q) v2 = (i, e)"
      "b = finish (se_sha1 env) (se_sha256 env) (se_hex env) fmt i e (tq_announce q) (tq_media q) sz"
    using b by (cases "built_info name sz pcs (tq_private q) v2") simp
  show ?thesis unfolding ie(2)
    by (rule finish_built_for [OF built_info_ok [OF ie(1)] built_info_lookups(7-9) [OF ie(1)] assms(2,3)])
qed

lemma file_entry_ok: "bv_ok (file_entry name len)" "nesting (file_entry name len) < 3"
  unfolding file_entry_def
  by (simp_all add: dict_inserts dict_insert_nesting_lt empty_dict del: bv_ok.simps(4) nesting.simps(4) bt_insert.simps)

lemma sidecar_entries_ok:
  "sidecar_entries fs ns sz files = Inr (sz', files') \<Longrightarrow> \<forall>f \<in> set files. bv_ok f \<and> nesting f < 3 \<Longrightarrow>
   \<forall>f \<in> set files'. bv_ok f \<and> nesting f < 3"
  by (induction fs ns sz files rule: sidecar_entries.induct) (auto simp: file_entry_ok split: sum.splits)

lemma create_with_sidecars_built_for:
  assumes "create_with_sidecars (se_sha1 env) (se_sha256 env) (se_hex env) fmt fs q = (Inr b :: (('p, 'io) terror, built_torrent) result)"
    and "announce_set_ok (sq_announce q)" "\<forall>u \<in> set (tiers (sq_announce q)). utf8_valid u"
  shows "built_for env (sq_announce q) b"
proof -
  obtain sz0 name ns sz files pcs n where files: "sidecar_entries fs ns sz0 [file_entry name sz0] = (Inr (sz, files) :: (('p, 'io) terror, _) result)"
      and b: "b = finish (se_sha1 env) (se_sha256 env) (se_hex env) fmt
        (bt_insert ''files'' (BList files) (base_info (sq_root_name q) n pcs (sq_private q))) [] (sq_announce q) (sq_media q) sz"
    using assms(1) by (auto simp: create_with_sidecars_def Let_def simp del: bt_insert.simps)
  have "\<forall>f \<in> set files. bv_ok f \<and> nesting f < 3" by (rule sidecar_entries_ok [OF files]) (simp add: file_entry_ok)
  then have "bv_ok (BList files)" "nesting (BList files) \<le> 3"
    by (simp_all add: list_all_iff Suc_le_eq nesting_list_le del: nesting.simps)
  then show ?thesis unfolding b
    using base_info_ok [of "sq_root_name q" n pcs "sq_private q"] assms(2,3)
    by (intro finish_built_for conjI dict_insert_ok dict_insert_nesting2; simp)
qed

section \<open>What is in the cache\<close>

text \<open>What \<^verbatim>\<open>hex::encode\<close> produces: letters and digits, so a hash names a file of its own.\<close>

definition plain_hash :: "string \<Rightarrow> bool" where
  "plain_hash h \<longleftrightarrow> h \<noteq> [] \<and> list_all is_ascii_alphanumeric h"

lemma alphanumeric_lower [simp]: "is_ascii_alphanumeric (ascii_lower c) = is_ascii_alphanumeric c"
  by (auto simp: is_ascii_alphanumeric_def ascii_lower_def is_ascii_lower_def is_ascii_upper_def is_digit_code)

lemma plain_hash_ignore_case:
  assumes "eq_ignore_ascii_case a h" "plain_hash a"
  shows "plain_hash h"
proof -
  have lower: "plain_hash (to_ascii_lowercase s) = plain_hash s" for s
    by (simp add: plain_hash_def to_ascii_lowercase_def list_all_iff)
  show ?thesis using assms lower [of a] lower [of h] by (simp add: eq_ignore_ascii_case_def)
qed

lemma torrent_file_path_plain:
  assumes "plain_hash h"
  shows "torrent_file_path dir h = dir @ [Normal (h @ ''.torrent'')]"
proof -
  have "CHR ''/'' \<notin> set h" "take 1 (h @ ''.torrent'') \<noteq> ''/''"
    using assms by (cases h; auto simp: plain_hash_def list_all_iff is_ascii_alphanumeric_def is_digit_code
        is_ascii_lower_def is_ascii_upper_def)+
  then show ?thesis
    using assms by (simp add: torrent_file_path_def torrent_file_name_def path_components_def split_on_single seg_comp_def
        path_join_def is_absolute_def Let_def plain_hash_def append_eq_Cons_conv)
qed

lemma torrent_file_path_inj:
  "plain_hash h \<Longrightarrow> plain_hash h' \<Longrightarrow> torrent_file_path dir h = torrent_file_path dir h' \<longleftrightarrow> h = h'"
  by (simp add: torrent_file_path_plain)

text \<open>
  A file of the cache is genuine when it does not parse, or parses to a torrent of the hash it is filed under; it
  announces here when its main announce URL is our primary one.
\<close>

definition genuine_file :: "('p, 'io) seed_env \<Rightarrow> rpath \<Rightarrow> rpath \<Rightarrow> bytes \<Rightarrow> bool" where
  "genuine_file env dir p data \<longleftrightarrow>
     (\<forall>h t. plain_hash h \<and> p = torrent_file_path dir h \<and> length data \<le> usize_max \<and> read_from_bytes data = Inr t \<longrightarrow>
        eq_ignore_ascii_case (info_hash (se_sha1 env) (se_hex env) t) h)"

definition cache_genuine :: "('p, 'io) seed_env \<Rightarrow> rpath \<Rightarrow> 'w seed_state \<Rightarrow> bool" where
  "cache_genuine env dir st \<longleftrightarrow> (\<forall>p data. wd_cache st p = Some data \<longrightarrow> genuine_file env dir p data)"

definition announces_here :: "announce_set \<Rightarrow> bytes \<Rightarrow> bool" where
  "announces_here ann data \<longleftrightarrow>
     length data > usize_max \<or> (\<exists>t. read_from_bytes data = Inr t \<and> announce t = Some (primary ann))"

definition filed :: "('p, 'io) seed_env \<Rightarrow> rpath \<Rightarrow> announce_set \<Rightarrow> 'w seed_state \<Rightarrow> 'w seed_state \<Rightarrow> bool" where
  "filed env dir ann st st' \<longleftrightarrow>
     cache_genuine env dir st \<longrightarrow>
       cache_genuine env dir st' \<and>
       (\<forall>p. wd_cache st' p = wd_cache st p \<or> se_write_fails env p \<noteq> None \<or>
          (\<exists>data. wd_cache st' p = Some data \<and> announces_here ann data))"

interpretation filing: step_order "filed env dir ann" for env dir ann
proof
  show "filed env dir ann s s" for s by (simp add: filed_def)
  show "filed env dir ann s s' \<Longrightarrow> filed env dir ann s' s'' \<Longrightarrow> filed env dir ann s s''" for s s' s''
    unfolding filed_def by metis
qed

text \<open>What is assumed of the world around the cache.\<close>

definition sound_world :: "('p, 'io) seed_env \<Rightarrow> 'w client \<Rightarrow> announce_set \<Rightarrow> bool" where
  "sound_world env cl ann \<longleftrightarrow>
     (\<forall>b. plain_hash (se_hex env (se_sha1 env b))) \<and>
     announce_set_ok ann \<and> (\<forall>u \<in> set (tiers ann). utf8_valid u) \<and>
     (\<forall>p e left old data. se_write_fails env p = Some (e, left) \<and> left old = Some data \<longrightarrow>
        left old = old \<or> (\<exists>err. read_from_bytes data = Inl err)) \<and>
     (\<forall>h w data. snd (cl_export cl h w) = Inr (Some data) \<longrightarrow> length data \<le> usize_max)"

lemma sound_worldD:
  assumes "sound_world env cl ann"
  shows "plain_hash (info_hash (se_sha1 env) (se_hex env) t)" "announce_set_ok ann" "u \<in> set (tiers ann) \<Longrightarrow> utf8_valid u"
    "se_write_fails env p = Some (e, left) \<Longrightarrow> left old = Some data \<Longrightarrow> left old = old \<or> (\<exists>err. read_from_bytes data = Inl err)"
    "snd (cl_export cl h w) = Inr (Some data) \<Longrightarrow> length data \<le> usize_max"
  using assms unfolding sound_world_def info_hash_def by blast+

lemma filed_same: "wd_cache st' = wd_cache st \<Longrightarrow> filed env dir ann st st'"
  by (simp add: filed_def cache_genuine_def)

lemma filed_write:
  assumes "sound_world env cl ann" "genuine_file env dir p data" "announces_here ann data"
  shows "filed env dir ann st (fst (write_torrent_file env p data st))"
proof (cases "se_write_fails env p")
  case None
  then show ?thesis using assms(2,3) by (auto simp: filed_def cache_genuine_def write_torrent_file_def)
next
  case (Some f)
  obtain e left where f: "f = (e, left)" by (cases f)
  have "genuine_file env dir p d" if lft: "left (wd_cache st p) = Some d" "cache_genuine env dir st" for d
  proof -
    consider "wd_cache st p = Some d" | err where "read_from_bytes d = Inl err"
      using sound_worldD(4) [OF assms(1), of p e left, OF _ lft(1)] lft(1) Some f by auto
    then show ?thesis using lft(2) by cases (auto simp: genuine_file_def cache_genuine_def)
  qed
  then show ?thesis using Some f by (auto simp: filed_def cache_genuine_def write_torrent_file_def)
qed

lemma encoded_file:
  assumes "torrent_ok t" "\<And>h. plain_hash h \<Longrightarrow> p = torrent_file_path dir h \<Longrightarrow> eq_ignore_ascii_case (info_hash (se_sha1 env) (se_hex env) t) h"
  shows "genuine_file env dir p (torrent_encode t)" "announce t = Some (primary ann) \<Longrightarrow> announces_here ann (torrent_encode t)"
  using assms read_torrent_encode [OF assms(1)] by (auto simp: genuine_file_def announces_here_def not_le)

text \<open>Rewriting the announce URLs of a readable torrent keeps it the torrent it was.\<close>

lemma rewritten_ok:
  assumes "sound_world env cl ann" "read_from_bytes data = Inr t" "length data \<le> usize_max"
  shows "torrent_ok (t\<lparr>announce := Some (primary ann), announce_list := tier_list ann\<rparr>)"
  using read_from_bytes_Inr [OF assms(2,3)] sound_worldD(2,3) [OF assms(1)] by (auto intro: retarget_ok)

lemma retarget_Updated:
  "retarget_announce data ann = (Inr (Updated prev t' data') :: (('p, 'io) terror, retargeted) result) \<longleftrightarrow>
     (\<exists>t. read_from_bytes data = Inr t \<and> announce t = prev \<and> prev \<noteq> Some (primary ann) \<and>
        t' = t\<lparr>announce := Some (primary ann), announce_list := tier_list ann\<rparr> \<and> data' = torrent_encode t')"
  by (auto simp: retarget_announce_def Let_def split: sum.splits)

lemma retarget_Current:
  "retarget_announce data ann = (Inr (Current t) :: (('p, 'io) terror, retargeted) result) \<longleftrightarrow>
     read_from_bytes data = Inr t \<and> announce t = Some (primary ann)"
  by (auto simp: retarget_announce_def Let_def split: sum.splits)

lemma info_hash_rewritten [simp]: "info_hash sha1 hex (t\<lparr>announce := a, announce_list := l\<rparr>) = info_hash sha1 hex t"
  by (simp add: info_hash_def)

lemma filed_adopted:
  assumes w: "sound_world env cl ann" and t: "read_from_bytes bytes = Inr t" "length bytes \<le> usize_max"
    and out: "actual = info_hash (se_sha1 env) (se_hex env) t"
    and d: "d = bytes \<and> announce t = Some (primary ann) \<or>
            d = torrent_encode (t\<lparr>announce := Some (primary ann), announce_list := tier_list ann\<rparr>)"
  shows "filed env dir ann st (fst (file_adopted env (torrent_file_path dir h) h actual d upstream st))"
proof (cases "eq_ignore_ascii_case actual h")
  case True
  then have h: "plain_hash h" using plain_hash_ignore_case sound_worldD(1) [OF w] out by blast
  have mine: "eq_ignore_ascii_case (info_hash (se_sha1 env) (se_hex env) t) h'"
    if "plain_hash h'" "torrent_file_path dir h = torrent_file_path dir h'" for h'
    using that h True out torrent_file_path_inj by blast
  have "genuine_file env dir (torrent_file_path dir h) d \<and> announces_here ann d"
  proof (cases "d = bytes \<and> announce t = Some (primary ann)")
    case True
    then show ?thesis using t mine by (auto simp: genuine_file_def announces_here_def)
  next
    case False
    let ?t = "t\<lparr>announce := Some (primary ann), announce_list := tier_list ann\<rparr>"
    have "d = torrent_encode ?t" using False d by blast
    then show ?thesis
      using encoded_file [OF rewritten_ok [OF w t], of "torrent_file_path dir h" dir env] mine by simp
  qed
  then show ?thesis using True filed_write [OF w]
    by (auto simp: file_adopted_def fst_run_then filing.rel_refl split: sum.split)
qed (simp add: file_adopted_def filing.rel_refl)

text \<open>What the process holds in memory fits in it.\<close>

definition cache_fits :: "'w seed_state \<Rightarrow> bool" where
  "cache_fits st \<longleftrightarrow> (\<forall>p data. wd_cache st p = Some data \<longrightarrow> length data \<le> usize_max)"

lemma query_Inr: "snd (query f st) = Inr x \<longleftrightarrow> snd (f (wd_client st)) = Inr x"
  by (auto simp: query_def map_err_def case_prod_beta split: sum.split)

lemma read_cached_Inr: "snd (read_cached env p st) = Inr x \<Longrightarrow> x = wd_cache st p"
  by (auto simp: read_cached_def split: option.splits)

lemma torrent_bytes_Inr:
  assumes "sound_world env cl ann" "cache_fits st" "snd (torrent_bytes env cl p h st) = Inr (from_cache, bytes)"
  shows "length bytes \<le> usize_max"
proof -
  have "wd_cache st p = Some bytes \<or> (\<exists>w. snd (cl_export cl h w) = Inr (Some bytes))"
    using assms(3) read_cached_Inr [of env p st]
    by (auto simp: torrent_bytes_def snd_run_then query_Inr split: sum.splits option.splits)
  then show ?thesis using assms(2) sound_worldD(5) [OF assms(1)] unfolding cache_fits_def by blast
qed

lemma adopted_outcome_filed:
  fixes env :: "('p, 'io) seed_env"
  assumes w: "sound_world env cl ann" and b: "length bytes \<le> usize_max"
    and o': "retarget_announce bytes ann = (Inr outcome :: (('p, 'io) terror, retargeted) result)"
  shows "filed env dir ann st (fst ((case outcome of
        Current t \<Rightarrow> if from_cache then return_ok upstream
                     else file_adopted env (torrent_file_path dir h) h (info_hash (se_sha1 env) (se_hex env) t) bytes upstream
      | Updated _ t data \<Rightarrow>
          file_adopted env (torrent_file_path dir h) h (info_hash (se_sha1 env) (se_hex env) t) data upstream) st))"
proof (cases outcome)
  case (Current t)
  then have "read_from_bytes bytes = Inr t" "announce t = Some (primary ann)" using o' retarget_Current by blast+
  then have "filed env dir ann st
      (fst (file_adopted env (torrent_file_path dir h) h (info_hash (se_sha1 env) (se_hex env) t) bytes upstream st))"
    by (intro filed_adopted [OF w _ b refl]) auto
  then show ?thesis using Current by (simp add: filing.rel_refl)
next
  case (Updated prev t' data)
  then obtain t where "read_from_bytes bytes = Inr t" "t' = t\<lparr>announce := Some (primary ann), announce_list := tier_list ann\<rparr>"
      "data = torrent_encode t'" using o' retarget_Updated by blast
  then have "filed env dir ann st
      (fst (file_adopted env (torrent_file_path dir h) h (info_hash (se_sha1 env) (se_hex env) t) data upstream st))"
    by (intro filed_adopted [OF w _ b refl]) auto
  then show ?thesis using Updated \<open>t' = _\<close> by simp
qed

lemma adopt_filed:
  fixes env :: "('p, 'io) seed_env"
  assumes w: "sound_world env cl ann" and fits: "cache_fits st"
  shows "filed env (sd_torrent_dir sd) ann st (fst (adopt env sd cl h ann st))"
proof -
  let ?p = "torrent_file_path (sd_torrent_dir sd) h"
  let ?st = "fst (command (CallAddTrackers h (tiers ann)) (cl_add_trackers cl h (tiers ann)) st :: _ \<times> (('p, 'io) seed_error, unit) result)"
  have fits': "cache_fits ?st" using fits by (simp add: cache_fits_def)
  show ?thesis unfolding adopt_def Let_def
  proof (rule filing.rel_run_then, simp add: filed_same, rule filing.rel_run_then, simp add: filed_same,
      unfold case_prod_beta, rule filing.rel_run_then, simp add: filing.rel_refl)
    fix x fb outcome
    let ?st' = "fst (torrent_bytes env cl ?p h ?st)"
    assume "snd (torrent_bytes env cl ?p h ?st) = Inr fb"
    then have fb: "length (snd fb) \<le> usize_max" using torrent_bytes_Inr [OF w fits', of ?p h "fst fb" "snd fb"] by simp
    assume "snd (torrent_result (retarget_announce (snd fb) ann) ?st') = (Inr outcome :: (('p, 'io) seed_error, retargeted) result)"
    then have "retarget_announce (snd fb) ann = (Inr outcome :: (('p, 'io) terror, retargeted) result)" by simp
    note filed' = adopted_outcome_filed [OF w fb this]
    show "filed env (sd_torrent_dir sd) ann (fst (torrent_result (retarget_announce (snd fb) ann) ?st' :: _ \<times> (('p, 'io) seed_error, _) result))
      (fst ((case outcome of
          Current t \<Rightarrow> if fst fb then return_ok (if fst fb then [] else case read_from_bytes (snd fb) of Inl _ \<Rightarrow> [] | Inr exported \<Rightarrow> foreign_tiers exported ann)
                       else file_adopted env ?p h (info_hash (se_sha1 env) (se_hex env) t) (snd fb)
                              (if fst fb then [] else case read_from_bytes (snd fb) of Inl _ \<Rightarrow> [] | Inr exported \<Rightarrow> foreign_tiers exported ann)
        | Updated _ t data \<Rightarrow> file_adopted env ?p h (info_hash (se_sha1 env) (se_hex env) t) data
                              (if fst fb then [] else case read_from_bytes (snd fb) of Inl _ \<Rightarrow> [] | Inr exported \<Rightarrow> foreign_tiers exported ann))
        (fst (torrent_result (retarget_announce (snd fb) ann) ?st' :: _ \<times> (('p, 'io) seed_error, _) result))))"
      by (rule filed')
  qed
qed

lemma reuse_cached_filed:
  fixes env :: "('p, 'io) seed_env"
  assumes w: "sound_world env cl ann" and fits: "cache_fits st"
  shows "filed env (sd_torrent_dir sd) ann st (fst (reuse_cached env sd known ann paths st))"
proof (cases "fst (reuse_cached env sd known ann paths st) = st")
  case True
  then show ?thesis by (simp add: filing.rel_refl)
next
  case False
  then obtain h data prev t' where d: "wd_cache st (torrent_file_path (sd_torrent_dir sd) h) = Some data"
      "retarget_announce data ann = (Inr (Updated prev t' (torrent_encode t')) :: (('p, 'io) terror, retargeted) result)"
      "fst (reuse_cached env sd known ann paths st) =
         fst (write_torrent_file env (torrent_file_path (sd_torrent_dir sd) h) (torrent_encode t') st)"
    by (auto simp: reuse_cached_def attempt_def read_cached_def Let_def retarget_Updated
        split: option.splits sum.splits prod.splits retargeted.splits if_splits)
  then obtain t where t: "read_from_bytes data = Inr t" "t' = t\<lparr>announce := Some (primary ann), announce_list := tier_list ann\<rparr>"
    using retarget_Updated by blast
  have len: "length data \<le> usize_max" using fits d(1) unfolding cache_fits_def by blast
  let ?p = "torrent_file_path (sd_torrent_dir sd) h"
  show ?thesis
  proof (cases "cache_genuine env (sd_torrent_dir sd) st")
    case True
    then have "eq_ignore_ascii_case (info_hash (se_sha1 env) (se_hex env) t) h'"
      if "plain_hash h'" "?p = torrent_file_path (sd_torrent_dir sd) h'" for h'
      using d(1) t(1) len that unfolding cache_genuine_def genuine_file_def by metis
    then have "genuine_file env (sd_torrent_dir sd) ?p (torrent_encode t') \<and> announces_here ann (torrent_encode t')"
      unfolding t(2) using encoded_file [OF rewritten_ok [OF w t(1) len], of ?p "sd_torrent_dir sd" env] by simp
    then show ?thesis unfolding d(3) by (intro filed_write [OF w]) auto
  qed (simp add: filed_def)
qed

text \<open>What is taken from a friend, exactly.\<close>

lemma fetch_from_friend_Inr:
  assumes "snd (fetch_from_friend env sd cl paths ann peer_id entry st) = Inr (Some (h, data, origin))"
  obtains bytes t where "fetched_bytes env (ce_download_url entry) = Inr bytes" "read_from_bytes bytes = Inr t"
    "h = info_hash (se_sha1 env) (se_hex env) t" "eq_ignore_ascii_case h (ce_info_hash entry)"
    "usable_friend_torrent env cl paths t = Inr True" "origin = \<lparr>io_peer_id = Some peer_id, io_upstream = foreign_tiers t ann\<rparr>"
    "data = torrent_encode (upstream_torrent t ann (foreign_tiers t ann))"
  using assms
  by (auto simp: fetch_from_friend_def Let_def snd_run_then with_upstream_def split: sum.splits if_splits)

lemma fetch_from_friend_state:
  fixes env :: "('p, 'io) seed_env"
  shows "fst (fetch_from_friend env sd cl paths ann peer_id entry st) = st \<or>
    (\<exists>bytes t. fetched_bytes env (ce_download_url entry) = Inr bytes \<and> read_from_bytes bytes = Inr t \<and>
       fst (fetch_from_friend env sd cl paths ann peer_id entry st) =
         fst (write_torrent_file env (torrent_file_path (sd_torrent_dir sd) (info_hash (se_sha1 env) (se_hex env) t))
           (torrent_encode (t\<lparr>announce := Some (primary ann), announce_list := tier_list ann\<rparr>)) st))"
proof (cases "fetched_bytes env (ce_download_url entry)")
  case (Inr bytes)
  show ?thesis
  proof (cases "read_from_bytes bytes")
    case (Inr t)
    then show ?thesis using \<open>fetched_bytes env (ce_download_url entry) = Inr bytes\<close>
      by (simp add: fetch_from_friend_def Let_def fst_run_then snd_run_then rewrite_announce_def torrent_result_Inr split: sum.split)
  qed (simp add: fetch_from_friend_def Let_def fst_run_then Inr torrent_result_Inl)
qed (simp add: fetch_from_friend_def Let_def fst_run_then)

lemma fetch_from_friend_filed:
  fixes env :: "('p, 'io) seed_env"
  assumes w: "sound_world env cl ann"
  shows "filed env (sd_torrent_dir sd) ann st (fst (fetch_from_friend env sd cl paths ann peer_id entry st))"
proof (cases "fst (fetch_from_friend env sd cl paths ann peer_id entry st) = st")
  case True
  then show ?thesis by (simp add: filing.rel_refl)
next
  case False
  then obtain bytes t where t: "fetched_bytes env (ce_download_url entry) = Inr bytes" "read_from_bytes bytes = Inr t"
      "fst (fetch_from_friend env sd cl paths ann peer_id entry st) =
         fst (write_torrent_file env (torrent_file_path (sd_torrent_dir sd) (info_hash (se_sha1 env) (se_hex env) t))
           (torrent_encode (t\<lparr>announce := Some (primary ann), announce_list := tier_list ann\<rparr>)) st)"
    using fetch_from_friend_state [of env sd cl paths ann peer_id entry st] by blast
  have len: "length bytes \<le> usize_max" using t(1) by (auto simp: fetched_bytes_def within_cap_def and_then_eq_Inr split: sum.splits option.splits if_splits)
  let ?p = "torrent_file_path (sd_torrent_dir sd) (info_hash (se_sha1 env) (se_hex env) t)"
  have "info_hash (se_sha1 env) (se_hex env) t = h'" if "plain_hash h'" "?p = torrent_file_path (sd_torrent_dir sd) h'" for h'
    using that sound_worldD(1) [OF w] torrent_file_path_inj by blast
  then show ?thesis unfolding t(3)
    using encoded_file [OF rewritten_ok [OF w t(2) len], of ?p "sd_torrent_dir sd" env]
    by (intro filed_write [OF w]) (auto simp: eq_ignore_ascii_case_def)
qed

lemma fetch_from_friends_filed:
  assumes w: "sound_world env cl ann"
  shows "filed env (sd_torrent_dir sd) ann st (fst (fetch_from_friends env sd cl paths ann ms st))"
proof (induction ms arbitrary: st)
  case (Cons m ms)
  obtain peer_id entry where m: "m = (peer_id, entry)" by (cases m)
  show ?case unfolding m
    using fetch_from_friend_filed [OF w, of sd st paths peer_id entry] Cons
    by (auto simp: case_prod_beta split: sum.split option.split intro: filing.rel_trans)
qed (simp add: filing.rel_refl)

lemma build_torrent_built_for:
  fixes env :: "('p, 'io) seed_env"
  assumes "sound_world env cl' ann" "build_torrent env sd cl paths ann media = Inr b"
  shows "built_for env ann b"
proof -
  note ann = sound_worldD(2,3) [OF assms(1)]
  have single: "built_for env ann b"
    if "create (se_sha1 env) (se_sha256 env) (se_hex env) (se_fmt env) (se_fs env) q =
        (Inr b :: (('p, 'io) terror, built_torrent) result)" "tq_announce q = ann" for q
    using create_built_for [OF that(1)] ann that(2) by auto
  have several: "built_for env ann b"
    if "create_with_sidecars (se_sha1 env) (se_sha256 env) (se_hex env) (se_fmt env) (se_fs env) q =
        (Inr b :: (('p, 'io) terror, built_torrent) result)" "sq_announce q = ann" for q
    using create_with_sidecars_built_for [OF that(1)] ann that(2) by auto
  show ?thesis using assms(2) single several
    by (simp add: build_torrent_def Let_def split: option.splits if_splits)
qed

lemma build_filed:
  assumes w: "sound_world env cl ann"
  shows "filed env (sd_torrent_dir sd) ann st (fst (build env sd cl paths ann media st))"
proof (cases "build_torrent env sd cl paths ann media")
  case (Inr b)
  then obtain t where t: "torrent_ok t" "announce t = Some (primary ann)" "bt_data b = torrent_encode t"
      "bt_info_hash b = info_hash (se_sha1 env) (se_hex env) t"
    using build_torrent_built_for [OF w] unfolding built_for_def by blast
  let ?p = "torrent_file_path (sd_torrent_dir sd) (bt_info_hash b)"
  have "info_hash (se_sha1 env) (se_hex env) t = h'" if "plain_hash h'" "?p = torrent_file_path (sd_torrent_dir sd) h'" for h'
    using that sound_worldD(1) [OF w] torrent_file_path_inj t(4) by metis
  then show ?thesis using Inr encoded_file [OF t(1), of ?p "sd_torrent_dir sd" env] t(2)
    by (auto simp: build_def fst_run_then torrent_result_Inr t(3) eq_ignore_ascii_case_def intro!: filed_write [OF w])
qed (simp add: build_def fst_run_then torrent_result_Inl filing.rel_refl)

lemma obtain_torrent_filed:
  assumes w: "sound_world env cl ann" and fits: "cache_fits st"
  shows "filed env (sd_torrent_dir sd) ann st (fst (obtain_torrent env sd cl paths ann known media friends st))"
proof -
  let ?st1 = "fst (reuse_cached env sd known ann paths st)"
  let ?st2 = "fst (fetch_from_friends env sd cl paths ann (ft_matches friends) ?st1)"
  have "filed env (sd_torrent_dir sd) ann st ?st1" by (rule reuse_cached_filed [OF w fits])
  moreover have "filed env (sd_torrent_dir sd) ann ?st1 ?st2" by (rule fetch_from_friends_filed [OF w])
  moreover have "filed env (sd_torrent_dir sd) ann ?st2
      (fst (run_then (build env sd cl paths ann media) (\<lambda>b. return_ok (bt_info_hash b, bt_data b, None)) ?st2))"
    by (rule filing.rel_run_then) (simp_all add: build_filed [OF w] filing.rel_refl)
  ultimately show ?thesis
    by (auto simp: obtain_torrent_def case_prod_beta fst_run_then split: option.split sum.split intro: filing.rel_trans)
qed

lemma search_files_cache [simp]: "wd_cache (fst (search_files cl ts target st)) = wd_cache st"
proof (induction ts arbitrary: st)
  case (Cons t ts)
  have "wd_cache (fst (query (cl_files cl (ts_hash t)) st)) = wd_cache st" by simp
  then show ?case by (simp add: Cons case_prod_beta split: sum.split)
qed simp

lemma find_existing_cache [simp]: "wd_cache (fst (find_existing cl torrents target st)) = wd_cache st"
  by (simp add: find_existing_def split: option.split)

lemma hand_over_cache [simp]: "wd_cache (fst (hand_over env sd cl paths h data joined st)) = wd_cache st"
  by (simp add: hand_over_def Let_def fst_run_then split: sum.split)

lemma seed_filed:
  fixes env :: "('p, 'io) seed_env"
  assumes w: "sound_world env cl ann" and fits: "cache_fits st"
  shows "filed env (sd_torrent_dir sd) ann st (fst (seed env sd cl paths ann torrents known media friends st))"
  unfolding seed_def
proof (rule filing.rel_run_then)
  let ?st = "fst (find_existing cl torrents (rp_qbit paths) st :: _ \<times> (('p, 'io) seed_error, string option) result)"
  show "filed env (sd_torrent_dir sd) ann st ?st" by (simp add: filed_same)
  have fits': "cache_fits ?st" using fits by (simp add: cache_fits_def)
  have adopted: "filed env (sd_torrent_dir sd) ann ?st (fst (run_then (adopt env sd cl h ann) (\<lambda>upstream. return_ok (f upstream)) ?st))"
    for h and f :: "string list \<Rightarrow> seed_outcome"
    by (rule filing.rel_run_then) (simp_all add: adopt_filed [OF w fits'] filing.rel_refl)
  have handed: "filed env (sd_torrent_dir sd) ann ?st (fst (run_then (obtain_torrent env sd cl paths ann known media friends)
      (\<lambda>(h, data, joined). hand_over env sd cl paths h data joined) ?st))"
    by (rule filing.rel_run_then) (simp_all add: obtain_torrent_filed [OF w fits'] filed_same case_prod_beta)
  fix existing
  show "filed env (sd_torrent_dir sd) ann ?st (fst ((case existing of
        Some h \<Rightarrow> run_then (adopt env sd cl h ann) (\<lambda>upstream. return_ok (Reused h upstream))
      | None \<Rightarrow>
          (case held_match torrents (ft_matches friends) of
             Some (peer_id, entry) \<Rightarrow>
               run_then (adopt env sd cl (ce_info_hash entry) ann) (\<lambda>upstream.
                 return_ok (Joined (ce_info_hash entry) \<lparr>io_peer_id = Some peer_id, io_upstream = upstream\<rparr> None))
           | None \<Rightarrow>
               run_then (obtain_torrent env sd cl paths ann known media friends) (\<lambda>(h, data, joined).
                 hand_over env sd cl paths h data joined))) ?st))"
    by (simp add: adopted handed split: option.split prod.split)
qed

text \<open>
  C33. Seeding keeps the cache genuine: when every readable file of the cache is a torrent of the hash it is filed
  under, this is so afterwards, whichever of the four ways the torrent was found, whatever the client exported or a friend
  served, and on every error path; and a file that seeding wrote announces to our primary tracker. Assumed are the
  shape of a hex hash, announce URLs that are text, and that an interrupted write leaves the old file or no torrent.
\<close>

theorem seed_keeps_cache_genuine:
  assumes "sound_world env cl ann" "cache_fits st" "cache_genuine env (sd_torrent_dir sd) st"
  shows "cache_genuine env (sd_torrent_dir sd) (fst (seed env sd cl paths ann torrents known media friends st)) \<and>
    (\<forall>p. wd_cache (fst (seed env sd cl paths ann torrents known media friends st)) p = wd_cache st p \<or>
       se_write_fails env p \<noteq> None \<or>
       (\<exists>data. wd_cache (fst (seed env sd cl paths ann torrents known media friends st)) p = Some data \<and> announces_here ann data))"
  using seed_filed [OF assms(1,2), of sd paths torrents known media friends] assms(3) by (simp add: filed_def)

lemma fetch_from_friends_Some:
  assumes "snd (fetch_from_friends env sd cl paths ann ms st) = Some found"
  obtains st1 peer_id entry where "(peer_id, entry) \<in> set ms"
    "snd (fetch_from_friend env sd cl paths ann peer_id entry st1) = Inr (Some found)"
  using assms
proof (induction ms arbitrary: st thesis)
  case (Cons m ms)
  obtain peer_id entry where m: "m = (peer_id, entry)" by (cases m)
  show ?case
  proof (cases "snd (fetch_from_friend env sd cl paths ann peer_id entry st) = Inr (Some found)")
    case True
    then show ?thesis using Cons.prems(1) m by auto
  next
    case False
    then have "snd (fetch_from_friends env sd cl paths ann ms (fst (fetch_from_friend env sd cl paths ann peer_id entry st))) = Some found"
      using Cons.prems(2) unfolding m by (auto simp: case_prod_beta split: sum.splits option.splits)
    then show ?thesis using Cons.IH Cons.prems(1) m by (metis list.set_intros(2))
  qed
qed simp

text \<open>What a reused cache entry was: our copy under the recorded hash, of a torrent as long as what lies on disk.\<close>

lemma reuse_cached_Some:
  fixes env :: "('p, 'io) seed_env"
  assumes "snd (reuse_cached env sd known ann paths st) = Some (h, data)"
  shows "known = Some h \<and> (\<exists>copy t. wd_cache st (torrent_file_path (sd_torrent_dir sd) h) = Some copy \<and> read_from_bytes copy = Inr t \<and>
    content_size (se_fs env) (rp_sharerr paths) (file_paths t) = Inr (content_length t))"
proof -
  obtain copy outcome where c: "known = Some h" "wd_cache st (torrent_file_path (sd_torrent_dir sd) h) = Some copy"
      "retarget_announce copy ann = (Inr outcome :: (('p, 'io) terror, retargeted) result)"
      "\<not> cached_size_is_stale (se_fs env) (rp_sharerr paths) (file_paths (retargeted_torrent outcome)) (content_length (retargeted_torrent outcome))"
    using assms by (auto simp: reuse_cached_def attempt_def read_cached_def Let_def
        split: option.splits sum.splits prod.splits if_splits retargeted.splits)
  obtain t where t: "read_from_bytes copy = Inr t" "file_paths (retargeted_torrent outcome) = file_paths t"
      "content_length (retargeted_torrent outcome) = content_length t"
  proof (cases outcome)
    case (Current t)
    then show ?thesis using c(3) that [of t] by (simp add: retarget_Current retargeted_torrent_def)
  next
    case (Updated prev t' d)
    then obtain t where "read_from_bytes copy = Inr t" "t' = t\<lparr>announce := Some (primary ann), announce_list := tier_list ann\<rparr>"
      using c(3) retarget_Updated by blast
    moreover have "info_field (t\<lparr>announce := x, announce_list := y\<rparr>) = info_field t" for x y by (simp add: info_field_def fun_eq_iff)
    ultimately show ?thesis using Updated
      by (intro that [of t]) (simp_all add: retargeted_torrent_def file_paths_def content_length_def torrent_length_def cong: option.case_cong)
  qed
  have "content_size (se_fs env) (rp_sharerr paths) (file_paths t) = Inr (content_length t)"
    using c(4) unfolding t(2,3) by (auto simp: cached_size_is_stale_def split: sum.splits)
  then show ?thesis using c(1,2) t(1) by blast
qed

lemma obtain_torrent_joined:
  assumes "snd (obtain_torrent env sd cl paths ann known media friends st) = Inr (h, data, Some origin)"
  shows "(\<exists>d. ft_joined friends = Some origin \<and> snd (reuse_cached env sd known ann paths st) = Some (h, d)) \<or>
    (\<exists>st1. snd (fetch_from_friends env sd cl paths ann (ft_matches friends) st1) = Some (h, data, origin))"
  using assms by (auto simp: obtain_torrent_def case_prod_beta snd_run_then split: option.splits sum.splits prod.splits)

lemma hand_over_joined:
  fixes env :: "('p, 'io) seed_env"
  assumes "snd (hand_over env sd cl paths h data joined st) = Inr (Joined h' origin a)"
  shows "h' = h \<and> joined = Some origin \<and> a \<noteq> None \<and>
    (\<exists>rq. wd_calls (fst (hand_over env sd cl paths h data joined st)) = wd_calls st @ [CallAdd rq] \<and> aq_data rq = data)"
proof -
  have "h' = h \<and> joined = Some origin \<and> a \<noteq> None \<and> (\<exists>d. save_path_of paths (root_folder_of data) = (Inr d :: (('p, 'io) seed_error, rpath) result))"
    using assms by (auto simp: hand_over_def Let_def snd_run_then split: sum.splits option.splits)
  then show ?thesis by (auto simp: hand_over_calls add_request_for_def add_request_new_def)
qed

lemma seed_joined:
  fixes env :: "('p, 'io) seed_env"
  assumes "snd (seed env sd cl paths ann torrents known media friends st) = Inr (Joined h origin a)"
  shows "(\<exists>peer_id e u. a = None \<and> held_match torrents (ft_matches friends) = Some (peer_id, e) \<and> h = ce_info_hash e \<and>
      origin = \<lparr>io_peer_id = Some peer_id, io_upstream = u\<rparr> \<and>
      wd_calls (fst (seed env sd cl paths ann torrents known media friends st)) = wd_calls st @ [CallAddTrackers h (tiers ann)]) \<or>
    (\<exists>data st1 rq. a \<noteq> None \<and> wd_cache st1 = wd_cache st \<and>
      snd (obtain_torrent env sd cl paths ann known media friends st1) = Inr (h, data, Some origin) \<and>
      wd_calls (fst (seed env sd cl paths ann torrents known media friends st)) = wd_calls st @ [CallAdd rq] \<and> aq_data rq = data)"
proof -
  let ?fe = "find_existing cl torrents (rp_qbit paths) st :: _ \<times> (('p, 'io) seed_error, string option) result"
  let ?ob = "obtain_torrent env sd cl paths ann known media friends (fst ?fe)"
  have none: "snd ?fe = Inr None"
    using assms by (auto simp: seed_def snd_run_then split: sum.splits option.splits)
  show ?thesis
  proof (cases "held_match torrents (ft_matches friends)")
    case (Some pe)
    obtain peer_id e where pe: "pe = (peer_id, e)" by (cases pe)
    have "a = None \<and> h = ce_info_hash e \<and> (\<exists>u. origin = \<lparr>io_peer_id = Some peer_id, io_upstream = u\<rparr>)"
      using assms none Some pe by (auto simp: seed_def snd_run_then split: sum.splits)
    then show ?thesis using none Some pe by (auto simp: seed_calls)
  next
    case None
    then obtain h' data joined where ob: "snd ?ob = Inr (h', data, joined)"
        "snd (hand_over env sd cl paths h' data joined (fst ?ob)) = Inr (Joined h origin a)"
      using assms none by (auto simp: seed_def snd_run_then split: sum.splits)
    obtain rq where rq: "h = h'" "joined = Some origin" "a \<noteq> None" "aq_data rq = data"
        "wd_calls (fst (hand_over env sd cl paths h' data joined (fst ?ob))) = wd_calls (fst ?ob) @ [CallAdd rq]"
      using hand_over_joined [OF ob(2)] by blast
    have "fst (seed env sd cl paths ann torrents known media friends st) = fst (hand_over env sd cl paths h' data joined (fst ?ob))"
      using none None ob(1) by (simp add: seed_def fst_run_then)
    then show ?thesis using ob(1) rq
      by (intro disjI2 exI [of _ data] exI [of _ "fst ?fe"] exI [of _ rq]) simp
  qed
qed

text \<open>A friend's torrent of this very file: what the code checks before it takes one.\<close>

definition torrent_of_file ::
    "('p, 'io) seed_env \<Rightarrow> 'w client \<Rightarrow> resolved_paths \<Rightarrow> bytes \<Rightarrow> torrent \<Rightarrow> bool" where
  "torrent_of_file env cl paths c t \<longleftrightarrow>
     is_single_file t \<and> torrent_name t = Option.bind (file_name (rp_qbit paths)) (\<lambda>n. if utf8_valid n then Some n else None) \<and>
     content_length t = length c \<and>
     (\<exists>n. piece_length t = Some n \<and> pieces t = Some (concat (map (se_sha1 env) (chunks n c)))) \<and>
     (info_hash_v2 (se_sha256 env) (se_hex env) t = None \<or> hybrid_torrents (cl_kind cl))"

lemma usable_is_of_file:
  assumes "usable_friend_torrent env cl paths t = Inr True" "file_at (se_fs env) (rp_sharerr paths) c" "\<And>x. length (se_sha1 env x) = 20"
  shows "torrent_of_file env cl paths c t"
proof -
  have usable: "is_single_file t" "torrent_name t = Option.bind (file_name (rp_qbit paths)) (\<lambda>n. if utf8_valid n then Some n else None)"
      "info_hash_v2 (se_sha256 env) (se_hex env) t = None \<or> hybrid_torrents (cl_kind cl)"
      "verify_single_file (se_sha1 env) (se_fs env) (rp_sharerr paths) t = (Inr True :: (('a, 'b) terror, bool) result)"
    using assms(1) by (auto simp: usable_friend_torrent_def split: if_splits)
  obtain n where "piece_length t = Some n" "pieces t = Some (concat (map (se_sha1 env) (chunks n c)))" "content_length t = length c"
    using usable(4) unfolding verify_exact [OF assms(2,3)] by auto
  then show ?thesis using usable(1-3) by (simp add: torrent_of_file_def)
qed


text \<open>Refreshing: the client first, then the file, then the note that it is done.\<close>

lemma refresh_settled:
  "is_confirmed h ann st \<Longrightarrow> refresh_announce env sd cl h ann upstream st = (st, Inr RefreshCurrent)"
  by (simp add: refresh_announce_def)

lemma mark_confirmed_is [simp]: "is_confirmed h ann (mark_confirmed h ann st)"
  by (simp add: is_confirmed_def mark_confirmed_def)

lemma two_steps:
  obtains e where "run_then m (\<lambda>_. run_then w (\<lambda>_ s. (g s, Inr y))) s = (fst (m s), Inl e)"
    | e where "run_then m (\<lambda>_. run_then w (\<lambda>_ s. (g s, Inr y))) s = (fst (w (fst (m s))), Inl e)" "snd (w (fst (m s))) = Inl e"
    | "run_then m (\<lambda>_. run_then w (\<lambda>_ s. (g s, Inr y))) s = (g (fst (w (fst (m s)))), Inr y)"
proof (cases "m s")
  case (Pair s1 r)
  then show thesis using that by (cases r; cases "w s1"; cases "snd (w s1)") (simp_all add: run_then_def)
qed

lemma mark_confirmed_keeps [simp]:
  "wd_calls (mark_confirmed h ann st) = wd_calls st" "wd_cache (mark_confirmed h ann st) = wd_cache st"
  by (simp_all add: mark_confirmed_def)

lemma write_confirmed [simp]: "wd_confirmed (fst (write_torrent_file env p d st)) = wd_confirmed st"
  by (auto simp: write_torrent_file_def split: option.split)

lemma write_failed:
  assumes "snd (write_torrent_file env p d st) = Inl e"
  shows "se_write_fails env p \<noteq> None" "q \<noteq> p \<Longrightarrow> wd_cache (fst (write_torrent_file env p d st)) q = wd_cache st q"
  using assms by (auto simp: write_torrent_file_def split: option.splits)

lemma refresh_updates:
  fixes env :: "('p, 'io) seed_env" and upstream h ann sd
  defines "p \<equiv> torrent_file_path (sd_torrent_dir sd) h"
    and "ts \<equiv> tiers ann @ List.map_filter (\<lambda>u. ok (se_url_parse env u)) upstream"
  assumes "\<not> is_confirmed h ann st" "se_read_fails env p = None" "wd_cache st p = Some data"
    and "retarget_announce data ann = (Inr (Updated prev t d) :: (('p, 'io) terror, retargeted) result)"
  obtains (asked_in_vain) e st1 where "refresh_announce env sd cl h ann upstream st = (st1, Inl e)" "wd_confirmed st1 = wd_confirmed st"
      "\<forall>q. wd_cache st1 q = wd_cache st q \<or> q = p \<and> se_write_fails env q \<noteq> None" "wd_calls st1 = wd_calls st @ [CallSetTrackers h ts]"
    | (asked) st1 where "refresh_announce env sd cl h ann upstream st = (st1, Inr RefreshUpdated)" "is_confirmed h ann st1"
      "wd_calls st1 = wd_calls st @ [CallSetTrackers h ts]"
proof -
  let ?c = "command (CallSetTrackers h ts) (cl_set_trackers cl h ts) st :: _ \<times> (('p, 'io) seed_error, unit) result"
  let ?w = "write_torrent_file env p d (fst ?c)"
  have eq: "refresh_announce env sd cl h ann upstream st =
      run_then (command (CallSetTrackers h ts) (cl_set_trackers cl h ts)) (\<lambda>_.
        run_then (write_torrent_file env p d) (\<lambda>_ st. (mark_confirmed h ann st, Inr RefreshUpdated))) st"
    using assms(3-) unfolding p_def ts_def
    by (simp add: refresh_announce_def Let_def run_then_def read_cached_def torrent_result_Inr)
  have failed: "\<forall>q. wd_cache (fst ?w) q = wd_cache st q \<or> q = p \<and> se_write_fails env q \<noteq> None" if "snd ?w = Inl e" for e
    using write_failed [OF that] by (metis command_keeps(2))
  show thesis
  proof (rule two_steps [of "command (CallSetTrackers h ts) (cl_set_trackers cl h ts)" "write_torrent_file env p d"
        "mark_confirmed h ann" RefreshUpdated st, folded eq])
    show thesis if "refresh_announce env sd cl h ann upstream st = (fst ?c, Inl e)" for e
      by (rule asked_in_vain [OF that]) simp_all
    show thesis if "refresh_announce env sd cl h ann upstream st = (fst ?w, Inl e)" "snd ?w = Inl e" for e
      using failed [OF that(2)] by (intro asked_in_vain [OF that(1)]) simp_all
    show thesis if "refresh_announce env sd cl h ann upstream st = (mark_confirmed h ann (fst ?w), Inr RefreshUpdated)"
      by (rule asked [OF that]) simp_all
  qed
qed

text \<open>
  What a torn write costs: a copy that no longer reads as a torrent is never refreshed again, on this pass or a later one,
  until something else replaces it.
\<close>

lemma torn_copy_is_never_refreshed:
  fixes env :: "('p, 'io) seed_env"
  assumes "\<not> is_confirmed h ann st" "wd_cache st (torrent_file_path (sd_torrent_dir sd) h) = Some data" "read_from_bytes data = Inl e"
  shows "\<exists>err. refresh_announce env sd cl h ann upstream st = (st, Inl err)"
proof (cases "se_read_fails env (torrent_file_path (sd_torrent_dir sd) h)")
  case None
  have "\<exists>e'. retarget_announce data ann = (Inl e' :: (('p, 'io) terror, retargeted) result)"
    using assms(3) by (simp add: retarget_announce_def)
  then show ?thesis using None assms(1,2)
    by (auto simp: refresh_announce_def Let_def run_then_def read_cached_def torrent_result_Inl)
qed (use assms in \<open>simp add: refresh_announce_def Let_def run_then_def read_cached_def\<close>)

text \<open>
  C35. Refreshing announce URLs settles or is retried. When it reports the URLs current or updated, it will ask nothing more
  of the client for those URLs; when it fails, nothing is noted as done and the cached file, which the next pass compares
  against, is as it was unless writing it is what failed; and the client's tracker list is replaced only for a
  cached torrent that announced elsewhere, by our URLs followed by the recorded foreign ones.
\<close>

theorem refresh_settles_or_retries:
  fixes env :: "('p, 'io) seed_env"
  shows "(case snd (refresh_announce env sd cl h ann upstream st) of
       Inl _ \<Rightarrow> wd_confirmed (fst (refresh_announce env sd cl h ann upstream st)) = wd_confirmed st \<and>
         (\<forall>p. wd_cache (fst (refresh_announce env sd cl h ann upstream st)) p = wd_cache st p \<or>
              p = torrent_file_path (sd_torrent_dir sd) h \<and> se_write_fails env p \<noteq> None)
     | Inr NoCachedTorrent \<Rightarrow>
         fst (refresh_announce env sd cl h ann upstream st) = st \<and> wd_cache st (torrent_file_path (sd_torrent_dir sd) h) = None
     | Inr _ \<Rightarrow>
         refresh_announce env sd cl h ann upstream' (fst (refresh_announce env sd cl h ann upstream st)) =
           (fst (refresh_announce env sd cl h ann upstream st), Inr RefreshCurrent)) \<and>
    (wd_calls (fst (refresh_announce env sd cl h ann upstream st)) = wd_calls st \<or>
     wd_calls (fst (refresh_announce env sd cl h ann upstream st)) =
       wd_calls st @ [CallSetTrackers h (tiers ann @ List.map_filter (\<lambda>u. ok (se_url_parse env u)) upstream)] \<and>
     (\<exists>data t. wd_cache st (torrent_file_path (sd_torrent_dir sd) h) = Some data \<and> read_from_bytes data = Inr t \<and>
        announce t \<noteq> Some (primary ann)))"
proof (cases "is_confirmed h ann st")
  case True
  then show ?thesis by (simp add: refresh_settled)
next
  case False
  let ?p = "torrent_file_path (sd_torrent_dir sd) h"
  consider e where "se_read_fails env ?p = Some e" | "se_read_fails env ?p = None" "wd_cache st ?p = None"
    | data where "se_read_fails env ?p = None" "wd_cache st ?p = Some data" by fastforce
  then show ?thesis
  proof cases
    case 3
    consider e where "retarget_announce data ann = (Inl e :: (('p, 'io) terror, retargeted) result)"
      | t where "retarget_announce data ann = (Inr (Current t) :: (('p, 'io) terror, retargeted) result)"
      | prev t d where "retarget_announce data ann = (Inr (Updated prev t d) :: (('p, 'io) terror, retargeted) result)"
      by (metis sum.exhaust retargeted.exhaust)
    then show ?thesis
    proof cases
      case (3 prev t d)
      obtain t0 where "read_from_bytes data = Inr t0" "announce t0 \<noteq> Some (primary ann)"
        using iffD1 [OF retarget_Updated 3] by metis
      then have elsewhere: "\<exists>data t. wd_cache st ?p = Some data \<and> read_from_bytes data = Inr t \<and> announce t \<noteq> Some (primary ann)"
        using \<open>wd_cache st ?p = Some data\<close> by (intro exI [of _ data] exI [of _ t0] conjI)
      show ?thesis
      proof (rule refresh_updates [OF False \<open>se_read_fails env ?p = None\<close> \<open>wd_cache st ?p = Some data\<close> 3, of cl upstream], goal_cases)
        case r: (1 e st1)
        show ?case unfolding r(1) using r(2-) elsewhere by simp
      next
        case r: (2 st1)
        show ?case unfolding r(1) using r(2-) elsewhere by (simp add: refresh_settled)
      qed
    qed (use False \<open>se_read_fails env ?p = None\<close> \<open>wd_cache st ?p = Some data\<close> in
        \<open>simp_all add: refresh_announce_def Let_def run_then_def read_cached_def torrent_result_Inr torrent_result_Inl\<close>)
  qed (use False in \<open>simp_all add: refresh_announce_def Let_def run_then_def read_cached_def\<close>)
qed

text \<open>
  Of the tiers an adopted torrent names, those that are not ours stay in the cached copy when its main announce URL
  is already our primary one: it is kept as the client exported it. Otherwise the copy names ours alone.
\<close>

lemma adopted_copy_tiers:
  fixes env :: "('p, 'io) seed_env"
  assumes "wd_cache st (torrent_file_path (sd_torrent_dir sd) h) = None" "se_read_fails env = (\<lambda>_. None)" "se_write_fails env = (\<lambda>_. None)"
    and "\<And>w. cl_add_trackers cl h (tiers ann) w = (w, Inr ())" "\<And>w. cl_export cl h w = (w, Inr (Some data))"
    and "read_from_bytes data = Inr t" "eq_ignore_ascii_case (info_hash (se_sha1 env) (se_hex env) t) h"
  shows "wd_cache (fst (adopt env sd cl h ann st)) (torrent_file_path (sd_torrent_dir sd) h) =
    Some (if announce t = Some (primary ann) then data
          else torrent_encode (t\<lparr>announce := Some (primary ann), announce_list := tier_list ann\<rparr>))"
  using assms
  by (simp add: adopt_def Let_def run_then_def command_def query_def map_err_def torrent_bytes_def read_cached_def
      retarget_announce_def torrent_result_Inr file_adopted_def write_torrent_file_def)

section \<open>The example evaluated\<close>

lemma example_is_read: "read_from_bytes example_torrent = Inr example_parsed"
  by code_simp

lemma example_is_usable: "usable_friend_torrent example_env example_client example_paths example_parsed = Inr True"
  by code_simp

lemma example_is_foreign: "foreign_tiers example_parsed example_announce = [''http://x/'']"
  by code_simp

lemma example_is_fetched: "fetched_bytes example_env u = Inr example_torrent"
  by (simp add: fetched_bytes_def example_env_def within_cap_def example_torrent_def)

lemma example_is_hash: "info_hash (se_sha1 example_env) (se_hex example_env) example_parsed = replicate 20 CHR ''h''"
  by (simp add: info_hash_def example_env_def)

lemma example_is_same: "eq_ignore_ascii_case (replicate 20 CHR ''h'') (ce_info_hash example_entry)"
  by code_simp
lemma example_is_writes: "se_write_fails example_env p = None"
  by (simp add: example_env_def)

lemma example_is_fetch: "snd (fetch_from_friend example_env example_seeder example_client example_paths example_announce i example_entry st) =
   Inr (Some (replicate 20 CHR ''h'', torrent_encode (upstream_torrent example_parsed example_announce [''http://x/'']),
     \<lparr>io_peer_id = Some i, io_upstream = [''http://x/'']\<rparr>))"
  using example_is_same
  by (simp add: fetch_from_friend_def Let_def snd_run_then example_is_fetched example_is_read torrent_result_Inr example_is_hash example_is_usable rewrite_announce_def
      write_torrent_file_def with_upstream_def example_is_foreign example_is_writes)

lemma example_is_save: "\<exists>d. save_path_of example_paths r = Inr d"
  by (simp add: save_path_of_def example_paths_def path_parent_def)

lemma example_is_seed:
  "\<exists>a. snd (seed example_env example_seeder example_client example_paths example_announce [] None None
     \<lparr>ft_matches = [(7, example_entry)], ft_joined = None\<rparr> example_state) =
     Inr (Joined (replicate 20 CHR ''h'') \<lparr>io_peer_id = Some 7, io_upstream = [''http://x/'']\<rparr> (Some a))"
proof -
  obtain d where d: "save_path_of example_paths (root_folder_of (torrent_encode (upstream_torrent example_parsed example_announce [''http://x/'']))) = (Inr d :: ((nat, nat) seed_error, rpath) result)"
    using example_is_save by blast
  obtain st where f: "fetch_from_friend example_env example_seeder example_client example_paths example_announce 7 example_entry example_state =
     (st, Inr (Some (replicate 20 CHR ''h'', torrent_encode (upstream_torrent example_parsed example_announce [''http://x/'']),
     \<lparr>io_peer_id = Some 7, io_upstream = [''http://x/'']\<rparr>)))"
    using example_is_fetch by (metis prod.collapse)
  show ?thesis
    by (simp add: seed_def snd_run_then fst_run_then find_existing_def held_match_def obtain_torrent_def reuse_cached_def f hand_over_def Let_def d
       command_def query_def map_err_def example_client_def [symmetric])
      (simp add: example_client_def)
qed


text \<open>Witness of C33: the same seeding, from an empty cache.\<close>

theorem seed_keeps_cache_genuine_witness:
  "cache_genuine example_env [RootDir, Normal ''t''] (fst (seed example_env example_seeder example_client example_paths example_announce [] None None
      \<lparr>ft_matches = [(7, example_entry)], ft_joined = None\<rparr> example_state))"
proof -
  have "plain_hash (replicate 20 CHR ''h'')" by code_simp
  moreover have "utf8_valid ''http://us/''" by code_simp
  ultimately have "sound_world example_env example_client example_announce"
    by (simp add: sound_world_def example_env_def example_client_def example_announce_def announce_set_ok_def)
  moreover have "cache_fits example_state" "cache_genuine example_env (sd_torrent_dir example_seeder) example_state"
    by (simp_all add: cache_fits_def cache_genuine_def example_state_def)
  ultimately show ?thesis
    using seed_keeps_cache_genuine [of example_env example_client example_announce example_state example_seeder example_paths
        "[]" None None "\<lparr>ft_matches = [(7, example_entry)], ft_joined = None\<rparr>"]
    by (simp add: example_seeder_def)
qed

end
