(* ===== verification/Title.thy ===== *)
theory Title
  imports Metainfo Paths
begin

text \<open>
  \<^verbatim>\<open>sharerr-torrent/src/title.rs\<close>: choosing the title a release is announced under, and reading a title the way the
  application at the far end would. Unicode decomposition with the combining marks dropped, lower-casing outside ASCII,
  SHA-256 and hexadecimal text are parameters.
\<close>

record title_env =
  te_transliterate :: "string \<Rightarrow> string"
  te_lowercase :: "string \<Rightarrow> string"
  te_sha256 :: "bytes \<Rightarrow> bytes"
  te_hex :: "bytes \<Rightarrow> string"

definition GROUP :: string where "GROUP = ''SHARERR''"

section \<open>Text\<close>

definition is_sep :: "char \<Rightarrow> bool" where
  "is_sep c \<longleftrightarrow> c = CHR ''.'' \<or> c = CHR ''_''"

definition humanize :: "string \<Rightarrow> string" where
  "humanize stem = trim (map (\<lambda>c. if is_sep c then CHR '' '' else c) stem)"

text \<open>\<^verbatim>\<open>trim_matches\<close> with a set of ASCII characters.\<close>

definition trim_matches :: "(char \<Rightarrow> bool) \<Rightarrow> string \<Rightarrow> string" where
  "trim_matches P s = rev (dropWhile P (rev (dropWhile P s)))"

fun join_with :: "string \<Rightarrow> string list \<Rightarrow> string" where
  "join_with sep [] = []"
| "join_with sep [x] = x"
| "join_with sep (x # y # xs) = x @ sep @ join_with sep (y # xs)"

definition join_title :: "string list \<Rightarrow> string" where
  "join_title tokens = trim_matches (\<lambda>c. c = CHR ''-'' \<or> c = CHR '' '') (join_with '' '' tokens)"

definition ascii_fallback :: "title_env \<Rightarrow> string \<Rightarrow> string" where
  "ascii_fallback te title = ''unknown'' @ te_hex te (take 4 (te_sha256 te (te_lowercase te title)))"

definition dotted :: "title_env \<Rightarrow> string \<Rightarrow> string" where
  "dotted te title =
     (let cleaned = join_with ''.'' (split_whitespace
        (map (\<lambda>c. if is_ascii_alphanumeric c then c else CHR '' '') (te_transliterate te title)))
      in if cleaned = [] then ''Unknown.'' @ drop (length ''unknown'') (ascii_fallback te title) else cleaned)"

definition loose_key :: "title_env \<Rightarrow> string \<Rightarrow> string" where
  "loose_key te s =
     (let ascii = map ascii_lower (filter is_ascii_alphanumeric (te_transliterate te s))
      in if ascii = [] then ascii_fallback te s else ascii)"

definition loose_eq :: "title_env \<Rightarrow> string \<Rightarrow> string \<Rightarrow> bool" where
  "loose_eq te a b \<longleftrightarrow> loose_key te a = loose_key te b"

definition CONTAINERS :: "string list" where
  "CONTAINERS = [''.mkv'', ''.mp4'', ''.avi'', ''.ts'', ''.m2ts'', ''.wmv'', ''.mov'']"

fun strip_extension_of :: "string list \<Rightarrow> string \<Rightarrow> string" where
  "strip_extension_of [] name = name"
| "strip_extension_of (ext # exts) name =
     (if length ext < length name \<and> is_char_boundary name (length name - length ext) \<and>
         eq_ignore_ascii_case (drop (length name - length ext) name) ext
      then take (length name - length ext) name
      else strip_extension_of exts name)"

definition strip_extension :: "string \<Rightarrow> string" where
  "strip_extension name = strip_extension_of CONTAINERS name"

section \<open>Reading a title\<close>

datatype parsed_title = ParsedEpisode string nat nat | ParsedMovie string "nat option" | Unparseable

definition summary :: "parsed_title \<Rightarrow> string" where
  "summary p =
     (case p of
        ParsedEpisode title season episode \<Rightarrow> ''Episode: '' @ title @ '' S'' @ show_pad2 season @ ''E'' @ show_pad2 episode
      | ParsedMovie title (Some year) \<Rightarrow> ''Movie: '' @ title @ '' ('' @ show_nat year @ '')''
      | ParsedMovie title None \<Rightarrow> ''Movie: '' @ title
      | Unparseable \<Rightarrow> ''Nothing it can match'')"

definition describes :: "title_env \<Rightarrow> parsed_title \<Rightarrow> media_spec \<Rightarrow> bool" where
  "describes te p spec =
     (case (p, spec) of
        (ParsedEpisode title season episode, Episode series_title s e) \<Rightarrow>
          season = s \<and> episode = e \<and> loose_eq te title series_title
      | (ParsedMovie title year, Movie t y) \<Rightarrow> loose_eq te title t \<and> (year = None \<or> y = None \<or> year = y)
      | _ \<Rightarrow> False)"

definition season_episode :: "string \<Rightarrow> (nat \<times> nat) option" where
  "season_episode token =
     (case token of
        [] \<Rightarrow> None
      | b # rest \<Rightarrow>
          if b \<noteq> CHR ''s'' \<and> b \<noteq> CHR ''S'' then None
          else Option.bind (split_once_by (\<lambda>c. c = CHR ''e'' \<or> c = CHR ''E'') rest) (\<lambda>(season, episode).
                 if season = [] \<or> episode = [] then None
                 else Option.bind (parse_u32 season) (\<lambda>s. map_option (Pair s) (parse_u32 episode))))"

definition release_year :: "string \<Rightarrow> nat option" where
  "release_year token =
     (let trimmed = trim_matches (\<lambda>c. c \<in> set ''()[]'') token in
      if length trimmed \<noteq> 4 then None
      else Option.bind (parse_u16 trimmed) (\<lambda>year. if 1900 \<le> year \<and> year \<le> 2099 then Some year else None))"

text \<open>The loops of \<^verbatim>\<open>parse\<close>: the tokens before the one looked at, and those from it on.\<close>

fun find_episode :: "string list \<Rightarrow> string list \<Rightarrow> parsed_title option" where
  "find_episode before [] = None"
| "find_episode before (token # tokens) =
     (case season_episode token of
        Some (season, episode) \<Rightarrow>
          (let name = join_title before in Some (if name = [] then Unparseable else ParsedEpisode name season episode))
      | None \<Rightarrow> find_episode (before @ [token]) tokens)"

fun find_movie :: "string list \<Rightarrow> string list \<Rightarrow> parsed_title" where
  "find_movie before [] = Unparseable"
| "find_movie before (token # tokens) =
     (case release_year token of
        Some year \<Rightarrow> (let name = join_title before in if name = [] then Unparseable else ParsedMovie name (Some year))
      | None \<Rightarrow> find_movie (before @ [token]) tokens)"

definition parse_title :: "string \<Rightarrow> parsed_title" where
  "parse_title title =
     (let tokens = split_whitespace (humanize title) in
      case find_episode [] tokens of
        Some parsed \<Rightarrow> parsed
      | None \<Rightarrow> find_movie (take 1 tokens) (drop 1 tokens))"

section \<open>Making one up\<close>

definition video_tokens :: "media_meta option \<Rightarrow> string \<times> string" where
  "video_tokens media =
     ((case Option.bind media scene_resolution of None \<Rightarrow> ''1080p'' | Some r \<Rightarrow> r),
      (case Option.bind media scene_video_codec of None \<Rightarrow> ''x264'' | Some c \<Rightarrow> c))"

definition synthesize :: "title_env \<Rightarrow> media_spec \<Rightarrow> media_meta option \<Rightarrow> string" where
  "synthesize te spec media =
     (case video_tokens media of (res, vcodec) \<Rightarrow>
       (let audio = (case Option.bind media scene_audio_format of None \<Rightarrow> ''FLAC'' | Some a \<Rightarrow> a);
            quality = ''.'' @ res @ ''.WEB-DL.'' @ vcodec @ ''-'' @ GROUP
        in case spec of
             Episode series_title season episode \<Rightarrow>
               dotted te series_title @ ''.S'' @ show_pad2 season @ ''E'' @ show_pad2 episode @ quality
           | Movie title (Some year) \<Rightarrow> dotted te title @ ''.'' @ show_nat year @ quality
           | Movie title None \<Rightarrow> dotted te title @ quality
           | Track artist album (Some track) \<Rightarrow>
               dotted te artist @ ''-'' @ dotted te album @ ''-'' @ show_pad2 track @ ''-'' @ audio @ ''-'' @ GROUP
           | Track artist album None \<Rightarrow> dotted te artist @ ''-'' @ dotted te album @ ''-'' @ audio @ ''-'' @ GROUP
           | Book author title \<Rightarrow> dotted te author @ ''-'' @ dotted te title @ ''-EPUB-'' @ GROUP))"

definition synthesize_scene :: "title_env \<Rightarrow> scene_meta \<Rightarrow> string \<Rightarrow> media_meta option \<Rightarrow> string" where
  "synthesize_scene te scene title media =
     (case video_tokens media of (res, vcodec) \<Rightarrow>
       filter (\<lambda>c. c \<noteq> CHR ''.'') (dotted te (studio scene)) @ ''.'' @ show_pad2 (sc_year scene mod 100) @ ''.'' @
       show_pad2 (sc_month scene) @ ''.'' @ show_pad2 (sc_day scene) @ ''.'' @ dotted te title @ ''.XXX.'' @ res @
       ''.WEB-DL.'' @ vcodec @ ''-'' @ GROUP)"

section \<open>Choosing\<close>

text \<open>\<^verbatim>\<open>Path::file_stem\<close>, and \<^verbatim>\<open>to_str\<close> of it.\<close>

definition stem_of :: "string \<Rightarrow> string" where
  "stem_of name =
     (case position CHR ''.'' (rev name) of
        None \<Rightarrow> name
      | Some n \<Rightarrow> (let stem = take (length name - Suc n) name in if stem = [] then name else stem))"

definition file_stem :: "path \<Rightarrow> string option" where
  "file_stem p = Option.bind (file_name (path_components p)) (\<lambda>name.
     let stem = stem_of name in if utf8_valid stem then Some stem else None)"

definition describing_stem :: "title_env \<Rightarrow> media_spec \<Rightarrow> path \<Rightarrow> string option" where
  "describing_stem te spec candidate =
     Option.bind (file_stem candidate) (\<lambda>stem. if describes te (parse_title stem) spec then Some stem else None)"

definition resolve_title ::
    "title_env \<Rightarrow> media_spec \<Rightarrow> string option \<Rightarrow> path option \<Rightarrow> media_meta option \<Rightarrow> path \<Rightarrow> scene_meta option \<Rightarrow> string" where
  "resolve_title te spec scene_name original_path media path scene =
     (let cleaned = (case scene_name of None \<Rightarrow> [] | Some name \<Rightarrow> strip_extension (trim name)) in
      if cleaned \<noteq> [] then cleaned
      else
        (case (scene, spec) of
           (Some sc, Movie title _) \<Rightarrow> synthesize_scene te sc title media
         | _ \<Rightarrow>
             (case Option.bind original_path (describing_stem te spec) of
                Some stem \<Rightarrow> stem
              | None \<Rightarrow> (case describing_stem te spec path of Some stem \<Rightarrow> stem | None \<Rightarrow> synthesize te spec media))))"

section \<open>Checking\<close>

datatype title_problem = NoEpisodeNumber | NoYear | Mismatch | NoQuality

record title_check =
  tc_parsed :: parsed_title
  tc_problems :: "title_problem list"

definition SOURCES :: "string list" where
  "SOURCES = [''web'', ''webdl'', ''webrip'', ''bluray'', ''bdrip'', ''brrip'', ''remux'', ''hdtv'', ''sdtv'', ''pdtv'', ''dvd'',
     ''dvdrip'', ''hdrip'']"

fun split_by :: "(char \<Rightarrow> bool) \<Rightarrow> string \<Rightarrow> string \<Rightarrow> string list" where
  "split_by P cur [] = [rev cur]"
| "split_by P cur (c # cs) = (if P c then rev cur # split_by P [] cs else split_by P (c # cur) cs)"

definition is_quality_token :: "string \<Rightarrow> bool" where
  "is_quality_token token \<longleftrightarrow>
     token \<in> set SOURCES \<or> token = ''4k'' \<or>
     (token \<noteq> [] \<and> (last token = CHR ''p'' \<or> last token = CHR ''i'') \<and>
      3 \<le> length (butlast token) \<and> length (butlast token) \<le> 4 \<and> list_all is_digit (butlast token))"

definition has_quality :: "string \<Rightarrow> bool" where
  "has_quality title \<longleftrightarrow>
     list_ex (is_quality_token \<circ> to_ascii_lowercase) (split_by (\<lambda>c. \<not> is_ascii_alphanumeric c) [] title)"

definition check_title :: "title_env \<Rightarrow> string \<Rightarrow> media_spec \<Rightarrow> title_check option" where
  "check_title te title spec =
     (case spec of
        Track _ _ _ \<Rightarrow> None
      | Book _ _ \<Rightarrow> None
      | _ \<Rightarrow>
          (let movie = (case spec of Movie _ _ \<Rightarrow> True | _ \<Rightarrow> False);
               parsed = parse_title title;
               about_content = (if parsed = Unparseable then (if movie then [NoYear] else [NoEpisodeNumber])
                                else if \<not> describes te parsed spec then [Mismatch] else []);
               about_quality = (if has_quality title then [] else [NoQuality])
           in Some \<lparr>tc_parsed = parsed, tc_problems = about_content @ about_quality\<rparr>))"

section \<open>Joining and splitting\<close>

text \<open>What is assumed of the parameters: plain ASCII text is left alone, and a hash prints as lower-case hexadecimal.\<close>

definition title_env_ok :: "title_env \<Rightarrow> bool" where
  "title_env_ok te \<longleftrightarrow>
     (\<forall>s. list_all (\<lambda>c. code c < 128) s \<longrightarrow> te_transliterate te s = s) \<and>
     (\<forall>b. length (te_sha256 te b) = 32 \<and> length (te_hex te b) = 2 * length b \<and>
        list_all (\<lambda>c. c \<in> set ''0123456789abcdef'') (te_hex te b))"

lemma alnum_code:
  "is_ascii_alphanumeric c \<Longrightarrow> 48 \<le> code c \<and> code c \<le> 122 \<and> c \<noteq> CHR ''.'' \<and> c \<noteq> CHR ''_'' \<and> c \<noteq> CHR ''-'' \<and> c \<noteq> CHR '' ''"
  by (auto simp: is_ascii_alphanumeric_def is_ascii_lower_def is_ascii_upper_def is_digit_code)

text \<open>A word of a release name: printable ASCII without separators.\<close>

definition plain_char :: "char \<Rightarrow> bool" where
  "plain_char c \<longleftrightarrow> is_graphic c \<and> \<not> is_sep c"

definition plain_word :: "string \<Rightarrow> bool" where
  "plain_word w \<longleftrightarrow> w \<noteq> [] \<and> list_all plain_char w"

lemma plain_charI [intro]: "is_ascii_alphanumeric c \<Longrightarrow> plain_char c"
  using alnum_code [of c] by (auto simp: plain_char_def is_sep_def is_graphic_def)

lemma plain_char_no_space: "plain_char c \<Longrightarrow> starts_no_space c"
  by (simp add: plain_char_def starts_no_space_graphic)

lemma join_with_Cons: "join_with sep (x # xs) = x @ (if xs = [] then [] else sep @ join_with sep xs)"
  by (cases xs) auto

lemma join_with_append: "xs \<noteq> [] \<Longrightarrow> ys \<noteq> [] \<Longrightarrow> join_with sep (xs @ ys) = join_with sep xs @ sep @ join_with sep ys"
  by (induction xs) (auto simp: join_with_Cons)

lemma map_join_with: "map f (join_with sep xs) = join_with (map f sep) (map (map f) xs)"
  by (induction xs) (auto simp: join_with_Cons)

lemma split_join_words: "list_all plain_word ws \<Longrightarrow> split_whitespace (join_with '' '' ws) = ws"
proof -
  have "list_all plain_word ws \<Longrightarrow> words_from [] (join_with '' '' ws) = ws"
  proof (induction ws)
    case (Cons w ws)
    then have "list_all starts_no_space w" "w \<noteq> []"
      by (auto simp: plain_word_def list_all_iff plain_char_no_space)
    then show ?case using Cons by (cases ws) (simp_all add: join_with_Cons words_from_word words_from_blank words_from_Nil
          words_from_word [where s = "[]", simplified])
  qed (simp add: words_from_Nil)
  then show "list_all plain_word ws \<Longrightarrow> split_whitespace (join_with '' '' ws) = ws" by (simp add: split_whitespace_def)
qed

lemma join_words_ends:
  assumes "ws \<noteq> []" "list_all plain_word ws"
  shows "join_with sep ws \<noteq> []" "hd (join_with sep ws) = hd (hd ws)" "last (join_with sep ws) = last (last ws)"
  using assms
proof (induction ws)
  case (Cons w ws)
  { case 1 then show ?case by (simp add: join_with_Cons plain_word_def) next
    case 2 then show ?case by (simp add: join_with_Cons plain_word_def) next
    case 3 then show ?case using Cons by (auto simp: join_with_Cons plain_word_def) }
qed simp_all

lemma parse_tokens:
  assumes "ws \<noteq> []" "list_all plain_word ws"
  shows "split_whitespace (humanize (join_with ''.'' ws)) = ws"
proof -
  have "map (\<lambda>c. if is_sep c then CHR '' '' else c) w = w" if "w \<in> set ws" for w
    using assms(2) that by (auto simp: list_all_iff plain_word_def plain_char_def intro!: map_idI)
  then have m: "map (\<lambda>c. if is_sep c then CHR '' '' else c) (join_with ''.'' ws) = join_with '' '' ws"
    by (simp add: map_join_with is_sep_def map_idI)
  have "plain_char (hd (hd ws))" "plain_char (last (last ws))"
    using assms unfolding list_all_iff plain_word_def by (meson hd_in_set last_in_set)+
  then have "trim (join_with '' '' ws) = join_with '' '' ws"
    using join_words_ends [OF assms, of "'' ''"] by (intro trim_graphic) (auto simp: plain_char_def)
  then show ?thesis using split_join_words [OF assms(2)] by (simp add: humanize_def m)
qed

section \<open>The words of a title\<close>

definition title_words :: "title_env \<Rightarrow> string \<Rightarrow> string list" where
  "title_words te title =
     (let ws = split_whitespace (map (\<lambda>c. if is_ascii_alphanumeric c then c else CHR '' '') (te_transliterate te title))
      in if ws = [] then [''Unknown'', drop (length ''unknown'') (ascii_fallback te title)] else ws)"

abbreviation alnum_word :: "string \<Rightarrow> bool" where
  "alnum_word w \<equiv> w \<noteq> [] \<and> list_all is_ascii_alphanumeric w"

lemma words_of_alnum:
  assumes "list_all is_ascii_alphanumeric cur"
  shows "concat (words_from cur (map (\<lambda>c. if is_ascii_alphanumeric c then c else CHR '' '') s)) = rev cur @ filter is_ascii_alphanumeric s"
    "list_all alnum_word (words_from cur (map (\<lambda>c. if is_ascii_alphanumeric c then c else CHR '' '') s))"
  using assms
proof (induction s arbitrary: cur)
  case (Cons c s)
  have word: "words_from cur (c # s') = words_from (c # cur) s'" if "is_ascii_alphanumeric c" for cur s'
    using words_from_word [of "[c]" cur s'] plain_char_no_space [OF plain_charI [OF that]] by simp
  { case 1
    then show ?case using Cons.IH(1) [of "c # cur"] Cons.IH(1) [of "[]"] by (auto simp: word words_from_blank)
  next
    case 2
    then show ?case using Cons.IH(2) [of "c # cur"] Cons.IH(2) [of "[]"] by (auto simp: word words_from_blank)
  }
qed (simp_all add: words_from_Nil)

lemma hex_digit_alnum: "c \<in> set ''0123456789abcdef'' \<Longrightarrow> is_ascii_alphanumeric c \<and> ascii_lower c = c"
  by (auto simp: is_ascii_alphanumeric_def is_ascii_lower_def is_ascii_upper_def is_digit_code ascii_lower_def)

lemma title_words_alnum:
  assumes "title_env_ok te"
  shows "list_all alnum_word (title_words te t)" "title_words te t \<noteq> []"
proof -
  have hex: "list_all is_ascii_alphanumeric (te_hex te b)" "length (te_hex te b) = 2 * length b" "length (te_sha256 te b) = 32" for b
    using assms hex_digit_alnum by (auto simp: title_env_ok_def list_all_iff)
  then have "te_hex te (take 4 (te_sha256 te b)) \<noteq> []" for b by (simp flip: length_greater_0_conv)
  moreover have "list_all is_ascii_alphanumeric ''Unknown''" by code_simp
  ultimately show "list_all alnum_word (title_words te t)" "title_words te t \<noteq> []"
    using hex words_of_alnum(2) [of "[]" "te_transliterate te t"]
    by (auto simp: title_words_def Let_def split_whitespace_def ascii_fallback_def)
qed

lemma dotted_words:
  assumes "title_env_ok te"
  shows "dotted te t = join_with ''.'' (title_words te t)"
proof -
  let ?ws = "split_whitespace (map (\<lambda>c. if is_ascii_alphanumeric c then c else CHR '' '') (te_transliterate te t))"
  have "list_all plain_word ?ws"
    using words_of_alnum(2) [of "[]" "te_transliterate te t"]
    by (auto simp: split_whitespace_def list_all_iff plain_word_def)
  then have "join_with ''.'' ?ws = [] \<longleftrightarrow> ?ws = []" using join_words_ends(1) [of ?ws "''.''"] by auto
  then show ?thesis by (simp add: dotted_def title_words_def Let_def)
qed

lemma filter_join_words:
  "list_all alnum_word ws \<Longrightarrow> \<not> list_ex is_ascii_alphanumeric sep \<Longrightarrow> filter is_ascii_alphanumeric (join_with sep ws) = concat ws"
proof (induction ws)
  case (Cons w ws)
  then have "filter is_ascii_alphanumeric w = w" "filter is_ascii_alphanumeric sep = []"
    by (auto simp: list_all_iff list_ex_iff filter_id_conv filter_empty_conv)
  then show ?case using Cons by (simp add: join_with_Cons)
qed simp

lemma alnum_words_plain: "list_all alnum_word ws \<Longrightarrow> list_all plain_word ws"
  by (auto simp: list_all_iff plain_word_def)

lemma join_title_words:
  assumes "list_all alnum_word ws" "ws \<noteq> []"
  shows "join_title ws = join_with '' '' ws"
proof -
  let ?s = "join_with '' '' ws" and ?P = "\<lambda>c. c = CHR ''-'' \<or> c = CHR '' ''"
  note ends = join_words_ends [OF assms(2) alnum_words_plain [OF assms(1)], of "'' ''"]
  have "\<not> ?P (hd ?s)" "\<not> ?P (last ?s)"
    using assms ends(2,3) alnum_code [of "hd (hd ws)"] alnum_code [of "last (last ws)"] unfolding list_all_iff
    by (metis hd_in_set last_in_set)+
  then have "dropWhile ?P ?s = ?s" "dropWhile ?P (rev ?s) = rev ?s"
    using ends(1) by (cases ?s; simp; fail | cases ?s rule: rev_cases; simp; fail)+
  then show ?thesis by (simp add: join_title_def trim_matches_def)
qed

lemma join_words_ascii:
  "list_all alnum_word ws \<Longrightarrow> list_all (\<lambda>c. code c < 128) (join_with '' '' ws)"
proof (induction ws)
  case (Cons w ws)
  then have "code c < 128" if "c \<in> set w" for c
    using that alnum_code [of c] by (auto simp: list_all_iff)
  then show ?case using Cons by (auto simp: join_with_Cons list_all_iff)
qed simp

lemma concat_words: "list_all alnum_word ws \<Longrightarrow> concat ws = [] \<longleftrightarrow> ws = []"
  by (cases ws) auto

lemma words_fold:
  assumes "title_env_ok te"
  shows "map ascii_lower (concat (title_words te t)) = loose_key te t"
proof -
  let ?a = "filter is_ascii_alphanumeric (te_transliterate te t)"
  let ?ws = "split_whitespace (map (\<lambda>c. if is_ascii_alphanumeric c then c else CHR '' '') (te_transliterate te t))"
  have ws: "concat ?ws = ?a" "list_all alnum_word ?ws"
    using words_of_alnum [of "[]" "te_transliterate te t"] by (simp_all add: split_whitespace_def)
  have empty: "?ws = [] \<longleftrightarrow> ?a = []" using concat_words [OF ws(2)] ws(1) by simp
  have hex: "map ascii_lower (te_hex te b) = te_hex te b" for b
    using assms hex_digit_alnum unfolding title_env_ok_def list_all_iff by (intro map_idI) blast
  show ?thesis
  proof (cases "?ws = []")
    case True
    then have "title_words te t = [''Unknown'', te_hex te (take 4 (te_sha256 te (te_lowercase te t)))]"
      by (simp add: title_words_def ascii_fallback_def)
    moreover have "map ascii_lower ''Unknown'' = ''unknown''" by code_simp
    ultimately show ?thesis using True empty hex by (simp add: loose_key_def ascii_fallback_def)
  next
    case False
    then have "title_words te t = ?ws" by (simp add: title_words_def)
    then show ?thesis unfolding ws(1) [symmetric] loose_key_def Let_def using False empty ws(1) by simp
  qed
qed

lemma loose_title:
  assumes "title_env_ok te"
  shows "loose_eq te (join_with '' '' (title_words te t)) t"
proof -
  let ?ws = "title_words te t"
  note ws = title_words_alnum [OF assms, of t]
  have "te_transliterate te (join_with '' '' ?ws) = join_with '' '' ?ws"
    using assms join_words_ascii [OF ws(1)] by (auto simp: title_env_ok_def)
  moreover have "\<not> is_ascii_alphanumeric CHR '' ''" by code_simp
  moreover have "concat ?ws \<noteq> []" using concat_words [OF ws(1)] ws(2) by simp
  ultimately have "loose_key te (join_with '' '' ?ws) = map ascii_lower (concat ?ws)"
    using filter_join_words [OF ws(1), of "'' ''"] by (simp add: loose_key_def Let_def del: concat_eq_Nil_conv)
  then show ?thesis using words_fold [OF assms] by (simp add: loose_eq_def)
qed

section \<open>What is made up reads back\<close>

lemma trim_matches_none: "(\<And>c. c \<in> set s \<Longrightarrow> \<not> P c) \<Longrightarrow> trim_matches P s = s"
proof -
  have keep: "(\<And>c. c \<in> set xs \<Longrightarrow> \<not> P c) \<Longrightarrow> dropWhile P xs = xs" for xs by (cases xs) auto
  assume "\<And>c. c \<in> set s \<Longrightarrow> \<not> P c"
  then show ?thesis using keep [of s] keep [of "rev s"] by (simp add: trim_matches_def)
qed

lemma season_episode_token:
  assumes "s \<le> u32_max" "e \<le> u32_max"
  shows "season_episode (CHR ''S'' # show_pad2 s @ CHR ''E'' # show_pad2 e) = Some (s, e)"
proof -
  have "split_once_by (\<lambda>c. c = CHR ''e'' \<or> c = CHR ''E'') (ds @ CHR ''E'' # r) = Some (ds, r)" if "list_all is_digit ds" for ds r
    using that by (induction ds) (auto simp: is_digit_code)
  then show ?thesis using assms show_pad2_digits by (simp add: season_episode_def parse_pad2)
qed

lemma release_year_token: "1900 \<le> y \<Longrightarrow> y \<le> 2099 \<Longrightarrow> release_year (show_nat y) = Some y"
proof -
  assume y: "1900 \<le> y" "y \<le> 2099"
  have "190 \<le> y div 10" "y div 10 \<le> 209" using div_le_mono [OF y(1), of 10] div_le_mono [OF y(2), of 10] by simp_all
  moreover from this have "19 \<le> y div 10 div 10" "y div 10 div 10 \<le> 20"
    using div_le_mono [of 190 "y div 10" 10] div_le_mono [of "y div 10" 209 10] by simp_all
  moreover from this have "y div 10 div 10 div 10 \<le> 2" using div_le_mono [of "y div 10 div 10" 20 10] by simp
  ultimately have "length (show_nat y) = 4"
    using y by (simp add: show_nat.simps [of y] show_nat.simps [of "y div 10"] show_nat.simps [of "y div 10 div 10"]
        show_nat.simps [of "y div 10 div 10 div 10"])
  moreover have "trim_matches (\<lambda>c. c \<in> set ''()[]'') (show_nat y) = show_nat y"
    by (rule trim_matches_none) (use show_nat_all_digits [of y] in \<open>auto simp: list_all_iff is_digit_code\<close>)
  ultimately show ?thesis using y by (simp add: release_year_def parse_unsigned_show)
qed

lemma find_episode_at:
  "list_all (\<lambda>w. season_episode w = None) ws \<Longrightarrow> season_episode tok = Some (s, e) \<Longrightarrow> join_title (before @ ws) \<noteq> [] \<Longrightarrow>
   find_episode before (ws @ tok # rest) = Some (ParsedEpisode (join_title (before @ ws)) s e)"
  by (induction ws arbitrary: before) auto

lemma find_episode_None: "list_all (\<lambda>w. season_episode w = None) ws \<Longrightarrow> find_episode before ws = None"
  by (induction ws arbitrary: before) auto

lemma find_movie_at:
  "list_all (\<lambda>w. release_year w = None) ws \<Longrightarrow> release_year tok = Some y \<Longrightarrow> join_title (before @ ws) \<noteq> [] \<Longrightarrow>
   find_movie before (ws @ tok # rest) = ParsedMovie (join_title (before @ ws)) (Some y)"
  by (induction ws arbitrary: before) auto

text \<open>The tokens that say how good a release is mention no episode and no year.\<close>

definition quality_tokens :: "media_meta option \<Rightarrow> string list" where
  "quality_tokens media = [fst (video_tokens media), ''WEB-DL'', snd (video_tokens media) @ ''-'' @ GROUP]"

definition quality_token_ok :: "string \<Rightarrow> bool" where
  "quality_token_ok w \<longleftrightarrow> plain_word w \<and> season_episode w = None"

lemma find_in_set: "find P xs = Some x \<Longrightarrow> x \<in> set xs"
  by (induction xs) (auto split: if_splits)

lemma scene_resolution_cases: "scene_resolution m = Some r \<Longrightarrow> \<exists>w h. (w, h, r) \<in> set LADDER"
  by (auto simp: scene_resolution_def rung_def bind_eq_Some_conv dest!: find_in_set)

lemma scene_video_codec_cases: "scene_video_codec m = Some c \<Longrightarrow> \<exists>n. (n, c) \<in> set VIDEO_TOKENS"
  by (auto simp: scene_video_codec_def scene_token_def Let_def bind_eq_Some_conv dest!: find_in_set)

lemma parse_joined:
  assumes "ws \<noteq> []" "list_all plain_word ws"
  shows "parse_title (join_with ''.'' ws) = (case find_episode [] ws of Some p \<Rightarrow> p | None \<Rightarrow> find_movie (take 1 ws) (drop 1 ws))"
  by (simp add: parse_title_def parse_tokens [OF assms] Let_def)

lemma quality_tokens_ok: "list_all quality_token_ok (quality_tokens media)"
proof -
  have ladder: "list_all (quality_token_ok \<circ> snd \<circ> snd) LADDER" "quality_token_ok ''1080p''" "quality_token_ok ''WEB-DL''" by code_simp+
  have vtokens: "list_all (\<lambda>(_, c). quality_token_ok (c @ ''-'' @ GROUP)) VIDEO_TOKENS" "quality_token_ok (''x264'' @ ''-'' @ GROUP)"
    by code_simp+
  have "quality_token_ok (fst (video_tokens media))"
    using ladder scene_resolution_cases by (fastforce simp: video_tokens_def list_all_iff split: option.split bind_split)
  moreover have "quality_token_ok (snd (video_tokens media) @ ''-'' @ GROUP)"
    using vtokens scene_video_codec_cases by (fastforce simp: video_tokens_def list_all_iff split: option.split bind_split)
  ultimately show ?thesis using ladder(3) by (simp add: quality_tokens_def)
qed

lemma digits_plain: "list_all is_digit w \<Longrightarrow> w \<noteq> [] \<Longrightarrow> quality_token_ok w"
  by (cases w) (auto simp: quality_token_ok_def plain_word_def season_episode_def list_all_iff is_ascii_alphanumeric_def is_digit_code)

lemma se_token_plain: "plain_word (CHR ''S'' # show_pad2 s @ CHR ''E'' # show_pad2 e)"
proof -
  have "plain_char CHR ''S''" "plain_char CHR ''E''" by code_simp+
  then show ?thesis using digits_plain [OF show_pad2_digits, of s] digits_plain [OF show_pad2_digits, of e]
    by (simp add: plain_word_def quality_token_ok_def)
qed

text \<open>The titles that survive: no word of an episode's series looks like an episode number, no later word of a film like a year.\<close>

definition readable :: "title_env \<Rightarrow> media_spec \<Rightarrow> bool" where
  "readable te spec =
     (case spec of
        Episode title s e \<Rightarrow> s \<le> u32_max \<and> e \<le> u32_max \<and> list_all (\<lambda>w. season_episode w = None) (title_words te title)
      | Movie title (Some y) \<Rightarrow>
          1900 \<le> y \<and> y \<le> 2099 \<and> list_all (\<lambda>w. season_episode w = None) (title_words te title) \<and>
          list_all (\<lambda>w. release_year w = None) (tl (title_words te title))
      | _ \<Rightarrow> False)"

lemma synthesized_episode:
  assumes "title_env_ok te" "readable te (Episode t s e)"
  shows "parse_title (synthesize te (Episode t s e) media) = ParsedEpisode (join_with '' '' (title_words te t)) s e"
proof -
  let ?ws = "title_words te t" and ?se = "CHR ''S'' # show_pad2 s @ CHR ''E'' # show_pad2 e"
  note ws = title_words_alnum [OF assms(1), of t]
  have "synthesize te (Episode t s e) media = join_with ''.'' (?ws @ ?se # quality_tokens media)"
    using ws(2) by (simp add: synthesize_def case_prod_beta Let_def dotted_words [OF assms(1)] join_with_append quality_tokens_def)
  moreover have "list_all plain_word (?ws @ ?se # quality_tokens media)"
    using alnum_words_plain [OF ws(1)] quality_tokens_ok [of media] se_token_plain [of s e] by (auto simp: list_all_iff quality_token_ok_def)
  ultimately have "parse_title (synthesize te (Episode t s e) media) =
      (case find_episode [] (?ws @ ?se # quality_tokens media) of Some p \<Rightarrow> p
       | None \<Rightarrow> find_movie (take 1 (?ws @ ?se # quality_tokens media)) (drop 1 (?ws @ ?se # quality_tokens media)))"
    using parse_joined [of "?ws @ ?se # quality_tokens media"] ws(2) by simp
  moreover have "join_title ?ws \<noteq> []"
    using join_title_words [OF ws] join_words_ends(1) [OF ws(2) alnum_words_plain [OF ws(1)]] by simp
  ultimately show ?thesis
    using find_episode_at [of ?ws ?se s e "[]" "quality_tokens media"] season_episode_token [of s e] assms(2) join_title_words [OF ws]
    by (simp add: readable_def)
qed

lemma synthesized_movie:
  assumes "title_env_ok te" "readable te (Movie t (Some y))"
  shows "parse_title (synthesize te (Movie t (Some y)) media) = ParsedMovie (join_with '' '' (title_words te t)) (Some y)"
proof -
  let ?ws = "title_words te t"
  let ?all = "?ws @ show_nat y # quality_tokens media"
  note ws = title_words_alnum [OF assms(1), of t]
  have year: "quality_token_ok (show_nat y)" by (rule digits_plain [OF show_nat_all_digits show_nat_not_Nil])
  have "synthesize te (Movie t (Some y)) media = join_with ''.'' ?all"
    using ws(2) by (simp add: synthesize_def case_prod_beta Let_def dotted_words [OF assms(1)] join_with_append quality_tokens_def)
  moreover have "list_all plain_word ?all"
    using alnum_words_plain [OF ws(1)] quality_tokens_ok [of media] year by (auto simp: list_all_iff quality_token_ok_def)
  moreover have "find_episode [] ?all = None"
    using assms(2) quality_tokens_ok [of media] year
    by (intro find_episode_None) (auto simp: readable_def list_all_iff quality_token_ok_def)
  ultimately have "parse_title (synthesize te (Movie t (Some y)) media) = find_movie (take 1 ?all) (drop 1 ?all)"
    using parse_joined [of ?all] ws(2) by simp
  also have "\<dots> = find_movie (take 1 ?ws) (tl ?ws @ show_nat y # quality_tokens media)" using ws(2) by (cases ?ws) simp_all
  also have "\<dots> = ParsedMovie (join_title ?ws) (Some y)"
  proof -
    have "take 1 ?ws @ tl ?ws = ?ws" using ws(2) by (cases ?ws) simp_all
    moreover have "join_title ?ws \<noteq> []"
      using join_title_words [OF ws] join_words_ends(1) [OF ws(2) alnum_words_plain [OF ws(1)]] by simp
    ultimately show ?thesis
      using find_movie_at [of "tl ?ws" "show_nat y" y "take 1 ?ws"] release_year_token [of y] assms(2) by (simp add: readable_def)
  qed
  finally show ?thesis using join_title_words [OF ws] by simp
qed

lemma synthesized_describes:
  assumes "title_env_ok te" "readable te spec"
  shows "describes te (parse_title (synthesize te spec media)) spec"
  using assms synthesized_episode synthesized_movie loose_title [OF assms(1)]
  by (auto simp: readable_def describes_def split: media_spec.splits option.splits)

text \<open>
  C36. Which titles read back. For an episode of a series none of whose words reads as an episode number, and for a film
  dated 1900 to 2099 none of whose words reads as an episode number and none after the first as a year: the title chosen
  when no scene name is recorded and the film is no Whisparr scene reads back, in the parser of the far end, as
  that episode or film, whether it is a file name, which is used only when it does, or made up. Other titles need not:
  a made-up title is not checked (below), and a scene name or a Whisparr scene's title is taken as it is.
\<close>

theorem resolved_title_reads_back:
  assumes "title_env_ok te" "readable te spec"
    and "scene_name = None \<or> (\<exists>n. scene_name = Some n \<and> strip_extension (trim n) = [])" "scene = None \<or> (\<exists>t s e. spec = Episode t s e)"
  shows "describes te (parse_title (resolve_title te spec scene_name original_path media path scene)) spec"
proof -
  have "describes te (parse_title stem) spec" if "describing_stem te spec p = Some stem" for p stem
    using that by (auto simp: describing_stem_def split: bind_splits if_splits)
  then show ?thesis using assms synthesized_describes
    by (auto simp: resolve_title_def Let_def split: option.splits media_spec.splits bind_splits)
qed

text \<open>
  Parameters to evaluate titles with: text that is ASCII already, and a hash of constant digits.
\<close>

definition ascii_env :: title_env where
  "ascii_env = \<lparr>te_transliterate = (\<lambda>s. s), te_lowercase = to_ascii_lowercase, te_sha256 = (\<lambda>_. replicate 32 CHR ''x''),
     te_hex = (\<lambda>b. replicate (2 * length b) CHR ''a'')\<rparr>"

lemma ascii_env_ok: "title_env_ok ascii_env"
  by (simp add: title_env_ok_def ascii_env_def list_all_iff)

text \<open>Witness of C36: a series whose file name says nothing.\<close>

theorem resolved_title_reads_back_witness:
  "describes ascii_env (parse_title (resolve_title ascii_env (Episode ''The Show'' 2 1) None None None ''/tv/01.mkv'' None))
     (Episode ''The Show'' 2 1)"
proof (rule resolved_title_reads_back [OF ascii_env_ok])
  show "readable ascii_env (Episode ''The Show'' 2 1)" by code_simp
qed simp_all

text \<open>A film whose title ends in a year is announced under a title that reads as another film, and nothing notices.\<close>

lemma year_in_title_is_misread:
  "parse_title (resolve_title ascii_env (Movie ''Blade Runner 2049'' (Some 2017)) None None None ''/m/film.mkv'' None) =
     ParsedMovie ''Blade Runner'' (Some 2049)"
  by code_simp

end
