(* ===== verification/Syncer.thy ===== *)
theory Syncer
  imports Seeder Title Store Announce_Url
begin

text \<open>
  \<^verbatim>\<open>sharerr/src/sync/mod.rs\<close>: the reconciliation pass. What carries the tag is compared with what is recorded, what
  is new is shared, and what is no longer tagged is withdrawn. The library sources, the tracker's announce URLs, the media probe
  and the clocks are parameters, as is which statements of the pass the database refuses: a refused statement
  changes nothing.
\<close>

section \<open>What a pass is given\<close>

text \<open>What one library source answers (\<^verbatim>\<open>SourceScan\<close>).\<close>

record source_scan =
  ss_items :: "discovered list"
  ss_complete :: bool
  ss_audience :: "(int, string list) hashmap"

datatype ('p, 'io) sync_error =
    TrackerFailed string
  | SeedFailed "('p, 'io) seed_error"
  | StoreFailed store_error
  | PathFailed path_error
  | FileMissing rpath media_source
  | NothingScanned

text \<open>A statement of the pass, with the file it is about.\<close>

datatype store_op =
    OpBegin
  | OpFinish
  | OpItems
  | OpStamps
  | OpEnds
  | OpOrigins
  | OpAudience media_source
  | OpMatches "media_source \<times> int"
  | OpUpsert "media_source \<times> int"
  | OpSeeding "media_source \<times> int"
  | OpV2 "media_source \<times> int"
  | OpOrigin "media_source \<times> int"
  | OpStamp "media_source \<times> int"
  | OpConfirm "media_source \<times> int"
  | OpRatio "media_source \<times> int"
  | OpState "media_source \<times> int"
  | OpReset "media_source \<times> int"

record ('p, 'io, 'w) sync_env =
  ye_seed :: "('p, 'io) seed_env"
  ye_titles :: title_env
  ye_segments :: "url \<Rightarrow> string list option"
  ye_maps :: "path_mapping list"
  ye_seeder :: seeder
  ye_client :: "'w client"
  ye_close :: "f64 \<Rightarrow> f64 \<Rightarrow> bool"
  ye_sources :: "(media_source \<times> (string, source_scan) result) list"
  ye_ready :: "(string, unit) result"
  ye_announce :: "(string, announce_set) result"
  ye_probe :: "rpath \<Rightarrow> media_meta option"
  ye_exists :: "rpath \<Rightarrow> bool"
  ye_stamp_of :: "rpath \<Rightarrow> file_stamp option"
  ye_minute :: "string option \<Rightarrow> nat"
  ye_now_epoch :: int
  ye_fails :: "store_op \<Rightarrow> store_error option"
  ye_now :: "store_op \<Rightarrow> int"
  ye_gap :: "store_op \<Rightarrow> nat"
  ye_values :: "(media_source \<times> int, shared_item) hashmap \<Rightarrow> shared_item list"
  ye_show :: "('p, 'io) sync_error \<Rightarrow> string"

text \<open>The state: the seeder's, the database, and what was already done about limits (\<^verbatim>\<open>LimitsMemo\<close>).\<close>

record 'w sync_state =
  sy_seed :: "'w seed_state"
  sy_db :: database
  sy_applied :: "string list"
  sy_cap :: "nat option option"

section \<open>Steps on the parts\<close>

definition store_read ::
    "('p, 'io, 'w) sync_env \<Rightarrow> store_op \<Rightarrow> (database \<Rightarrow> (store_error, 'a) result) \<Rightarrow> ('w sync_state, ('p, 'io) sync_error, 'a) fallible" where
  "store_read env op f st =
     (st, case ye_fails env op of
            Some e \<Rightarrow> Inl (StoreFailed e)
          | None \<Rightarrow> (case f (sy_db st) of Inl e \<Rightarrow> Inl (StoreFailed e) | Inr x \<Rightarrow> Inr x))"

definition store_write ::
    "('p, 'io, 'w) sync_env \<Rightarrow> store_op \<Rightarrow> (int \<Rightarrow> database \<Rightarrow> (store_error, database) result) \<Rightarrow>
       ('w sync_state, ('p, 'io) sync_error, unit) fallible" where
  "store_write env op f st =
     (case ye_fails env op of
        Some e \<Rightarrow> (st, Inl (StoreFailed e))
      | None \<Rightarrow>
          (case f (ye_now env op) (sy_db st) of
             Inl e \<Rightarrow> (st, Inl (StoreFailed e))
           | Inr db \<Rightarrow> (st\<lparr>sy_db := db\<rparr>, Inr ())))"

text \<open>A statement on the table of items.\<close>

definition write_items ::
    "('p, 'io, 'w) sync_env \<Rightarrow> store_op \<Rightarrow> (int \<Rightarrow> items_table \<Rightarrow> items_table) \<Rightarrow>
       ('w sync_state, ('p, 'io) sync_error, unit) fallible" where
  "write_items env op f = store_write env op (\<lambda>now db. Inr (db\<lparr>db_items := f now (db_items db)\<rparr>))"

definition write_origin ::
    "('p, 'io, 'w) sync_env \<Rightarrow> media_source \<times> int \<Rightarrow> item_origin option \<Rightarrow> ('w sync_state, ('p, 'io) sync_error, unit) fallible" where
  "write_origin env key origin =
     store_write env (OpOrigin key) (\<lambda>_ db.
       and_then (set_item_origin (peer_exists db) (fst key) (snd key) origin (db_items db)) (\<lambda>t. Inr (db\<lparr>db_items := t\<rparr>)))"

definition seeding_step ::
    "('w seed_state, ('p, 'io) seed_error, 'a) fallible \<Rightarrow> ('w sync_state, ('p, 'io) sync_error, 'a) fallible" where
  "seeding_step m st = (case m (sy_seed st) of (sd, r) \<Rightarrow> map_err SeedFailed (of_result r) (st\<lparr>sy_seed := sd\<rparr>))"

section \<open>Fingerprints\<close>

definition fingerprint :: "('p, 'io, 'w) sync_env \<Rightarrow> string \<Rightarrow> string" where
  "fingerprint env token = take 12 (se_hex (ye_seed env) (se_sha256 (ye_seed env) token))"

definition token_fingerprint :: "('p, 'io, 'w) sync_env \<Rightarrow> announce_set \<Rightarrow> string option" where
  "token_fingerprint env ann = map_option (fingerprint env) (token_from_announce_url (ye_segments env) (primary ann))"

section \<open>Reports\<close>

record flagged =
  fl_hash :: string
  fl_title :: string

record sync_report =
  rep_discovered :: nat
  rep_added :: nat
  rep_reused :: nat
  rep_unchanged :: nat
  rep_unshared :: nat
  rep_failed :: nat
  rep_sources_failed :: nat
  rep_library_unreadable :: "string option"
  rep_ended :: nat
  rep_stopped :: "flagged list"
  rep_removed :: "flagged list"
  rep_changed :: "flagged list"

definition sync_report_default :: sync_report where
  "sync_report_default =
     \<lparr>rep_discovered = 0, rep_added = 0, rep_reused = 0, rep_unchanged = 0, rep_unshared = 0, rep_failed = 0,
      rep_sources_failed = 0, rep_library_unreadable = None, rep_ended = 0, rep_stopped = [], rep_removed = [], rep_changed = []\<rparr>"

definition to_summary :: "sync_report \<Rightarrow> run_summary" where
  "to_summary r =
     \<lparr>rs_discovered = as_i64 (rep_discovered r), rs_added = as_i64 (rep_added r + rep_reused r),
      rs_unshared = as_i64 (rep_unshared r + rep_ended r), rs_failed = as_i64 (rep_failed r + rep_sources_failed r), rs_error = None\<rparr>"

definition failed_summary :: "string \<Rightarrow> run_summary" where
  "failed_summary err = \<lparr>rs_discovered = 0, rs_added = 0, rs_unshared = 0, rs_failed = 0, rs_error = Some err\<rparr>"

definition has_problems :: "sync_report \<Rightarrow> bool" where
  "has_problems r \<longleftrightarrow> rep_failed r > 0 \<or> rep_sources_failed r > 0"

definition describe_report :: "sync_report \<Rightarrow> bool \<Rightarrow> string \<times> bool" where
  "describe_report r with_discovered = describe_run (to_summary r) with_discovered"

definition show_report :: "sync_report \<Rightarrow> string" where
  "show_report r =
     show_nat (rep_discovered r) @ '' discovered, '' @ show_nat (rep_added r) @ '' added, '' @ show_nat (rep_reused r) @ '' reused, '' @
     show_nat (rep_unchanged r) @ '' unchanged, '' @ show_nat (rep_unshared r) @ '' unshared, '' @ show_nat (rep_failed r) @ '' failed'' @
     (if rep_ended r > 0 then '' ('' @ show_nat (rep_ended r) @ '' share(s) ended on their date)'' else []) @
     (if rep_sources_failed r > 0
      then '' ('' @ show_nat (rep_sources_failed r) @ '' source(s) could not be scanned; their shares were left alone)'' else [])"

section \<open>Discovery\<close>

record discovery =
  dy_items :: "discovered list"
  dy_scanned :: "media_source list"
  dy_withdrawable :: "media_source list"
  dy_audiences :: "(media_source \<times> (int, string list) hashmap) list"
  dy_failures :: nat
  dy_library_unreadable :: "string option"

definition incomplete_note :: string where
  "incomplete_note =
     ''part of a library could not be listed '' @ [byte 0xE2, byte 0x80, byte 0x94] @
     '' new files are still shared, but nothing is withdrawn until the whole library can be read; see the log for which directory''"

definition take_scan :: "media_source \<Rightarrow> source_scan \<Rightarrow> discovery \<Rightarrow> discovery" where
  "take_scan kind scan dy =
     dy\<lparr>dy_scanned := List.insert kind (dy_scanned dy),
        dy_withdrawable := (if ss_complete scan then List.insert kind (dy_withdrawable dy) else dy_withdrawable dy),
        dy_library_unreadable := (if \<not> ss_complete scan \<and> kind = Directory then Some incomplete_note else dy_library_unreadable dy),
        dy_items := dy_items dy @ ss_items scan,
        dy_audiences := dy_audiences dy @ [(kind, ss_audience scan)]\<rparr>"

definition take_failure :: "media_source \<Rightarrow> string \<Rightarrow> discovery \<Rightarrow> discovery" where
  "take_failure kind reason dy =
     dy\<lparr>dy_failures := dy_failures dy + 1,
        dy_library_unreadable := (if kind = Directory then Some reason else dy_library_unreadable dy)\<rparr>"

definition discover :: "(media_source \<times> (string, source_scan) result) list \<Rightarrow> discovery" where
  "discover sources =
     foldl (\<lambda>dy (kind, r). case r of Inr scan \<Rightarrow> take_scan kind scan dy | Inl reason \<Rightarrow> take_failure kind reason dy)
       \<lparr>dy_items = [], dy_scanned = [], dy_withdrawable = [], dy_audiences = [], dy_failures = 0, dy_library_unreadable = None\<rparr>
       sources"

section \<open>Limits\<close>

definition upload_cap_now :: "('p, 'io, 'w) sync_env \<Rightarrow> string option \<Rightarrow> nat option" where
  "upload_cap_now env at = upload_limit_at (sd_seeding (ye_seeder env)) (ye_minute env at)"

definition track_cap_in_force :: "('p, 'io, 'w) sync_env \<Rightarrow> 'w sync_state \<Rightarrow> 'w sync_state" where
  "track_cap_in_force env st =
     (let cap = upload_cap_now env None in
      st\<lparr>sy_applied := (case sy_cap st of None \<Rightarrow> sy_applied st | Some previous \<Rightarrow> if previous \<noteq> cap then [] else sy_applied st),
         sy_cap := Some cap\<rparr>)"

definition limits_goal :: "('p, 'io, 'w) sync_env \<Rightarrow> string \<Rightarrow> seeding_limits" where
  "limits_goal env h =
     \<lparr>sl_upload_limit_kib = upload_cap_now env (Some h), sl_ratio_limit = sg_ratio_limit (sd_seeding (ye_seeder env))\<rparr>"

definition reconcile_limits ::
    "('p, 'io, 'w) sync_env \<Rightarrow> string \<Rightarrow> torrent_summary \<Rightarrow> ('w sync_state, ('p, 'io) sync_error, bool) fallible" where
  "reconcile_limits env h reported st =
     (if h \<in> set (sy_applied st) then (st, Inr False)
      else
        (let goal = limits_goal env h in
         run_then
           (if limits_match (ye_close env) goal reported then return_ok False
            else run_then (seeding_step (command (CallLimits h goal) (set_limits (ye_client env) h goal))) (\<lambda>_. return_ok True))
           (\<lambda>applied st. (st\<lparr>sy_applied := List.insert h (sy_applied st)\<rparr>, Inr applied)) st))"

section \<open>One item\<close>

text \<open>What every item of a pass shares (\<^verbatim>\<open>PassContext\<close>).\<close>

record pass_context =
  ps_announce :: announce_set
  ps_token_fp :: "string option"
  ps_live :: "(string, torrent_summary) hashmap"
  ps_torrents :: "torrent_summary list"
  ps_origins :: "(media_source \<times> int, item_origin) hashmap"
  ps_dry_run :: bool

definition paths_of :: "('p, 'io, 'w) sync_env \<Rightarrow> discovered \<Rightarrow> (path_error, resolved_paths) result" where
  "paths_of env item = resolve_for (ye_maps env) (d_source item) (path_components (d_arr_path item))"

definition watch ::
    "('p, 'io, 'w) sync_env \<Rightarrow> discovered \<Rightarrow> shared_item option \<Rightarrow> pass_context \<Rightarrow> (media_source \<times> int, file_stamp) hashmap \<Rightarrow>
       sync_report \<Rightarrow> 'w sync_state \<Rightarrow> 'w sync_state \<times> sync_report" where
  "watch env item known pass stamps report st =
     (case known of
        None \<Rightarrow> (st, report)
      | Some k \<Rightarrow>
          (case si_info_hash k of
             None \<Rightarrow> (st, report)
           | Some h \<Rightarrow>
               if si_state k \<noteq> Seeding \<or> \<not> si_created_by_sharerr k then (st, report)
               else
                 (let flag = \<lparr>fl_hash = h, fl_title = si_release_title k\<rparr> in
                  case map_of (ps_live pass) h of
                    None \<Rightarrow> (st, report\<lparr>rep_removed := rep_removed report @ [flag]\<rparr>)
                  | Some torrent \<Rightarrow>
                      (let report1 = (if ts_is_stopped torrent then report\<lparr>rep_stopped := rep_stopped report @ [flag]\<rparr> else report) in
                       case paths_of env item of
                         Inl _ \<Rightarrow> (st, report1)
                       | Inr paths \<Rightarrow>
                           (case ye_stamp_of env (rp_sharerr paths) of
                              None \<Rightarrow> (st, report1)
                            | Some now \<Rightarrow>
                                (case map_of stamps (shared_item_key k) of
                                   Some stamped \<Rightarrow>
                                     (st, if stamped \<noteq> now then report1\<lparr>rep_changed := rep_changed report1 @ [flag]\<rparr> else report1)
                                 | None \<Rightarrow>
                                     if ps_dry_run pass then (st, report1)
                                     else
                                       (fst (write_items env (OpStamp (discovered_key item))
                                               (\<lambda>t. set_file_stamp (Some now) t (d_source item) (d_file_id item)) st), report1)))))))"

definition record_ratio ::
    "('p, 'io, 'w) sync_env \<Rightarrow> discovered \<Rightarrow> f64 option \<Rightarrow> f64 option \<Rightarrow> 'w sync_state \<Rightarrow> 'w sync_state" where
  "record_ratio env item ratio ratio_limit st =
     fst (write_items env (OpRatio (discovered_key item)) (\<lambda>now. set_ratio ratio ratio_limit now (d_source item) (d_file_id item)) st)"

definition recover_item_upstream ::
    "('p, 'io, 'w) sync_env \<Rightarrow> discovered \<Rightarrow> string \<Rightarrow> announce_set \<Rightarrow> 'w sync_state \<Rightarrow> 'w sync_state \<times> string list" where
  "recover_item_upstream env item h ann st =
     (case attempt (seeding_step (recover_upstream (ye_seed env) (ye_seeder env) (ye_client env) h ann)) st of
        (st1, None) \<Rightarrow> (st1, [])
      | (st1, Some found) \<Rightarrow>
          (let upstream = (case found of None \<Rightarrow> [] | Some u \<Rightarrow> u) in
           (fst (write_origin env (discovered_key item) (Some \<lparr>io_peer_id = None, io_upstream = upstream\<rparr>) st1), upstream)))"

text \<open>The trackers besides ours that a refresh has to keep.\<close>

definition item_upstream ::
    "('p, 'io, 'w) sync_env \<Rightarrow> discovered \<Rightarrow> shared_item \<Rightarrow> string \<Rightarrow> pass_context \<Rightarrow> 'w sync_state \<Rightarrow> 'w sync_state \<times> string list" where
  "item_upstream env item known h pass st =
     (case map_of (ps_origins pass) (discovered_key item) of
        Some origin \<Rightarrow> (st, io_upstream origin)
      | None \<Rightarrow> if \<not> si_created_by_sharerr known then recover_item_upstream env item h (ps_announce pass) st else (st, []))"

text \<open>The limits of a torrent that is ours, and the ratio limit then in force.\<close>

definition ratio_limit_in_force ::
    "('p, 'io, 'w) sync_env \<Rightarrow> shared_item \<Rightarrow> string \<Rightarrow> torrent_summary \<Rightarrow> 'w sync_state \<Rightarrow> 'w sync_state \<times> f64 option" where
  "ratio_limit_in_force env known h reported st =
     (if si_created_by_sharerr known
      then (case attempt (reconcile_limits env h reported) st of
              (st', Some True) \<Rightarrow>
                (st', case sg_ratio_limit (sd_seeding (ye_seeder env)) of None \<Rightarrow> ts_ratio_limit reported | Some r \<Rightarrow> Some r)
            | (st', _) \<Rightarrow> (st', ts_ratio_limit reported))
      else (st, ts_ratio_limit reported))"

definition confirm_live ::
    "('p, 'io, 'w) sync_env \<Rightarrow> discovered \<Rightarrow> shared_item \<Rightarrow> string \<Rightarrow> torrent_summary \<Rightarrow> pass_context \<Rightarrow> 'w sync_state \<Rightarrow> 'w sync_state" where
  "confirm_live env item known h reported pass st =
     (let (st1, upstream) = item_upstream env item known h pass st;
          (st2, ratio_limit) = ratio_limit_in_force env known h reported st1
      in case attempt (seeding_step (refresh_announce (ye_seed env) (ye_seeder env) (ye_client env) h (ps_announce pass) upstream)) st2 of
           (st3, Some NoCachedTorrent) \<Rightarrow> record_ratio env item (ts_ratio reported) ratio_limit st3
         | (st3, Some _) \<Rightarrow>
             fst (write_items env (OpConfirm (discovered_key item))
                    (\<lambda>now. confirm_seeding (ps_token_fp pass) (ts_ratio reported) ratio_limit now (d_source item) (d_file_id item)) st3)
         | (st3, None) \<Rightarrow> record_ratio env item (ts_ratio reported) ratio_limit st3)"

datatype step = StepAdded | StepReused | StepUnchanged

text \<open>What is recorded of an outcome: the step, privacy, stamp, whether the torrent is ours, its v2 hash and its origin.\<close>

definition outcome_columns ::
    "file_stamp option \<Rightarrow> seed_outcome \<Rightarrow>
       step \<times> bool option \<times> file_stamp option \<times> bool \<times> string option \<times> item_origin option" where
  "outcome_columns stamp outcome =
     (case outcome of
        Added _ private' v2 \<Rightarrow> (StepAdded, Some private', stamp, True, v2, None)
      | Reused _ upstream \<Rightarrow> (StepReused, None, None, False, None, Some \<lparr>io_peer_id = None, io_upstream = upstream\<rparr>)
      | Joined _ origin (Some a) \<Rightarrow> (StepReused, Some (at_private a), stamp, True, at_info_hash_v2 a, Some origin)
      | Joined _ origin None \<Rightarrow> (StepReused, None, None, False, None, Some origin))"

definition record_outcome ::
    "('p, 'io, 'w) sync_env \<Rightarrow> discovered \<Rightarrow> pass_context \<Rightarrow> file_stamp option \<Rightarrow> seed_outcome \<Rightarrow>
       ('w sync_state, ('p, 'io) sync_error, step) fallible" where
  "record_outcome env item pass stamp_before outcome =
     (case outcome_columns stamp_before outcome of (step, private', stamp, created, v2, origin) \<Rightarrow>
       (let key = discovered_key item in
        run_then (write_items env (OpSeeding key)
                    (\<lambda>now. set_seeding (outcome_info_hash outcome) (ps_token_fp pass) created private' now (d_source item) (d_file_id item))) (\<lambda>_.
        run_then (case v2 of
                    None \<Rightarrow> return_ok ()
                  | Some h2 \<Rightarrow> write_items env (OpV2 key) (\<lambda>now. set_info_hash_v2 h2 now (d_source item) (d_file_id item))) (\<lambda>_.
        run_then (write_origin env key origin) (\<lambda>_ st.
          (fst (write_items env (OpStamp key) (\<lambda>now. set_file_stamp stamp now (d_source item) (d_file_id item)) st), Inr step))))))"

definition share_new ::
    "('p, 'io, 'w) sync_env \<Rightarrow> discovered \<Rightarrow> pass_context \<Rightarrow> shared_item option \<Rightarrow> resolved_paths \<Rightarrow>
       ('w sync_state, ('p, 'io) sync_error, step) fallible" where
  "share_new env item pass known paths st =
     (let key = discovered_key item;
          matches = (case snd (store_read env (OpMatches key)
                               (\<lambda>db. Inr (peer_catalog_matches (d_spec item) (d_ids item) (d_size item) db)) st) of
                       Inl _ \<Rightarrow> [] | Inr ms \<Rightarrow> ms)
      in run_then
           (seeding_step (seed (ye_seed env) (ye_seeder env) (ye_client env) paths (ps_announce pass) (ps_torrents pass)
              (Option.bind known si_info_hash) (d_media item)
              \<lparr>ft_matches = matches, ft_joined = map_of (ps_origins pass) key\<rparr>))
           (record_outcome env item pass (ye_stamp_of env (rp_sharerr paths))) st)"

definition probed :: "('p, 'io, 'w) sync_env \<Rightarrow> discovered \<Rightarrow> discovered" where
  "probed env item =
     (case d_media item of
        Some _ \<Rightarrow> item
      | None \<Rightarrow> (case paths_of env item of
                   Inl _ \<Rightarrow> item
                 | Inr paths \<Rightarrow> (case ye_probe env (rp_sharerr paths) of None \<Rightarrow> item | Some m \<Rightarrow> item\<lparr>d_media := Some m\<rparr>)))"

definition release_title_of :: "('p, 'io, 'w) sync_env \<Rightarrow> discovered \<Rightarrow> string" where
  "release_title_of env item =
     resolve_title (ye_titles env) (d_spec item) (d_scene_name item) (d_original_path item) (d_media item) (d_arr_path item) (d_scene item)"

definition share ::
    "('p, 'io, 'w) sync_env \<Rightarrow> discovered \<Rightarrow> pass_context \<Rightarrow> shared_item option \<Rightarrow>
       ('w sync_state, ('p, 'io) sync_error, step) fallible" where
  "share env item0 pass known st =
     (case Option.bind known (\<lambda>k. if si_state k = Seeding
              then Option.bind (si_info_hash k) (\<lambda>h. map_option (\<lambda>t. (k, h, t)) (map_of (ps_live pass) h)) else None) of
        Some (k, h, reported) \<Rightarrow>
          ((if ps_dry_run pass then st else confirm_live env item0 k h reported pass st), Inr StepUnchanged)
      | None \<Rightarrow>
          (let item = probed env item0 in
           run_then
             (if ps_dry_run pass then return_ok ()
              else write_items env (OpUpsert (discovered_key item))
                     (\<lambda>now t. fst (item_upsert (ye_gap env (OpUpsert (discovered_key item))) now
                                     (into_shared_item item (release_title_of env item)) t))) (\<lambda>_.
           run_then (of_result (case paths_of env item of Inl e \<Rightarrow> Inl (PathFailed e) | Inr p \<Rightarrow> Inr p)) (\<lambda>paths.
             if \<not> ye_exists env (rp_sharerr paths) then fail_with (FileMissing (rp_sharerr paths) (d_source item))
             else if ps_dry_run pass then return_ok StepAdded
             else share_new env item pass known paths)) st))"

section \<open>Withdrawing\<close>

definition remove_own :: "('p, 'io, 'w) sync_env \<Rightarrow> shared_item \<Rightarrow> 'w sync_state \<Rightarrow> 'w sync_state" where
  "remove_own env item st =
     (case (si_info_hash item, si_created_by_sharerr item) of
        (Some h, True) \<Rightarrow>
          fst (seeding_step (command (CallRemove h) (cl_remove (ye_client env) h)) st
               :: 'w sync_state \<times> (('p, 'io) sync_error, unit) result)
      | _ \<Rightarrow> st)"

definition unshare_one :: "('p, 'io, 'w) sync_env \<Rightarrow> shared_item \<Rightarrow> ('w sync_state, ('p, 'io) sync_error, unit) fallible" where
  "unshare_one env item st =
     write_items env (OpState (shared_item_key item))
       (\<lambda>now. set_state Unshared None now (si_source item) (si_file_id item)) (remove_own env item st)"

definition prepare_rebuild :: "('p, 'io, 'w) sync_env \<Rightarrow> shared_item \<Rightarrow> ('w sync_state, ('p, 'io) sync_error, unit) fallible" where
  "prepare_rebuild env item st =
     write_items env (OpReset (shared_item_key item))
       (\<lambda>now. reset_for_rebuild now (si_source item) (si_file_id item)) (remove_own env item st)"

definition is_stale :: "(media_source \<times> int) list \<Rightarrow> media_source list \<Rightarrow> shared_item \<Rightarrow> bool" where
  "is_stale tagged withdrawable item \<longleftrightarrow>
     si_source item \<in> set withdrawable \<and> shared_item_key item \<notin> set tagged \<and> si_state item \<in> {Seeding, Pending, Failed}"

fun withdraw_all :: "('p, 'io, 'w) sync_env \<Rightarrow> bool \<Rightarrow> shared_item list \<Rightarrow> nat \<Rightarrow> 'w sync_state \<Rightarrow> 'w sync_state \<times> nat" where
  "withdraw_all env dry_run [] count st = (st, count)"
| "withdraw_all env dry_run (item # items) count st =
     (if dry_run then withdraw_all env dry_run items (count + 1) st
      else
        (case unshare_one env item st of
           (st', Inr _) \<Rightarrow> withdraw_all env dry_run items (count + 1) st'
         | (st', Inl _) \<Rightarrow> withdraw_all env dry_run items count st'))"

definition withdraw_untagged ::
    "('p, 'io, 'w) sync_env \<Rightarrow> (media_source \<times> int, shared_item) hashmap \<Rightarrow> (media_source \<times> int) list \<Rightarrow> media_source list \<Rightarrow> bool \<Rightarrow>
       'w sync_state \<Rightarrow> 'w sync_state \<times> nat" where
  "withdraw_untagged env known tagged withdrawable dry_run =
     withdraw_all env dry_run (filter (is_stale tagged withdrawable) (ye_values env known)) 0"

section \<open>The pass\<close>

definition has_ended :: "(media_source \<times> int, int) hashmap \<Rightarrow> int \<Rightarrow> media_source \<times> int \<Rightarrow> bool" where
  "has_ended ends now key = (case map_of ends key of None \<Rightarrow> False | Some until \<Rightarrow> until \<le> now)"

text \<open>A share whose date passed is withdrawn, once.\<close>

definition end_share ::
    "('p, 'io, 'w) sync_env \<Rightarrow> bool \<Rightarrow> shared_item option \<Rightarrow> sync_report \<Rightarrow> 'w sync_state \<Rightarrow> 'w sync_state \<times> sync_report" where
  "end_share env dry_run known report st =
     (case known of
        Some k \<Rightarrow>
          if si_state k = Unshared then (st, report)
          else if dry_run then (st, report\<lparr>rep_ended := rep_ended report + 1\<rparr>)
          else
            (case unshare_one env k st of
               (st', Inr _) \<Rightarrow> (st', report\<lparr>rep_ended := rep_ended report + 1\<rparr>)
             | (st', Inl _) \<Rightarrow> (st', report))
      | None \<Rightarrow> (st, report))"

definition count_step ::
    "('p, 'io, 'w) sync_env \<Rightarrow> bool \<Rightarrow> discovered \<Rightarrow> sync_report \<Rightarrow> 'w sync_state \<times> (('p, 'io) sync_error, step) result \<Rightarrow>
       'w sync_state \<times> sync_report" where
  "count_step env dry_run item report outcome =
     (case outcome of
        (st, Inr StepAdded) \<Rightarrow> (st, report\<lparr>rep_added := rep_added report + 1\<rparr>)
      | (st, Inr StepReused) \<Rightarrow> (st, report\<lparr>rep_reused := rep_reused report + 1\<rparr>)
      | (st, Inr StepUnchanged) \<Rightarrow> (st, report\<lparr>rep_unchanged := rep_unchanged report + 1\<rparr>)
      | (st, Inl err) \<Rightarrow>
          ((if dry_run then st
            else fst (write_items env (OpState (discovered_key item))
                        (\<lambda>now. set_state Failed (Some (ye_show env err)) now (d_source item) (d_file_id item)) st)),
           report\<lparr>rep_failed := rep_failed report + 1\<rparr>))"

definition share_item ::
    "('p, 'io, 'w) sync_env \<Rightarrow> pass_context \<Rightarrow> (media_source \<times> int, shared_item) hashmap \<Rightarrow>
       (media_source \<times> int, file_stamp) hashmap \<Rightarrow> (media_source \<times> int, int) hashmap \<Rightarrow>
       discovered \<Rightarrow> 'w sync_state \<times> sync_report \<Rightarrow> 'w sync_state \<times> sync_report" where
  "share_item env pass known stamps ends item = (\<lambda>(st, report).
     (let k = map_of known (discovered_key item) in
      if has_ended ends (ye_now_epoch env) (discovered_key item) then end_share env (ps_dry_run pass) k report st
      else
        (case watch env item k pass stamps report st of
           (st1, report1) \<Rightarrow> count_step env (ps_dry_run pass) item report1 (share env item pass k st1))))"

fun share_items ::
    "('p, 'io, 'w) sync_env \<Rightarrow> pass_context \<Rightarrow> (media_source \<times> int, shared_item) hashmap \<Rightarrow>
       (media_source \<times> int, file_stamp) hashmap \<Rightarrow> (media_source \<times> int, int) hashmap \<Rightarrow>
       discovered list \<Rightarrow> 'w sync_state \<times> sync_report \<Rightarrow> 'w sync_state \<times> sync_report" where
  "share_items env pass known stamps ends [] acc = acc"
| "share_items env pass known stamps ends (item # items) acc =
     share_items env pass known stamps ends items (share_item env pass known stamps ends item acc)"

fun record_audiences ::
    "('p, 'io, 'w) sync_env \<Rightarrow> (media_source \<times> (int, string list) hashmap) list \<Rightarrow> ('w sync_state, ('p, 'io) sync_error, unit) fallible" where
  "record_audiences env [] st = (st, Inr ())"
| "record_audiences env ((kind, audience) # rest) st =
     run_then (store_write env (OpAudience kind) (\<lambda>_ db. Inr (replace_audience kind audience db)))
       (\<lambda>_. record_audiences env rest) st"

definition live_map :: "torrent_summary list \<Rightarrow> (string, torrent_summary) hashmap" where
  "live_map torrents = foldl (\<lambda>m t. hm_insert (to_ascii_lowercase (ts_hash t)) t m) [] torrents"

definition known_map :: "shared_item list \<Rightarrow> (media_source \<times> int, shared_item) hashmap" where
  "known_map items =
     foldl (\<lambda>m item. hm_insert (shared_item_key item) (item\<lparr>si_info_hash := map_option to_ascii_lowercase (si_info_hash item)\<rparr>) m) [] items"

text \<open>Everything after the reads.\<close>

definition pass_over ::
    "('p, 'io, 'w) sync_env \<Rightarrow> bool \<Rightarrow> discovery \<Rightarrow> announce_set \<Rightarrow> torrent_summary list \<Rightarrow> shared_item list \<Rightarrow>
       (media_source \<times> int, file_stamp) hashmap \<Rightarrow> (media_source \<times> int, int) hashmap \<Rightarrow> (media_source \<times> int, item_origin) hashmap \<Rightarrow>
       ('w sync_state, ('p, 'io) sync_error, sync_report) fallible" where
  "pass_over env dry_run dy ann torrents items stamps ends origs st =
     (let known = known_map items;
          pass = \<lparr>ps_announce = ann, ps_token_fp = token_fingerprint env ann, ps_live = live_map torrents, ps_torrents = torrents,
                  ps_origins = origs, ps_dry_run = dry_run\<rparr>;
          report = sync_report_default\<lparr>rep_discovered := length (dy_items dy), rep_sources_failed := dy_failures dy,
                     rep_library_unreadable := dy_library_unreadable dy\<rparr>
      in case share_items env pass known stamps ends (dy_items dy) (st, report) of
           (st1, report1) \<Rightarrow>
             (case withdraw_untagged env known (map discovered_key (dy_items dy)) (dy_withdrawable dy) dry_run st1 of
                (st2, n) \<Rightarrow> (st2, Inr (report1\<lparr>rep_unshared := n\<rparr>))))"

text \<open>The reads are started together; which of their failures ends the pass is decided in this order.\<close>

definition after_reads ::
    "('p, 'io, 'w) sync_env \<Rightarrow> bool \<Rightarrow> announce_set \<Rightarrow> (('p, 'io) sync_error, torrent_summary list) result \<Rightarrow>
       (('p, 'io) sync_error, shared_item list) result \<Rightarrow> (media_source \<times> int, file_stamp) hashmap \<Rightarrow>
       (('p, 'io) sync_error, (media_source \<times> int, int) hashmap) result \<Rightarrow>
       (('p, 'io) sync_error, (media_source \<times> int, item_origin) hashmap) result \<Rightarrow>
       ('w sync_state, ('p, 'io) sync_error, sync_report) fallible" where
  "after_reads env dry_run ann torrents known_items stamps ends origs =
     (let dy = discover (ye_sources env) in
      if dy_scanned dy = [] then fail_with NothingScanned
      else
        run_then (of_result ends) (\<lambda>ends.
        run_then (of_result origs) (\<lambda>origs.
        run_then (if dry_run then return_ok () else record_audiences env (dy_audiences dy)) (\<lambda>_.
        run_then (of_result torrents) (\<lambda>torrents.
        run_then (of_result known_items) (\<lambda>items.
          pass_over env dry_run dy ann torrents items stamps ends origs))))))"

definition read_all ::
    "('p, 'io, 'w) sync_env \<Rightarrow> bool \<Rightarrow> announce_set \<Rightarrow> ('w sync_state, ('p, 'io) sync_error, sync_report) fallible" where
  "read_all env dry_run ann st =
     (case seeding_step (query (cl_list (ye_client env))) st of
        (st', torrents) \<Rightarrow>
          after_reads env dry_run ann torrents
            (snd (store_read env OpItems (\<lambda>db. all_items (db_items db)) st'))
            (case snd (store_read env OpStamps (\<lambda>db. file_stamps (db_items db)) st') of Inl _ \<Rightarrow> [] | Inr m \<Rightarrow> m)
            (snd (store_read env OpEnds (\<lambda>db. share_ends (db_items db)) st'))
            (snd (store_read env OpOrigins (\<lambda>db. Inr (item_origins (db_items db))) st')) st')"

definition reconcile :: "('p, 'io, 'w) sync_env \<Rightarrow> bool \<Rightarrow> ('w sync_state, ('p, 'io) sync_error, sync_report) fallible" where
  "reconcile env dry_run st =
     run_then (map_err TrackerFailed (of_result (ye_ready env))) (\<lambda>_.
     run_then (map_err TrackerFailed (of_result (ye_announce env))) (read_all env dry_run))
       (if dry_run then st else track_cap_in_force env st)"

definition run :: "('p, 'io, 'w) sync_env \<Rightarrow> bool \<Rightarrow> ('w sync_state, ('p, 'io) sync_error, sync_report) fallible" where
  "run env dry_run st =
     (if dry_run then reconcile env dry_run st
      else
        (case ye_fails env OpBegin of
           Some e \<Rightarrow> (st, Inl (StoreFailed e))
         | None \<Rightarrow>
             (case begin_run (ye_gap env OpBegin) (ye_now env OpBegin) (sy_db st) of
                (db, rid) \<Rightarrow>
                  (case reconcile env dry_run (st\<lparr>sy_db := db\<rparr>) of
                     (st1, outcome) \<Rightarrow>
                       (let s = (case outcome of Inr report \<Rightarrow> to_summary report | Inl err \<Rightarrow> failed_summary (ye_show env err)) in
                        (fst (store_write env OpFinish (\<lambda>now db. Inr (finish_run now rid s db)) st1
                              :: 'w sync_state \<times> (('p, 'io) sync_error, unit) result), outcome))))))"

text \<open>The video libraries, whose folders may hold files beside the film or episode.\<close>

datatype library_kind = LibTv | LibMovie | LibMusic | LibBook

record library =
  lb_path :: rpath
  lb_kind :: library_kind

definition sidecar_roots :: "seeding_config \<Rightarrow> library list \<Rightarrow> rpath list" where
  "sidecar_roots seeding libraries =
     (if \<not> sg_sidecars seeding then [] else map lb_path (filter (\<lambda>l. lb_kind l \<in> {LibTv, LibMovie}) libraries))"

section \<open>A dry run\<close>

lemma seeding_step_fst: "fst (seeding_step m st) = st\<lparr>sy_seed := fst (m (sy_seed st))\<rparr>"
  by (simp add: seeding_step_def case_prod_beta)

lemma store_read_fst [simp]: "fst (store_read env op f st) = st"
  by (simp add: store_read_def)

lemma watch_dry [simp]: "ps_dry_run pass \<Longrightarrow> fst (watch env item known pass stamps report st) = st"
  by (auto simp: watch_def Let_def split: option.split sum.split)

lemma share_dry [simp]: "ps_dry_run pass \<Longrightarrow> fst (share env item pass known st) = st"
  by (simp add: share_def Let_def fst_run_then split: option.split sum.split)

lemma count_step_dry [simp]: "fst (count_step env True item report outcome) = fst outcome"
  by (auto simp: count_step_def split: prod.split sum.split step.split)

lemma end_share_dry [simp]: "fst (end_share env True known report st) = st"
  by (simp add: end_share_def split: option.split)

lemma share_items_dry: "ps_dry_run pass \<Longrightarrow> fst (share_items env pass known stamps ends items acc) = fst acc"
proof (induction items arbitrary: acc)
  case (Cons item items)
  then have "fst (share_item env pass known stamps ends item acc) = fst acc"
    by (simp add: share_item_def Let_def case_prod_beta)
  then show ?case using Cons by simp
qed simp

lemma withdraw_all_dry: "withdraw_all env True items n st = (st, n + length items)"
  by (induction items arbitrary: n) auto

lemma pass_over_dry: "fst (pass_over env True dy ann torrents items stamps ends origs st) = st"
  by (simp add: pass_over_def Let_def case_prod_beta share_items_dry withdraw_untagged_def withdraw_all_dry)

lemma query_fst: "fst (query f st) = st\<lparr>wd_client := fst (f (wd_client st))\<rparr>"
  by (simp add: query_def case_prod_beta)

text \<open>
  C37. A dry run changes nothing: whatever the sources and the client answer, whatever the database refuses, and on every
  error path, the database, the cached torrents, the notes about limits and announce URLs and what was asked of the client
  are as before; at most the client's list of torrents was read.
\<close>

theorem dry_run_changes_nothing:
  "fst (run env True st) = st \<or>
   fst (run env True st) =
     st\<lparr>sy_seed := (sy_seed st)\<lparr>wd_client := fst (cl_list (ye_client env) (wd_client (sy_seed st)))\<rparr>\<rparr>"
  by (simp add: run_def reconcile_def read_all_def after_reads_def Let_def fst_run_then case_prod_beta seeding_step_fst query_fst
      pass_over_dry split: sum.split)

end
