(* ===== verification/Sync_Pass.thy ===== *)
theory Sync_Pass
  imports Syncer
begin

text \<open>
  What a reconciliation pass may take away: which shares it withdraws and which torrents it removes from the client.
\<close>

section \<open>Withdrawals\<close>

definition unshared_keys :: "database \<Rightarrow> (string \<times> int) set" where
  "unshared_keys db = {(ir_source r, ir_file_id r) | r. r \<in> set (rows (db_items db)) \<and> ir_state r = share_state_str Unshared}"

text \<open>From one state to a later one: only keys in \<open>P\<close> became unshared, and only torrents in \<open>R\<close> were removed.\<close>

definition withdraws :: "(string \<times> int \<Rightarrow> bool) \<Rightarrow> (string \<Rightarrow> bool) \<Rightarrow> 'w sync_state \<Rightarrow> 'w sync_state \<Rightarrow> bool" where
  "withdraws P R st st' \<longleftrightarrow>
     (\<forall>k \<in> unshared_keys (sy_db st'). k \<in> unshared_keys (sy_db st) \<or> P k) \<and>
     (\<exists>calls. wd_calls (sy_seed st') = wd_calls (sy_seed st) @ calls \<and> (\<forall>h. CallRemove h \<in> set calls \<longrightarrow> R h))"

lemma withdrawsI:
  assumes "\<And>k. k \<in> unshared_keys (sy_db st') \<Longrightarrow> k \<in> unshared_keys (sy_db st) \<or> P k"
    and "wd_calls (sy_seed st') = wd_calls (sy_seed st) @ calls" "\<And>h. CallRemove h \<in> set calls \<Longrightarrow> R h"
  shows "withdraws P R st st'"
  using assms unfolding withdraws_def by blast

interpretation withdrawing: step_order "withdraws P R" for P R
proof
  show "withdraws P R s s" for s by (simp add: withdraws_def)
  show "withdraws P R s s''" if w: "withdraws P R s s'" "withdraws P R s' s''" for s s' s''
  proof -
    obtain a b where "wd_calls (sy_seed s') = wd_calls (sy_seed s) @ a" "\<forall>h. CallRemove h \<in> set a \<longrightarrow> R h"
        "wd_calls (sy_seed s'') = wd_calls (sy_seed s') @ b" "\<forall>h. CallRemove h \<in> set b \<longrightarrow> R h"
      using w unfolding withdraws_def by blast
    then show ?thesis using w unfolding withdraws_def by (intro conjI exI [of _ "a @ b"]) auto
  qed
qed

lemma withdraws_write:
  assumes "\<And>now db db' k. f now db = Inr db' \<Longrightarrow> k \<in> unshared_keys db' \<Longrightarrow> k \<in> unshared_keys db \<or> P k"
  shows "withdraws P R st (fst (store_write env op f st))"
proof (rule withdrawsI [where calls = "[]"])
  show "k \<in> unshared_keys (sy_db st) \<or> P k" if "k \<in> unshared_keys (sy_db (fst (store_write env op f st)))" for k
    using that assms [of "ye_now env op" "sy_db st" _ k] by (auto simp: store_write_def split: option.splits sum.splits)
qed (auto simp: store_write_def split: option.split sum.split)

text \<open>Statements that mark nothing as unshared.\<close>

definition keeps_shared :: "(item_row \<Rightarrow> item_row) \<Rightarrow> bool" where
  "keeps_shared g \<longleftrightarrow>
     (\<forall>r. ir_source (g r) = ir_source r \<and> ir_file_id (g r) = ir_file_id r \<and>
        (ir_state (g r) = share_state_str Unshared \<longrightarrow> ir_state r = share_state_str Unshared))"

lemma unshared_update_item:
  assumes "keeps_shared g" "k \<in> unshared_keys (db\<lparr>db_items := fst (update_item g now source file_id (db_items db))\<rparr>)"
  shows "k \<in> unshared_keys db"
  using assms by (auto simp: unshared_keys_def update_item_def keeps_shared_def split: if_splits)

lemma withdraws_update:
  assumes "\<And>now. keeps_shared (g now)"
  shows "withdraws P R st (fst (write_items env op (\<lambda>now t. fst (update_item (g now) now source file_id t)) st))"
  unfolding write_items_def by (rule withdraws_write) (use assms unshared_update_item in blast)

lemma withdraws_item_writes:
  "withdraws P R st (fst (write_items env op (\<lambda>now. set_file_stamp stamp now source file_id) st))"
  "withdraws P R st (fst (write_items env op (\<lambda>now. set_ratio ratio limit now source file_id) st))"
  "withdraws P R st (fst (write_items env op (\<lambda>now. confirm_seeding fp ratio limit now source file_id) st))"
  "withdraws P R st (fst (write_items env op (\<lambda>now. set_seeding h fp created private' now source file_id) st))"
  "withdraws P R st (fst (write_items env op (\<lambda>now. set_info_hash_v2 h2 now source file_id) st))"
  "withdraws P R st (fst (write_items env op (\<lambda>now. set_state Failed err now source file_id) st))"
  unfolding set_file_stamp_def set_ratio_def confirm_seeding_def set_seeding_def set_info_hash_v2_def set_state_def
  by (rule withdraws_update; simp add: keeps_shared_def share_state_str_def)+

lemma withdraws_upsert:
  "withdraws P R st (fst (write_items env op (\<lambda>now t. fst (item_upsert gap now (into_shared_item item title) t)) st))"
  unfolding write_items_def
  by (rule withdraws_write)
     (auto simp: unshared_keys_def item_upsert_def Let_def new_row_def conflict_update_def into_shared_item_def share_state_str_def
       split: option.splits if_splits)

lemma withdraws_origin: "withdraws P R st (fst (write_origin env key origin st))"
  unfolding write_origin_def
  by (rule withdraws_write)
     (auto simp: unshared_keys_def set_item_origin_def clear_item_origin_def and_then_eq_Inr split: option.splits if_splits)

lemma withdraws_seeding:
  assumes "wd_calls (fst (m (sy_seed st))) = wd_calls (sy_seed st) @ calls" "\<And>h. CallRemove h \<notin> set calls"
  shows "withdraws P R st (fst (seeding_step m st))"
  by (rule withdrawsI [where calls = calls]) (use assms in \<open>auto simp: seeding_step_fst\<close>)

lemma refresh_calls:
  "\<exists>calls. wd_calls (fst (refresh_announce env sd cl h ann upstream st)) = wd_calls st @ calls \<and> (\<forall>h. CallRemove h \<notin> set calls)"
  by (auto simp: refresh_announce_def Let_def fst_run_then split: sum.split option.split retargeted.split)

lemma recover_calls: "wd_calls (fst (recover_upstream env sd cl h ann st)) = wd_calls st"
  by (simp add: recover_upstream_def Let_def fst_run_then split: sum.split option.split)

lemma seed_calls_no_remove:
  "\<exists>calls. wd_calls (fst (seed env sd cl paths ann torrents known media friends st)) = wd_calls st @ calls \<and> (\<forall>h. CallRemove h \<notin> set calls)"
  by (auto simp: seed_calls split: sum.split option.split prod.split)

text \<open>One item is brought up to date or shared without withdrawing anything.\<close>

lemma withdraws_watch: "withdraws P R st (fst (watch env item known pass stamps report st))"
  by (auto simp: watch_def Let_def withdrawing.rel_refl withdraws_item_writes split: option.split sum.split)

lemma withdraws_ratio: "withdraws P R st (record_ratio env item ratio limit st)"
  by (simp add: record_ratio_def withdraws_item_writes)

lemma withdraws_recover: "withdraws P R st (fst (recover_item_upstream env item h ann st))"
proof -
  have "withdraws P R st (fst (seeding_step (recover_upstream (ye_seed env) (ye_seeder env) (ye_client env) h ann) st))"
    by (rule withdraws_seeding [where calls = "[]"]) (simp_all add: recover_calls)
  then show ?thesis
    by (auto simp: recover_item_upstream_def case_prod_beta Let_def intro: withdrawing.rel_trans withdraws_origin split: option.split)
qed

lemma withdraws_limits: "withdraws P R st (fst (reconcile_limits env h reported st))"
proof -
  have memo: "withdraws P R s (s\<lparr>sy_applied := x\<rparr>)" for s x by (simp add: withdraws_def)
  have call: "withdraws P R s (fst (seeding_step (command (CallLimits h goal) f) s))" for s goal and f :: "_ \<Rightarrow> _ \<times> (client_error, unit) result"
    by (rule withdraws_seeding [where calls = "[CallLimits h goal]"]) simp_all
  show ?thesis
    unfolding reconcile_limits_def Let_def
    by (auto simp: withdrawing.rel_refl memo call intro!: withdrawing.rel_run_then)
qed

lemma withdraws_refresh:
  "withdraws P R st (fst (seeding_step (refresh_announce env sd cl h ann upstream) st))"
proof -
  obtain calls where "wd_calls (fst (refresh_announce env sd cl h ann upstream (sy_seed st))) = wd_calls (sy_seed st) @ calls"
      "\<forall>h. CallRemove h \<notin> set calls" using refresh_calls by blast
  then show ?thesis by (intro withdraws_seeding) auto
qed

lemma withdraws_confirm: "withdraws P R st (confirm_live env item known h reported pass st)"
proof -
  let ?a = "item_upstream env item known h pass st"
  let ?b = "ratio_limit_in_force env known h reported (fst ?a)"
  let ?c = "seeding_step (refresh_announce (ye_seed env) (ye_seeder env) (ye_client env) h (ps_announce pass) (snd ?a)) (fst ?b)"
  have "withdraws P R st (fst ?a)"
    by (simp add: item_upstream_def withdrawing.rel_refl withdraws_recover split: option.split)
  moreover have "withdraws P R (fst ?a) (fst ?b)"
    using withdraws_limits [of P R "fst ?a" env h reported]
    by (simp add: ratio_limit_in_force_def case_prod_beta withdrawing.rel_refl split: option.split bool.split)
  moreover have "withdraws P R (fst ?b) (fst ?c)" by (rule withdraws_refresh)
  ultimately have "withdraws P R st (fst ?c)" using withdrawing.rel_trans by blast
  note after = withdrawing.rel_trans [OF this]
  show ?thesis unfolding confirm_live_def case_prod_beta Let_def
    by (simp add: after withdraws_ratio withdraws_item_writes(3) split: option.split announce_refresh.split)
qed

lemma withdraws_outcome: "withdraws P R st (fst (record_outcome env item pass stamp outcome st))"
  unfolding record_outcome_def case_prod_beta Let_def
  by (intro withdrawing.rel_run_then) (auto simp: withdraws_item_writes withdraws_origin withdrawing.rel_refl split: option.split)

lemma withdraws_share_new: "withdraws P R st (fst (share_new env item pass known paths st))"
proof -
  have "withdraws P R st (fst (seeding_step (seed sev sd cl paths ann torrents k media friends) st))" for sev sd cl ann torrents k media friends
  proof -
    obtain calls where "wd_calls (fst (seed sev sd cl paths ann torrents k media friends (sy_seed st))) = wd_calls (sy_seed st) @ calls"
        "\<forall>h. CallRemove h \<notin> set calls" using seed_calls_no_remove by blast
    then show ?thesis by (intro withdraws_seeding) auto
  qed
  then show ?thesis unfolding share_new_def Let_def by (intro withdrawing.rel_run_then withdraws_outcome)
qed

lemma withdraws_share: "withdraws P R st (fst (share env item pass known st))"
proof -
  let ?i = "probed env item"
  have "withdraws P R st (fst (run_then
             (if ps_dry_run pass then return_ok ()
              else write_items env (OpUpsert (discovered_key ?i))
                     (\<lambda>now t. fst (item_upsert (ye_gap env (OpUpsert (discovered_key ?i))) now
                                     (into_shared_item ?i (release_title_of env ?i)) t))) (\<lambda>_.
           run_then (of_result (case paths_of env ?i of Inl e \<Rightarrow> Inl (PathFailed e) | Inr p \<Rightarrow> Inr p)) (\<lambda>paths.
             if \<not> ye_exists env (rp_sharerr paths) then fail_with (FileMissing (rp_sharerr paths) (d_source ?i))
             else if ps_dry_run pass then return_ok StepAdded
             else share_new env ?i pass known paths)) st))"
    by (intro withdrawing.rel_run_then) (auto simp: withdrawing.rel_refl withdraws_upsert withdraws_share_new)
  then show ?thesis
    by (auto simp: share_def Let_def withdrawing.rel_refl withdraws_confirm split: option.split)
qed

lemma withdraws_remove_own:
  assumes "\<And>h. si_info_hash k = Some h \<Longrightarrow> si_created_by_sharerr k \<Longrightarrow> R h"
  shows "withdraws P R st (remove_own env k st)"
proof (cases "\<exists>h. si_info_hash k = Some h \<and> si_created_by_sharerr k")
  case True
  then obtain h where h: "si_info_hash k = Some h" "si_created_by_sharerr k" by blast
  then show ?thesis using assms
    by (intro withdrawsI [where calls = "[CallRemove h]"]) (auto simp: remove_own_def seeding_step_fst)
next
  case False
  then have "remove_own env k st = st" by (auto simp: remove_own_def split: option.split bool.split)
  then show ?thesis by (simp add: withdrawing.rel_refl)
qed

lemma withdraws_unshare:
  assumes "\<And>h. si_info_hash k = Some h \<Longrightarrow> si_created_by_sharerr k \<Longrightarrow> R h" "P (media_source_str (si_source k), si_file_id k)"
  shows "withdraws P R st (fst (unshare_one env k st))"
proof -
  have "withdraws P R s (fst (write_items env op (\<lambda>now. set_state Unshared None now (si_source k) (si_file_id k)) s))" for s op
    unfolding write_items_def
    by (rule withdraws_write) (use assms(2) in \<open>auto simp: unshared_keys_def set_state_def update_item_def key_matches_def split: if_splits\<close>)
  moreover have "withdraws P R st (remove_own env k st)" by (rule withdraws_remove_own [OF assms(1)])
  ultimately show ?thesis unfolding unshare_one_def using withdrawing.rel_trans by blast
qed

lemma withdraws_all:
  assumes "\<And>k h. k \<in> set ks \<Longrightarrow> si_info_hash k = Some h \<Longrightarrow> si_created_by_sharerr k \<Longrightarrow> R h"
    and "\<And>k. k \<in> set ks \<Longrightarrow> P (media_source_str (si_source k), si_file_id k)"
  shows "withdraws P R st (fst (withdraw_all env dry ks n st))"
  using assms
proof (induction ks arbitrary: n st)
  case (Cons k ks)
  have "withdraws P R st (fst (unshare_one env k st))" by (rule withdraws_unshare) (use Cons.prems in auto)
  note first = withdrawing.rel_trans [OF this]
  have "withdraws P R s (fst (withdraw_all env dry ks m s))" for s m by (rule Cons.IH) (use Cons.prems in auto)
  then show ?case using first by (cases dry) (simp_all add: case_prod_beta split: sum.split)
qed (simp add: withdrawing.rel_refl)

lemma withdraws_item:
  assumes "\<And>k h. map_of known (discovered_key item) = Some k \<Longrightarrow> has_ended ends (ye_now_epoch env) (discovered_key item) \<Longrightarrow>
      si_info_hash k = Some h \<Longrightarrow> si_created_by_sharerr k \<Longrightarrow> R h"
    and "\<And>k. map_of known (discovered_key item) = Some k \<Longrightarrow> has_ended ends (ye_now_epoch env) (discovered_key item) \<Longrightarrow>
      P (media_source_str (si_source k), si_file_id k)"
  shows "withdraws P R (fst acc) (fst (share_item env pass known stamps ends item acc))"
proof (cases "has_ended ends (ye_now_epoch env) (discovered_key item)")
  case True
  have "withdraws P R st (fst (unshare_one env k st))" if "map_of known (discovered_key item) = Some k" for k st
    by (rule withdraws_unshare) (use assms that True in auto)
  then show ?thesis using True
    by (auto simp: share_item_def case_prod_beta end_share_def withdrawing.rel_refl split: option.split sum.split)
next
  case False
  let ?k = "map_of known (discovered_key item)"
  let ?w = "watch env item ?k pass stamps (snd acc) (fst acc)"
  let ?s = "share env item pass ?k (fst ?w)"
  have "withdraws P R (fst ?s) (fst (count_step env (ps_dry_run pass) item (snd ?w) ?s))"
    by (auto simp: count_step_def withdrawing.rel_refl withdraws_item_writes split: prod.split sum.split step.split)
  then have "withdraws P R (fst acc) (fst (count_step env (ps_dry_run pass) item (snd ?w) ?s))"
    using withdraws_watch withdraws_share withdrawing.rel_trans by meson
  then show ?thesis using False by (simp add: share_item_def case_prod_beta Let_def)
qed

lemma withdraws_items:
  assumes "\<And>item k h. item \<in> set items \<Longrightarrow> map_of known (discovered_key item) = Some k \<Longrightarrow>
      has_ended ends (ye_now_epoch env) (discovered_key item) \<Longrightarrow> si_info_hash k = Some h \<Longrightarrow> si_created_by_sharerr k \<Longrightarrow> R h"
    and "\<And>item k. item \<in> set items \<Longrightarrow> map_of known (discovered_key item) = Some k \<Longrightarrow>
      has_ended ends (ye_now_epoch env) (discovered_key item) \<Longrightarrow> P (media_source_str (si_source k), si_file_id k)"
  shows "withdraws P R (fst acc) (fst (share_items env pass known stamps ends items acc))"
  using assms
proof (induction items arbitrary: acc)
  case (Cons item items)
  have "withdraws P R (fst acc) (fst (share_item env pass known stamps ends item acc))"
    by (rule withdraws_item) (use Cons.prems(1) [of item] Cons.prems(2) [of item] in simp_all)
  moreover have "withdraws P R (fst a) (fst (share_items env pass known stamps ends items a))" for a
    by (rule Cons.IH; rule Cons.prems [OF list.set_intros(2)]; assumption)
  ultimately show ?case using withdrawing.rel_trans by (simp, blast)
qed (simp add: withdrawing.rel_refl)

section \<open>When a pass may withdraw\<close>

lemma set_foldl_insert: "set (foldl (\<lambda>m x. hm_insert (f x) (g x) m) m xs) \<subseteq> set m \<union> (\<lambda>x. (f x, g x)) ` set xs"
proof (induction xs arbitrary: m)
  case (Cons x xs)
  have "set (hm_insert k v m) \<subseteq> insert (k, v) (set m)" for k and v
    by (induction m) (auto simp: hm_insert_def)
  then show ?case using Cons [of "hm_insert (f x) (g x) m"] by fastforce
qed simp

lemma known_map_entry:
  assumes "(key, k) \<in> set (known_map items)"
  obtains i where "i \<in> set items" "key = shared_item_key i" "k = i\<lparr>si_info_hash := map_option to_ascii_lowercase (si_info_hash i)\<rparr>"
  using assms set_foldl_insert [of shared_item_key "\<lambda>i. i\<lparr>si_info_hash := map_option to_ascii_lowercase (si_info_hash i)\<rparr>" "[]" items]
  unfolding known_map_def by auto

lemma share_ends_entry:
  assumes "share_ends t = Inr ends" "map_of ends (source, file_id) = Some until"
  shows "\<exists>r \<in> set (rows t). ir_source r = media_source_str source \<and> ir_file_id r = file_id \<and> ir_share_until r = Some until"
proof -
  obtain kvs where kvs: "collect_result (\<lambda>r. and_then (row_key r) (\<lambda>k. Inr (k, the (ir_share_until r))))
      (filter (\<lambda>r. ir_share_until r \<noteq> None) (rows t)) = Inr kvs" "ends = foldl (\<lambda>m (k, v). hm_insert k v m) [] kvs"
    using assms(1) by (auto simp: share_ends_def and_then_eq_Inr)
  have "((source, file_id), until) \<in> set kvs"
    using map_of_SomeD [OF assms(2)] set_foldl_insert [of fst snd "[]" kvs] unfolding kvs(2) case_prod_beta by auto
  then obtain r where "r \<in> set (filter (\<lambda>r. ir_share_until r \<noteq> None) (rows t))"
      "and_then (row_key r) (\<lambda>k. Inr (k, the (ir_share_until r))) = Inr ((source, file_id), until)"
    using kvs(1) unfolding collect_result_Inr_iff list_all2_conv_all_nth by (metis in_set_conv_nth)
  then show ?thesis by (auto simp: row_key_def and_then_eq_Inr ok_or_eq_Inr parse_source_iff)
qed

lemma discover_items:
  "dy_items (discover sources) = concat (map (\<lambda>(_, r). case r of Inl _ \<Rightarrow> [] | Inr scan \<Rightarrow> ss_items scan) sources)"
  "source \<in> set (dy_withdrawable (discover sources)) \<longleftrightarrow> (\<exists>scan. (source, Inr scan) \<in> set sources \<and> ss_complete scan)"
  "source \<in> set (dy_scanned (discover sources)) \<longleftrightarrow> (\<exists>scan. (source, Inr scan) \<in> set sources)"
proof -
  let ?f = "\<lambda>dy (kind, r). case r of Inr scan \<Rightarrow> take_scan kind scan dy | Inl reason \<Rightarrow> take_failure kind reason dy"
  have "dy_items (foldl ?f dy sources) =
        dy_items dy @ concat (map (\<lambda>(_, r). case r of Inl _ \<Rightarrow> [] | Inr scan \<Rightarrow> ss_items scan) sources) \<and>
      (source \<in> set (dy_withdrawable (foldl ?f dy sources)) \<longleftrightarrow>
        source \<in> set (dy_withdrawable dy) \<or> (\<exists>scan. (source, Inr scan) \<in> set sources \<and> ss_complete scan)) \<and>
      (source \<in> set (dy_scanned (foldl ?f dy sources)) \<longleftrightarrow>
        source \<in> set (dy_scanned dy) \<or> (\<exists>scan. (source, Inr scan) \<in> set sources))" for dy
  proof (induction sources arbitrary: dy)
    case (Cons x sources)
    obtain kind r where x: "x = (kind, r)" by (cases x)
    show ?case using Cons [of "?f dy x"] by (cases r) (auto simp: x take_scan_def take_failure_def)
  qed simp
  then show "dy_items (discover sources) = concat (map (\<lambda>(_, r). case r of Inl _ \<Rightarrow> [] | Inr scan \<Rightarrow> ss_items scan) sources)"
    "source \<in> set (dy_withdrawable (discover sources)) \<longleftrightarrow> (\<exists>scan. (source, Inr scan) \<in> set sources \<and> ss_complete scan)"
    "source \<in> set (dy_scanned (discover sources)) \<longleftrightarrow> (\<exists>scan. (source, Inr scan) \<in> set sources)"
    by (simp_all add: discover_def)
qed

text \<open>
  A source that listed all of itself does not list the file, and no other source does under that key; or the recorded day the
  share ends has come.
\<close>

definition may_withdraw :: "('p, 'io, 'w) sync_env \<Rightarrow> database \<Rightarrow> string \<times> int \<Rightarrow> bool" where
  "may_withdraw env db key \<longleftrightarrow>
     (\<exists>source. media_source_str source = fst key \<and>
        ((\<exists>scan. (source, Inr scan) \<in> set (ye_sources env) \<and> ss_complete scan) \<and>
         (\<forall>kind scan. (kind, Inr scan) \<in> set (ye_sources env) \<longrightarrow> (source, snd key) \<notin> discovered_key ` set (ss_items scan)) \<or>
         (\<exists>r \<in> set (rows (db_items db)). ir_source r = fst key \<and> ir_file_id r = snd key \<and>
            (\<exists>until. ir_share_until r = Some until \<and> until \<le> ye_now_epoch env))))"

text \<open>The torrent of a row that is ours and may be withdrawn.\<close>

definition may_remove :: "('p, 'io, 'w) sync_env \<Rightarrow> database \<Rightarrow> string \<Rightarrow> bool" where
  "may_remove env db h \<longleftrightarrow>
     (\<exists>r \<in> set (rows (db_items db)). map_option to_ascii_lowercase (ir_info_hash r) = Some h \<and> ir_created_by r \<noteq> 0 \<and>
        may_withdraw env db (ir_source r, ir_file_id r))"

lemma not_listed:
  assumes "key \<notin> set (map discovered_key (dy_items (discover sources)))" "(kind, Inr scan) \<in> set sources"
  shows "key \<notin> discovered_key ` set (ss_items scan)"
proof
  assume "key \<in> discovered_key ` set (ss_items scan)"
  then have "key \<in> discovered_key ` set (dy_items (discover sources))"
    using assms(2) unfolding discover_items(1) by force
  then show False using assms(1) by simp
qed

lemma item_row_of:
  assumes "all_items t = Inr items" "i \<in> set items"
  obtains r where "r \<in> set (rows t)" "ir_source r = media_source_str (si_source i)" "ir_file_id r = si_file_id i"
    "ir_info_hash r = si_info_hash i" "si_created_by_sharerr i \<longleftrightarrow> ir_created_by r \<noteq> 0"
proof -
  obtain r where r: "r \<in> set (rows t)" "row_to_item r = Inr i"
    using assms unfolding all_items_def collect_result_Inr_iff list_all2_conv_all_nth by (metis in_set_conv_nth)
  have "si_created_by_sharerr i \<longleftrightarrow> ir_created_by r \<noteq> 0" using row_to_item_fields [OF r(2)] by simp
  then show thesis
    using that [OF r(1)] row_to_item_key [OF r(2)] row_to_item_fields [OF r(2)] by (simp add: parse_source_iff)
qed

lemma known_may_remove:
  assumes "all_items (db_items db) = Inr items" "(key, k) \<in> set (known_map items)"
    and "may_withdraw env db (media_source_str (si_source k), si_file_id k)" "si_created_by_sharerr k" "si_info_hash k = Some h"
  shows "may_remove env db h"
proof -
  obtain i where i: "i \<in> set items" "k = i\<lparr>si_info_hash := map_option to_ascii_lowercase (si_info_hash i)\<rparr>"
    by (rule known_map_entry [OF assms(2)])
  obtain r where "r \<in> set (rows (db_items db))" "ir_source r = media_source_str (si_source i)" "ir_file_id r = si_file_id i"
      "ir_info_hash r = si_info_hash i" "si_created_by_sharerr i \<longleftrightarrow> ir_created_by r \<noteq> 0"
    by (rule item_row_of [OF assms(1) i(1)])
  then show ?thesis unfolding may_remove_def using i(2) assms(3-5) by (intro bexI [of _ r]) auto
qed

lemma pass_over_withdraws:
  assumes items: "all_items (db_items db) = Inr items" and ends: "share_ends (db_items db) = Inr ends"
    and vals: "\<And>m. set (ye_values env m) \<subseteq> snd ` set m"
  shows "withdraws (may_withdraw env db) (may_remove env db) st
    (fst (pass_over env dry (discover (ye_sources env)) ann torrents items stamps ends origs st))"
proof -
  let ?P = "may_withdraw env db" and ?R = "may_remove env db"
  let ?known = "known_map items"
  note known = known_may_remove [OF items]
  have keyed: "key = (si_source k, si_file_id k)" if "(key, k) \<in> set ?known" for key k
    by (rule known_map_entry [OF that]) (simp add: shared_item_key_def)
  have ended: "?P (media_source_str (si_source k), si_file_id k)"
    if e: "map_of ?known key = Some k" "has_ended ends (ye_now_epoch env) key" for key k
  proof -
    obtain until where "map_of ends (si_source k, si_file_id k) = Some until" "until \<le> ye_now_epoch env"
      using e(2) keyed [OF map_of_SomeD [OF e(1)]] by (auto simp: has_ended_def split: option.splits)
    then show ?thesis using share_ends_entry [OF ends] unfolding may_withdraw_def by fastforce
  qed
  have stale: "?P (media_source_str (si_source k), si_file_id k)"
    if "is_stale (map discovered_key (dy_items (discover (ye_sources env)))) (dy_withdrawable (discover (ye_sources env))) k" for k
  proof -
    have complete: "\<exists>scan. (si_source k, Inr scan) \<in> set (ye_sources env) \<and> ss_complete scan"
      and "(si_source k, si_file_id k) \<notin> set (map discovered_key (dy_items (discover (ye_sources env))))"
      using that unfolding is_stale_def discover_items(2) shared_item_key_def by blast+
    note not_listed [OF this(2)]
    then show ?thesis unfolding may_withdraw_def using complete
      by (intro exI [of _ "si_source k"] conjI disjI1 allI impI) simp_all
  qed
  have "withdraws ?P ?R s (fst (withdraw_untagged env ?known (map discovered_key (dy_items (discover (ye_sources env))))
      (dy_withdrawable (discover (ye_sources env))) dry s))" for s
    unfolding withdraw_untagged_def by (rule withdraws_all) (use vals known stale in fastforce)+
  moreover have "withdraws ?P ?R (fst acc) (fst (share_items env pass ?known stamps ends its acc))" for pass its acc
    by (rule withdraws_items) (use ended known map_of_SomeD in fast)+
  ultimately show ?thesis
    unfolding pass_over_def Let_def case_prod_beta fst_conv using withdrawing.rel_trans by (metis fst_conv)
qed

lemma withdraws_audiences: "withdraws P R st (fst (record_audiences env as st))"
proof (induction as arbitrary: st)
  case (Cons a as)
  obtain kind audience where a: "a = (kind, audience)" by (cases a)
  have "withdraws P R s (fst (store_write env op (\<lambda>_ db. Inr (replace_audience kind audience db)) s))" for s op
    by (rule withdraws_write) (auto simp: unshared_keys_def replace_audience_def Let_def split: if_splits)
  then show ?case unfolding a record_audiences.simps using Cons by (intro withdrawing.rel_run_then)
qed (simp add: withdrawing.rel_refl)

lemma after_reads_withdraws:
  assumes "\<And>m. set (ye_values env m) \<subseteq> snd ` set m"
    and "\<And>x. items = Inr x \<Longrightarrow> all_items (db_items db) = Inr x" "\<And>x. ends = Inr x \<Longrightarrow> share_ends (db_items db) = Inr x"
  shows "withdraws (may_withdraw env db) (may_remove env db) st (fst (after_reads env dry ann torrents items stamps ends origs st))"
proof (cases "dy_scanned (discover (ye_sources env)) = []")
  case False
  have "withdraws P R s (fst ((if dry then return_ok () else record_audiences env as) s))" for P R s as
    by (simp add: withdrawing.rel_refl withdraws_audiences)
  then show ?thesis using False unfolding after_reads_def Let_def
    by (auto simp: withdrawing.rel_refl intro!: withdrawing.rel_run_then pass_over_withdraws assms)
qed (simp add: after_reads_def withdrawing.rel_refl)

lemma reconcile_withdraws:
  fixes env :: "('p, 'io, 'w) sync_env"
  assumes "\<And>m. set (ye_values env m) \<subseteq> snd ` set m"
  shows "withdraws (may_withdraw env (sy_db st)) (may_remove env (sy_db st)) st (fst (reconcile env dry st))"
proof -
  let ?P = "may_withdraw env (sy_db st)" and ?R = "may_remove env (sy_db st)"
  have read: "withdraws ?P ?R s (fst (read_all env dry ann s))" if "sy_db s = sy_db st" for s ann
  proof -
    let ?l = "seeding_step (query (cl_list (ye_client env))) s :: _ \<times> (('p, 'io) sync_error, torrent_summary list) result"
    have "withdraws ?P ?R s (fst ?l)" by (rule withdraws_seeding [where calls = "[]"]) simp_all
    moreover have "sy_db (fst ?l) = sy_db st" using that by (simp add: seeding_step_fst)
    ultimately show ?thesis unfolding read_all_def case_prod_beta
      by (elim withdrawing.rel_trans, intro after_reads_withdraws assms)
        (auto simp: store_read_def split: option.splits sum.splits)
  qed
  have "sy_db (if dry then st else track_cap_in_force env st) = sy_db st" "withdraws ?P ?R st (if dry then st else track_cap_in_force env st)"
    by (simp_all add: track_cap_in_force_def Let_def withdraws_def)
  then show ?thesis unfolding reconcile_def
    by (elim withdrawing.rel_trans, intro withdrawing.rel_run_then) (simp_all add: withdrawing.rel_refl read)
qed

text \<open>
  C38. A pass takes away only what it may. A share becomes unshared only when a source that listed all of itself, and every other
  source that answered, no longer lists the file, or when its recorded last day has come; and the client is told to remove
  a torrent only when the row says that the torrent is ours and that share may be withdrawn. A source that failed or
  answered in part costs nobody anything, whatever else fails on the way. The walk over the recorded shares visits
  only what was recorded.
\<close>

theorem withdrawals_are_justified:
  assumes "\<And>m. set (ye_values env m) \<subseteq> snd ` set m"
  shows "(\<forall>k \<in> unshared_keys (sy_db (fst (run env dry st))). k \<in> unshared_keys (sy_db st) \<or> may_withdraw env (sy_db st) k) \<and>
    (\<exists>calls. wd_calls (sy_seed (fst (run env dry st))) = wd_calls (sy_seed st) @ calls \<and>
       (\<forall>h. CallRemove h \<in> set calls \<longrightarrow> may_remove env (sy_db st) h))"
proof -
  have db: "db_items (fst (begin_run gap now db)) = db_items db" "db_items (finish_run now rid s db) = db_items db" for gap now rid s db
    by (simp_all add: begin_run_def finish_run_def Let_def)
  let ?s = "st\<lparr>sy_db := fst (begin_run (ye_gap env OpBegin) (ye_now env OpBegin) (sy_db st))\<rparr>"
  let ?W = "withdraws (may_withdraw env (sy_db st)) (may_remove env (sy_db st))"
  have same: "may_withdraw env db' = may_withdraw env db" "may_remove env db' = may_remove env db" "unshared_keys db' = unshared_keys db"
    if "db_items db' = db_items db" for db db'
    by (simp_all add: fun_eq_iff may_remove_def may_withdraw_def unshared_keys_def that)
  have "?W st ?s" by (simp add: withdraws_def same(3) [OF db(1)])
  moreover have "?W ?s (fst (reconcile env dry ?s))"
    using reconcile_withdraws [OF assms, of ?s dry] by (simp add: same [OF db(1)])
  moreover have "?W s (fst (store_write env OpFinish (\<lambda>now db. Inr (finish_run now rid r db)) s))" for s rid r
    by (rule withdraws_write) (auto simp: same(3) [OF db(2)])
  ultimately have "?W st (fst (run env dry st))"
    using reconcile_withdraws [OF assms, of st dry]
    by (auto simp: run_def case_prod_beta Let_def withdrawing.rel_refl intro: withdrawing.rel_trans split: option.split)
  then show ?thesis unfolding withdraws_def by blast
qed

text \<open>
  One film recorded as shared with a torrent of ours, and a library that lists all of itself and not that film.
\<close>

definition example_row :: item_row where
  "example_row =
     \<lparr>ir_id = 1, ir_source = ''radarr'', ir_source_id = 1, ir_file_id = 5, ir_spec = Decodes (Movie ''f'' None), ir_release_title = ''f'',
      ir_arr_path = ''/m/f'', ir_size = 3, ir_ids = Decodes (ce_ids example_entry), ir_info_hash = Some ''AB'', ir_token_fp = None,
      ir_created_by = 1, ir_state = ''seeding'', ir_last_error = None, ir_created_at = 0, ir_updated_at = 0, ir_media = None,
      ir_ratio = None, ir_ratio_limit = None, ir_private = 1, ir_info_hash_v2 = None, ir_share_until = None,
      ir_inode = None, ir_mtime = None\<rparr>"

definition example_sync :: "(nat, nat, unit) sync_env" where
  "example_sync =
     \<lparr>ye_seed = example_env,
      ye_titles = \<lparr>te_transliterate = id, te_lowercase = id, te_sha256 = id, te_hex = id\<rparr>,
      ye_segments = (\<lambda>_. None), ye_maps = [], ye_seeder = example_seeder, ye_client = example_client, ye_close = (=),
      ye_sources = [(Radarr, Inr \<lparr>ss_items = [], ss_complete = True, ss_audience = []\<rparr>)], ye_ready = Inr (),
      ye_announce = Inr example_announce, ye_probe = (\<lambda>_. None), ye_exists = (\<lambda>_. True), ye_stamp_of = (\<lambda>_. None),
      ye_minute = (\<lambda>_. 0), ye_now_epoch = 100, ye_fails = (\<lambda>_. None), ye_now = (\<lambda>_. 100), ye_gap = (\<lambda>_. 0),
      ye_values = map snd, ye_show = (\<lambda>_. [])\<rparr>"

definition example_library :: "unit sync_state" where
  "example_library =
     \<lparr>sy_seed = example_state, sy_db = (empty_db (retention_from 1 1 1))\<lparr>db_items := \<lparr>rows = [example_row], last_id = 1, origins = []\<rparr>\<rparr>,
      sy_applied = [], sy_cap = None\<rparr>"

text \<open>Witness of C38: the film is withdrawn, and its torrent removed, because its library no longer lists it.\<close>

theorem withdrawals_are_justified_witness:
  "wd_calls (sy_seed (fst (run example_sync False example_library))) = [CallRemove ''ab''] \<and>
   may_remove example_sync (sy_db example_library) ''ab'' \<and> may_withdraw example_sync (sy_db example_library) (''radarr'', 5)"
proof -
  have "wd_calls (sy_seed (fst (run example_sync False example_library))) = [CallRemove ''ab'']" by code_simp
  moreover have "(''radarr'', 5) \<in> unshared_keys (sy_db (fst (run example_sync False example_library)))"
  proof -
    have "map (\<lambda>r. (ir_source r, ir_file_id r, ir_state r)) (rows (db_items (sy_db (fst (run example_sync False example_library))))) = [(''radarr'', 5, ''unshared'')]"
      by code_simp
    then show ?thesis by (auto simp: unshared_keys_def share_state_str_def)
  qed
  moreover have "(''radarr'', 5) \<notin> unshared_keys (sy_db example_library)"
    by (simp add: unshared_keys_def example_library_def example_row_def share_state_str_def)
  moreover have "wd_calls (sy_seed example_library) = []" by (simp add: example_library_def example_state_def)
  moreover have "set (ye_values example_sync m) \<subseteq> snd ` set m" for m by (simp add: example_sync_def)
  ultimately show ?thesis using withdrawals_are_justified [of example_sync False example_library] by auto
qed

end
