(* ===== verification/Sync_Report.thy ===== *)
theory Sync_Report
  imports Sync_Pass
begin

text \<open>
  How a reconciliation pass accounts for what it discovered, that a pass over a settled library asks nothing of the client, and
  what is recorded of a torrent that is found again.
\<close>

section \<open>Accounting\<close>

definition counted :: "sync_report \<Rightarrow> nat" where
  "counted r = rep_added r + rep_reused r + rep_unchanged r + rep_failed r"

lemma watch_counts:
  "counted (snd (watch env item known pass stamps report st)) = counted report"
  "rep_discovered (snd (watch env item known pass stamps report st)) = rep_discovered report"
  "rep_ended (snd (watch env item known pass stamps report st)) = rep_ended report"
  by (simp_all add: watch_def Let_def counted_def split: option.split sum.split)

lemma step_counts:
  "counted (snd (count_step env dry item report outcome)) = counted report + 1"
  "rep_discovered (snd (count_step env dry item report outcome)) = rep_discovered report"
  "rep_ended (snd (count_step env dry item report outcome)) = rep_ended report"
  by (auto simp: count_step_def counted_def split: prod.split sum.split step.split)

text \<open>
  An ended share the pass withdraws: recorded, not withdrawn already, and, on a pass that writes, one whose new state the
  database takes.
\<close>

definition withdraws_ended :: "('p, 'io, 'w) sync_env \<Rightarrow> bool \<Rightarrow> shared_item option \<Rightarrow> bool" where
  "withdraws_ended env dry known =
     (case known of
        None \<Rightarrow> False
      | Some k \<Rightarrow> si_state k \<noteq> Unshared \<and> (dry \<or> ye_fails env (OpState (shared_item_key k)) = None))"

lemma unshare_one_Inr: "(\<exists>u. snd (unshare_one env k st) = Inr u) \<longleftrightarrow> ye_fails env (OpState (shared_item_key k)) = None"
  by (auto simp: unshare_one_def write_items_def store_write_def split: option.split)

lemma end_counts:
  "counted (snd (end_share env dry known report st)) = counted report"
  "rep_discovered (snd (end_share env dry known report st)) = rep_discovered report"
  "rep_ended (snd (end_share env dry known report st)) = rep_ended report + (if withdraws_ended env dry known then 1 else 0)"
proof -
  show "counted (snd (end_share env dry known report st)) = counted report"
    "rep_discovered (snd (end_share env dry known report st)) = rep_discovered report"
    by (auto simp: end_share_def counted_def split: prod.split sum.split option.split)
  show "rep_ended (snd (end_share env dry known report st)) = rep_ended report + (if withdraws_ended env dry known then 1 else 0)"
  proof (cases known)
    case (Some k)
    obtain st' r where u: "unshare_one env k st = (st', r)" by (cases "unshare_one env k st")
    have "(\<exists>u. r = Inr u) \<longleftrightarrow> ye_fails env (OpState (shared_item_key k)) = None"
      using unshare_one_Inr [of env k st] by (simp add: u)
    then show ?thesis using Some by (cases r) (auto simp: end_share_def withdraws_ended_def u)
  qed (simp add: end_share_def withdraws_ended_def)
qed

lemma share_items_counts:
  fixes ends now
  defines "over \<equiv> \<lambda>i. has_ended ends now (discovered_key i)"
  assumes "ye_now_epoch env = now"
  shows "counted (snd (share_items env pass known stamps ends items acc)) = counted (snd acc) + length (filter (Not \<circ> over) items) \<and>
    rep_discovered (snd (share_items env pass known stamps ends items acc)) = rep_discovered (snd acc) \<and>
    rep_ended (snd (share_items env pass known stamps ends items acc)) = rep_ended (snd acc) +
      length (filter (\<lambda>i. over i \<and> withdraws_ended env (ps_dry_run pass) (map_of known (discovered_key i))) items)"
proof (induction items arbitrary: acc)
  case (Cons item items)
  obtain st report where acc: "acc = (st, report)" by (cases acc)
  have "counted (snd (share_item env pass known stamps ends item acc)) = counted report + (if over item then 0 else 1)"
    "rep_discovered (snd (share_item env pass known stamps ends item acc)) = rep_discovered report"
    "rep_ended (snd (share_item env pass known stamps ends item acc)) =
       rep_ended report + (if over item \<and> withdraws_ended env (ps_dry_run pass) (map_of known (discovered_key item)) then 1 else 0)"
    using end_counts [of env "ps_dry_run pass" "map_of known (discovered_key item)" report st]
    by (auto simp: share_item_def acc over_def assms(2) case_prod_beta Let_def watch_counts step_counts)
  then show ?case using Cons [of "share_item env pass known stamps ends item acc"] by (auto simp: acc)
qed simp

lemma snd_run_then_Inr: "snd (run_then m f s) = Inr y \<longleftrightarrow> (\<exists>x. snd (m s) = Inr x \<and> snd (f x (fst (m s))) = Inr y)"
  by (simp add: snd_run_then split: sum.split)

lemma seeding_step_Inr: "snd (seeding_step m st) = Inr x \<longleftrightarrow> snd (m (sy_seed st)) = Inr x"
  by (auto simp: seeding_step_def case_prod_beta map_err_def split: sum.split)

lemma store_read_Inr: "snd (store_read env op f st) = Inr x \<longleftrightarrow> ye_fails env op = None \<and> f (sy_db st) = Inr x"
  by (auto simp: store_read_def split: option.split sum.split)

lemma after_reads_report:
  assumes "snd (after_reads env dry ann torrents known stamps ends origs st) = Inr report"
  obtains ts items e os where "torrents = Inr ts" "known = Inr items" "ends = Inr e" "origs = Inr os"
    "snd (pass_over env dry (discover (ye_sources env)) ann ts items stamps e os
       (fst ((if dry then return_ok () else record_audiences env (dy_audiences (discover (ye_sources env)))) st))) = Inr report"
  using assms by (auto simp: after_reads_def Let_def snd_run_then_Inr simp del: return_ok_def split: if_splits)

lemma reconcile_report:
  fixes env :: "('p, 'io, 'w) sync_env"
  assumes "snd (reconcile env dry st) = Inr report"
  obtains ann ts items ends stamps s where "ye_announce env = Inr ann" "snd (cl_list (ye_client env) (wd_client (sy_seed st))) = Inr ts"
    "all_items (db_items (sy_db st)) = Inr items" "share_ends (db_items (sy_db st)) = Inr ends"
    "snd (pass_over env dry (discover (ye_sources env)) ann ts items stamps ends (item_origins (db_items (sy_db st))) s) = Inr report"
proof -
  let ?st = "if dry then st else track_cap_in_force env st"
  have same: "sy_db ?st = sy_db st" "sy_seed ?st = sy_seed st" by (simp_all add: track_cap_in_force_def Let_def)
  obtain ann where ann: "ye_announce env = Inr ann" "snd (read_all env dry ann ?st) = Inr report"
    using assms unfolding reconcile_def snd_run_then_Inr by (auto simp: map_err_def split: sum.splits)
  let ?l = "seeding_step (query (cl_list (ye_client env))) ?st :: _ \<times> (('p, 'io) sync_error, torrent_summary list) result"
  have db: "sy_db (fst ?l) = sy_db st" by (simp add: seeding_step_fst same)
  show thesis
    using ann(2) unfolding read_all_def case_prod_beta
  proof (rule after_reads_report)
    fix ts items e os
    assume r: "snd ?l = Inr ts" "snd (store_read env OpItems (\<lambda>db. all_items (db_items db)) (fst ?l)) = Inr items"
      "snd (store_read env OpEnds (\<lambda>db. share_ends (db_items db)) (fst ?l)) = Inr e"
      "snd (store_read env OpOrigins (\<lambda>db. Inr (item_origins (db_items db))) (fst ?l)) = Inr os"
      and p: "snd (pass_over env dry (discover (ye_sources env)) ann ts items
        (case snd (store_read env OpStamps (\<lambda>db. file_stamps (db_items db)) (fst ?l)) of Inl _ \<Rightarrow> [] | Inr m \<Rightarrow> m) e os
        (fst ((if dry then return_ok () else record_audiences env (dy_audiences (discover (ye_sources env)))) (fst ?l)))) = Inr report"
    have "snd (cl_list (ye_client env) (wd_client (sy_seed st))) = Inr ts"
      using r(1) unfolding seeding_step_Inr same by (simp add: query_def case_prod_beta map_err_def split: sum.splits)
    then show thesis using that [OF ann(1)] r(2-4) p unfolding store_read_Inr db by auto
  qed
qed

lemma pass_over_counts:
  assumes "snd (pass_over env dry dy ann ts items stamps ends origs st) = Inr report"
  shows "rep_discovered report = length (dy_items dy) \<and>
    counted report = length (filter (\<lambda>i. \<not> has_ended ends (ye_now_epoch env) (discovered_key i)) (dy_items dy)) \<and>
    rep_ended report = length (filter (\<lambda>i. has_ended ends (ye_now_epoch env) (discovered_key i) \<and>
      withdraws_ended env dry (map_of (known_map items) (discovered_key i))) (dy_items dy))"
proof -
  obtain pass r0 n where "report = (snd (share_items env pass (known_map items) stamps ends (dy_items dy) (st, r0)))\<lparr>rep_unshared := n\<rparr>"
      "rep_discovered r0 = length (dy_items dy)" "counted r0 = 0" "rep_ended r0 = 0" "ps_dry_run pass = dry"
    using assms by (auto simp: pass_over_def Let_def case_prod_beta counted_def sync_report_default_def)
  then show ?thesis
    using share_items_counts [of env "ye_now_epoch env" pass "known_map items" stamps ends "dy_items dy" "(st, r0)"]
    by (simp add: comp_def counted_def)
qed

lemma run_report:
  assumes "snd (run env dry st) = Inr report"
  obtains st0 where "snd (reconcile env dry st0) = Inr report" "db_items (sy_db st0) = db_items (sy_db st)"
    "sy_seed st0 = sy_seed st" "sy_applied st0 = sy_applied st" "sy_cap st0 = sy_cap st"
  using assms that
  by (auto simp: run_def begin_run_def Let_def case_prod_beta split: if_splits option.splits)

text \<open>
  C39. A pass accounts for every file the sources listed. Each file whose share has not ended is counted exactly once, as
  added, reused, unchanged or failed, so no failure of one file hides another from the report. Of the files whose
  share has ended, exactly those are counted as ended that the store knows in a state other than withdrawn and whose
  withdrawal it takes (a dry run attempts none and counts them all): one it does not know, one withdrawn already, and one whose withdrawal
  the store refuses appear in no count.
\<close>

theorem every_file_is_accounted_for:
  assumes "snd (run env dry st) = Inr report"
  shows "\<exists>ends items. share_ends (db_items (sy_db st)) = Inr ends \<and> all_items (db_items (sy_db st)) = Inr items \<and>
    (let files = dy_items (discover (ye_sources env)); over = (\<lambda>i. has_ended ends (ye_now_epoch env) (discovered_key i)) in
     rep_discovered report = length files \<and>
     rep_added report + rep_reused report + rep_unchanged report + rep_failed report = length (filter (\<lambda>i. \<not> over i) files) \<and>
     rep_ended report =
       length (filter (\<lambda>i. over i \<and> withdraws_ended env dry (map_of (known_map items) (discovered_key i))) files))"
proof -
  obtain st0 where st0: "snd (reconcile env dry st0) = Inr report" "db_items (sy_db st0) = db_items (sy_db st)"
    by (rule run_report [OF assms])
  obtain ann ts items ends stamps s where r: "share_ends (db_items (sy_db st)) = Inr ends" "all_items (db_items (sy_db st)) = Inr items"
      "snd (pass_over env dry (discover (ye_sources env)) ann ts items stamps ends (item_origins (db_items (sy_db st))) s) = Inr report"
    by (rule reconcile_report [OF st0(1)]) (use that in \<open>simp add: st0(2)\<close>)
  then show ?thesis using pass_over_counts [OF r(3)] by (simp add: counted_def Let_def)
qed

section \<open>A settled library\<close>

text \<open>The client is asked nothing, and what is remembered about limits and announce URLs stays.\<close>

definition at_rest :: "'w sync_state \<Rightarrow> 'w sync_state \<Rightarrow> bool" where
  "at_rest st st' \<longleftrightarrow>
     wd_calls (sy_seed st') = wd_calls (sy_seed st) \<and> wd_confirmed (sy_seed st') = wd_confirmed (sy_seed st) \<and>
     wd_cache (sy_seed st') = wd_cache (sy_seed st) \<and> sy_applied st' = sy_applied st"

interpretation resting: step_order at_rest by unfold_locales (simp_all add: at_rest_def)

lemma rest_write: "at_rest st (fst (store_write env op f st))" "at_rest st (fst (write_items env op g st))"
  by (simp_all add: write_items_def store_write_def at_rest_def split: option.split sum.split)

text \<open>
  A file that is shared and stays so: recorded as seeding, its torrent held by the client, its announce URLs confirmed, and its
  limits or its foreign trackers known.
\<close>

definition file_settled ::
    "announce_set \<Rightarrow> torrent_summary list \<Rightarrow> shared_item list \<Rightarrow> (media_source \<times> int, item_origin) hashmap \<Rightarrow>
       'w sync_state \<Rightarrow> discovered \<Rightarrow> bool" where
  "file_settled ann torrents items origs st item \<longleftrightarrow>
     (case map_of (known_map items) (discovered_key item) of
        None \<Rightarrow> False
      | Some k \<Rightarrow> si_state k = Seeding \<and>
          (case si_info_hash k of
             None \<Rightarrow> False
           | Some h \<Rightarrow> map_of (live_map torrents) h \<noteq> None \<and> is_confirmed h ann (sy_seed st) \<and>
               (if si_created_by_sharerr k then h \<in> set (sy_applied st) else map_of origs (discovered_key item) \<noteq> None)))"

lemma file_settled_iff:
  "file_settled ann torrents items origs st item \<longleftrightarrow>
     (\<exists>k h. map_of (known_map items) (discovered_key item) = Some k \<and> si_state k = Seeding \<and> si_info_hash k = Some h \<and>
        map_of (live_map torrents) h \<noteq> None \<and> is_confirmed h ann (sy_seed st) \<and>
        (if si_created_by_sharerr k then h \<in> set (sy_applied st) else map_of origs (discovered_key item) \<noteq> None))"
  by (auto simp: file_settled_def split: option.split)

lemma file_settled_cong: "at_rest st st' \<Longrightarrow> file_settled ann ts items origs st' = file_settled ann ts items origs st"
  by (simp add: fun_eq_iff file_settled_iff is_confirmed_def at_rest_def)

lemma confirm_at_rest:
  assumes "is_confirmed h (ps_announce pass) (sy_seed st)"
    and "if si_created_by_sharerr k then h \<in> set (sy_applied st) else map_of (ps_origins pass) (discovered_key item) \<noteq> None"
  shows "at_rest st (confirm_live env item k h reported pass st)"
proof -
  have "fst (item_upstream env item k h pass st) = st" using assms(2) by (auto simp: item_upstream_def split: option.split)
  moreover have "fst (ratio_limit_in_force env k h reported st) = st"
    using assms(2) by (auto simp: ratio_limit_in_force_def attempt_def reconcile_limits_def)
  moreover have "fst (seeding_step (refresh_announce (ye_seed env) (ye_seeder env) (ye_client env) h (ps_announce pass) u) st) = st" for u
    using assms(1) by (simp add: seeding_step_fst refresh_announce_def)
  ultimately show ?thesis
    unfolding confirm_live_def case_prod_beta Let_def record_ratio_def
    by (simp add: rest_write split: option.split announce_refresh.split)
qed

lemma item_at_rest:
  assumes "file_settled (ps_announce pass) ts items (ps_origins pass) st item" "ps_live pass = live_map ts"
    and "\<not> has_ended ends (ye_now_epoch env) (discovered_key item)"
  shows "at_rest st (fst (share_item env pass (known_map items) stamps ends item (st, report)))"
    and "rep_unchanged (snd (share_item env pass (known_map items) stamps ends item (st, report))) = rep_unchanged report + 1"
proof -
  obtain k h t where k: "map_of (known_map items) (discovered_key item) = Some k" "si_state k = Seeding" "si_info_hash k = Some h"
      "map_of (ps_live pass) h = Some t"
    using assms(1,2) unfolding file_settled_iff by auto
  let ?w = "watch env item (Some k) pass stamps report st"
  have w: "at_rest st (fst ?w)"
    by (simp add: watch_def Let_def k resting.rel_refl rest_write split: option.split sum.split)
  have "is_confirmed h (ps_announce pass) (sy_seed (fst ?w))"
      "if si_created_by_sharerr k then h \<in> set (sy_applied (fst ?w)) else map_of (ps_origins pass) (discovered_key item) \<noteq> None"
    using assms(1) k w unfolding file_settled_iff at_rest_def is_confirmed_def by auto
  then have c: "at_rest (fst ?w) (confirm_live env item k h t pass (fst ?w))" by (rule confirm_at_rest)
  have s: "share env item pass (Some k) (fst ?w) =
      ((if ps_dry_run pass then fst ?w else confirm_live env item k h t pass (fst ?w)), Inr StepUnchanged)"
    by (simp add: share_def k)
  show "at_rest st (fst (share_item env pass (known_map items) stamps ends item (st, report)))"
    using resting.rel_trans [OF w c] w by (simp add: share_item_def resting.rel_refl k(1) assms(3) case_prod_beta Let_def s count_step_def)
  have "rep_unchanged (snd ?w) = rep_unchanged report"
    by (simp add: watch_def Let_def k split: option.split sum.split)
  then show "rep_unchanged (snd (share_item env pass (known_map items) stamps ends item (st, report))) = rep_unchanged report + 1"
    by (simp add: share_item_def k(1) assms(3) case_prod_beta Let_def s count_step_def)
qed

lemma items_at_rest:
  assumes "\<forall>i \<in> set fs. file_settled (ps_announce pass) ts items (ps_origins pass) (fst acc) i" "ps_live pass = live_map ts"
    and "\<forall>i \<in> set fs. \<not> has_ended ends (ye_now_epoch env) (discovered_key i)"
  shows "at_rest (fst acc) (fst (share_items env pass (known_map items) stamps ends fs acc)) \<and>
    rep_unchanged (snd (share_items env pass (known_map items) stamps ends fs acc)) = rep_unchanged (snd acc) + length fs"
  using assms
proof (induction fs arbitrary: acc)
  case (Cons f fs)
  obtain st report where acc: "acc = (st, report)" by (cases acc)
  let ?a = "share_item env pass (known_map items) stamps ends f acc"
  have first: "at_rest st (fst ?a)" "rep_unchanged (snd ?a) = rep_unchanged report + 1"
    using item_at_rest [of pass ts items st f ends env stamps report] Cons.prems by (auto simp: acc)
  have "\<forall>i \<in> set fs. file_settled (ps_announce pass) ts items (ps_origins pass) (fst ?a) i"
    using Cons.prems(1) file_settled_cong [OF first(1)] by (simp add: acc)
  from Cons.IH [OF this Cons.prems(2)] Cons.prems(3) first show ?case
    by (simp add: acc) (metis resting.rel_trans)
qed (simp add: resting.rel_refl)

text \<open>Everything listed is settled, nothing recorded is to be withdrawn, no share has ended, and the upload cap is as it was.\<close>

definition library_settled :: "('p, 'io, 'w) sync_env \<Rightarrow> 'w sync_state \<Rightarrow> bool" where
  "library_settled env st \<longleftrightarrow>
     (case (ye_announce env, snd (cl_list (ye_client env) (wd_client (sy_seed st))),
            all_items (db_items (sy_db st)), share_ends (db_items (sy_db st))) of
        (Inr ann, Inr torrents, Inr items, Inr ends) \<Rightarrow>
          (let dy = discover (ye_sources env) in
           list_all (file_settled ann torrents items (item_origins (db_items (sy_db st))) st) (dy_items dy) \<and>
           list_all (\<lambda>i. \<not> has_ended ends (ye_now_epoch env) (discovered_key i)) (dy_items dy) \<and>
           list_all (\<lambda>k. \<not> is_stale (map discovered_key (dy_items dy)) (dy_withdrawable dy) k) (ye_values env (known_map items)) \<and>
           (sy_cap st = None \<or> sy_cap st = Some (upload_cap_now env None)))
      | _ \<Rightarrow> False)"

lemma pass_at_rest:
  assumes "list_all (file_settled ann ts items origs st) (dy_items dy)"
    and "list_all (\<lambda>i. \<not> has_ended ends (ye_now_epoch env) (discovered_key i)) (dy_items dy)"
    and "list_all (\<lambda>k. \<not> is_stale (map discovered_key (dy_items dy)) (dy_withdrawable dy) k) (ye_values env (known_map items))"
  shows "at_rest st (fst (pass_over env dry dy ann ts items stamps ends origs st))"
    and "snd (pass_over env dry dy ann ts items stamps ends origs st) = Inr report \<Longrightarrow>
      rep_unchanged report = length (dy_items dy) \<and> rep_unshared report = 0"
proof -
  let ?pass = "\<lparr>ps_announce = ann, ps_token_fp = token_fingerprint env ann, ps_live = live_map ts, ps_torrents = ts,
                  ps_origins = origs, ps_dry_run = dry\<rparr>"
  have none: "filter (is_stale (map discovered_key (dy_items dy)) (dy_withdrawable dy)) (ye_values env (known_map items)) = []"
    using assms(3) by (simp add: list_all_iff filter_empty_conv)
  note r = items_at_rest [of "dy_items dy" ?pass ts items "(st, report0)" ends env stamps for report0]
  show "at_rest st (fst (pass_over env dry dy ann ts items stamps ends origs st))"
    using r assms(1,2) by (simp add: pass_over_def Let_def case_prod_beta withdraw_untagged_def none list_all_iff)
  show "rep_unchanged report = length (dy_items dy) \<and> rep_unshared report = 0"
    if "snd (pass_over env dry dy ann ts items stamps ends origs st) = Inr report"
    using r assms(1,2) that
    by (auto simp: pass_over_def Let_def case_prod_beta withdraw_untagged_def none list_all_iff sync_report_default_def)
qed

lemma rest_audiences: "at_rest st (fst (record_audiences env as st))"
proof (induction as arbitrary: st)
  case (Cons a as)
  show ?case unfolding record_audiences.simps(2) [of env "fst a" "snd a", simplified]
    using Cons by (intro resting.rel_run_then rest_write)
qed (simp add: resting.rel_refl)

lemma after_reads_at_rest:
  assumes "\<And>ts items e os s. torrents = Inr ts \<Longrightarrow> known = Inr items \<Longrightarrow> ends = Inr e \<Longrightarrow> origs = Inr os \<Longrightarrow> at_rest st s \<Longrightarrow>
    at_rest s (fst (pass_over env dry (discover (ye_sources env)) ann ts items stamps e os s)) \<and>
    (\<forall>report. snd (pass_over env dry (discover (ye_sources env)) ann ts items stamps e os s) = Inr report \<longrightarrow> P report)"
  shows "at_rest st (fst (after_reads env dry ann torrents known stamps ends origs st))"
    and "snd (after_reads env dry ann torrents known stamps ends origs st) = Inr report \<Longrightarrow> P report"
proof -
  have said: "at_rest x (fst ((if dry then return_ok () else record_audiences env as) x))" for x as
    by (simp add: resting.rel_refl rest_audiences)
  have pass: "at_rest s (fst (pass_over env dry (discover (ye_sources env)) ann ts items stamps e os s))"
    if "torrents = Inr ts" "known = Inr items" "ends = Inr e" "origs = Inr os" "at_rest st s" for ts items e os s
    using assms [OF that] ..
  show "at_rest st (fst (after_reads env dry ann torrents known stamps ends origs st))"
  proof (cases "dy_scanned (discover (ye_sources env)) = []")
    case False
    then show ?thesis unfolding after_reads_def Let_def if_not_P [OF False]
      by (intro resting.rel_run_then pass resting.rel_pure said) (auto simp: resting.rel_refl rest_audiences)
  qed (simp add: after_reads_def resting.rel_refl)
  show "P report" if "snd (after_reads env dry ann torrents known stamps ends origs st) = Inr report"
    by (rule after_reads_report [OF that]) (use assms said in blast)
qed

lemma reconcile_at_rest:
  fixes env :: "('p, 'io, 'w) sync_env"
  assumes "library_settled env st"
  shows "at_rest st (fst (reconcile env dry st)) \<and>
    (\<forall>report. snd (reconcile env dry st) = Inr report \<longrightarrow>
       rep_unchanged report = length (dy_items (discover (ye_sources env))) \<and> rep_unshared report = 0)"
proof -
  obtain ann ts items ends where s: "ye_announce env = Inr ann" "snd (cl_list (ye_client env) (wd_client (sy_seed st))) = Inr ts"
      "all_items (db_items (sy_db st)) = Inr items" "share_ends (db_items (sy_db st)) = Inr ends"
      "list_all (file_settled ann ts items (item_origins (db_items (sy_db st))) st) (dy_items (discover (ye_sources env)))"
      "sy_cap st = None \<or> sy_cap st = Some (upload_cap_now env None)"
    and q: "list_all (\<lambda>i. \<not> has_ended ends (ye_now_epoch env) (discovered_key i)) (dy_items (discover (ye_sources env)))"
      "list_all (\<lambda>k. \<not> is_stale (map discovered_key (dy_items (discover (ye_sources env)))) (dy_withdrawable (discover (ye_sources env))) k)
         (ye_values env (known_map items))"
    using assms unfolding library_settled_def Let_def by (auto split: sum.splits)
  let ?st = "if dry then st else track_cap_in_force env st"
  let ?l = "seeding_step (query (cl_list (ye_client env))) ?st :: _ \<times> (('p, 'io) sync_error, torrent_summary list) result"
  let ?P = "\<lambda>report. rep_unchanged report = length (dy_items (discover (ye_sources env))) \<and> rep_unshared report = 0"
  have start: "at_rest st ?st" using s(6) by (auto simp: track_cap_in_force_def Let_def at_rest_def)
  have "at_rest ?st (fst ?l)" by (simp add: seeding_step_fst at_rest_def)
  with start have listed: "at_rest st (fst ?l)" by (rule resting.rel_trans)
  have settled: "list_all (file_settled ann ts items (item_origins (db_items (sy_db st))) x) (dy_items (discover (ye_sources env)))"
    if "at_rest st x" for x using s(5) file_settled_cong [OF that] by simp
  have read: "sy_db (fst ?l) = sy_db st" "snd ?l = Inr u \<longleftrightarrow> u = ts" for u
    using s(2) by (auto simp: seeding_step_fst seeding_step_Inr track_cap_in_force_def Let_def query_def case_prod_beta map_err_def)
  have pass: "at_rest x (fst (pass_over env dry (discover (ye_sources env)) ann ts' items' stamps e os x)) \<and>
      (\<forall>report. snd (pass_over env dry (discover (ye_sources env)) ann ts' items' stamps e os x) = Inr report \<longrightarrow> ?P report)"
    if r: "snd ?l = Inr ts'" "snd (store_read env OpItems (\<lambda>db. all_items (db_items db)) (fst ?l)) = Inr items'"
      "snd (store_read env OpEnds (\<lambda>db. share_ends (db_items db)) (fst ?l)) = Inr e"
      "snd (store_read env OpOrigins (\<lambda>db. Inr (item_origins (db_items db))) (fst ?l)) = Inr os" "at_rest (fst ?l) x" for ts' items' e os x stamps
  proof -
    have "ts' = ts" "items' = items" "e = ends" "os = item_origins (db_items (sy_db st))"
      using r unfolding store_read_Inr read using s(3,4) by auto
    moreover note pass_at_rest [OF settled [OF resting.rel_trans [OF listed r(5)]] q]
    ultimately show ?thesis by simp
  qed
  note read_rest = after_reads_at_rest [OF pass]
  have "at_rest (fst ?l) (fst (read_all env dry ann ?st))" unfolding read_all_def case_prod_beta by (rule read_rest(1))
  then have "at_rest st (fst (read_all env dry ann ?st))" using listed resting.rel_trans by blast
  moreover have "?P report" if "snd (read_all env dry ann ?st) = Inr report" for report
    using that after_reads_at_rest(2) [where P = ?P, OF pass] unfolding read_all_def case_prod_beta by blast
  ultimately show ?thesis
    using start s(1) unfolding reconcile_def by (auto simp: fst_run_then snd_run_then_Inr map_err_def split: sum.split)
qed

text \<open>
  C40. A pass over a settled library is quiet. When every listed file is shared with a torrent the client holds, its
  announce URLs and limits seen to, and nothing is to be withdrawn, then whatever the database refuses nothing is asked of the
  client, no cached torrent is written, what was noted stays noted, and a report that is made says that every file is
  unchanged: passes over such a library do not disturb it, however often they run.
\<close>

theorem settled_pass_is_quiet:
  assumes "library_settled env st"
  shows "wd_calls (sy_seed (fst (run env dry st))) = wd_calls (sy_seed st) \<and>
    wd_cache (sy_seed (fst (run env dry st))) = wd_cache (sy_seed st) \<and>
    wd_confirmed (sy_seed (fst (run env dry st))) = wd_confirmed (sy_seed st) \<and>
    sy_applied (fst (run env dry st)) = sy_applied st \<and>
    (\<forall>report. snd (run env dry st) = Inr report \<longrightarrow>
      rep_unchanged report = length (dy_items (discover (ye_sources env))) \<and> rep_unshared report = 0)"
proof -
  have settled: "library_settled env (st\<lparr>sy_db := db\<rparr>)" if "db_items db = db_items (sy_db st)" for db
    using assms file_settled_cong [of st "st\<lparr>sy_db := db\<rparr>"]
    by (simp add: library_settled_def that at_rest_def Let_def split: sum.splits)
  let ?s = "st\<lparr>sy_db := fst (begin_run (ye_gap env OpBegin) (ye_now env OpBegin) (sy_db st))\<rparr>"
  have "library_settled env ?s" by (rule settled) (simp add: begin_run_def Let_def)
  note began = reconcile_at_rest [OF this, of dry] and dry = reconcile_at_rest [OF assms, of dry]
  have "at_rest st ?s" by (simp add: at_rest_def)
  then have "at_rest st (fst (reconcile env dry ?s))" using began resting.rel_trans by blast
  then have "at_rest st (fst (run env dry st)) \<and> (\<forall>report. snd (run env dry st) = Inr report \<longrightarrow>
      rep_unchanged report = length (dy_items (discover (ye_sources env))) \<and> rep_unshared report = 0)"
    using began dry
    by (auto simp: run_def Let_def case_prod_beta resting.rel_refl intro: resting.rel_trans [OF _ rest_write(1)] split: option.split)
  then show ?thesis unfolding at_rest_def by simp
qed

text \<open>The same film, listed, and held by the client.\<close>

definition example_film :: discovered where
  "example_film =
     \<lparr>d_source = Radarr, d_source_id = 1, d_file_id = 5, d_spec = Movie ''f'' None, d_arr_path = ''/m/f'', d_size = 3,
      d_ids = ce_ids example_entry, d_scene_name = None, d_original_path = None, d_media = None, d_scene = None\<rparr>"

definition example_summary :: torrent_summary where
  "example_summary =
     \<lparr>ts_hash = ''AB'', ts_name = ''f'', ts_save_path = ''/m'', ts_content_path = ''/m/f'', ts_category = [], ts_tags = [],
      ts_is_seeding = True, ts_is_stopped = False, ts_ratio = None, ts_ratio_limit = None, ts_upload_limit_kib = None\<rparr>"

definition example_steady :: "(nat, nat, unit) sync_env" where
  "example_steady = example_sync
     \<lparr>ye_sources := [(Radarr, Inr \<lparr>ss_items = [example_film], ss_complete = True, ss_audience = []\<rparr>)],
      ye_client := example_client\<lparr>cl_list := (\<lambda>w. (w, Inr [example_summary]))\<rparr>\<rparr>"

definition example_quiet :: "unit sync_state" where
  "example_quiet = example_library
     \<lparr>sy_seed := example_state\<lparr>wd_confirmed := [(''ab'', example_announce)]\<rparr>, sy_applied := [''ab'']\<rparr>"

text \<open>Witness of C39: one listed film, counted once.\<close>

theorem every_file_is_accounted_for_witness:
  "\<exists>report. snd (run example_steady False example_library) = Inr report \<and> rep_discovered report = 1 \<and>
    rep_added report + rep_reused report + rep_unchanged report + rep_failed report = 1"
proof -
  have "\<not> isl (snd (run example_steady False example_library))" by code_simp
  then obtain report where r: "snd (run example_steady False example_library) = Inr report"
    by (cases "snd (run example_steady False example_library)") auto
  have "dy_items (discover (ye_sources example_steady)) = [example_film]" "share_ends (db_items (sy_db example_library)) = Inr []"
    by code_simp+
  with every_file_is_accounted_for [OF r] r show ?thesis by (auto simp: Let_def has_ended_def)
qed

text \<open>Witness of C40: the film held by the client, its announce URLs confirmed and its limits applied.\<close>

theorem settled_pass_is_quiet_witness:
  "wd_calls (sy_seed (fst (run example_steady False example_quiet))) = [] \<and>
   (\<exists>report. snd (run example_steady False example_quiet) = Inr report \<and> rep_unchanged report = 1)"
proof -
  have "library_settled example_steady example_quiet" by code_simp
  note quiet = settled_pass_is_quiet [OF this, of False]
  have "\<not> isl (snd (run example_steady False example_quiet))" by code_simp
  then obtain report where "snd (run example_steady False example_quiet) = Inr report"
    by (cases "snd (run example_steady False example_quiet)") auto
  moreover have "length (dy_items (discover (ye_sources example_steady))) = 1" by code_simp
  moreover have "wd_calls (sy_seed example_quiet) = []" by code_simp
  ultimately show ?thesis using quiet by auto
qed

section \<open>A torrent found again\<close>

text \<open>
  Whatever the row said before, and whoever added the torrent: a file whose torrent is found in the client is recorded as not
  ours, so that a later withdrawal leaves the torrent in the client and no limits are applied to it.
\<close>

lemma found_again_is_disowned:
  assumes "snd (seeding_step (seed (ye_seed env) (ye_seeder env) (ye_client env) paths (ps_announce pass) (ps_torrents pass)
        (Option.bind known si_info_hash) (d_media item)
        \<lparr>ft_matches = peer_catalog_matches (d_spec item) (d_ids item) (d_size item) (sy_db st),
         ft_joined = map_of (ps_origins pass) (discovered_key item)\<rparr>) st) = Inr (Reused h upstream)"
    and "\<And>op. ye_fails env op = None"
    and "r \<in> set (rows (db_items (sy_db (fst (share_new env item pass known paths st)))))"
    and "ir_source r = media_source_str (d_source item)" "ir_file_id r = d_file_id item"
  shows "ir_created_by r = 0"
proof -
  have origin: "rows t' = rows t" if "set_item_origin ex source file_id o' t = Inr t'" for ex source file_id o' t t'
    using that by (auto simp: set_item_origin_def clear_item_origin_def Let_def split: option.splits if_splits)
  have stamp: "ir_created_by q = 0"
    if "q \<in> set (rows (set_file_stamp None now (d_source item) (d_file_id item) t))" "ir_source q = media_source_str (d_source item)"
       "ir_file_id q = d_file_id item" "rows t = rows (set_seeding h' fp False p now' (d_source item) (d_file_id item) t0)" for q t t0 now now' fp p h'
    using that by (auto simp: set_file_stamp_def set_seeding_def update_item_def key_matches_def bool_int_def split: if_splits)
  have seeded: "ir_created_by q = 0"
    if "q \<in> set (rows (set_seeding h' fp False p now (d_source item) (d_file_id item) t))" "ir_source q = media_source_str (d_source item)"
       "ir_file_id q = d_file_id item" for q t now fp p h'
    using that by (auto simp: set_seeding_def update_item_def key_matches_def bool_int_def split: if_splits)
  show ?thesis
    using assms(1,3-5)
    by (auto simp: share_new_def store_read_def assms(2) Let_def fst_run_then record_outcome_def outcome_columns_def write_items_def
        store_write_def write_origin_def dest!: origin intro: stamp seeded split: sum.splits)
qed

end
