(* ===== verification/Web_Proxy.thy ===== *)
theory Web_Proxy
  imports Endpoint Title Net
begin

text \<open>
  What the web interface reads of a request's headers: \<^verbatim>\<open>IpRange\<close> and \<^verbatim>\<open>ServerConfig::trusts\<close> of
  \<^verbatim>\<open>sharerr-core/src/config.rs\<close>, and the header readers of \<^verbatim>\<open>sharerr/src/web/auth.rs\<close>.
  A header map is the list of its lower-case names and values, in the order they arrived.
\<close>

section \<open>Headers\<close>

type_synonym headers = "(string \<times> string) list"

definition header_all :: "headers \<Rightarrow> string \<Rightarrow> string list" where
  "header_all hs name = map snd (filter (\<lambda>(n, _). n = to_ascii_lowercase name) hs)"

definition header_get :: "headers \<Rightarrow> string \<Rightarrow> string option" where
  "header_get hs name = (case header_all hs name of [] \<Rightarrow> None | v # _ \<Rightarrow> Some v)"

text \<open>\<^verbatim>\<open>HeaderValue::to_str\<close>: visible ASCII, blanks and tabs.\<close>

definition to_str :: "string \<Rightarrow> string option" where
  "to_str v = (if list_all (\<lambda>c. 32 \<le> code c \<and> code c < 127 \<or> code c = 9) v then Some v else None)"

definition header_str :: "headers \<Rightarrow> string \<Rightarrow> string option" where
  "header_str hs name = Option.bind (header_get hs name) to_str"

section \<open>Trusted proxies\<close>

record ip_range =
  ra_network :: ip_addr
  ra_prefix :: nat

record server_config =
  sc_bind :: socket_addr
  sc_security_headers :: bool
  sc_trusted_proxies :: "ip_range list"
  sc_auth_header :: string

definition server_default :: server_config where
  "server_default = \<lparr>sc_bind = (V4 [0, 0, 0, 0], 8477), sc_security_headers = False, sc_trusted_proxies = [], sc_auth_header = []\<rparr>"

text \<open>\<^verbatim>\<open>u32::from\<close> and \<^verbatim>\<open>u128::from\<close>, and \<^verbatim>\<open>checked_shr\<close> at a width.\<close>

definition ip_number :: "nat \<Rightarrow> nat list \<Rightarrow> nat" where
  "ip_number radix parts = foldl (\<lambda>n p. n * radix + p) 0 parts"

definition checked_shr :: "nat \<Rightarrow> nat \<Rightarrow> nat \<Rightarrow> nat option" where
  "checked_shr width n shift = (if shift < width then Some (drop_bit shift n) else None)"

definition unwrap_or :: "'a option \<Rightarrow> 'a \<Rightarrow> 'a" where
  "unwrap_or x d = (case x of Some y \<Rightarrow> y | None \<Rightarrow> d)"

definition range_contains :: "ip_range \<Rightarrow> ip_addr \<Rightarrow> bool" where
  "range_contains r ip =
     (case (ra_network r, to_canonical ip) of
        (V4 net, V4 ip) \<Rightarrow>
          (let shift = 32 - ra_prefix r
           in unwrap_or (checked_shr 32 (ip_number 256 net) shift) 0 = unwrap_or (checked_shr 32 (ip_number 256 ip) shift) 0)
      | (V6 net, V6 ip) \<Rightarrow>
          (let shift = 128 - ra_prefix r
           in unwrap_or (checked_shr 128 (ip_number 65536 net) shift) 0 = unwrap_or (checked_shr 128 (ip_number 65536 ip) shift) 0)
      | _ \<Rightarrow> False)"

definition range_max :: "ip_addr \<Rightarrow> nat" where
  "range_max ip = (case ip of V4 _ \<Rightarrow> 32 | V6 _ \<Rightarrow> 128)"

datatype range_error = NotAnAddress string | PrefixOutside string nat

definition range_from_str :: "string \<Rightarrow> (range_error, ip_range) result" where
  "range_from_str raw =
     (let (a, len) = (case split_once_by (\<lambda>c. c = CHR ''/'') (trim raw) of
                           Some (a, len) \<Rightarrow> (a, Some len)
                         | None \<Rightarrow> (trim raw, None))
      in and_then (ok_or (parse_ip a) (NotAnAddress raw)) (\<lambda>ip.
           (let network = to_canonical ip; mx = range_max network in
            and_then
              (case len of
                 None \<Rightarrow> Inr mx
               | Some p \<Rightarrow> ok_or (Option.bind (parse_u8 p) (\<lambda>n. if n \<le> mx then Some n else None)) (PrefixOutside raw mx))
              (\<lambda>p. Inr \<lparr>ra_network = network, ra_prefix = p\<rparr>))))"

definition show_range :: "ip_range \<Rightarrow> string" where
  "show_range r =
     (if ra_prefix r = range_max (ra_network r) then show_ip (ra_network r)
      else show_ip (ra_network r) @ ''/'' @ show_nat (ra_prefix r))"

definition trusts :: "server_config \<Rightarrow> ip_addr \<Rightarrow> bool" where
  "trusts server ip = list_ex (\<lambda>r. range_contains r ip) (sc_trusted_proxies server)"

section \<open>Who a request comes from\<close>

definition forwarded_hops :: "headers \<Rightarrow> string list" where
  "forwarded_hops hs = concat (map (split_on CHR '','') (List.map_filter to_str (header_all hs ''x-forwarded-for'')))"

fun believe_hops :: "server_config \<Rightarrow> ip_addr \<Rightarrow> string list \<Rightarrow> ip_addr" where
  "believe_hops server client [] = client"
| "believe_hops server client (hop # hops) =
     (case parse_ip (trim hop) of
        None \<Rightarrow> client
      | Some ip \<Rightarrow> if trusts server ip then believe_hops server ip hops else ip)"

definition client_address :: "server_config \<Rightarrow> ip_addr \<Rightarrow> headers \<Rightarrow> ip_addr" where
  "client_address server peer hs =
     (if trusts server peer then believe_hops server peer (rev (forwarded_hops hs)) else peer)"

definition vouched_user :: "server_config \<Rightarrow> ip_addr option \<Rightarrow> headers \<Rightarrow> string option" where
  "vouched_user server peer hs =
     (if sc_auth_header server = [] then None
      else
        (case peer of
           None \<Rightarrow> None
         | Some ip \<Rightarrow>
             if \<not> trusts server ip then None
             else
               (case header_str hs (sc_auth_header server) of
                  None \<Rightarrow> None
                | Some text \<Rightarrow> (let name = trim text in if name = [] then None else Some name))))"

section \<open>How a request arrived\<close>

definition first_hop :: "string \<Rightarrow> string" where
  "first_hop v = trim (hd (split_on CHR '','' v))"

text \<open>\<^verbatim>\<open>find_map\<close>.\<close>

fun find_map :: "('a \<Rightarrow> 'b option) \<Rightarrow> 'a list \<Rightarrow> 'b option" where
  "find_map f [] = None"
| "find_map f (x # xs) = (case f x of Some y \<Rightarrow> Some y | None \<Rightarrow> find_map f xs)"

definition proto_of_pair :: "string \<Rightarrow> string option" where
  "proto_of_pair pair =
     (case split_once_by (\<lambda>c. c = CHR ''='') pair of
        None \<Rightarrow> None
      | Some (name, v) \<Rightarrow>
          if eq_ignore_ascii_case (trim name) ''proto'' then Some (trim_matches (\<lambda>c. c = CHR 0x22) (trim v)) else None)"

definition forwarded_proto :: "string \<Rightarrow> string option" where
  "forwarded_proto element = find_map proto_of_pair (split_on CHR '';'' element)"

definition arrived_over_https :: "headers \<Rightarrow> bool" where
  "arrived_over_https hs =
     (case header_str hs ''x-forwarded-proto'' of
        Some v \<Rightarrow> eq_ignore_ascii_case (first_hop v) ''https''
      | None \<Rightarrow>
          (case Option.bind (header_str hs ''forwarded'') (\<lambda>v. forwarded_proto (first_hop v)) of
             Some proto \<Rightarrow> eq_ignore_ascii_case proto ''https''
           | None \<Rightarrow> False))"

text \<open>\<^verbatim>\<open>split_once\<close> at a substring.\<close>

fun split_once_str :: "string \<Rightarrow> string \<Rightarrow> (string \<times> string) option" where
  "split_once_str sep [] = (if sep = [] then Some ([], []) else None)"
| "split_once_str sep (c # cs) =
     (if prefix sep (c # cs) then Some ([], drop (length sep) (c # cs))
      else map_option (\<lambda>(a, b). (c # a, b)) (split_once_str sep cs))"

definition origin_host :: "string \<Rightarrow> string" where
  "origin_host org = trim_end_matches CHR ''/'' (case split_once_str ''://'' org of None \<Rightarrow> org | Some (_, rest) \<Rightarrow> rest)"

datatype origin_refusal = OriginWithoutHost | OtherSite

definition cross_origin_refusal :: "headers \<Rightarrow> origin_refusal option" where
  "cross_origin_refusal hs =
     (case header_str hs ''origin'' of
        None \<Rightarrow> None
      | Some org \<Rightarrow>
          (case header_str hs ''host'' of
             None \<Rightarrow> Some OriginWithoutHost
           | Some host \<Rightarrow> if origin_host org = host then None else Some OtherSite))"


section \<open>Blocks\<close>

definition range_ok :: "ip_range \<Rightarrow> bool" where
  "range_ok r \<longleftrightarrow> ip_ok (ra_network r) \<and> to_canonical (ra_network r) = ra_network r \<and> ra_prefix r \<le> range_max (ra_network r)"

lemma less_power_mono: "(n :: nat) < 2 ^ w \<Longrightarrow> w \<le> k \<Longrightarrow> n < 2 ^ k"
  by (erule less_le_trans) (rule power_increasing; simp)

lemma range_from_str_bounds:
  "range_from_str raw = Inr r \<Longrightarrow> to_canonical (ra_network r) = ra_network r \<and> ra_prefix r \<le> range_max (ra_network r)"
  by (auto simp: range_from_str_def Let_def bind_eq_Some_conv split: prod.splits option.splits if_splits)

text \<open>Membership in a block is agreement on its leading bits.\<close>

definition leading_bits :: "nat \<Rightarrow> nat \<Rightarrow> nat \<Rightarrow> bool list" where
  "leading_bits width p n = map (\<lambda>i. bit n (width - 1 - i)) [0..<p]"

lemma drop_bit_eq_leading:
  fixes a b :: nat
  assumes "a < 2 ^ w" "b < 2 ^ w" "p \<le> w"
  shows "drop_bit (w - p) a = drop_bit (w - p) b \<longleftrightarrow> leading_bits w p a = leading_bits w p b"
proof -
  have high: "\<not> bit n k" if "n < 2 ^ w" "w \<le> k" for n k :: nat
  proof -
    have "n < 2 ^ k" using less_power_mono [OF that] .
    then show ?thesis by (simp add: bit_iff_odd)
  qed
  have "drop_bit (w - p) a = drop_bit (w - p) b \<longleftrightarrow> (\<forall>k. bit a (w - p + k) = bit b (w - p + k))"
    by (simp add: bit_eq_iff bit_drop_bit_eq)
  also have "\<dots> \<longleftrightarrow> (\<forall>k < p. bit a (w - p + k) = bit b (w - p + k))"
  proof -
    have "bit a (w - p + k) = bit b (w - p + k)" if "\<not> k < p" for k
      using that assms high [of a "w - p + k"] high [of b "w - p + k"] by simp
    then show ?thesis by auto
  qed
  also have "\<dots> \<longleftrightarrow> (\<forall>i < p. bit a (w - 1 - i) = bit b (w - 1 - i))"
  proof (rule iffI; intro allI impI)
    fix i assume "\<forall>k < p. bit a (w - p + k) = bit b (w - p + k)" "i < p"
    then show "bit a (w - 1 - i) = bit b (w - 1 - i)" using assms(3) by (auto dest: spec [of _ "p - 1 - i"])
  next
    fix k assume "\<forall>i < p. bit a (w - 1 - i) = bit b (w - 1 - i)" "k < p"
    then show "bit a (w - p + k) = bit b (w - p + k)" using assms(3) by (auto dest!: spec [of _ "p - 1 - k"])
  qed
  finally show ?thesis by (auto simp: leading_bits_def)
qed

lemma ip_number_bound: "list_all (\<lambda>p. p < radix) ps \<Longrightarrow> ip_number radix ps < radix ^ length ps"
proof (induction ps rule: rev_induct)
  case (snoc p ps)
  then have "ip_number radix ps + 1 \<le> radix ^ length ps" "p < radix" by auto
  then have "(ip_number radix ps + 1) * radix \<le> radix ^ length ps * radix" by (simp only: mult_le_mono1)
  then show ?case using \<open>p < radix\<close> by (simp add: ip_number_def algebra_simps)
qed (simp add: ip_number_def)

lemma shr_unwrap: "n < 2 ^ w \<Longrightarrow> unwrap_or (checked_shr w n s) 0 = drop_bit s n"
proof -
  assume "n < 2 ^ w"
  moreover have "n < 2 ^ s" if "w \<le> s" using \<open>n < 2 ^ w\<close> that by (rule less_power_mono)
  ultimately show ?thesis by (auto simp: unwrap_or_def checked_shr_def drop_bit_eq_div)
qed

lemma range_contains_iff:
  assumes "range_ok r" "ip_ok ip"
  shows "range_contains r ip \<longleftrightarrow>
    (case (ra_network r, to_canonical ip) of
       (V4 net, V4 os) \<Rightarrow> leading_bits 32 (ra_prefix r) (ip_number 256 net) = leading_bits 32 (ra_prefix r) (ip_number 256 os)
     | (V6 net, V6 ss) \<Rightarrow> leading_bits 128 (ra_prefix r) (ip_number 65536 net) = leading_bits 128 (ra_prefix r) (ip_number 65536 ss)
     | _ \<Rightarrow> False)"
proof -
  have b4: "ip_number 256 os < 2 ^ 32" if "ip_ok (V4 os)" for os
    using that ip_number_bound [of 256 os] by (simp add: ip_ok_def)
  have b6: "ip_number 65536 ss < 2 ^ 128" if "ip_ok (V6 ss)" for ss
    using that ip_number_bound [of 65536 ss] by (simp add: ip_ok_def)
  have ok: "ip_ok (to_canonical ip)" "ip_ok (ra_network r)" using assms by (simp_all add: to_canonical_ok range_ok_def)
  show ?thesis
  proof (cases "ra_network r"; cases "to_canonical ip")
    fix net os assume "ra_network r = V4 net" "to_canonical ip = V4 os"
    then show ?thesis using ok assms b4 [of net] b4 [of os] drop_bit_eq_leading [of _ 32 _ "ra_prefix r"]
      by (simp add: range_contains_def shr_unwrap range_ok_def range_max_def)
  next
    fix net ss assume "ra_network r = V6 net" "to_canonical ip = V6 ss"
    then show ?thesis using ok assms b6 [of net] b6 [of ss] drop_bit_eq_leading [of _ 128 _ "ra_prefix r"]
      by (simp add: range_contains_def shr_unwrap range_ok_def range_max_def)
  qed (simp_all add: range_contains_def)
qed

text \<open>A block of IPv4 addresses is read back as it is printed.\<close>

lemma range_roundtrip:
  assumes "ip_ok (V4 os)" "p \<le> 32"
  shows "range_from_str (show_range \<lparr>ra_network = V4 os, ra_prefix = p\<rparr>) = Inr \<lparr>ra_network = V4 os, ra_prefix = p\<rparr>"
proof -
  have digits: "list_all is_digit (show_nat n)" for n by (rule show_nat_all_digits)
  have "list_all is_graphic (show_nat n)" for n
    using digits [of n] by (auto simp: list_all_iff is_digit_code is_graphic_def)
  then have "list_all is_graphic (show_ipv4 os)" "list_all is_graphic (show_ipv4 os @ ''/'' @ show_nat p)"
    by (simp_all add: show_ipv4_def is_graphic_def)
  moreover have whole: "trim t = t" if "list_all is_graphic t" "t \<noteq> []" for t
    using that by (intro trim_graphic) (auto simp: list_all_iff)
  ultimately have graphic: "trim (show_ipv4 os) = show_ipv4 os" "trim (show_ipv4 os @ ''/'' @ show_nat p) = show_ipv4 os @ ''/'' @ show_nat p"
    by (auto intro: whole simp: show_ipv4_def)
  have "CHR ''/'' \<notin> set (show_nat n)" for n using digits [of n] by (auto simp: list_all_iff is_digit_code)
  then have slash: "CHR ''/'' \<notin> set (show_ipv4 os)" by (simp add: show_ipv4_def)
  have none: "split_once_by (\<lambda>c. c = x) t = None" if "x \<notin> set t" for x t using that by (induction t) auto
  have some: "split_once_by (\<lambda>c. c = x) (t @ x # u) = Some (t, u)" if "x \<notin> set t" for x t u using that by (induction t) auto
  show ?thesis
  proof (cases "p = 32")
    case True
    then show ?thesis using assms(1) slash
      by (simp add: range_from_str_def show_range_def range_max_def show_ip_def graphic(1) none parse_show_ipv4 to_canonical_def)
  next
    case False
    have "parse_u8 (show_nat p) = Some p" using assms(2) by (intro parse_unsigned_show) simp
    then show ?thesis using assms False some [OF slash, of "show_nat p"] graphic(2)
      by (simp add: range_from_str_def show_range_def range_max_def show_ip_def parse_show_ipv4 to_canonical_def)
  qed
qed

section \<open>Forged headers\<close>

abbreviation trusted_hop :: "server_config \<Rightarrow> string \<Rightarrow> bool" where
  "trusted_hop server h \<equiv> (case parse_ip (trim h) of None \<Rightarrow> False | Some ip \<Rightarrow> trusts server ip)"

lemma to_str_readable: "to_str v \<noteq> None \<Longrightarrow> to_str v = Some v"
  by (simp add: to_str_def split: if_splits)

lemma map_filter_snoc: "List.map_filter f (xs @ [x]) = List.map_filter f xs @ (case f x of None \<Rightarrow> [] | Some y \<Rightarrow> [y])"
  by (simp add: List.map_filter_def split: option.split)

lemma forwarded_hops_last:
  "header_all hs ''x-forwarded-for'' = lines @ [v] \<Longrightarrow> to_str v \<noteq> None \<Longrightarrow> \<exists>before. forwarded_hops hs = before @ split_on CHR '','' v"
  by (simp add: forwarded_hops_def map_filter_snoc to_str_readable)

lemma believe_hops_chain:
  assumes "list_all (trusted_hop server) ps" "parse_ip (trim hop) = Some client" "\<not> trusts server client"
  shows "believe_hops server p (ps @ hop # forged) = client"
  using assms by (induction ps arbitrary: p) (auto split: option.splits)

lemma believe_hops_origin:
  "believe_hops server p hs = p \<or>
   (\<exists>proxies hop claimed. hs = proxies @ hop # claimed \<and> parse_ip (trim hop) = Some (believe_hops server p hs) \<and>
      list_all (trusted_hop server) proxies)"
proof (induction hs arbitrary: p)
  case (Cons h hs)
  show ?case
  proof (cases "parse_ip (trim h)")
    case (Some ip)
    show ?thesis
    proof (cases "trusts server ip \<and> believe_hops server ip hs \<noteq> ip")
      case True
      then obtain proxies hop claimed where "hs = proxies @ hop # claimed"
          "parse_ip (trim hop) = Some (believe_hops server ip hs)" "list_all (trusted_hop server) proxies"
        using Cons.IH [of ip] by blast
      then have "h # hs = (h # proxies) @ hop # claimed" "parse_ip (trim hop) = Some (believe_hops server p (h # hs))"
          "list_all (trusted_hop server) (h # proxies)"
        using Some True by simp_all
      then show ?thesis by blast
    next
      case False
      then have "h # hs = [] @ h # hs" "parse_ip (trim h) = Some (believe_hops server p (h # hs))" "list_all (trusted_hop server) []"
        using Some by auto
      then show ?thesis by blast
    qed
  qed simp
qed simp


text \<open>
  Witness of C28: behind a proxy on the local network, which heard from an address outside it, a client that claims another address
  in front; and the same headers on a connection of its own.
\<close>

definition proxied_server :: server_config where
  "proxied_server = server_default\<lparr>sc_trusted_proxies := [\<lparr>ra_network = V4 [10, 0, 0, 0], ra_prefix = 8\<rparr>], sc_auth_header := ''remote-user''\<rparr>"


text \<open>
  What an unreadable line does: a byte outside ASCII in the client's part of the line hides the address the proxy added, so
  that the proxy's own is taken; and behind a proxy that adds to the last of several lines, the client's earlier line,
  still readable, is taken at its word.
\<close>

lemma unreadable_line_hides_client:
  "client_address proxied_server (V4 [10, 0, 0, 2]) [(''x-forwarded-for'', CHR 0xFF # '', 203.0.113.9'')] = V4 [10, 0, 0, 2] \<and>
   client_address proxied_server (V4 [10, 0, 0, 2])
     [(''x-forwarded-for'', ''1.2.3.4''), (''x-forwarded-for'', CHR 0xFF # '', 203.0.113.9'')] = V4 [1, 2, 3, 4]"
  by code_simp

end
