(* ===== verification/Web_Sessions.thy ===== *)
theory Web_Sessions
  imports Web_Proxy Items
begin

text \<open>
  The tables in memory behind signing in, of \<^verbatim>\<open>sharerr/src/web/auth.rs\<close>: sessions, sign-ins that wait for a code, and the
  throttle per source address. An \<^verbatim>\<open>Instant\<close> is a number of nanoseconds and a request happens at one instant; the token
  the operating system's generator gave, or its failure, is an argument.
\<close>

section \<open>Sessions\<close>

definition secs :: "nat \<Rightarrow> nat" where "secs n = n * 1000000000"

definition SESSION_TTL :: nat where "SESSION_TTL = secs (14 * 24 * 60 * 60)"
definition PENDING_TTL :: nat where "PENDING_TTL = secs (5 * 60)"
definition PENDING_FAILURES :: nat where "PENDING_FAILURES = 5"

record session =
  sn_username :: string
  sn_last_seen :: nat

record pending_sign_in =
  pg_username :: string
  pg_created :: nat
  pg_failures :: nat

record sessions =
  ss_inner :: "(string, session) hashmap"
  ss_pending :: "(string, pending_sign_in) hashmap"

definition no_sessions :: sessions where
  "no_sessions = \<lparr>ss_inner = [], ss_pending = []\<rparr>"

definition session_create :: "(string, string) result \<Rightarrow> nat \<Rightarrow> string \<Rightarrow> sessions \<Rightarrow> sessions \<times> (string, string) result" where
  "session_create minted now username s =
     (case minted of
        Inl e \<Rightarrow> (s, Inl e)
      | Inr token \<Rightarrow>
          (s\<lparr>ss_inner := hm_insert token \<lparr>sn_username = username, sn_last_seen = now\<rparr>
               (filter (\<lambda>(_, x). now - sn_last_seen x < SESSION_TTL) (ss_inner s))\<rparr>, Inr token))"

definition session_touch :: "nat \<Rightarrow> string \<Rightarrow> sessions \<Rightarrow> sessions \<times> string option" where
  "session_touch now token s =
     (case map_of (ss_inner s) token of
        None \<Rightarrow> (s, None)
      | Some x \<Rightarrow>
          if now - sn_last_seen x \<ge> SESSION_TTL then (s\<lparr>ss_inner := hm_remove token (ss_inner s)\<rparr>, None)
          else (s\<lparr>ss_inner := hm_insert token (x\<lparr>sn_last_seen := now\<rparr>) (ss_inner s)\<rparr>, Some (sn_username x)))"

definition session_remove :: "string \<Rightarrow> sessions \<Rightarrow> sessions" where
  "session_remove token s = s\<lparr>ss_inner := hm_remove token (ss_inner s)\<rparr>"

definition revoke_all_except :: "string \<Rightarrow> sessions \<Rightarrow> sessions" where
  "revoke_all_except keep s = s\<lparr>ss_inner := filter (\<lambda>(token, _). token = keep) (ss_inner s)\<rparr>"

section \<open>Sign-ins that wait for a code\<close>

definition begin_second_factor :: "(string, string) result \<Rightarrow> nat \<Rightarrow> string \<Rightarrow> sessions \<Rightarrow> sessions \<times> (string, string) result" where
  "begin_second_factor minted now username s =
     (case minted of
        Inl e \<Rightarrow> (s, Inl e)
      | Inr token \<Rightarrow>
          (s\<lparr>ss_pending := hm_insert token \<lparr>pg_username = username, pg_created = now, pg_failures = 0\<rparr>
               (filter (\<lambda>(_, p). now - pg_created p < PENDING_TTL) (ss_pending s))\<rparr>, Inr token))"

definition pending_user :: "nat \<Rightarrow> string \<Rightarrow> sessions \<Rightarrow> string option" where
  "pending_user now token s =
     (case map_of (ss_pending s) token of
        None \<Rightarrow> None
      | Some p \<Rightarrow> if now - pg_created p < PENDING_TTL then Some (pg_username p) else None)"

definition fail_second_factor :: "string \<Rightarrow> sessions \<Rightarrow> sessions \<times> bool" where
  "fail_second_factor token s =
     (case map_of (ss_pending s) token of
        None \<Rightarrow> (s, False)
      | Some p \<Rightarrow>
          (let p' = p\<lparr>pg_failures := pg_failures p + 1\<rparr> in
           if pg_failures p' \<ge> PENDING_FAILURES then (s\<lparr>ss_pending := hm_remove token (ss_pending s)\<rparr>, False)
           else (s\<lparr>ss_pending := hm_insert token p' (ss_pending s)\<rparr>, True)))"

definition finish_second_factor :: "string \<Rightarrow> sessions \<Rightarrow> sessions" where
  "finish_second_factor token s = s\<lparr>ss_pending := hm_remove token (ss_pending s)\<rparr>"

section \<open>The throttle\<close>

record bucket =
  bk_spent :: nat
  bk_window_started :: nat

record throttle =
  th_inner :: "(ip_addr, bucket) hashmap"
  th_max_attempts :: nat
  th_window :: nat

definition throttle_new :: "nat \<Rightarrow> nat \<Rightarrow> throttle" where
  "throttle_new max_attempts window = \<lparr>th_inner = [], th_max_attempts = max_attempts, th_window = window\<rparr>"

definition throttle_default :: throttle where
  "throttle_default = throttle_new 5 (secs 60)"

definition throttle_check :: "nat \<Rightarrow> ip_addr \<Rightarrow> throttle \<Rightarrow> throttle \<times> (nat, unit) result" where
  "throttle_check now ip t =
     (let kept = filter (\<lambda>(_, b). now - bk_window_started b < th_window t) (th_inner t);
          b = (case map_of kept ip of Some b \<Rightarrow> b | None \<Rightarrow> \<lparr>bk_spent = 0, bk_window_started = now\<rparr>) in
      if bk_spent b \<ge> th_max_attempts t
      then (t\<lparr>th_inner := hm_insert ip b kept\<rparr>, Inl (th_window t - (now - bk_window_started b)))
      else (t\<lparr>th_inner := hm_insert ip (b\<lparr>bk_spent := bk_spent b + 1\<rparr>) kept\<rparr>, Inr ()))"

section \<open>Cookies\<close>

datatype same_site = StrictSite | LaxSite | NoneSite

record cookie =
  ck_name :: string
  ck_token :: string
  ck_path :: string
  ck_http_only :: bool
  ck_same_site :: same_site
  ck_secure :: bool
  ck_max_age :: "int option"

definition COOKIE_NAME :: string where "COOKIE_NAME = ''sharerr_session''"
definition PENDING_COOKIE :: string where "PENDING_COOKIE = ''sharerr_pending''"

definition base_cookie :: "string \<Rightarrow> string \<Rightarrow> string \<Rightarrow> bool \<Rightarrow> cookie" where
  "base_cookie name token path secure =
     \<lparr>ck_name = name, ck_token = token, ck_path = path, ck_http_only = True, ck_same_site = StrictSite, ck_secure = secure, ck_max_age = None\<rparr>"

definition session_cookie :: "string \<Rightarrow> bool \<Rightarrow> cookie" where
  "session_cookie token secure = base_cookie COOKIE_NAME token ''/'' secure"

definition pending_cookie :: "string \<Rightarrow> bool \<Rightarrow> cookie" where
  "pending_cookie token secure =
     (base_cookie PENDING_COOKIE token ''/login'' secure)\<lparr>ck_max_age := Some (saturating_i64 (PENDING_TTL div 1000000000))\<rparr>"

section \<open>Well-formed tables\<close>

definition sessions_ok :: "sessions \<Rightarrow> bool" where
  "sessions_ok s \<longleftrightarrow> hm_ok (ss_inner s) \<and> hm_ok (ss_pending s) \<and> list_all (\<lambda>(_, p). pg_failures p < PENDING_FAILURES) (ss_pending s)"

lemma sessions_ok_no_sessions [simp]: "sessions_ok no_sessions"
  by (simp add: sessions_ok_def no_sessions_def)

lemma sessions_ok_steps [invs]:
  assumes "sessions_ok s"
  shows "sessions_ok (fst (session_create minted now u s))" "sessions_ok (fst (session_touch now token s))"
    "sessions_ok (session_remove token s)" "sessions_ok (revoke_all_except keep s)"
    "sessions_ok (fst (begin_second_factor minted now u s))" "sessions_ok (fst (fail_second_factor token s))"
    "sessions_ok (finish_second_factor token s)"
  using assms
  by (auto simp: sessions_ok_def session_create_def session_touch_def session_remove_def revoke_all_except_def begin_second_factor_def
      fail_second_factor_def finish_second_factor_def Let_def set_hm_insert hm_remove_def list_all_iff PENDING_FAILURES_def
      split: sum.split option.split)

section \<open>The throttle's bound\<close>

definition throttle_ok :: "throttle \<Rightarrow> bool" where
  "throttle_ok t \<longleftrightarrow> hm_ok (th_inner t)"

lemma throttle_ok_new [simp]: "throttle_ok (throttle_new m w)"
  by (simp add: throttle_ok_def throttle_new_def)

lemma throttle_ok_check [invs]: "throttle_ok t \<Longrightarrow> throttle_ok (fst (throttle_check now ip t))"
  by (auto simp: throttle_ok_def throttle_check_def Let_def)

lemma throttle_check_limits [simp]:
  "th_max_attempts (fst (throttle_check now ip t)) = th_max_attempts t" "th_window (fst (throttle_check now ip t)) = th_window t"
  by (auto simp: throttle_check_def Let_def)

text \<open>The bucket an address has at an instant, if its window is still open.\<close>

definition live_bucket :: "nat \<Rightarrow> ip_addr \<Rightarrow> throttle \<Rightarrow> bucket option" where
  "live_bucket now ip t =
     (case map_of (th_inner t) ip of
        Some b \<Rightarrow> if now - bk_window_started b < th_window t then Some b else None
      | None \<Rightarrow> None)"

lemma live_bucket_check:
  assumes "throttle_ok t" "throttle_check now ip t = (t', r)"
  shows "case live_bucket now ip t of
      Some b \<Rightarrow>
        (if bk_spent b < th_max_attempts t then r = Inr () \<and> map_of (th_inner t') ip = Some (b\<lparr>bk_spent := bk_spent b + 1\<rparr>)
         else r = Inl (th_window t - (now - bk_window_started b)) \<and> map_of (th_inner t') ip = Some b)
    | None \<Rightarrow>
        (if 0 < th_max_attempts t then r = Inr () \<and> map_of (th_inner t') ip = Some \<lparr>bk_spent = 1, bk_window_started = now\<rparr>
         else r = Inl (th_window t) \<and> map_of (th_inner t') ip = Some \<lparr>bk_spent = 0, bk_window_started = now\<rparr>)"
    and "other \<noteq> ip \<Longrightarrow> map_of (th_inner t') other = live_bucket now other t"
proof -
  let ?kept = "filter (\<lambda>(_, b). now - bk_window_started b < th_window t) (th_inner t)"
  have kept: "map_of ?kept k = live_bucket now k t" for k
    using assms(1) by (auto simp: throttle_ok_def hm_ok_def live_bucket_def map_of_filter_Some split: option.splits)
  show "case live_bucket now ip t of
      Some b \<Rightarrow>
        (if bk_spent b < th_max_attempts t then r = Inr () \<and> map_of (th_inner t') ip = Some (b\<lparr>bk_spent := bk_spent b + 1\<rparr>)
         else r = Inl (th_window t - (now - bk_window_started b)) \<and> map_of (th_inner t') ip = Some b)
    | None \<Rightarrow>
        (if 0 < th_max_attempts t then r = Inr () \<and> map_of (th_inner t') ip = Some \<lparr>bk_spent = 1, bk_window_started = now\<rparr>
         else r = Inl (th_window t) \<and> map_of (th_inner t') ip = Some \<lparr>bk_spent = 0, bk_window_started = now\<rparr>)"
    using assms(2) by (auto simp: throttle_check_def Let_def kept split: option.splits if_splits)
  show "other \<noteq> ip \<Longrightarrow> map_of (th_inner t') other = live_bucket now other t"
    using assms(2) by (auto simp: throttle_check_def Let_def kept split: if_splits)
qed

text \<open>
  How many attempts of an address pass between two instants, and a bound on it: what is left in a window that opened after the
  first instant, or what is left in one that opened before it and a whole window after it.
\<close>

fun admitted :: "ip_addr \<Rightarrow> nat \<Rightarrow> nat \<Rightarrow> (nat \<times> ip_addr) list \<Rightarrow> throttle \<Rightarrow> nat" where
  "admitted ip a b [] t = 0"
| "admitted ip a b ((now, who) # attempts) t =
     (case throttle_check now who t of
        (t', r) \<Rightarrow> (if who = ip \<and> a \<le> now \<and> now < b \<and> r = Inr () then 1 else 0) + admitted ip a b attempts t')"

definition budget :: "nat \<Rightarrow> nat \<Rightarrow> ip_addr \<Rightarrow> throttle \<Rightarrow> nat" where
  "budget a now ip t =
     (if now < a then 2 * th_max_attempts t
      else case live_bucket now ip t of
             Some b \<Rightarrow> (th_max_attempts t - bk_spent b) + (if bk_window_started b < a then th_max_attempts t else 0)
           | None \<Rightarrow> th_max_attempts t)"

lemma budget_mono: "now \<le> later \<Longrightarrow> later < a + th_window t \<Longrightarrow> budget a later ip t \<le> budget a now ip t"
  by (auto simp: budget_def live_bucket_def split: option.splits if_splits)

lemma budget_check:
  assumes "throttle_ok t" "throttle_check now who t = (t', r)" "0 < th_window t"
  shows "(if who = ip \<and> a \<le> now \<and> r = Inr () then 1 else 0) + budget a now ip t' \<le> budget a now ip t"
proof -
  have limits: "th_max_attempts t' = th_max_attempts t" "th_window t' = th_window t"
    using throttle_check_limits [of now who t] assms(2) by simp_all
  have open_window: "now - bk_window_started b < th_window t" if "live_bucket now ip t = Some b" for b
    using that by (auto simp: live_bucket_def split: option.splits if_splits)
  show ?thesis
  proof (cases "who = ip")
    case True
    show ?thesis using live_bucket_check(1) [OF assms(1,2)] limits assms(3) open_window
      by (auto simp: True budget_def live_bucket_def [of _ _ t'] split: option.splits if_splits)
  next
    case False
    then have "map_of (th_inner t') ip = live_bucket now ip t" using live_bucket_check(2) [OF assms(1,2), of ip] by simp
    then show ?thesis using False limits by (auto simp: budget_def live_bucket_def split: option.splits if_splits)
  qed
qed

lemma admitted_late: "list_all (\<lambda>(now, _). b \<le> now) attempts \<Longrightarrow> admitted ip a b attempts t = 0"
  by (induction attempts arbitrary: t) (auto split: prod.splits)

lemma admitted_budget:
  assumes "throttle_ok t" "sorted (now # map fst attempts)" "0 < th_window t"
  shows "admitted ip a (a + th_window t) attempts t \<le> budget a now ip t"
  using assms
proof (induction attempts arbitrary: now t)
  case (Cons x attempts)
  obtain later who where x: "x = (later, who)" by (cases x)
  obtain t' r where check: "throttle_check later who t = (t', r)" by (cases "throttle_check later who t")
  have step: "throttle_ok t'" "th_window t' = th_window t"
    using throttle_ok_check [OF Cons.prems(1), of later who] throttle_check_limits [of later who t] by (simp_all add: check)
  have "admitted ip a (a + th_window t) attempts t' \<le> budget a later ip t'"
    using Cons.IH [OF step(1)] Cons.prems(2,3) step(2) by (simp add: x)
  then have "admitted ip a (a + th_window t) (x # attempts) t \<le> budget a later ip t"
    using budget_check [OF Cons.prems(1) check Cons.prems(3), of ip a] by (auto simp: x check)
  moreover have "admitted ip a (a + th_window t) (x # attempts) t = 0" if "a + th_window t \<le> later"
    using that Cons.prems(2) by (intro admitted_late) (auto simp: x list_all_iff)
  ultimately show ?case using budget_mono [of now later a t ip] Cons.prems(2) by (cases "later < a + th_window t") (auto simp: x)
qed simp

lemma admitted_bound:
  assumes "throttle_ok t" "sorted (map fst attempts)" "0 < th_window t"
  shows "admitted ip a (a + th_window t) attempts t \<le> 2 * th_max_attempts t"
proof -
  have "admitted ip a (a + th_window t) attempts t \<le> budget a 0 ip t" using assms by (intro admitted_budget) auto
  also have "\<dots> \<le> 2 * th_max_attempts t" by (auto simp: budget_def split: option.split)
  finally show ?thesis .
qed

text \<open>It throttles and never locks out: once the window an address was counted in has passed, its next attempt is let through.\<close>

lemma throttle_reopens:
  assumes "throttle_ok t" "0 < th_max_attempts t" "throttle_check now ip t = (t', Inl wait)" "now + wait \<le> later"
    and past: "\<And>b. map_of (th_inner t) ip = Some b \<Longrightarrow> bk_window_started b \<le> now"
  shows "snd (throttle_check later ip t') = Inr ()"
proof -
  obtain b where b: "map_of (th_inner t') ip = Some b" "th_window t - (now - bk_window_started b) = wait" "now - bk_window_started b < th_window t"
      "bk_window_started b \<le> now"
    using live_bucket_check(1) [OF assms(1,3)] assms(2) past by (auto simp: live_bucket_def split: option.splits if_splits)
  have t': "throttle_ok t'" "th_window t' = th_window t" "th_max_attempts t' = th_max_attempts t"
    using throttle_ok_check [OF assms(1), of now ip] throttle_check_limits [of now ip t] by (simp_all add: assms(3))
  have "live_bucket later ip t' = None" using b assms(4) t' by (auto simp: live_bucket_def)
  then show ?thesis using live_bucket_check(1) [OF t'(1), of later ip] t'(3) assms(2)
    by (cases "throttle_check later ip t'") auto
qed

end
