(* ===== verification/Totp.thy ===== *)
theory Totp
  imports Secrets Net
begin

unbundle bit_operations_syntax

text \<open>
  \<^verbatim>\<open>sharerr/src/totp.rs\<close>: time-based one-time passwords. SHA-1 is a parameter; HMAC, the truncation and base32 are written
  out as the source has them. The bit buffers are \<^verbatim>\<open>u32\<close> in the source and never hold more than twelve bits, so they are
  natural numbers here.
\<close>

abbreviation (input) STEP_SECS :: int where "STEP_SECS \<equiv> 30"
abbreviation (input) DIGITS :: nat where "DIGITS \<equiv> 6"
abbreviation (input) SKEW_STEPS :: int where "SKEW_STEPS \<equiv> 1"
abbreviation (input) SECRET_BYTES :: nat where "SECRET_BYTES \<equiv> 20"

definition ALPHABET :: string where
  "ALPHABET = ''ABCDEFGHIJKLMNOPQRSTUVWXYZ234567''"

section \<open>Base32\<close>

text \<open>The inner loop of the encoder: digits leave the buffer while it holds five bits.\<close>

fun emit_digits :: "nat \<Rightarrow> nat \<Rightarrow> string \<Rightarrow> nat \<times> string" where
  "emit_digits buffer bits out =
     (if bits \<ge> 5 then emit_digits buffer (bits - 5) (out @ [ALPHABET ! (drop_bit (bits - 5) buffer AND 31)]) else (bits, out))"

declare emit_digits.simps [simp del]

definition encode_byte :: "nat \<times> nat \<times> string \<Rightarrow> char \<Rightarrow> nat \<times> nat \<times> string" where
  "encode_byte st b =
     (case st of (buffer, bits, out) \<Rightarrow>
        (let buffer' = push_bit 8 buffer OR code b in
         case emit_digits buffer' (bits + 8) out of (bits', out') \<Rightarrow> (buffer' AND (push_bit bits' 1 - 1), bits', out')))"

definition base32_encode :: "bytes \<Rightarrow> string" where
  "base32_encode bs =
     (case foldl encode_byte (0, 0, []) bs of (buffer, bits, out) \<Rightarrow>
        if bits > 0 then out @ [ALPHABET ! (push_bit (5 - bits) buffer AND 31)] else out)"

definition ascii_upper :: "char \<Rightarrow> char" where
  "ascii_upper c = (if is_ascii_lower c then char_of (code c - 32) else c)"

text \<open>\<^verbatim>\<open>chars().filter(|c| !c.is_whitespace())\<close>.\<close>

function without_whitespace :: "string \<Rightarrow> string" where
  "without_whitespace s =
     (case strip_any ws_encodings s of
        Some t \<Rightarrow> without_whitespace t
      | None \<Rightarrow> (case s of [] \<Rightarrow> [] | c # cs \<Rightarrow> c # without_whitespace cs))"
  by pat_completeness auto

termination without_whitespace
  by (relation "measure length") (auto dest: strip_any_shorter)

declare without_whitespace.simps [simp del]

fun decode_digits :: "string \<Rightarrow> nat \<Rightarrow> nat \<Rightarrow> bytes \<Rightarrow> bytes option" where
  "decode_digits [] buffer bits out = Some out"
| "decode_digits (c # cs) buffer bits out =
     (case position (ascii_upper c) ALPHABET of
        None \<Rightarrow> None
      | Some v \<Rightarrow>
          (let buffer' = push_bit 5 buffer OR v; bits' = bits + 5 in
           if bits' \<ge> 8
           then decode_digits cs (buffer' AND (push_bit (bits' - 8) 1 - 1)) (bits' - 8)
                  (out @ [byte (drop_bit (bits' - 8) buffer' AND 0xff)])
           else decode_digits cs buffer' bits' out))"

definition base32_decode :: "string \<Rightarrow> bytes option" where
  "base32_decode text = decode_digits (filter (\<lambda>c. c \<noteq> CHR ''='') (without_whitespace text)) 0 0 []"

section \<open>Codes\<close>

definition hmac_block :: "(bytes \<Rightarrow> bytes) \<Rightarrow> bytes \<Rightarrow> bytes" where
  "hmac_block sha1 key =
     (let k = (if length key > 64 then sha1 key else key) in k @ replicate (64 - length k) (byte 0))"

definition xor_byte :: "nat \<Rightarrow> char \<Rightarrow> char" where
  "xor_byte n c = byte (code c XOR n)"

definition hmac_sha1 :: "(bytes \<Rightarrow> bytes) \<Rightarrow> bytes \<Rightarrow> bytes \<Rightarrow> bytes" where
  "hmac_sha1 sha1 key message =
     (let block = hmac_block sha1 key; inner = sha1 (map (xor_byte 0x36) block @ message)
      in sha1 (map (xor_byte 0x5c) block @ inner))"

text \<open>\<^verbatim>\<open>u64::to_be_bytes\<close>.\<close>

definition be64 :: "nat \<Rightarrow> bytes" where
  "be64 n = map (\<lambda>i. byte (n div 256 ^ i mod 256)) [7, 6, 5, 4, 3, 2, 1, 0]"

definition hotp :: "(bytes \<Rightarrow> bytes) \<Rightarrow> bytes \<Rightarrow> nat \<Rightarrow> nat" where
  "hotp sha1 key counter =
     (let mac = hmac_sha1 sha1 key (be64 counter); offset = code (mac ! 19) AND 0x0f
      in (code (mac ! offset) AND 0x7f) * 2 ^ 24 + code (mac ! (offset + 1)) * 2 ^ 16 + code (mac ! (offset + 2)) * 2 ^ 8 +
         code (mac ! (offset + 3)))"

text \<open>\<^verbatim>\<open>{n:0w$}\<close>.\<close>

definition show_pad :: "nat \<Rightarrow> nat \<Rightarrow> string" where
  "show_pad w n = replicate (w - length (show_nat n)) CHR ''0'' @ show_nat n"

definition code_for :: "(bytes \<Rightarrow> bytes) \<Rightarrow> bytes \<Rightarrow> nat \<Rightarrow> string" where
  "code_for sha1 key counter = show_pad DIGITS (hotp sha1 key counter mod 10 ^ DIGITS)"

definition totp_verify :: "(bytes \<Rightarrow> bytes) \<Rightarrow> string \<Rightarrow> string \<Rightarrow> int \<Rightarrow> int option" where
  "totp_verify sha1 secret entered now =
     (let c = without_whitespace entered in
      if length c \<noteq> DIGITS \<or> \<not> list_all is_digit c then None
      else
        (case base32_decode secret of
           None \<Rightarrow> None
         | Some key \<Rightarrow>
             (let cur = now div STEP_SECS in
              find (\<lambda>step. case u64_try_from step of None \<Rightarrow> False | Some counter \<Rightarrow> constant_time_eq (code_for sha1 key counter) c)
                [cur - SKEW_STEPS..cur + SKEW_STEPS])))"

definition is_valid_secret :: "string \<Rightarrow> bool" where
  "is_valid_secret secret = (case base32_decode secret of None \<Rightarrow> False | Some key \<Rightarrow> length key = SECRET_BYTES)"

definition generate_secret :: "(string, bytes) result \<Rightarrow> (string, string) result" where
  "generate_secret random = (case random of Inl e \<Rightarrow> Inl e | Inr bs \<Rightarrow> Inr (base32_encode bs))"

definition percent_byte :: "char \<Rightarrow> string" where
  "percent_byte b =
     (if is_ascii_alphanumeric b \<or> b \<in> set ''-._~'' then [b]
      else CHR ''%'' # map (\<lambda>d. if d < 10 then char_of (48 + d) else char_of (55 + d)) [code b div 16, code b mod 16])"

definition totp_percent_encode :: "string \<Rightarrow> string" where
  "totp_percent_encode text = concat (map percent_byte text)"

definition otpauth_uri :: "string \<Rightarrow> string \<Rightarrow> string" where
  "otpauth_uri username secret =
     ''otpauth://totp/sharerr:'' @ totp_percent_encode username @ ''?secret='' @ secret @ ''&issuer=sharerr''"

section \<open>Base32 reads back\<close>

lemma position_alphabet: "v < 32 \<Longrightarrow> position (ALPHABET ! v) ALPHABET = Some v"
proof -
  have "list_all (\<lambda>v. position (ALPHABET ! v) ALPHABET = Some v) [0..<32]" by code_simp
  then show "v < 32 \<Longrightarrow> position (ALPHABET ! v) ALPHABET = Some v" by (simp add: list_all_iff)
qed

lemma alphabet_plain:
  "v < 32 \<Longrightarrow> ascii_upper (ALPHABET ! v) = ALPHABET ! v \<and> is_graphic (ALPHABET ! v) \<and> ALPHABET ! v \<noteq> CHR ''=''"
proof -
  have "list_all (\<lambda>v. ascii_upper (ALPHABET ! v) = ALPHABET ! v \<and> is_graphic (ALPHABET ! v) \<and> ALPHABET ! v \<noteq> CHR ''='') [0..<32]" by code_simp
  then show "v < 32 \<Longrightarrow> ascii_upper (ALPHABET ! v) = ALPHABET ! v \<and> is_graphic (ALPHABET ! v) \<and> ALPHABET ! v \<noteq> CHR ''=''" by (simp add: list_all_iff)
qed

lemma or_is_add:
  assumes "m < 2 ^ k"
  shows "push_bit k n OR m = n * 2 ^ k + (m :: nat)"
proof -
  have "push_bit k n AND take_bit k m = 0" by (simp add: bit_eq_iff bit_simps)
  then have "push_bit k n OR take_bit k m = push_bit k n + take_bit k m" by (rule disjunctive_add_eq_or [symmetric])
  then show ?thesis using assms by (simp add: take_bit_nat_eq_self push_bit_eq_mult)
qed

lemma low_bits: "(n :: nat) AND (push_bit k 1 - 1) = n mod 2 ^ k"
proof -
  have "push_bit k 1 - 1 = (mask k :: nat)" by (simp add: push_bit_eq_mult mask_eq_exp_minus_1)
  then show ?thesis by (simp only: take_bit_eq_mask [symmetric] take_bit_eq_mod)
qed

lemma low_mask: "(n :: nat) AND (2 ^ k - Suc 0) = n mod 2 ^ k"
  using low_bits [of n k] by simp

lemma low_five: "(n :: nat) AND 31 = n mod 32"
  using low_bits [of n 5] by (simp add: push_bit_eq_mult)

lemma low_eight: "(n :: nat) AND 0xff = n mod 256"
  using low_bits [of n 8] by (simp add: push_bit_eq_mult)

text \<open>The number a list of digits spells, first digit first.\<close>

fun val :: "nat \<Rightarrow> nat list \<Rightarrow> nat" where
  "val b [] = 0"
| "val b (d # ds) = d * b ^ length ds + val b ds"

lemma val_append: "val b (xs @ ys) = val b xs * b ^ length ys + val b ys"
  by (induction xs) (simp_all add: algebra_simps power_add)

lemma val_less: "\<forall>d \<in> set ds. d < b \<Longrightarrow> val b ds < b ^ length ds"
proof (induction ds)
  case (Cons d ds)
  then have "val b ds < b ^ length ds" "Suc d \<le> b" by simp_all
  then have "d * b ^ length ds + val b ds < Suc d * b ^ length ds" "Suc d * b ^ length ds \<le> b * b ^ length ds"
    by (simp_all only: mult_le_mono1) simp
  then show ?case by simp
qed simp

lemma div_digit: "v < B \<Longrightarrow> (x * B + v) div B = (x :: nat)"
  by (rule div_nat_eqI) (simp_all add: algebra_simps)

lemma val_inj:
  "length xs = length ys \<Longrightarrow> \<forall>d \<in> set xs. d < b \<Longrightarrow> \<forall>d \<in> set ys. d < b \<Longrightarrow> val b xs = val b ys \<Longrightarrow> xs = ys"
proof (induction xs ys rule: list_induct2)
  case (Cons x xs y ys)
  have less: "val b xs < b ^ length xs" "val b ys < b ^ length xs" 
    using Cons.prems(1,2) Cons.hyps val_less [of xs b] val_less [of ys b] by simp_all
  have "(x * b ^ length xs + val b xs) div b ^ length xs = x" "(y * b ^ length xs + val b ys) div b ^ length xs = y"
    by (rule div_digit [OF less(1)], rule div_digit [OF less(2)])
  then have "x = y" using Cons.prems(3) Cons.hyps by simp
  then show ?case using Cons by simp
qed simp

abbreviation digit32 :: "nat \<Rightarrow> char" where "digit32 \<equiv> (!) ALPHABET"

lemma split_mod: "(x :: nat) mod 2 ^ (k + 5) = 2 ^ k * (x div 2 ^ k mod 32) + x mod 2 ^ k"
  using mod_mult2_eq [of x "2 ^ k" 32] by (simp add: power_add)

lemma emit_digits_value:
  assumes "emit_digits buffer bits (map digit32 ds) = (bits', out)" "\<forall>d \<in> set ds. d < 32"
  shows "\<exists>es. out = map digit32 es \<and> (\<forall>d \<in> set es. d < 32) \<and> bits' < 5 \<and> 5 * length es + bits' = 5 * length ds + bits \<and>
    val 32 es * 2 ^ bits' + buffer mod 2 ^ bits' = val 32 ds * 2 ^ bits + buffer mod 2 ^ bits"
  using assms
proof (induction bits arbitrary: ds rule: less_induct)
  case (less bits)
  show ?case
  proof (cases "bits \<ge> 5")
    case True
    define d where "d = buffer div 2 ^ (bits - 5) mod 32"
    have "emit_digits buffer (bits - 5) (map digit32 (ds @ [d])) = (bits', out)"
      using less.prems(1) True by (subst (asm) emit_digits.simps) (simp add: d_def drop_bit_eq_div low_five)
    then obtain es where es: "out = map digit32 es" "\<forall>d \<in> set es. d < 32" "bits' < 5" "5 * length es + bits' = 5 * length (ds @ [d]) + (bits - 5)"
        "val 32 es * 2 ^ bits' + buffer mod 2 ^ bits' = val 32 (ds @ [d]) * 2 ^ (bits - 5) + buffer mod 2 ^ (bits - 5)"
      using less.IH [of "bits - 5" "ds @ [d]"] less.prems(2) True by (auto simp: d_def)
    have "val 32 (ds @ [d]) * 2 ^ (bits - 5) + buffer mod 2 ^ (bits - 5) = val 32 ds * 2 ^ bits + buffer mod 2 ^ bits"
    proof -
      have p: "bits = bits - 5 + 5" using True by simp
      have "(2 :: nat) ^ bits = 32 * 2 ^ (bits - 5)" by (subst p) (simp only: power_add, simp)
      moreover have "buffer mod 2 ^ bits = 2 ^ (bits - 5) * d + buffer mod 2 ^ (bits - 5)"
        unfolding d_def by (subst p) (rule split_mod)
      ultimately show ?thesis by (simp add: val_append algebra_simps)
    qed
    then show ?thesis using es True by (intro exI [of _ es]) auto
  next
    case False
    then show ?thesis using less.prems by (intro exI [of _ ds]) (simp add: emit_digits.simps)
  qed
qed

definition encoding :: "nat \<times> nat \<times> string \<Rightarrow> bytes \<Rightarrow> nat list \<Rightarrow> bool" where
  "encoding = (\<lambda>(buffer, bits, out) bs ds.
     out = map digit32 ds \<and> (\<forall>d \<in> set ds. d < 32) \<and> bits < 5 \<and> buffer < 2 ^ bits \<and> 5 * length ds + bits = 8 * length bs \<and>
     val 32 ds * 2 ^ bits + buffer = val 256 (map code bs))"

lemma encode_byte_value:
  assumes "encoding st bs ds"
  shows "\<exists>es. encoding (encode_byte st b) (bs @ [b]) es"
proof -
  obtain buffer bits out where st: "st = (buffer, bits, out)" by (cases st)
  note e = assms [unfolded encoding_def st, simplified]
  have "code b < 256" by (rule nat_of_char_less_256)
  define n where "n = push_bit 8 buffer OR code b"
  have n: "n = buffer * 256 + code b" using or_is_add [of "code b" 8 buffer] \<open>code b < 256\<close> by (simp add: n_def)
  obtain bits' out' where em: "emit_digits n (bits + 8) (map digit32 ds) = (bits', out')"
    by (cases "emit_digits n (bits + 8) (map digit32 ds)")
  obtain es where es: "out' = map digit32 es" "\<forall>d \<in> set es. d < 32" "bits' < 5" "5 * length es + bits' = 5 * length ds + (bits + 8)"
      "val 32 es * 2 ^ bits' + n mod 2 ^ bits' = val 32 ds * 2 ^ (bits + 8) + n mod 2 ^ (bits + 8)"
    using emit_digits_value [OF em] e by blast
  have "n < 2 ^ (bits + 8)"
  proof -
    have "n < (buffer + 1) * 256" using n \<open>code b < 256\<close> by simp
    also have "\<dots> \<le> 2 ^ bits * 256" using e by (intro mult_le_mono1) simp
    finally show ?thesis by (simp add: power_add)
  qed
  then have "val 32 es * 2 ^ bits' + n mod 2 ^ bits' = val 256 (map code (bs @ [b]))"
    using es(5) e n by (simp add: val_append power_add algebra_simps)
  then have "encoding (n mod 2 ^ bits', bits', out') (bs @ [b]) es" using es e by (simp add: encoding_def)
  moreover have "encode_byte st b = (n mod 2 ^ bits', bits', out')"
    using em e by (simp add: encode_byte_def st Let_def low_mask n_def [symmetric])
  ultimately show ?thesis by metis
qed

lemma encode_bytes_value: "encoding st bs ds \<Longrightarrow> \<exists>es. encoding (foldl encode_byte st cs) (bs @ cs) es"
proof (induction cs arbitrary: st bs ds)
  case (Cons c cs)
  obtain es where "encoding (encode_byte st c) (bs @ [c]) es" using encode_byte_value [OF Cons.prems] by blast
  from Cons.IH [OF this] show ?case by simp
qed auto

text \<open>What is encoded: the digits of the bytes' value, padded with zero bits to a whole digit.\<close>

lemma base32_encode_digits:
  "\<exists>ds pad. base32_encode bs = map digit32 ds \<and> (\<forall>d \<in> set ds. d < 32) \<and> pad < 5 \<and> 5 * length ds = 8 * length bs + pad \<and>
     val 32 ds = val 256 (map code bs) * 2 ^ pad"
proof -
  have "encoding (0, 0, []) [] []" by (simp add: encoding_def)
  then obtain ds where ds: "encoding (foldl encode_byte (0, 0, []) bs) bs ds" using encode_bytes_value by fastforce
  obtain buffer bits out where st: "foldl encode_byte (0, 0, []) bs = (buffer, bits, out)" by (cases "foldl encode_byte (0, 0, []) bs")
  note e = ds [unfolded st encoding_def, simplified]
  show ?thesis
  proof (cases "bits = 0")
    case True
    then show ?thesis using e by (intro exI [of _ ds] exI [of _ 0]) (simp add: base32_encode_def st)
  next
    case False
    define d where "d = buffer * 2 ^ (5 - bits)"
    have two: "(2 :: nat) ^ bits * 2 ^ (5 - bits) = 32" using e by (simp flip: power_add)
    have "d < 32" using e two unfolding d_def by (metis mult_less_mono1 zero_less_numeral zero_less_power)
    then have "base32_encode bs = map digit32 (ds @ [d])" using False e by (simp add: base32_encode_def st low_five push_bit_eq_mult d_def)
    moreover have "val 32 (ds @ [d]) = val 256 (map code bs) * 2 ^ (5 - bits)"
      using e two by (simp add: val_append d_def flip: e) (simp add: algebra_simps)
    ultimately show ?thesis using \<open>d < 32\<close> e False by (intro exI [of _ "ds @ [d]"] exI [of _ "5 - bits"]) auto
  qed
qed

lemma decode_digits_value:
  assumes "\<forall>d \<in> set ds. d < 32" "bits < 8" "buffer < 2 ^ bits" "\<forall>n \<in> set os. n < 256"
  shows "\<exists>ns b r. decode_digits (map digit32 ds) buffer bits (map byte os) = Some (map byte ns) \<and> b < 8 \<and> r < 2 ^ b \<and>
    (\<forall>n \<in> set ns. n < 256) \<and> 8 * length ns + b = 8 * length os + bits + 5 * length ds \<and>
    val 256 ns * 2 ^ b + r = (val 256 os * 2 ^ bits + buffer) * 32 ^ length ds + val 32 ds"
  using assms
proof (induction ds arbitrary: buffer bits os)
  case Nil
  then show ?case by (intro exI [of _ os] exI [of _ bits] exI [of _ buffer]) simp
next
  case (Cons d ds)
  define n where "n = buffer * 32 + d"
  have d: "d < 32" using Cons.prems by simp
  have or: "push_bit 5 buffer OR d = n" using or_is_add [of d 5 buffer] d by (simp add: n_def)
  have n: "n < 2 ^ (bits + 5)"
  proof -
    have "n < (buffer + 1) * 32" using d by (simp add: n_def)
    also have "\<dots> \<le> 2 ^ bits * 32" using Cons.prems(3) by (intro mult_le_mono1) simp
    finally show ?thesis by (simp add: power_add)
  qed
  have V: "(val 256 os * 2 ^ (bits + 5) + n) * 32 ^ length ds + val 32 ds =
      (val 256 os * 2 ^ bits + buffer) * 32 ^ length (d # ds) + val 32 (d # ds)"
    by (simp add: n_def power_add algebra_simps)
  show ?case
  proof (cases "bits + 5 \<ge> 8")
    case True
    define k where "k = bits + 5 - 8"
    have k: "bits + 5 = k + 8" "k < 8" using True Cons.prems(2) by (simp_all add: k_def)
    have q: "n div 2 ^ k < 256" using n unfolding k(1) by (simp add: power_add less_mult_imp_div_less mult.commute)
    have step: "decode_digits (map digit32 (d # ds)) buffer bits (map byte os) =
        decode_digits (map digit32 ds) (n mod 2 ^ k) k (map byte (os @ [n div 2 ^ k]))"
      using True q by (simp add: position_alphabet alphabet_plain d or Let_def k_def low_mask low_eight drop_bit_eq_div)
    obtain ns b r where w: "decode_digits (map digit32 ds) (n mod 2 ^ k) k (map byte (os @ [n div 2 ^ k])) = Some (map byte ns)" "b < 8" "r < 2 ^ b"
        "\<forall>n \<in> set ns. n < 256" "8 * length ns + b = 8 * length (os @ [n div 2 ^ k]) + k + 5 * length ds"
        "val 256 ns * 2 ^ b + r = (val 256 (os @ [n div 2 ^ k]) * 2 ^ k + n mod 2 ^ k) * 32 ^ length ds + val 32 ds"
      using Cons.IH [of k "n mod 2 ^ k" "os @ [n div 2 ^ k]"] Cons.prems q k(2) by auto
    have "val 256 (os @ [n div 2 ^ k]) * 2 ^ k + n mod 2 ^ k = val 256 os * 2 ^ (bits + 5) + n"
      unfolding k(1) by (simp add: val_append power_add algebra_simps)
    note value' = w(6) [unfolded this V]
    show ?thesis
      using w(2-4) w(5) k(1) trans [OF step w(1)] value' by (intro exI conjI; (assumption | simp))
  next
    case False
    have step: "decode_digits (map digit32 (d # ds)) buffer bits (map byte os) = decode_digits (map digit32 ds) n (bits + 5) (map byte os)"
      using False by (simp add: position_alphabet alphabet_plain d or Let_def)
    obtain ns b r where w: "decode_digits (map digit32 ds) n (bits + 5) (map byte os) = Some (map byte ns)" "b < 8" "r < 2 ^ b"
        "\<forall>n \<in> set ns. n < 256" "8 * length ns + b = 8 * length os + (bits + 5) + 5 * length ds"
        "val 256 ns * 2 ^ b + r = (val 256 os * 2 ^ (bits + 5) + n) * 32 ^ length ds + val 32 ds"
      using Cons.IH [of "bits + 5" n os] Cons.prems n False by auto
    note value' = w(6) [unfolded V]
    show ?thesis
      using w(2-4) w(5) trans [OF step w(1)] value' by (intro exI conjI; (assumption | simp))
  qed
qed

lemma without_whitespace_graphic: "list_all is_graphic s \<Longrightarrow> without_whitespace s = s"
proof (induction s)
  case (Cons c s)
  then show ?case by (subst without_whitespace.simps) (simp add: strip_any_word starts_no_space_graphic)
qed (simp add: without_whitespace.simps strip_any_Nil)

text \<open>
  C20. A secret survives being shown: decoding what was encoded gives the bytes back, whatever their number, so the key the
  authenticator computes with is the key that was made.
\<close>

theorem base32_roundtrip: "base32_decode (base32_encode bs) = Some bs"
proof -
  obtain ds pad where ds: "base32_encode bs = map digit32 ds" "\<forall>d \<in> set ds. d < 32" "pad < 5" "5 * length ds = 8 * length bs + pad"
      "val 32 ds = val 256 (map code bs) * 2 ^ pad"
    using base32_encode_digits by blast
  have plain: "list_all is_graphic (map digit32 ds)" "filter (\<lambda>c. c \<noteq> CHR ''='') (map digit32 ds) = map digit32 ds"
    using ds(2) alphabet_plain by (auto simp: list_all_iff filter_id_conv)
  obtain ns b r where ns: "decode_digits (map digit32 ds) 0 0 (map byte []) = Some (map byte ns)" "b < 8" "r < 2 ^ b" "\<forall>n \<in> set ns. n < 256"
      "8 * length ns + b = 5 * length ds" "val 256 ns * 2 ^ b + r = val 32 ds"
    using decode_digits_value [of ds 0 0 "[]"] ds(2) by auto
  have eq: "length ns * 8 + b = length bs * 8 + pad" "pad < 8" using ns(5) ds(3,4) by simp_all
  have "length ns = length bs" using div_digit [OF ns(2), of "length ns"] div_digit [OF eq(2), of "length bs"] eq(1) by simp
  with eq have len: "length ns = length bs" "b = pad" by simp_all
  have "val 256 ns = (val 256 ns * 2 ^ b + r) div 2 ^ b" by (rule div_digit [OF ns(3), symmetric])
  also have "\<dots> = val 256 (map code bs)" using ns(6) ds(5) len(2) by simp
  finally have "ns = map code bs" using val_inj [of ns "map code bs" 256] len(1) ns(4) by auto
  then have "map byte ns = bs" by (simp add: byte_def comp_def)
  then show ?thesis using ns(1) plain by (simp add: base32_decode_def ds(1) without_whitespace_graphic)
qed

section \<open>Codes\<close>

lemma code_for_digits: "length (code_for sha1 key counter) = DIGITS \<and> list_all is_digit (code_for sha1 key counter)"
proof -
  let ?n = "hotp sha1 key counter mod 1000000"
  have "length (show_nat ?n) \<le> 6" by (rule length_show_nat_le) simp_all
  moreover have "list_all is_digit (show_nat ?n)" by (rule show_nat_all_digits)
  ultimately show ?thesis by (auto simp: code_for_def show_pad_def list_all_iff is_digit_code)
qed

text \<open>The truncation stays inside a digest of twenty bytes.\<close>

lemma hotp_in_bounds:
  assumes "\<And>x. length (sha1 x) = 20"
  shows "(code (hmac_sha1 sha1 key message ! 19) AND 0x0f) + 3 < length (hmac_sha1 sha1 key message)"
proof -
  have "(n :: nat) AND 15 = n mod 16" for n using low_bits [of n 4] by (simp add: push_bit_eq_mult)
  then show ?thesis using assms pos_mod_bound [of 16] by (simp add: hmac_sha1_def Let_def)
qed

lemma totp_verify_SomeD:
  assumes "totp_verify sha1 secret entered now = Some step"
  shows "\<exists>key. base32_decode secret = Some key \<and> 0 \<le> step \<and> \<bar>step - now div STEP_SECS\<bar> \<le> SKEW_STEPS \<and>
    without_whitespace entered = code_for sha1 key (nat step)"
proof -
  obtain key where key: "base32_decode secret = Some key"
      "find (\<lambda>step. case u64_try_from step of None \<Rightarrow> False | Some counter \<Rightarrow> constant_time_eq (code_for sha1 key counter) (without_whitespace entered))
         [now div 30 - 1..now div 30 + 1] = Some step"
    using assms by (auto simp: totp_verify_def Let_def split: if_splits option.splits)
  then have "step \<in> set [now div 30 - 1..now div 30 + 1]"
      "case u64_try_from step of None \<Rightarrow> False | Some counter \<Rightarrow> constant_time_eq (code_for sha1 key counter) (without_whitespace entered)"
    unfolding find_Some_iff by auto
  then show ?thesis using key(1) by (auto simp: u64_try_from_def split: if_splits option.splits)
qed

lemma totp_verify_accepts:
  assumes "base32_decode secret = Some key" "0 \<le> step" "\<bar>step - now div STEP_SECS\<bar> \<le> SKEW_STEPS"
  shows "\<exists>s. totp_verify sha1 secret (code_for sha1 key (nat step)) now = Some s"
proof -
  let ?c = "code_for sha1 key (nat step)"
  have "list_all is_graphic ?c" using code_for_digits [of sha1 key "nat step"] by (auto simp: list_all_iff is_digit_code is_graphic_def)
  then have ws: "without_whitespace ?c = ?c" by (rule without_whitespace_graphic)
  have "step \<in> set [now div 30 - 1..now div 30 + 1]" using assms(3) by (simp add: abs_le_iff)
  then have "find (\<lambda>step. case u64_try_from step of None \<Rightarrow> False | Some counter \<Rightarrow> constant_time_eq (code_for sha1 key counter) ?c)
      [now div 30 - 1..now div 30 + 1] \<noteq> None"
    unfolding find_None_iff using assms(2) by (auto simp: u64_try_from_def)
  then show ?thesis using assms(1) code_for_digits [of sha1 key "nat step"] by (simp add: totp_verify_def ws Let_def)
qed

end
