(* ===== verification/Accounts.thy ===== *)
theory Accounts
  imports Peers Totp
begin

text \<open>
  \<^verbatim>\<open>sharerr-store/src/users.rs\<close>: the accounts of the web interface. Argon2 is a parameter: hashing a password with a fresh salt,
  which may fail, and checking a password against a stored string. So are a refused hashing slot and the statements the
  database refuses; a refused statement changes nothing.
\<close>

section \<open>The table\<close>

record user_row =
  ur_id :: int
  ur_username :: string
  ur_password_hash :: string
  ur_created_at :: int
  ur_updated_at :: int
  ur_totp_secret :: "string option"
  ur_totp_last_step :: "int option"

record users =
  us_rows :: "user_row list"
  us_last_id :: int

definition no_users :: users where
  "no_users = \<lparr>us_rows = [], us_last_id = 0\<rparr>"

datatype account_op = CountUsers | CreateUser | ReadHash | SetPassword | ReadTotp | SetTotp | ClaimStep

record account_env =
  ac_hash :: "string \<Rightarrow> (string, string) result"
  ac_verify :: "string \<Rightarrow> string \<Rightarrow> bool"
  ac_decoy :: string
  ac_busy :: bool
  ac_fails :: "account_op \<Rightarrow> store_error option"
  ac_now :: int
  ac_gap :: nat

definition statement :: "account_env \<Rightarrow> account_op \<Rightarrow> 'a \<Rightarrow> (store_error, 'a) result" where
  "statement env op x = (case ac_fails env op of Some e \<Rightarrow> Inl e | None \<Rightarrow> Inr x)"

definition find_user :: "string \<Rightarrow> users \<Rightarrow> user_row option" where
  "find_user username t = find (\<lambda>r. ur_username r = username) (us_rows t)"

text \<open>\<^verbatim>\<open>UPDATE users SET .. WHERE username = .. AND ..\<close>, and whether a row changed.\<close>

definition update_user :: "(user_row \<Rightarrow> bool) \<Rightarrow> (user_row \<Rightarrow> user_row) \<Rightarrow> string \<Rightarrow> users \<Rightarrow> users \<times> bool" where
  "update_user P f username t =
     (t\<lparr>us_rows := map (\<lambda>r. if ur_username r = username \<and> P r then f r else r) (us_rows t)\<rparr>,
      list_ex (\<lambda>r. ur_username r = username \<and> P r) (us_rows t))"

section \<open>Operations\<close>

definition user_count :: "account_env \<Rightarrow> users \<Rightarrow> (store_error, nat) result" where
  "user_count env t = statement env CountUsers (length (us_rows t))"

definition validate_username :: "string \<Rightarrow> (store_error, string) result" where
  "validate_username username =
     validate_name username ''username must not be blank'' ''username must be 64 characters or fewer''"

definition validate_password :: "string \<Rightarrow> (store_error, unit) result" where
  "validate_password password = (if password = [] then Inl (InvalidUser ''password must not be empty'') else Inr ())"

definition hash_password :: "account_env \<Rightarrow> string \<Rightarrow> (store_error, string) result" where
  "hash_password env password =
     (if ac_busy env then Inl TooBusy
      else case ac_hash env password of Inl e \<Rightarrow> Inl (PasswordHash e) | Inr h \<Rightarrow> Inr h)"

definition insert_user :: "account_env \<Rightarrow> string \<Rightarrow> string \<Rightarrow> users \<Rightarrow> users \<times> (store_error, int) result" where
  "insert_user env username h t =
     (case ac_fails env CreateUser of
        Some e \<Rightarrow> (t, Inl e)
      | None \<Rightarrow>
          if list_ex (\<lambda>r. ur_username r = username) (us_rows t) then (t, Inl (UserExists username))
          else
            (let i = us_last_id t + 1 + int (ac_gap env) in
             (\<lparr>us_rows = us_rows t @ [\<lparr>ur_id = i, ur_username = username, ur_password_hash = h, ur_created_at = ac_now env,
                 ur_updated_at = ac_now env, ur_totp_secret = None, ur_totp_last_step = None\<rparr>], us_last_id = i\<rparr>, Inr i)))"

definition create_user :: "account_env \<Rightarrow> string \<Rightarrow> string \<Rightarrow> users \<Rightarrow> users \<times> (store_error, int) result" where
  "create_user env username password t =
     (case and_then (validate_username username) (\<lambda>name.
             and_then (validate_password password) (\<lambda>_. and_then (hash_password env password) (\<lambda>h. Inr (name, h)))) of
        Inl e \<Rightarrow> (t, Inl e)
      | Inr (name, h) \<Rightarrow> insert_user env name h t)"

definition verify_password :: "account_env \<Rightarrow> string \<Rightarrow> string \<Rightarrow> users \<Rightarrow> (store_error, bool) result" where
  "verify_password env username password t =
     and_then (statement env ReadHash (map_option ur_password_hash (find_user username t))) (\<lambda>stored.
       if ac_busy env then Inl TooBusy
       else Inr (ac_verify env password (case stored of Some h \<Rightarrow> h | None \<Rightarrow> ac_decoy env) \<and> stored \<noteq> None))"

definition set_password :: "account_env \<Rightarrow> string \<Rightarrow> string \<Rightarrow> users \<Rightarrow> users \<times> (store_error, bool) result" where
  "set_password env username password t =
     (case and_then (validate_password password) (\<lambda>_. hash_password env password) of
        Inl e \<Rightarrow> (t, Inl e)
      | Inr h \<Rightarrow>
          (case ac_fails env SetPassword of
             Some e \<Rightarrow> (t, Inl e)
           | None \<Rightarrow>
               (case update_user (\<lambda>_. True) (\<lambda>r. r\<lparr>ur_password_hash := h, ur_updated_at := ac_now env\<rparr>) username t of
                  (t', changed) \<Rightarrow> (t', Inr changed))))"

definition totp_secret :: "account_env \<Rightarrow> string \<Rightarrow> users \<Rightarrow> (store_error, string option) result" where
  "totp_secret env username t = statement env ReadTotp (Option.bind (find_user username t) ur_totp_secret)"

definition set_totp_secret :: "account_env \<Rightarrow> string \<Rightarrow> string option \<Rightarrow> users \<Rightarrow> users \<times> (store_error, bool) result" where
  "set_totp_secret env username secret t =
     (case ac_fails env SetTotp of
        Some e \<Rightarrow> (t, Inl e)
      | None \<Rightarrow>
          (case update_user (\<lambda>_. True)
                  (\<lambda>r. r\<lparr>ur_totp_secret := secret, ur_totp_last_step := None, ur_updated_at := ac_now env\<rparr>) username t of
             (t', changed) \<Rightarrow> (t', Inr changed)))"

definition unspent :: "int \<Rightarrow> user_row \<Rightarrow> bool" where
  "unspent step r = (case ur_totp_last_step r of None \<Rightarrow> True | Some used \<Rightarrow> used < step)"

definition claim_totp_step :: "account_env \<Rightarrow> string \<Rightarrow> int \<Rightarrow> users \<Rightarrow> users \<times> (store_error, bool) result" where
  "claim_totp_step env username step t =
     (case ac_fails env ClaimStep of
        Some e \<Rightarrow> (t, Inl e)
      | None \<Rightarrow>
          (case update_user (unspent step) (\<lambda>r. r\<lparr>ur_totp_last_step := Some step\<rparr>) username t of
             (t', changed) \<Rightarrow> (t', Inr changed)))"

section \<open>Names are unique\<close>

definition users_ok :: "users \<Rightarrow> bool" where
  "users_ok t \<longleftrightarrow> distinct (map ur_username (us_rows t)) \<and> list_all (\<lambda>r. ur_id r \<le> us_last_id t) (us_rows t) \<and> distinct (map ur_id (us_rows t))"

lemma users_ok_update:
  assumes "users_ok t" "\<And>r. ur_username (f r) = ur_username r \<and> ur_id (f r) = ur_id r"
  shows "users_ok (fst (update_user P f username t))"
proof -
  have "map ur_username (map (\<lambda>r. if ur_username r = username \<and> P r then f r else r) rs) = map ur_username rs"
    "map ur_id (map (\<lambda>r. if ur_username r = username \<and> P r then f r else r) rs) = map ur_id rs" for rs
    using assms(2) by simp_all
  then show ?thesis using assms by (auto simp: users_ok_def update_user_def list_all_iff simp del: map_map)
qed

lemma users_ok_writes:
  assumes "users_ok t"
  shows "users_ok (fst (create_user env username password t))" "users_ok (fst (set_password env username password t))"
    "users_ok (fst (set_totp_secret env username secret t))" "users_ok (fst (claim_totp_step env username step t))"
proof -
  note update = users_ok_update [OF assms]
  have "users_ok (fst (insert_user env name h t))" for name h
    using assms by (auto simp: insert_user_def users_ok_def Let_def list_all_iff list_ex_iff split: option.split)
  then show "users_ok (fst (create_user env username password t))"
    using assms by (auto simp: create_user_def split: sum.split)
  show "users_ok (fst (set_password env username password t))"
    using assms update by (auto simp: set_password_def case_prod_beta split: sum.split option.split)
  show "users_ok (fst (set_totp_secret env username secret t))" "users_ok (fst (claim_totp_step env username step t))"
    using assms update by (auto simp: set_totp_secret_def claim_totp_step_def case_prod_beta split: option.split)
qed

lemma find_user_update:
  assumes "\<And>r. ur_username (f r) = ur_username r"
  shows "find_user u (fst (update_user P f username t)) =
    map_option (\<lambda>r. if u = username \<and> P r then f r else r) (find_user u t)"
proof -
  have "find (\<lambda>r. ur_username r = u) (map (\<lambda>r. if ur_username r = username \<and> P r then f r else r) rs) =
      map_option (\<lambda>r. if u = username \<and> P r then f r else r) (find (\<lambda>r. ur_username r = u) rs)" for rs
    using assms by (induction rs) auto
  then show ?thesis by (simp add: find_user_def update_user_def)
qed

section \<open>Reading back\<close>

lemma find_user_insert:
  "snd (insert_user env name h t) = Inr i \<Longrightarrow> find_user u (fst (insert_user env name h t)) =
     (if u = name then Some \<lparr>ur_id = i, ur_username = name, ur_password_hash = h, ur_created_at = ac_now env, ur_updated_at = ac_now env,
        ur_totp_secret = None, ur_totp_last_step = None\<rparr> else find_user u t)"
proof -
  have none: "find P rs = None \<longleftrightarrow> \<not> list_ex P rs" for P and rs :: "user_row list" by (auto simp: find_None_iff list_ex_iff)
  have "find P (rs @ [r]) = (case find P rs of Some x \<Rightarrow> Some x | None \<Rightarrow> if P r then Some r else None)" for P rs and r :: user_row
    by (induction rs) auto
  then show "snd (insert_user env name h t) = Inr i \<Longrightarrow> ?thesis"
    by (auto simp: insert_user_def find_user_def Let_def none [symmetric] split: option.splits if_splits)
qed

text \<open>
  An account made with a password can be signed in with it, under the name as it was stored: without the blanks around it.
\<close>

lemma created_account_signs_in:
  assumes "create_user env username password t = (t', Inr i)" "\<And>p h. ac_hash env p = Inr h \<Longrightarrow> ac_verify env' p h"
    and "ac_fails env' ReadHash = None" "\<not> ac_busy env'"
  shows "verify_password env' (trim username) password t' = Inr True"
proof -
  obtain h where h: "ac_hash env password = Inr h" "insert_user env (trim username) h t = (t', Inr i)"
    using assms(1)
    by (auto simp: create_user_def validate_username_def validate_name_def validate_password_def hash_password_def and_then_def Let_def
        split: sum.splits if_splits)
  have "find_user (trim username) t' = Some \<lparr>ur_id = i, ur_username = trim username, ur_password_hash = h, ur_created_at = ac_now env,
      ur_updated_at = ac_now env, ur_totp_secret = None, ur_totp_last_step = None\<rparr>"
    using find_user_insert [of env "trim username" h t i "trim username"] h(2) by simp
  then show ?thesis using assms(2-4) h(1) by (simp add: verify_password_def statement_def and_then_def)
qed

section \<open>Steps of the second factor\<close>

definition last_step :: "string \<Rightarrow> users \<Rightarrow> int option" where
  "last_step u t = Option.bind (find_user u t) ur_totp_last_step"

definition secret_of :: "string \<Rightarrow> users \<Rightarrow> string option" where
  "secret_of u t = Option.bind (find_user u t) ur_totp_secret"

lemma updated_iff:
  assumes "users_ok t"
  shows "snd (update_user P f username t) \<longleftrightarrow> (\<exists>r. find_user username t = Some r \<and> P r)"
proof -
  have "find (\<lambda>r. ur_username r = username) rs = Some x"
    if "distinct (map ur_username rs)" "x \<in> set rs" "ur_username x = username" for rs x
    using that by (induction rs) auto
  then have "r \<in> set (us_rows t) \<and> ur_username r = username \<longleftrightarrow> find_user username t = Some r" for r
    using assms unfolding find_user_def users_ok_def by (auto simp: find_Some_iff)
  then show ?thesis by (auto simp: update_user_def list_ex_iff)
qed

text \<open>A claimed step is later than the one before it, and is the one remembered.\<close>

lemma claim_result:
  assumes "users_ok t" "claim_totp_step env username step t = (t', r)"
  shows "secret_of u t' = secret_of u t" "u \<noteq> username \<Longrightarrow> last_step u t' = last_step u t"
    "r = Inr True \<Longrightarrow> (\<forall>used \<in> set_option (last_step username t). used < step) \<and> last_step username t' = Some step"
    "r \<noteq> Inr True \<Longrightarrow> last_step username t' = last_step username t"
proof -
  let ?u = "update_user (unspent step) (\<lambda>r. r\<lparr>ur_totp_last_step := Some step\<rparr>) username t"
  have "(\<exists>e. r = Inl e) \<and> t' = t \<or> r = Inr (snd ?u) \<and> t' = fst ?u"
    using assms(2) by (cases "ac_fails env ClaimStep") (auto simp: claim_totp_step_def case_prod_beta)
  then consider "\<exists>e. r = Inl e" "t' = t" | "r = Inr (snd ?u)" "t' = fst ?u" by blast
  then have "secret_of u t' = secret_of u t \<and> (u \<noteq> username \<longrightarrow> last_step u t' = last_step u t) \<and>
      (if r = Inr True then (\<forall>used \<in> set_option (last_step username t). used < step) \<and> last_step username t' = Some step
       else last_step username t' = last_step username t)"
  proof cases
    case 2
    have found: "find_user w t' = map_option (\<lambda>q. if w = username \<and> unspent step q then q\<lparr>ur_totp_last_step := Some step\<rparr> else q) (find_user w t)" for w
      unfolding 2(2) by (rule find_user_update) simp
    have keep: "secret_of u t' = secret_of u t" "u \<noteq> username \<longrightarrow> last_step u t' = last_step u t"
      by (cases "find_user u t"; simp add: secret_of_def last_step_def found)+
    have changed: "r = Inr True \<longleftrightarrow> (\<exists>q. find_user username t = Some q \<and> unspent step q)"
      using updated_iff [OF assms(1)] 2(1) by simp
    show ?thesis
    proof (cases "find_user username t")
      case None
      then show ?thesis using keep changed by (simp add: last_step_def found)
    next
      case (Some q)
      then show ?thesis using keep changed
        by (cases "unspent step q") (auto simp: last_step_def found unspent_def split: option.splits)
    qed
  qed auto
  then show "secret_of u t' = secret_of u t" "u \<noteq> username \<Longrightarrow> last_step u t' = last_step u t"
    "r = Inr True \<Longrightarrow> (\<forall>used \<in> set_option (last_step username t). used < step) \<and> last_step username t' = Some step"
    "r \<noteq> Inr True \<Longrightarrow> last_step username t' = last_step username t"
    by (auto split: if_splits)
qed

end
