(* ===== verification/Web_Auth.thy ===== *)
theory Web_Auth
  imports Web_Sessions Accounts
begin

text \<open>
  Signing in, \<^verbatim>\<open>sharerr/src/web/auth.rs\<close> and \<^verbatim>\<open>sharerr/src/web/two_factor.rs\<close>, and the layers \<^verbatim>\<open>routes\<close> of
  \<^verbatim>\<open>sharerr/src/web/mod.rs\<close> puts around the handlers. A request is answered as one step on the accounts, the sessions and the
  throttle; the other pages behind the guard are answered by handlers that touch none of these. The database's failures, the clocks,
  the random generator, SHA-1, the QR renderer and the settings of the server are arguments of a request.
\<close>

section \<open>Requests and responses\<close>

datatype page =
    SetupBlank
  | SetupRejected string string
  | LoginBlank
  | LoginRejected string string
  | TotpLogin "string option"
  | TotpEnabled string "string option" "string option"
  | TotpEnrol string string string string "string option" "string option"
  | SettingsRejected string

datatype answer = Redirects string | Renders nat page | Says nat string | Handled

datatype jar_change = Adds cookie | Removes cookie

record response =
  rp_answer :: answer
  rp_cookies :: "jar_change list"
  rp_headers :: "(string \<times> string) list"

definition plain :: "answer \<Rightarrow> response" where
  "plain a = \<lparr>rp_answer = a, rp_cookies = [], rp_headers = []\<rparr>"

text \<open>Every route of the sign-in, with its decoded form; the other pages behind the guard, and whether they are read by \<^verbatim>\<open>GET\<close>.\<close>

datatype route =
    GetSetup
  | PostSetup string string string
  | GetLogin
  | PostLogin string string
  | GetTotp
  | PostTotp string
  | PostLogout
  | GetAsset string
  | PostPassword string string string
  | GetAccountTotp "string option"
  | PostAccountTotp string string string
  | PostTotpDisable string string
  | OtherPage bool string

record request =
  rq_route :: route
  rq_head :: bool
  rq_peer :: "ip_addr option"
  rq_headers :: headers
  rq_jar :: "string \<Rightarrow> string option"

fun reads_page :: "route \<Rightarrow> bool" where
  "reads_page GetSetup = True"
| "reads_page GetLogin = True"
| "reads_page GetTotp = True"
| "reads_page (GetAsset _) = True"
| "reads_page (GetAccountTotp _) = True"
| "reads_page (OtherPage get _) = get"
| "reads_page _ = False"

text \<open>\<^verbatim>\<open>request.method() == GET\<close>: a page may also be asked for with \<^verbatim>\<open>HEAD\<close>.\<close>

definition is_get :: "request \<Rightarrow> bool" where
  "is_get rq \<longleftrightarrow> reads_page (rq_route rq) \<and> \<not> rq_head rq"

record web_env =
  wv_store :: "string option"
  wv_accounts :: account_env
  wv_token :: "(string, string) result"
  wv_instant :: nat
  wv_sha1 :: "bytes \<Rightarrow> bytes"
  wv_secret :: "(string, bytes) result"
  wv_qr :: "string \<Rightarrow> (string, string) result"
  wv_server :: server_config
  wv_show :: "store_error \<Rightarrow> string"

record web_state =
  wb_users :: users
  wb_sessions :: sessions
  wb_throttle :: throttle

type_synonym handler = "web_env \<Rightarrow> request \<Rightarrow> web_state \<Rightarrow> web_state \<times> response"

definition internal :: "string \<Rightarrow> response" where
  "internal message = plain (Says 500 message)"

definition too_busy :: response where
  "too_busy = plain (Says 503 ''Too many password checks in flight right now. Try again shortly.'')"

definition unavailable :: "string \<Rightarrow> response" where
  "unavailable reason = plain (Says 503 reason)"

text \<open>\<^verbatim>\<open>CookieJar::remove\<close> tells the browser to drop a cookie it sent.\<close>

definition jar_remove :: "request \<Rightarrow> cookie \<Rightarrow> jar_change list" where
  "jar_remove rq c = (case rq_jar rq (ck_name c) of None \<Rightarrow> [] | Some _ \<Rightarrow> [Removes c])"

section \<open>Helpers\<close>

abbreviation (input) MIN_PASSWORD_LEN :: nat where "MIN_PASSWORD_LEN \<equiv> 8"

definition password_rejection :: "string \<Rightarrow> string \<Rightarrow> string option" where
  "password_rejection password confirm =
     (if password \<noteq> confirm then Some ''Those passwords do not match.''
      else if char_count password < MIN_PASSWORD_LEN
      then Some (''Password must be at least '' @ show_nat MIN_PASSWORD_LEN @ '' characters.'')
      else None)"

definition current_user :: "web_env \<Rightarrow> request \<Rightarrow> web_state \<Rightarrow> web_state \<times> string option" where
  "current_user env rq st =
     (case rq_jar rq COOKIE_NAME of
        None \<Rightarrow> (st, None)
      | Some token \<Rightarrow>
          (case session_touch (wv_instant env) token (wb_sessions st) of (s, user) \<Rightarrow> (st\<lparr>wb_sessions := s\<rparr>, user)))"

definition instance_is_claimed :: "web_env \<Rightarrow> web_state \<Rightarrow> (string, bool) result" where
  "instance_is_claimed env st =
     (case wv_store env of
        Some reason \<Rightarrow> Inl reason
      | None \<Rightarrow>
          (case user_count (wv_accounts env) (wb_users st) of
             Inl err \<Rightarrow> Inl (''reading accounts: '' @ wv_show env err)
           | Inr n \<Rightarrow> Inr (n > 0)))"

definition password_ok :: "web_env \<Rightarrow> string \<Rightarrow> string \<Rightarrow> web_state \<Rightarrow> (response, bool) result" where
  "password_ok env username password st =
     (case verify_password (wv_accounts env) username password (wb_users st) of
        Inr verified \<Rightarrow> Inr verified
      | Inl TooBusy \<Rightarrow> Inl too_busy
      | Inl err \<Rightarrow> Inl (internal (''checking the password: '' @ wv_show env err)))"

definition sign_in :: "string \<Rightarrow> string \<Rightarrow> jar_change list \<Rightarrow> handler" where
  "sign_in username destination changes env rq st =
     (case session_create (wv_token env) (wv_instant env) username (wb_sessions st) of
        (s, Inr token) \<Rightarrow>
          (st\<lparr>wb_sessions := s\<rparr>,
           \<lparr>rp_answer = Redirects destination,
            rp_cookies = changes @ [Adds (session_cookie token (arrived_over_https (rq_headers rq)))], rp_headers = []\<rparr>)
      | (s, Inl reason) \<Rightarrow> (st\<lparr>wb_sessions := s\<rparr>, internal reason))"

definition begin_totp :: "string \<Rightarrow> handler" where
  "begin_totp username env rq st =
     (case begin_second_factor (wv_token env) (wv_instant env) username (wb_sessions st) of
        (s, Inr token) \<Rightarrow>
          (st\<lparr>wb_sessions := s\<rparr>,
           \<lparr>rp_answer = Redirects ''/login/totp'', rp_cookies = [Adds (pending_cookie token (arrived_over_https (rq_headers rq)))], rp_headers = []\<rparr>)
      | (s, Inl reason) \<Rightarrow> (st\<lparr>wb_sessions := s\<rparr>, internal reason))"

section \<open>Claiming, signing in and out\<close>

definition setup_page :: handler where
  "setup_page env rq st =
     (st, case instance_is_claimed env st of
            Inr True \<Rightarrow> plain (Redirects ''/login'')
          | Inr False \<Rightarrow> plain (Renders 200 SetupBlank)
          | Inl reason \<Rightarrow> unavailable reason)"

definition setup_submit :: "string \<Rightarrow> string \<Rightarrow> string \<Rightarrow> handler" where
  "setup_submit username password confirm env rq st =
     (case password_rejection password confirm of
        Some message \<Rightarrow> (st, plain (Renders 200 (SetupRejected username message)))
      | None \<Rightarrow>
          (case wv_store env of
             Some reason \<Rightarrow> (st, unavailable reason)
           | None \<Rightarrow>
               (case user_count (wv_accounts env) (wb_users st) of
                  Inl err \<Rightarrow> (st, internal (''reading accounts: '' @ wv_show env err))
                | Inr n \<Rightarrow>
                    if n \<noteq> 0 then (st, plain (Redirects ''/login''))
                    else
                      (case create_user (wv_accounts env) username password (wb_users st) of
                         (us, r) \<Rightarrow>
                           (let st1 = st\<lparr>wb_users := us\<rparr> in
                            case r of
                              Inr _ \<Rightarrow> sign_in username ''/wizard'' [] env rq st1
                            | Inl (InvalidUser message) \<Rightarrow> (st1, plain (Renders 200 (SetupRejected username message)))
                            | Inl (UserExists _) \<Rightarrow> (st1, plain (Redirects ''/login''))
                            | Inl TooBusy \<Rightarrow> (st1, too_busy)
                            | Inl err \<Rightarrow> (st1, internal (''creating the account: '' @ wv_show env err)))))))"

definition login_page :: handler where
  "login_page env rq st =
     (case current_user env rq st of
        (st1, Some _) \<Rightarrow> (st1, plain (Redirects ''/''))
      | (st1, None) \<Rightarrow>
          (st1, case instance_is_claimed env st1 of
                  Inr True \<Rightarrow> plain (Renders 200 LoginBlank)
                | Inr False \<Rightarrow> plain (Redirects ''/setup'')
                | Inl reason \<Rightarrow> unavailable reason))"

definition login_submit :: "string \<Rightarrow> string \<Rightarrow> handler" where
  "login_submit username password env rq st =
     (case wv_store env of
        Some reason \<Rightarrow> (st, unavailable reason)
      | None \<Rightarrow>
          (case verify_password (wv_accounts env) username password (wb_users st) of
             Inr True \<Rightarrow>
               (case totp_secret (wv_accounts env) username (wb_users st) of
                  Inr None \<Rightarrow> sign_in username ''/'' [] env rq st
                | Inr (Some _) \<Rightarrow> begin_totp username env rq st
                | Inl err \<Rightarrow> (st, internal (''reading the account: '' @ wv_show env err)))
           | Inr False \<Rightarrow> (st, plain (Renders 401 (LoginRejected username ''That username and password do not match.'')))
           | Inl TooBusy \<Rightarrow> (st, too_busy)
           | Inl err \<Rightarrow> (st, internal (''checking the password: '' @ wv_show env err))))"

definition logout :: handler where
  "logout env rq st =
     (case rq_jar rq COOKIE_NAME of
        Some token \<Rightarrow> st\<lparr>wb_sessions := session_remove token (wb_sessions st)\<rparr>
      | None \<Rightarrow> st,
      \<lparr>rp_answer = Redirects ''/login'', rp_cookies = jar_remove rq (session_cookie [] (arrived_over_https (rq_headers rq))), rp_headers = []\<rparr>)"

definition keep_only_this :: "request \<Rightarrow> web_state \<Rightarrow> web_state" where
  "keep_only_this rq st =
     (case rq_jar rq COOKIE_NAME of
        Some token \<Rightarrow> st\<lparr>wb_sessions := revoke_all_except token (wb_sessions st)\<rparr>
      | None \<Rightarrow> st)"

definition settings_error :: "string \<Rightarrow> response" where
  "settings_error message = plain (Renders 400 (SettingsRejected message))"

definition change_password :: "string \<Rightarrow> string \<Rightarrow> string \<Rightarrow> handler" where
  "change_password current_password new_password confirm_password env rq st =
     (case current_user env rq st of
        (st1, None) \<Rightarrow> (st1, plain (Redirects ''/login''))
      | (st1, Some username) \<Rightarrow>
          (case password_rejection new_password confirm_password of
             Some message \<Rightarrow> (st1, settings_error message)
           | None \<Rightarrow>
               (case wv_store env of
                  Some reason \<Rightarrow> (st1, unavailable reason)
                | None \<Rightarrow>
                    (case password_ok env username current_password st1 of
                       Inl response \<Rightarrow> (st1, response)
                     | Inr False \<Rightarrow> (st1, settings_error ''That is not your current password.'')
                     | Inr True \<Rightarrow>
                         (case set_password (wv_accounts env) username new_password (wb_users st1) of
                            (us, r) \<Rightarrow>
                              (let st2 = st1\<lparr>wb_users := us\<rparr> in
                               case r of
                                 Inr True \<Rightarrow> (keep_only_this rq st2, plain (Redirects ''/settings?saved=account''))
                               | Inr False \<Rightarrow> (st2, settings_error ''That account no longer exists.'')
                               | Inl (InvalidUser message) \<Rightarrow> (st2, settings_error message)
                               | Inl TooBusy \<Rightarrow> (st2, too_busy)
                               | Inl err \<Rightarrow> (st2, internal (''changing the password: '' @ wv_show env err))))))))"

section \<open>The second factor\<close>

definition pending :: "web_env \<Rightarrow> request \<Rightarrow> web_state \<Rightarrow> (string \<times> string) option" where
  "pending env rq st =
     (case rq_jar rq PENDING_COOKIE of
        None \<Rightarrow> None
      | Some token \<Rightarrow> map_option (\<lambda>username. (token, username)) (pending_user (wv_instant env) token (wb_sessions st)))"

definition totp_login_page :: handler where
  "totp_login_page env rq st =
     (st, case pending env rq st of Some _ \<Rightarrow> plain (Renders 200 (TotpLogin None)) | None \<Rightarrow> plain (Redirects ''/login''))"

definition check_code :: "web_env \<Rightarrow> string \<Rightarrow> string \<Rightarrow> users \<Rightarrow> users \<times> (store_error, bool) result" where
  "check_code env username entered us =
     (case totp_secret (wv_accounts env) username us of
        Inl err \<Rightarrow> (us, Inl err)
      | Inr None \<Rightarrow> (us, Inr False)
      | Inr (Some secret) \<Rightarrow>
          (case totp_verify (wv_sha1 env) secret entered (ac_now (wv_accounts env)) of
             Some step \<Rightarrow> claim_totp_step (wv_accounts env) username step us
           | None \<Rightarrow> (us, Inr False)))"

definition totp_login_submit :: "string \<Rightarrow> handler" where
  "totp_login_submit entered env rq st =
     (case pending env rq st of
        None \<Rightarrow> (st, plain (Redirects ''/login''))
      | Some (token, username) \<Rightarrow>
          (case wv_store env of
             Some reason \<Rightarrow> (st, unavailable reason)
           | None \<Rightarrow>
               (let dropped = jar_remove rq (pending_cookie [] (arrived_over_https (rq_headers rq))) in
                case check_code env username entered (wb_users st) of
                  (us, r) \<Rightarrow>
                    (let st1 = st\<lparr>wb_users := us\<rparr> in
                     case r of
                       Inr True \<Rightarrow>
                         sign_in username ''/'' dropped env rq (st1\<lparr>wb_sessions := finish_second_factor token (wb_sessions st1)\<rparr>)
                     | Inr False \<Rightarrow>
                         (case fail_second_factor token (wb_sessions st1) of
                            (s, again) \<Rightarrow>
                              (st1\<lparr>wb_sessions := s\<rparr>,
                               if again then plain (Renders 401 (TotpLogin (Some ''That code is not valid.'')))
                               else \<lparr>rp_answer = Renders 401 (LoginRejected username ''Too many wrong codes. Sign in again.''),
                                     rp_cookies = dropped, rp_headers = []\<rparr>))
                     | Inl err \<Rightarrow> (st1, internal (''checking the code: '' @ wv_show env err))))))"

definition enabled_page :: "string \<Rightarrow> string option \<Rightarrow> string option \<Rightarrow> response" where
  "enabled_page username saved error = plain (Renders 200 (TotpEnabled username saved error))"

definition enrol_page :: "web_env \<Rightarrow> string \<Rightarrow> string \<Rightarrow> string option \<Rightarrow> string option \<Rightarrow> response" where
  "enrol_page env username secret saved error =
     (let uri = otpauth_uri username secret in
      case wv_qr env uri of
        Inr svg \<Rightarrow> plain (Renders 200 (TotpEnrol username secret svg uri saved error))
      | Inl reason \<Rightarrow> internal (''rendering the QR code: '' @ reason))"

definition account_page :: "string option \<Rightarrow> handler" where
  "account_page saved env rq st =
     (case current_user env rq st of
        (st1, None) \<Rightarrow> (st1, plain (Redirects ''/login''))
      | (st1, Some username) \<Rightarrow>
          (st1, case wv_store env of
                  Some reason \<Rightarrow> unavailable reason
                | None \<Rightarrow>
                    (case totp_secret (wv_accounts env) username (wb_users st1) of
                       Inr (Some _) \<Rightarrow> enabled_page username saved None
                     | Inr None \<Rightarrow>
                         (case generate_secret (wv_secret env) of
                            Inr secret \<Rightarrow> enrol_page env username secret saved None
                          | Inl reason \<Rightarrow> internal reason)
                     | Inl err \<Rightarrow> internal (''reading the account: '' @ wv_show env err))))"

definition enable_totp :: "string \<Rightarrow> string \<Rightarrow> string \<Rightarrow> handler" where
  "enable_totp secret entered current_password env rq st =
     (case current_user env rq st of
        (st1, None) \<Rightarrow> (st1, plain (Redirects ''/login''))
      | (st1, Some username) \<Rightarrow>
          (case wv_store env of
             Some reason \<Rightarrow> (st1, unavailable reason)
           | None \<Rightarrow>
               if \<not> is_valid_secret secret then (st1, plain (Redirects ''/settings/account/totp''))
               else
                 (case password_ok env username current_password st1 of
                    Inl response \<Rightarrow> (st1, response)
                  | Inr False \<Rightarrow> (st1, enrol_page env username secret None (Some ''That is not your current password.''))
                  | Inr True \<Rightarrow>
                      (case totp_verify (wv_sha1 env) secret entered (ac_now (wv_accounts env)) of
                         None \<Rightarrow>
                           (st1, enrol_page env username secret None
                                   (Some ''That code does not match. Check the phone's clock and try the next one.''))
                       | Some step \<Rightarrow>
                           (case set_totp_secret (wv_accounts env) username (Some secret) (wb_users st1) of
                              (us, Inl err) \<Rightarrow> (st1\<lparr>wb_users := us\<rparr>, internal (''saving the secret: '' @ wv_show env err))
                            | (us, Inr False) \<Rightarrow> (st1\<lparr>wb_users := us\<rparr>, internal ''that account no longer exists'')
                            | (us, Inr True) \<Rightarrow>
                                (case claim_totp_step (wv_accounts env) username step us of
                                   (us', Inl err) \<Rightarrow> (st1\<lparr>wb_users := us'\<rparr>, internal (''saving the secret: '' @ wv_show env err))
                                 | (us', Inr _) \<Rightarrow>
                                     (keep_only_this rq (st1\<lparr>wb_users := us'\<rparr>),
                                      plain (Redirects ''/settings/account/totp?saved=on''))))))))"

definition disable_totp :: "string \<Rightarrow> string \<Rightarrow> handler" where
  "disable_totp entered current_password env rq st =
     (case current_user env rq st of
        (st1, None) \<Rightarrow> (st1, plain (Redirects ''/login''))
      | (st1, Some username) \<Rightarrow>
          (case wv_store env of
             Some reason \<Rightarrow> (st1, unavailable reason)
           | None \<Rightarrow>
               (case password_ok env username current_password st1 of
                  Inl response \<Rightarrow> (st1, response)
                | Inr False \<Rightarrow> (st1, enabled_page username None (Some ''That is not your current password.''))
                | Inr True \<Rightarrow>
                    (case check_code env username entered (wb_users st1) of
                       (us, Inl err) \<Rightarrow> (st1\<lparr>wb_users := us\<rparr>, internal (''checking the code: '' @ wv_show env err))
                     | (us, Inr False) \<Rightarrow> (st1\<lparr>wb_users := us\<rparr>, enabled_page username None (Some ''That code is not valid.''))
                     | (us, Inr True) \<Rightarrow>
                         (case set_totp_secret (wv_accounts env) username None us of
                            (us', Inr _) \<Rightarrow> (st1\<lparr>wb_users := us'\<rparr>, plain (Redirects ''/settings/account/totp?saved=off''))
                          | (us', Inl err) \<Rightarrow> (st1\<lparr>wb_users := us'\<rparr>, internal (''clearing the secret: '' @ wv_show env err)))))))"

section \<open>The layers around the handlers\<close>

definition throttle_unauthenticated_posts :: "handler \<Rightarrow> handler" where
  "throttle_unauthenticated_posts inner env rq st =
     (if is_get rq then inner env rq st
      else
        (case rq_peer rq of
           None \<Rightarrow> inner env rq st
         | Some peer \<Rightarrow>
             (case throttle_check (wv_instant env) (client_address (wv_server env) peer (rq_headers rq)) (wb_throttle st) of
                (t, Inr _) \<Rightarrow> inner env rq (st\<lparr>wb_throttle := t\<rparr>)
              | (t, Inl retry_after) \<Rightarrow>
                  (st\<lparr>wb_throttle := t\<rparr>,
                   \<lparr>rp_answer = Says 429 ''Too many attempts. Try again shortly.'', rp_cookies = [],
                    rp_headers = [(''retry-after'', show_nat (retry_after div 1000000000))]\<rparr>))))"

definition require_auth :: "handler \<Rightarrow> handler" where
  "require_auth inner env rq st =
     (case current_user env rq st of
        (st1, Some _) \<Rightarrow> inner env rq st1
      | (st1, None) \<Rightarrow>
          (case vouched_user (wv_server env) (rq_peer rq) (rq_headers rq) of
             Some _ \<Rightarrow> inner env rq st1
           | None \<Rightarrow>
               (st1, case instance_is_claimed env st1 of
                       Inr True \<Rightarrow> plain (Redirects ''/login'')
                     | Inr False \<Rightarrow> plain (Redirects ''/setup'')
                     | Inl reason \<Rightarrow> unavailable reason)))"

definition refusal_response :: "origin_refusal \<Rightarrow> response" where
  "refusal_response r =
     (case r of
        OriginWithoutHost \<Rightarrow> internal ''request has an Origin but no Host''
      | OtherSite \<Rightarrow> plain (Says 403 ''This form was submitted from another site.''))"

definition deny_cross_origin :: "handler \<Rightarrow> handler" where
  "deny_cross_origin inner env rq st =
     (case (if is_get rq then None else cross_origin_refusal (rq_headers rq)) of
        Some r \<Rightarrow> (st, refusal_response r)
      | None \<Rightarrow> inner env rq st)"

definition CONTENT_SECURITY_POLICY :: string where
  "CONTENT_SECURITY_POLICY =
     ''default-src 'self'; script-src 'self'; style-src 'self'; img-src 'self' data:; connect-src 'self'; object-src 'none'; '' @
     ''base-uri 'none'; form-action 'self'; frame-ancestors 'none'' @ [CHR 0x27]"

definition add_security_headers :: "response \<Rightarrow> response" where
  "add_security_headers r =
     r\<lparr>rp_headers := foldl (\<lambda>hs (name, v). if list_ex (\<lambda>h. fst h = name) hs then hs else hs @ [(name, v)]) (rp_headers r)
         [(''content-security-policy'', CONTENT_SECURITY_POLICY), (''x-frame-options'', ''DENY''),
          (''referrer-policy'', ''no-referrer''), (''x-content-type-options'', ''nosniff'')]\<rparr>"

definition security_headers :: "handler \<Rightarrow> handler" where
  "security_headers inner env rq st =
     (case inner env rq st of
        (st', r) \<Rightarrow> (st', if sc_security_headers (wv_server env) then add_security_headers r else r))"

section \<open>The router\<close>

fun is_public :: "route \<Rightarrow> bool" where
  "is_public GetSetup = True"
| "is_public (PostSetup _ _ _) = True"
| "is_public GetLogin = True"
| "is_public (PostLogin _ _) = True"
| "is_public GetTotp = True"
| "is_public (PostTotp _) = True"
| "is_public _ = False"

fun is_open :: "route \<Rightarrow> bool" where
  "is_open PostLogout = True"
| "is_open (GetAsset _) = True"
| "is_open _ = False"

fun handle :: "route \<Rightarrow> handler" where
  "handle GetSetup = setup_page"
| "handle (PostSetup u p c) = setup_submit u p c"
| "handle GetLogin = login_page"
| "handle (PostLogin u p) = login_submit u p"
| "handle GetTotp = totp_login_page"
| "handle (PostTotp c) = totp_login_submit c"
| "handle PostLogout = logout"
| "handle (PostPassword c n m) = change_password c n m"
| "handle (GetAccountTotp saved) = account_page saved"
| "handle (PostAccountTotp s c p) = enable_totp s c p"
| "handle (PostTotpDisable c p) = disable_totp c p"
| "handle (GetAsset _) = (\<lambda>_ _ st. (st, plain Handled))"
| "handle (OtherPage _ _) = (\<lambda>_ _ st. (st, plain Handled))"

definition web_step :: handler where
  "web_step env rq =
     security_headers (deny_cross_origin
       (if is_public (rq_route rq) then throttle_unauthenticated_posts (handle (rq_route rq))
        else if is_open (rq_route rq) then handle (rq_route rq)
        else require_auth (handle (rq_route rq)))) env rq"

text \<open>\<^verbatim>\<open>routes\<close> starts with no session and an idle throttle.\<close>

definition web_start :: "users \<Rightarrow> web_state" where
  "web_start us = \<lparr>wb_users = us, wb_sessions = no_sessions, wb_throttle = throttle_default\<rparr>"

fun web_run :: "(web_env \<times> request) list \<Rightarrow> web_state \<Rightarrow> web_state" where
  "web_run [] st = st"
| "web_run ((env, rq) # rest) st = web_run rest (fst (web_step env rq st))"

end
