(* ===== verification/Web_Guard.thy ===== *)
theory Web_Guard
  imports Web_Auth
begin

text \<open>
  Runs of the web interface's sign-in: the throttle holds, sessions are earned, and the pages behind the guard are reached with one.
\<close>

section \<open>What a step leaves alone\<close>

lemma current_user_frame [simp]:
  "wb_throttle (fst (current_user env rq st)) = wb_throttle st" "wb_users (fst (current_user env rq st)) = wb_users st"
  by (auto simp: current_user_def split: option.split prod.split)

lemma current_userD:
  "current_user env rq st = (st1, u) \<Longrightarrow> wb_throttle st1 = wb_throttle st \<and> wb_users st1 = wb_users st"
  using current_user_frame [of env rq st] by simp

lemma sign_in_frame [simp]:
  "wb_throttle (fst (sign_in u d js env rq st)) = wb_throttle st" "wb_users (fst (sign_in u d js env rq st)) = wb_users st"
  "wb_throttle (fst (begin_totp u env rq st)) = wb_throttle st" "wb_users (fst (begin_totp u env rq st)) = wb_users st"
  by (auto simp: sign_in_def begin_totp_def split: prod.split sum.split)

lemma keep_only_this_frame [simp]:
  "wb_throttle (keep_only_this rq st) = wb_throttle st" "wb_users (keep_only_this rq st) = wb_users st"
  by (auto simp: keep_only_this_def split: option.split)

lemma handle_throttle [simp]: "wb_throttle (fst (handle r env rq st)) = wb_throttle st"
proof (cases r)
  case (PostPassword a b c)
  then show ?thesis
    by (auto simp: change_password_def Let_def split: prod.splits option.split sum.split bool.split store_error.split dest!: current_userD)
next
  case (PostAccountTotp a b c)
  then show ?thesis
    by (auto simp: enable_totp_def split: prod.splits option.split sum.split bool.split dest!: current_userD)
next
  case (PostTotpDisable a b)
  then show ?thesis
    by (auto simp: disable_totp_def split: prod.splits option.split sum.split bool.split dest!: current_userD)
next
  case (PostSetup a b c)
  then show ?thesis
    by (auto simp: setup_submit_def Let_def split: prod.splits option.split sum.split store_error.split)
next
  case (PostLogin a b)
  then show ?thesis
    by (auto simp: login_submit_def split: prod.splits option.split sum.split store_error.split bool.split)
next
  case (PostTotp a)
  then show ?thesis
    by (auto simp: totp_login_submit_def Let_def split: prod.splits option.split sum.split bool.split)
qed (auto simp: setup_page_def login_page_def totp_login_page_def logout_def account_page_def split: prod.splits option.split dest!: current_userD)

section \<open>The rate of sign-in attempts\<close>

text \<open>The address an attempt to sign in is counted for; nothing for the requests the throttle lets through uncounted.\<close>

definition throttled_as :: "web_env \<Rightarrow> request \<Rightarrow> ip_addr option" where
  "throttled_as env rq =
     (if is_public (rq_route rq) \<and> \<not> is_get rq \<and> cross_origin_refusal (rq_headers rq) = None
      then map_option (\<lambda>peer. client_address (wv_server env) peer (rq_headers rq)) (rq_peer rq) else None)"

lemma web_step_throttle:
  "wb_throttle (fst (web_step env rq st)) =
     (case throttled_as env rq of None \<Rightarrow> wb_throttle st | Some ip \<Rightarrow> fst (throttle_check (wv_instant env) ip (wb_throttle st)))"
proof -
  have "wb_throttle (fst (require_auth (handle r) env rq st)) = wb_throttle st" for r
    by (auto simp: require_auth_def split: prod.split option.split dest!: current_userD)
  then show ?thesis
    by (auto simp: web_step_def security_headers_def deny_cross_origin_def throttle_unauthenticated_posts_def throttled_as_def case_prod_beta
        split: option.split sum.split)
qed

definition turned_away :: "response \<Rightarrow> bool" where
  "turned_away r = (case rp_answer r of Says status _ \<Rightarrow> status = 429 | _ \<Rightarrow> False)"

lemma public_handlers_answer: "is_public r \<Longrightarrow> \<not> turned_away (snd (handle r env rq st))"
proof -
  assume "is_public r"
  have [simp]: "\<not> turned_away (plain (Redirects d))" "\<not> turned_away (plain (Renders n p))" "\<not> turned_away (internal m)"
    "\<not> turned_away too_busy" "\<not> turned_away (unavailable m)" for d n p m
    by (simp_all add: turned_away_def plain_def internal_def too_busy_def unavailable_def)
  have [simp]: "\<not> turned_away (snd (sign_in u d js env rq st))" "\<not> turned_away (snd (begin_totp u env rq st))" for u d js st
    by (auto simp: sign_in_def begin_totp_def split: prod.split sum.split) (simp_all add: turned_away_def)
  show ?thesis
  proof (cases r)
    case (PostSetup a b c)
    then show ?thesis
      by (auto simp: setup_submit_def Let_def split: prod.splits option.split sum.split store_error.split)
  next
    case (PostLogin a b)
    then show ?thesis
      by (auto simp: login_submit_def split: prod.splits option.split sum.split store_error.split bool.split)
  next
    case (PostTotp a)
    then show ?thesis
      by (auto simp: totp_login_submit_def Let_def turned_away_def [of "\<lparr>rp_answer = _, rp_cookies = _, rp_headers = _\<rparr>"]
          split: prod.splits option.split sum.split bool.split)
  qed (use \<open>is_public r\<close> in \<open>auto simp: setup_page_def login_page_def totp_login_page_def split: prod.splits option.split sum.split bool.split\<close>)
qed

lemma turned_away_iff:
  assumes "throttled_as env rq = Some ip"
  shows "turned_away (snd (web_step env rq st)) \<longleftrightarrow> snd (throttle_check (wv_instant env) ip (wb_throttle st)) \<noteq> Inr ()"
proof -
  have [simp]: "turned_away (add_security_headers r) = turned_away r" for r
    by (simp add: turned_away_def add_security_headers_def)
  show ?thesis using assms public_handlers_answer [of "rq_route rq" env rq]
    by (auto simp: throttled_as_def web_step_def security_headers_def deny_cross_origin_def throttle_unauthenticated_posts_def case_prod_beta
        turned_away_def [of "\<lparr>rp_answer = _, rp_cookies = _, rp_headers = _\<rparr>"] split: if_splits sum.splits)
qed

text \<open>How many attempts of an address are let through to a handler within an interval.\<close>

fun attempts_passed :: "ip_addr \<Rightarrow> nat \<Rightarrow> nat \<Rightarrow> (web_env \<times> request) list \<Rightarrow> web_state \<Rightarrow> nat" where
  "attempts_passed ip a b [] st = 0"
| "attempts_passed ip a b ((env, rq) # rest) st =
     (case web_step env rq st of
        (st', r) \<Rightarrow>
          (if throttled_as env rq = Some ip \<and> a \<le> wv_instant env \<and> wv_instant env < b \<and> \<not> turned_away r then 1 else 0) +
          attempts_passed ip a b rest st')"

definition attempts_of :: "(web_env \<times> request) list \<Rightarrow> (nat \<times> ip_addr) list" where
  "attempts_of steps = List.map_filter (\<lambda>(env, rq). map_option (Pair (wv_instant env)) (throttled_as env rq)) steps"

lemma attempts_passed_admitted:
  "attempts_passed ip a b steps st = admitted ip a b (attempts_of steps) (wb_throttle st)"
proof (induction steps arbitrary: st)
  case (Cons x steps)
  obtain env rq where x: "x = (env, rq)" by (cases x)
  show ?case
  proof (cases "throttled_as env rq")
    case None
    then show ?thesis using Cons web_step_throttle [of env rq st]
      by (auto simp: x attempts_of_def map_filter_simps split: prod.split)
  next
    case (Some who)
    then show ?thesis using Cons web_step_throttle [of env rq st] turned_away_iff [OF Some, of st]
      by (auto simp: x attempts_of_def map_filter_simps split: prod.split)
  qed
qed (simp add: attempts_of_def map_filter_simps)

text \<open>
  C27: Guessing is slow. However the requests of all visitors interleave, at most ten attempts to claim the instance, sign in or enter a code
  reach their handlers from one source address within any sixty seconds; every other one is answered 429, before a password is hashed or a
  code compared.
\<close>

theorem sign_in_attempts_bounded:
  assumes "sorted (map (\<lambda>(env, _). wv_instant env) steps)"
  shows "attempts_passed ip a (a + secs 60) steps (web_start us) \<le> 10"
proof -
  have "sorted (map fst (attempts_of steps))"
    using assms by (induction steps) (auto simp: attempts_of_def map_filter_simps map_filter_def split: option.split)
  moreover have "throttle_ok throttle_default" "th_window throttle_default = secs 60" "th_max_attempts throttle_default = 5"
    by (simp_all add: throttle_default_def) (simp_all add: throttle_new_def)
  ultimately show ?thesis
    using admitted_bound [of throttle_default "attempts_of steps" ip a]
    by (simp add: attempts_passed_admitted web_start_def secs_def)
qed

text \<open>Witness of C27: of six attempts at the same instant, five pass.\<close>

definition closed_env :: web_env where
  "closed_env =
     \<lparr>wv_store = Some ''closed'',
      wv_accounts = \<lparr>ac_hash = Inr, ac_verify = (=), ac_decoy = ''decoy'', ac_busy = False, ac_fails = (\<lambda>_. None), ac_now = 59, ac_gap = 0\<rparr>,
      wv_token = Inr ''token'', wv_instant = 0, wv_sha1 = (\<lambda>_. replicate 20 (byte 0)), wv_secret = Inr (replicate 20 (byte 0)), wv_qr = Inr,
      wv_server = server_default\<lparr>sc_security_headers := True\<rparr>, wv_show = (\<lambda>_. ''error'')\<rparr>"

definition visit :: "route \<Rightarrow> (string \<Rightarrow> string option) \<Rightarrow> request" where
  "visit r jar = \<lparr>rq_route = r, rq_head = False, rq_peer = Some (V4 [192, 168, 0, 7]), rq_headers = [], rq_jar = jar\<rparr>"

theorem sign_in_attempts_bounded_witness:
  "attempts_passed (V4 [192, 168, 0, 7]) 0 (0 + secs 60)
     (replicate 6 (closed_env, visit (PostLogin ''me'' ''guess'') Map.empty)) (web_start no_users) \<le> 10 \<and>
   attempts_passed (V4 [192, 168, 0, 7]) 0 (0 + secs 60)
     (replicate 6 (closed_env, visit (PostLogin ''me'' ''guess'') Map.empty)) (web_start no_users) = 5"
proof
  show "attempts_passed (V4 [192, 168, 0, 7]) 0 (0 + secs 60)
     (replicate 6 (closed_env, visit (PostLogin ''me'' ''guess'') Map.empty)) (web_start no_users) \<le> 10"
    by (rule sign_in_attempts_bounded) (simp add: sorted_replicate)
  show "attempts_passed (V4 [192, 168, 0, 7]) 0 (0 + secs 60)
     (replicate 6 (closed_env, visit (PostLogin ''me'' ''guess'') Map.empty)) (web_start no_users) = 5"
    by code_simp
qed

section \<open>Where sessions come from\<close>

text \<open>Everything in the tables was there before, under the same name; a waiting sign-in since the same instant.\<close>

definition kept_sessions :: "sessions \<Rightarrow> sessions \<Rightarrow> bool" where
  "kept_sessions s s' \<longleftrightarrow>
     (\<forall>(token, x) \<in> set (ss_inner s'). \<exists>y. (token, y) \<in> set (ss_inner s) \<and> sn_username x = sn_username y)"

definition kept_pending :: "sessions \<Rightarrow> sessions \<Rightarrow> bool" where
  "kept_pending s s' \<longleftrightarrow>
     (\<forall>(token, p) \<in> set (ss_pending s'). \<exists>q. (token, q) \<in> set (ss_pending s) \<and> pg_username p = pg_username q \<and> pg_created p = pg_created q)"

abbreviation kept :: "web_state \<Rightarrow> web_state \<Rightarrow> bool" where
  "kept st st' \<equiv> kept_sessions (wb_sessions st) (wb_sessions st') \<and> kept_pending (wb_sessions st) (wb_sessions st')"

lemma kept_refl [simp]: "kept_sessions s s" "kept_pending s s"
  by (auto simp: kept_sessions_def kept_pending_def)

lemma kept_trans:
  "kept_sessions s s1 \<Longrightarrow> kept_sessions s1 s2 \<Longrightarrow> kept_sessions s s2"
  "kept_pending s s1 \<Longrightarrow> kept_pending s1 s2 \<Longrightarrow> kept_pending s s2"
  unfolding kept_sessions_def kept_pending_def by fastforce+

lemma hm_insert_subset: "set (hm_insert k v m) \<subseteq> insert (k, v) (set m)"
  unfolding hm_insert_def by (induction m) auto

lemma kept_session_ops [simp]:
  "kept_sessions s (fst (session_touch now token s))" "kept_pending s (fst (session_touch now token s))"
  "kept_sessions s (session_remove token s)" "kept_pending s (session_remove token s)"
  "kept_sessions s (revoke_all_except token s)" "kept_pending s (revoke_all_except token s)"
  "kept_sessions s (finish_second_factor token s)" "kept_pending s (finish_second_factor token s)"
  "kept_sessions s (fst (fail_second_factor token s))" "kept_pending s (fst (fail_second_factor token s))"
  by (auto simp: kept_sessions_def kept_pending_def session_touch_def session_remove_def revoke_all_except_def finish_second_factor_def
      fail_second_factor_def Let_def hm_remove_def split: option.split dest!: subsetD [OF hm_insert_subset] map_of_SomeD)

lemma kept_current_user: "current_user env rq st = (st1, u) \<Longrightarrow> kept st st1"
proof -
  have "kept st (fst (current_user env rq st))" by (auto simp: current_user_def case_prod_beta split: option.split)
  then show "current_user env rq st = (st1, u) \<Longrightarrow> kept st st1" by simp
qed

lemma kept_keep_only_this [simp]: "kept_sessions (wb_sessions st) (wb_sessions (keep_only_this rq st))"
    "kept_pending (wb_sessions st) (wb_sessions (keep_only_this rq st))"
  by (auto simp: keep_only_this_def split: option.split)

text \<open>The two ways into the tables.\<close>

lemma sign_in_adds:
  assumes "(token, x) \<in> set (ss_inner (wb_sessions (fst (sign_in u d js env rq st))))"
  shows "(token, x) \<in> set (ss_inner (wb_sessions st)) \<or> wv_token env = Inr token \<and> sn_username x = u"
  using assms by (auto simp: sign_in_def session_create_def split: sum.splits dest!: subsetD [OF hm_insert_subset])

lemma sign_in_pending: "ss_pending (wb_sessions (fst (sign_in u d js env rq st))) = ss_pending (wb_sessions st)"
  by (auto simp: sign_in_def session_create_def split: sum.splits)

lemma begin_totp_adds:
  assumes "(token, p) \<in> set (ss_pending (wb_sessions (fst (begin_totp u env rq st))))"
  shows "(token, p) \<in> set (ss_pending (wb_sessions st)) \<or> wv_token env = Inr token \<and> pg_username p = u \<and> pg_created p = wv_instant env"
  using assms by (auto simp: begin_totp_def begin_second_factor_def split: sum.splits dest!: subsetD [OF hm_insert_subset])

lemma begin_totp_sessions: "ss_inner (wb_sessions (fst (begin_totp u env rq st))) = ss_inner (wb_sessions st)"
  by (auto simp: begin_totp_def begin_second_factor_def split: sum.splits)

text \<open>What a request shows to be let in: an unclaimed instance, a password, a code.\<close>

definition claims_instance :: "web_env \<Rightarrow> request \<Rightarrow> web_state \<Rightarrow> string \<Rightarrow> bool" where
  "claims_instance env rq st u \<longleftrightarrow>
     (\<exists>p c i. rq_route rq = PostSetup u p c \<and> us_rows (wb_users st) = [] \<and> snd (create_user (wv_accounts env) u p (wb_users st)) = Inr i)"

definition shows_password :: "web_env \<Rightarrow> request \<Rightarrow> web_state \<Rightarrow> string \<Rightarrow> bool" where
  "shows_password env rq st u \<longleftrightarrow>
     (\<exists>p. rq_route rq = PostLogin u p \<and> verify_password (wv_accounts env) u p (wb_users st) = Inr True)"

definition shows_code :: "web_env \<Rightarrow> request \<Rightarrow> web_state \<Rightarrow> string \<Rightarrow> bool" where
  "shows_code env rq st u \<longleftrightarrow> (\<exists>c. rq_route rq = PostTotp c \<and> snd (check_code env u c (wb_users st)) = Inr True)"

fun signs_in :: "route \<Rightarrow> bool" where
  "signs_in (PostSetup _ _ _) = True"
| "signs_in (PostLogin _ _) = True"
| "signs_in (PostTotp _) = True"
| "signs_in _ = False"

lemma handle_kept:
  assumes "\<not> signs_in r"
  shows "kept st (fst (handle r env rq st))"
proof -
  obtain st1 u where cu: "current_user env rq st = (st1, u)" by (cases "current_user env rq st")
  note k = kept_current_user [OF cu]
  have only: "kept st (keep_only_this rq (st1\<lparr>wb_users := us\<rparr>))" for us
    using kept_keep_only_this [of "st1\<lparr>wb_users := us\<rparr>" rq] k kept_trans by simp blast
  show ?thesis
  proof (cases r)
    case (PostPassword a b c)
    then show ?thesis
      by (simp add: change_password_def cu k only Let_def split: prod.split option.split sum.split bool.split store_error.split)
  next
    case (PostAccountTotp a b c)
    then show ?thesis by (simp add: enable_totp_def cu k only split: prod.split option.split sum.split bool.split)
  next
    case (PostTotpDisable a b)
    then show ?thesis by (simp add: disable_totp_def cu k split: prod.split option.split sum.split bool.split)
  qed (use assms k in \<open>auto simp: setup_page_def login_page_def totp_login_page_def logout_def account_page_def cu split: option.split\<close>)
qed

lemma kept_back:
  "kept_sessions s s' \<Longrightarrow> (token, x) \<in> set (ss_inner s') \<Longrightarrow> \<exists>y. (token, y) \<in> set (ss_inner s) \<and> sn_username x = sn_username y"
  by (auto simp: kept_sessions_def)

lemma totp_login_cases:
  obtains "kept st (fst (totp_login_submit c env rq st))"
  | tok u js st1 where "pending env rq st = Some (tok, u)" "snd (check_code env u c (wb_users st)) = Inr True"
      "wb_sessions st1 = finish_second_factor tok (wb_sessions st)"
      "fst (totp_login_submit c env rq st) = fst (sign_in u ''/'' js env rq st1)"
proof -
  have "kept st (fst (totp_login_submit c env rq st)) \<or>
      (\<exists>tok u js st1. pending env rq st = Some (tok, u) \<and> snd (check_code env u c (wb_users st)) = Inr True \<and>
        wb_sessions st1 = finish_second_factor tok (wb_sessions st) \<and> fst (totp_login_submit c env rq st) = fst (sign_in u ''/'' js env rq st1))"
  proof (cases "pending env rq st")
    case (Some tu)
    obtain tok u where tu: "tu = (tok, u)" by (cases tu)
    obtain us r where check: "check_code env u c (wb_users st) = (us, r)" by (cases "check_code env u c (wb_users st)")
    show ?thesis
    proof (cases "wv_store env")
      case None
      let ?st1 = "st\<lparr>wb_users := us, wb_sessions := finish_second_factor tok (wb_sessions st)\<rparr>"
      consider e where "r = Inl e" | "r = Inr True" | "r = Inr False" by (cases r) auto
      then show ?thesis
      proof cases
        case 2
        have "\<exists>js. fst (totp_login_submit c env rq st) = fst (sign_in u ''/'' js env rq ?st1)"
          by (simp add: totp_login_submit_def Some tu None check 2 Let_def) blast
        then show ?thesis using Some tu check 2 by (auto intro!: exI [of _ ?st1])
      next
        case 3
        then show ?thesis using kept_session_ops(9,10) [of "wb_sessions st" tok]
          by (simp add: totp_login_submit_def Some tu None check Let_def case_prod_beta)
      qed (simp add: totp_login_submit_def Some tu None check Let_def)
    qed (simp add: totp_login_submit_def Some tu)
  qed (simp add: totp_login_submit_def)
  then show ?thesis using that by blast
qed

lemma handle_sessions:
  assumes "(token, x) \<in> set (ss_inner (wb_sessions (fst (handle r env rq st))))" "rq_route rq = r"
  shows "(\<exists>y. (token, y) \<in> set (ss_inner (wb_sessions st)) \<and> sn_username x = sn_username y) \<or>
    wv_token env = Inr token \<and>
    (claims_instance env rq st (sn_username x) \<or>
     shows_password env rq st (sn_username x) \<and> secret_of (sn_username x) (wb_users st) = None \<or>
     shows_code env rq st (sn_username x) \<and> (\<exists>c. pending env rq st = Some (c, sn_username x)))"
proof (cases r)
  case (PostSetup u p c)
  have "wb_sessions (fst (handle r env rq st)) = wb_sessions st \<or>
      us_rows (wb_users st) = [] \<and> (\<exists>i us. snd (create_user (wv_accounts env) u p (wb_users st)) = Inr i \<and>
        fst (handle r env rq st) = fst (sign_in u ''/wizard'' [] env rq (st\<lparr>wb_users := us\<rparr>)))"
    by (auto simp: PostSetup setup_submit_def Let_def user_count_def statement_def split: prod.splits option.splits sum.splits store_error.splits)
  then have "(token, x) \<in> set (ss_inner (wb_sessions st)) \<or>
      wv_token env = Inr token \<and> sn_username x = u \<and> us_rows (wb_users st) = [] \<and> (\<exists>i. snd (create_user (wv_accounts env) u p (wb_users st)) = Inr i)"
    using assms(1) by (auto dest!: sign_in_adds)
  then show ?thesis
  proof
    assume "(token, x) \<in> set (ss_inner (wb_sessions st))"
    then show ?thesis by blast
  qed (use assms(2) PostSetup in \<open>simp add: claims_instance_def\<close>)
next
  case (PostLogin u p)
  have "ss_inner (wb_sessions (fst (handle r env rq st))) = ss_inner (wb_sessions st) \<or>
      verify_password (wv_accounts env) u p (wb_users st) = Inr True \<and> secret_of u (wb_users st) = None \<and>
      fst (handle r env rq st) = fst (sign_in u ''/'' [] env rq st)"
    by (auto simp: PostLogin login_submit_def begin_totp_sessions totp_secret_def statement_def secret_of_def
        split: prod.splits option.splits sum.splits store_error.splits bool.splits)
  then have "(token, x) \<in> set (ss_inner (wb_sessions st)) \<or>
      wv_token env = Inr token \<and> sn_username x = u \<and> verify_password (wv_accounts env) u p (wb_users st) = Inr True \<and> secret_of u (wb_users st) = None"
    using assms(1) by (auto dest!: sign_in_adds)
  then show ?thesis
  proof
    assume "(token, x) \<in> set (ss_inner (wb_sessions st))"
    then show ?thesis by blast
  qed (use assms(2) PostLogin in \<open>simp add: shows_password_def\<close>)
next
  case (PostTotp c)
  show ?thesis
  proof (rule totp_login_cases [of st c env rq])
    assume "kept st (fst (totp_login_submit c env rq st))"
    then show ?thesis using kept_back assms(1) PostTotp by fastforce
  next
    fix tok u js st1
    assume sign: "pending env rq st = Some (tok, u)" "snd (check_code env u c (wb_users st)) = Inr True"
      "wb_sessions st1 = finish_second_factor tok (wb_sessions st)"
      "fst (totp_login_submit c env rq st) = fst (sign_in u ''/'' js env rq st1)"
    then have "(token, x) \<in> set (ss_inner (wb_sessions st)) \<or> wv_token env = Inr token \<and> sn_username x = u"
      using sign_in_adds [of token x u "''/''" js env rq st1] assms(1) PostTotp by (auto simp: finish_second_factor_def)
    then show ?thesis using sign(1,2) assms(2) PostTotp by (auto simp: shows_code_def)
  qed
qed (use handle_kept [of r st env rq] kept_back assms in fastforce)+

lemma handle_pending:
  assumes "(token, p) \<in> set (ss_pending (wb_sessions (fst (handle r env rq st))))" "rq_route rq = r"
  shows "(\<exists>q. (token, q) \<in> set (ss_pending (wb_sessions st)) \<and> pg_username p = pg_username q \<and> pg_created p = pg_created q) \<or>
    wv_token env = Inr token \<and> pg_created p = wv_instant env \<and> shows_password env rq st (pg_username p)"
proof -
  have old: ?thesis if "kept_pending (wb_sessions st) (wb_sessions (fst (handle r env rq st)))"
    using that assms(1) by (auto simp: kept_pending_def)
  show ?thesis
  proof (cases r)
    case (PostSetup u pw c)
    have "ss_pending (wb_sessions (fst (handle r env rq st))) = ss_pending (wb_sessions st)"
      by (auto simp: PostSetup setup_submit_def Let_def sign_in_pending split: prod.split option.split sum.split store_error.split)
    then show ?thesis by (intro old) (auto simp: kept_pending_def)
  next
    case (PostLogin u pw)
    have "ss_pending (wb_sessions (fst (handle r env rq st))) = ss_pending (wb_sessions st) \<or>
        verify_password (wv_accounts env) u pw (wb_users st) = Inr True \<and> fst (handle r env rq st) = fst (begin_totp u env rq st)"
      by (auto simp: PostLogin login_submit_def sign_in_pending split: prod.splits option.splits sum.splits store_error.splits bool.splits)
    then have "(token, p) \<in> set (ss_pending (wb_sessions st)) \<or> verify_password (wv_accounts env) u pw (wb_users st) = Inr True \<and>
        wv_token env = Inr token \<and> pg_username p = u \<and> pg_created p = wv_instant env"
      using assms(1) by (auto dest!: begin_totp_adds)
    then show ?thesis
    proof
      assume "(token, p) \<in> set (ss_pending (wb_sessions st))"
      then show ?thesis by blast
    qed (use assms(2) PostLogin in \<open>simp add: shows_password_def\<close>)
  next
    case (PostTotp c)
    show ?thesis
    proof (rule totp_login_cases [of st c env rq])
      fix tok u js st1
      assume "wb_sessions st1 = finish_second_factor tok (wb_sessions st)" "fst (totp_login_submit c env rq st) = fst (sign_in u ''/'' js env rq st1)"
      then have "kept_pending (wb_sessions st) (wb_sessions (fst (handle r env rq st)))"
        using kept_session_ops(8) [of "wb_sessions st" tok] by (simp add: PostTotp kept_pending_def sign_in_pending)
      then show ?thesis by (rule old)
    qed (rule old, simp add: PostTotp)
  qed (use handle_kept [of r st env rq] old in auto)
qed

section \<open>Runs\<close>

lemma web_run_append [simp]: "web_run (xs @ ys) st = web_run ys (web_run xs st)"
  by (induction xs st rule: web_run.induct) auto

lemma web_step_handles:
  obtains st1 where "wb_users st1 = wb_users st" "kept st st1" "is_public (rq_route rq) \<longrightarrow> wb_sessions st1 = wb_sessions st"
    "fst (web_step env rq st) = st1 \<or> fst (web_step env rq st) = fst (handle (rq_route rq) env rq st1)"
proof -
  have "\<exists>st1. wb_users st1 = wb_users st \<and> kept st st1 \<and> (is_public (rq_route rq) \<longrightarrow> wb_sessions st1 = wb_sessions st) \<and>
      (fst (web_step env rq st) = st1 \<or> fst (web_step env rq st) = fst (handle (rq_route rq) env rq st1))"
  proof (cases "(if is_get rq then None else cross_origin_refusal (rq_headers rq)) = None \<and> is_public (rq_route rq)")
    case True
    let ?t = "\<lambda>t. st\<lparr>wb_throttle := t\<rparr>"
    have "fst (web_step env rq st) = fst (handle (rq_route rq) env rq st) \<or>
        (\<exists>t. fst (web_step env rq st) = ?t t \<or> fst (web_step env rq st) = fst (handle (rq_route rq) env rq (?t t)))"
      using True
      by (auto simp: web_step_def security_headers_def deny_cross_origin_def throttle_unauthenticated_posts_def case_prod_beta
          split: option.split sum.split)
    then have "\<exists>t. fst (web_step env rq st) = ?t t \<or> fst (web_step env rq st) = fst (handle (rq_route rq) env rq (?t t))"
      by (elim disjE) (simp_all add: exI [of _ "wb_throttle st"])
    then obtain t where "fst (web_step env rq st) = ?t t \<or> fst (web_step env rq st) = fst (handle (rq_route rq) env rq (?t t))" by blast
    then show ?thesis by (intro exI [of _ "?t t"]) simp
  next
    case False
    obtain st1 u where cu: "current_user env rq st = (st1, u)" by (cases "current_user env rq st")
    have "fst (web_step env rq st) = st \<or> fst (web_step env rq st) = fst (handle (rq_route rq) env rq st) \<or>
        fst (web_step env rq st) = st1 \<or> fst (web_step env rq st) = fst (handle (rq_route rq) env rq st1)" if "\<not> is_public (rq_route rq)"
      using that by (auto simp: web_step_def security_headers_def deny_cross_origin_def require_auth_def cu case_prod_beta split: option.split)
    moreover have "fst (web_step env rq st) = st" if "is_public (rq_route rq)"
      using that False by (auto simp: web_step_def security_headers_def deny_cross_origin_def case_prod_beta split: option.split if_splits)
    ultimately show ?thesis using kept_current_user [OF cu] current_userD [OF cu] kept_refl
      by (cases "is_public (rq_route rq)") metis+
  qed
  then show ?thesis using that by blast
qed

text \<open>
  A waiting sign-in was begun, and a session earned, at some step of a run: by claiming an instance nobody had, by a password
  alone while the account has no second factor, or by a password and then, soon enough, a code.
\<close>

definition began :: "users \<Rightarrow> (web_env \<times> request) list \<Rightarrow> string \<Rightarrow> string \<Rightarrow> nat \<Rightarrow> bool" where
  "began us steps token u at \<longleftrightarrow>
     (\<exists>pre env rq post. steps = pre @ (env, rq) # post \<and> wv_token env = Inr token \<and> wv_instant env = at \<and>
        shows_password env rq (web_run pre (web_start us)) u)"

definition earned :: "users \<Rightarrow> (web_env \<times> request) list \<Rightarrow> string \<Rightarrow> string \<Rightarrow> bool" where
  "earned us steps token u \<longleftrightarrow>
     (\<exists>pre env rq post. steps = pre @ (env, rq) # post \<and> wv_token env = Inr token \<and>
        (let st = web_run pre (web_start us) in
         claims_instance env rq st u \<or>
         shows_password env rq st u \<and> secret_of u (wb_users st) = None \<or>
         shows_code env rq st u \<and>
           (\<exists>ticket at. rq_jar rq PENDING_COOKIE = Some ticket \<and> began us pre ticket u at \<and> wv_instant env - at < PENDING_TTL)))"

lemma began_mono: "began us steps token u at \<Longrightarrow> began us (steps @ [x]) token u at"
  unfolding began_def by (metis append.assoc append_Cons)

lemma earned_mono: "earned us steps token u \<Longrightarrow> earned us (steps @ [x]) token u"
  unfolding earned_def by (metis append.assoc append_Cons)

lemma pending_has_begun:
  "(token, p) \<in> set (ss_pending (wb_sessions (web_run steps (web_start us)))) \<Longrightarrow> began us steps token (pg_username p) (pg_created p)"
proof (induction steps arbitrary: token p rule: rev_induct)
  case Nil
  then show ?case by (simp add: web_start_def no_sessions_def)
next
  case (snoc x steps)
  obtain env rq where x: "x = (env, rq)" by (cases x)
  let ?st = "web_run steps (web_start us)"
  have old: "began us (steps @ [x]) token (pg_username p) (pg_created p)"
    if "(token, q) \<in> set (ss_pending (wb_sessions ?st))" "pg_username p = pg_username q" "pg_created p = pg_created q" for q
    using snoc.IH [OF that(1)] that(2,3) by (simp add: began_mono)
  have begun: "began us (steps @ [x]) token (pg_username p) (pg_created p)"
    if "wv_token env = Inr token" "pg_created p = wv_instant env" "shows_password env rq ?st (pg_username p)"
    unfolding began_def by (rule exI [of _ steps], rule exI [of _ env], rule exI [of _ rq], rule exI [of _ "[]"]) (simp add: that x)
  obtain st1 where st1: "wb_users st1 = wb_users ?st" "kept ?st st1" "is_public (rq_route rq) \<longrightarrow> wb_sessions st1 = wb_sessions ?st"
      "fst (web_step env rq ?st) = st1 \<or> fst (web_step env rq ?st) = fst (handle (rq_route rq) env rq st1)"
    by (rule web_step_handles [of ?st rq env])
  have "(\<exists>q. (token, q) \<in> set (ss_pending (wb_sessions st1)) \<and> pg_username p = pg_username q \<and> pg_created p = pg_created q) \<or>
      wv_token env = Inr token \<and> pg_created p = wv_instant env \<and> shows_password env rq st1 (pg_username p)"
    using st1(4) snoc.prems handle_pending [of token p "rq_route rq" env rq st1] by (auto simp: x)
  then show ?case
  proof
    assume "\<exists>q. (token, q) \<in> set (ss_pending (wb_sessions st1)) \<and> pg_username p = pg_username q \<and> pg_created p = pg_created q"
    then show ?thesis using st1(2) old by (fastforce simp: kept_pending_def)
  qed (use st1(1) begun in \<open>simp add: shows_password_def\<close>)
qed

lemma session_is_earned:
  "(token, s) \<in> set (ss_inner (wb_sessions (web_run steps (web_start us)))) \<Longrightarrow> earned us steps token (sn_username s)"
proof (induction steps arbitrary: token s rule: rev_induct)
  case Nil
  then show ?case by (simp add: web_start_def no_sessions_def)
next
  case (snoc x steps)
  obtain env rq where x: "x = (env, rq)" by (cases x)
  let ?st = "web_run steps (web_start us)" and ?u = "sn_username s"
  have old: "earned us (steps @ [x]) token ?u"
    if "(token, y) \<in> set (ss_inner (wb_sessions ?st))" "?u = sn_username y" for y
    using snoc.IH [OF that(1)] that(2) by (simp add: earned_mono)
  obtain st1 where st1: "wb_users st1 = wb_users ?st" "kept ?st st1" "is_public (rq_route rq) \<longrightarrow> wb_sessions st1 = wb_sessions ?st"
      "fst (web_step env rq ?st) = st1 \<or> fst (web_step env rq ?st) = fst (handle (rq_route rq) env rq st1)"
    by (rule web_step_handles [of ?st rq env])
  have "(\<exists>y. (token, y) \<in> set (ss_inner (wb_sessions st1)) \<and> ?u = sn_username y) \<or>
      wv_token env = Inr token \<and> (claims_instance env rq st1 ?u \<or> shows_password env rq st1 ?u \<and> secret_of ?u (wb_users st1) = None \<or>
        shows_code env rq st1 ?u \<and> (\<exists>c. pending env rq st1 = Some (c, ?u)))"
    using st1(4) snoc.prems handle_sessions [of token s "rq_route rq" env rq st1] by (auto simp: x)
  then show ?case
  proof
    assume "\<exists>y. (token, y) \<in> set (ss_inner (wb_sessions st1)) \<and> ?u = sn_username y"
    then show ?thesis using st1(2) old by (fastforce simp: kept_sessions_def)
  next
    assume new: "wv_token env = Inr token \<and> (claims_instance env rq st1 ?u \<or> shows_password env rq st1 ?u \<and> secret_of ?u (wb_users st1) = None \<or>
        shows_code env rq st1 ?u \<and> (\<exists>c. pending env rq st1 = Some (c, ?u)))"
    have "\<exists>ticket at. rq_jar rq PENDING_COOKIE = Some ticket \<and> began us steps ticket ?u at \<and> wv_instant env - at < PENDING_TTL"
      if code: "shows_code env rq st1 ?u" "pending env rq st1 = Some (c, ?u)" for c
    proof -
      have "wb_sessions st1 = wb_sessions ?st" using code(1) st1(3) by (auto simp: shows_code_def)
      then obtain p where "rq_jar rq PENDING_COOKIE = Some c" "(c, p) \<in> set (ss_pending (wb_sessions ?st))" "pg_username p = ?u"
          "wv_instant env - pg_created p < PENDING_TTL"
        using code(2) by (auto simp: pending_def pending_user_def split: option.splits if_splits dest: map_of_SomeD)
      then show ?thesis using pending_has_begun [of c p steps us] by (intro exI [of _ c] exI [of _ "pg_created p"]) simp
    qed
    then have "let st = ?st in claims_instance env rq st ?u \<or> shows_password env rq st ?u \<and> secret_of ?u (wb_users st) = None \<or>
         shows_code env rq st ?u \<and>
           (\<exists>ticket at. rq_jar rq PENDING_COOKIE = Some ticket \<and> began us steps ticket ?u at \<and> wv_instant env - at < PENDING_TTL)"
      using new st1(1) by (auto simp: claims_instance_def shows_password_def shows_code_def)
    then show ?thesis unfolding earned_def
      by (intro exI [of _ steps] exI [of _ env] exI [of _ rq] exI [of _ "[]"]) (simp add: new x)
  qed
qed

lemma handled_needs_user:
  assumes "rq_route rq = OtherPage get path" "rp_answer (snd (web_step env rq st)) = Handled"
  shows "(\<exists>token x. rq_jar rq COOKIE_NAME = Some token \<and> (token, x) \<in> set (ss_inner (wb_sessions st)) \<and> wv_instant env - sn_last_seen x < SESSION_TTL) \<or>
    (\<exists>peer name. rq_peer rq = Some peer \<and> trusts (wv_server env) peer \<and> vouched_user (wv_server env) (Some peer) (rq_headers rq) = Some name)"
proof -
  have not_handled: "rp_answer (refusal_response r) \<noteq> Handled" "rp_answer (unavailable m) \<noteq> Handled" "rp_answer (plain (Redirects d)) \<noteq> Handled" for r m d
    by (auto simp: refusal_response_def plain_def internal_def unavailable_def split: origin_refusal.split)
  have same: "rp_answer (add_security_headers r) = rp_answer r" for r by (simp add: add_security_headers_def)
  obtain st1 u where cu: "current_user env rq st = (st1, u)" by (cases "current_user env rq st")
  have "u \<noteq> None \<or> vouched_user (wv_server env) (rq_peer rq) (rq_headers rq) \<noteq> None"
    using assms
    by (auto simp: web_step_def security_headers_def deny_cross_origin_def require_auth_def cu case_prod_beta same not_handled
        split: option.splits if_splits sum.splits bool.splits)
  then show ?thesis
  proof
    assume "u \<noteq> None"
    then show ?thesis using cu
      by (auto simp: current_user_def session_touch_def split: option.splits prod.splits if_splits dest!: map_of_SomeD)
  next
    assume "vouched_user (wv_server env) (rq_peer rq) (rq_headers rq) \<noteq> None"
    then show ?thesis by (cases "rq_peer rq") (auto simp: vouched_user_def split: if_splits)
  qed
qed

text \<open>
  C24: No page behind the guard is reached without signing in. Whatever requests came before, a page behind the guard is handled only
  for a trusted proxy that vouches for a user, or for a session that somebody earned earlier in the run: by claiming the instance while it had
  no account, by a right password for an account without a second factor, or by a right password and, within five minutes, a code the
  account accepted, sent with the ticket that password had been answered with.
\<close>

theorem guarded_pages_are_earned:
  assumes "rq_route rq = OtherPage get path" "rp_answer (snd (web_step env rq (web_run steps (web_start us)))) = Handled"
  shows "(\<exists>token u. rq_jar rq COOKIE_NAME = Some token \<and> earned us steps token u) \<or>
    (\<exists>peer name. rq_peer rq = Some peer \<and> trusts (wv_server env) peer \<and> vouched_user (wv_server env) (Some peer) (rq_headers rq) = Some name)"
  using handled_needs_user [OF assms] session_is_earned by blast

text \<open>Witness of C24: the operator claims the instance and reads a page.\<close>

definition open_env :: "string \<Rightarrow> nat \<Rightarrow> web_env" where
  "open_env token now = closed_env\<lparr>wv_store := None, wv_token := Inr token, wv_instant := now\<rparr>"

theorem guarded_pages_are_earned_witness:
  "\<exists>u. earned no_users [(open_env ''t1'' 0, visit (PostSetup ''me'' ''password'' ''password'') Map.empty)] ''t1'' u"
proof -
  let ?steps = "[(open_env ''t1'' 0, visit (PostSetup ''me'' ''password'' ''password'') Map.empty)]"
  let ?rq = "visit (OtherPage True ''/'') [COOKIE_NAME \<mapsto> ''t1'']"
  have "rp_answer (snd (web_step (open_env ''t2'' 5) ?rq (web_run ?steps (web_start no_users)))) = Handled" by code_simp
  from guarded_pages_are_earned [OF _ this]
  show ?thesis by (auto simp: visit_def open_env_def closed_env_def trusts_def server_default_def)
qed

end
