(* ===== verification/Web_Accounts.thy ===== *)
theory Web_Accounts
  imports Web_Guard
begin

text \<open>
  What requests to the web interface do to the accounts: an abstract relation of the changes a request may make, which every
  request refines, and what follows from it for passwords, second factors and codes.
\<close>

section \<open>What a request can do to the accounts\<close>

definition signed_in :: "request \<Rightarrow> web_state \<Rightarrow> string \<Rightarrow> bool" where
  "signed_in rq st w \<longleftrightarrow> (\<exists>token x. rq_jar rq COOKIE_NAME = Some token \<and> (token, x) \<in> set (ss_inner (wb_sessions st)) \<and> sn_username x = w)"

abbreviation knows_password :: "web_env \<Rightarrow> web_state \<Rightarrow> string \<Rightarrow> string \<Rightarrow> bool" where
  "knows_password env st w pw \<equiv> verify_password (wv_accounts env) w pw (wb_users st) = Inr True"

inductive account_change :: "web_env \<Rightarrow> request \<Rightarrow> web_state \<Rightarrow> users \<Rightarrow> bool" for env rq st where
  Unchanged: "account_change env rq st (wb_users st)"
| Claimed:
    "rq_route rq = PostSetup u p c \<Longrightarrow> us_rows (wb_users st) = [] \<Longrightarrow>
     account_change env rq st (fst (create_user (wv_accounts env) u p (wb_users st)))"
| CodeTried:
    "rq_route rq = PostTotp c \<Longrightarrow> pending env rq st = Some (token, w) \<Longrightarrow> account_change env rq st (fst (check_code env w c (wb_users st)))"
| PasswordSet:
    "rq_route rq = PostPassword pw new new \<Longrightarrow> signed_in rq st w \<Longrightarrow> knows_password env st w pw \<Longrightarrow>
     account_change env rq st (fst (set_password (wv_accounts env) w new (wb_users st)))"
| FactorSet:
    "rq_route rq = PostAccountTotp secret c pw \<Longrightarrow> signed_in rq st w \<Longrightarrow> knows_password env st w pw \<Longrightarrow>
     totp_verify (wv_sha1 env) secret c (ac_now (wv_accounts env)) = Some step \<Longrightarrow> is_valid_secret secret \<Longrightarrow>
     set_totp_secret (wv_accounts env) w (Some secret) (wb_users st) = (us, r) \<Longrightarrow>
     us' = (if r = Inr True then fst (claim_totp_step (wv_accounts env) w step us) else us) \<Longrightarrow> account_change env rq st us'"
| FactorCleared:
    "rq_route rq = PostTotpDisable c pw \<Longrightarrow> signed_in rq st w \<Longrightarrow> knows_password env st w pw \<Longrightarrow>
     check_code env w c (wb_users st) = (us, r) \<Longrightarrow>
     us' = (if r = Inr True then fst (set_totp_secret (wv_accounts env) w None us) else us) \<Longrightarrow> account_change env rq st us'"

lemma password_ok_True: "password_ok env w pw st = Inr True \<Longrightarrow> knows_password env st w pw"
  by (auto simp: password_ok_def split: sum.splits store_error.splits)

lemma current_user_signed_in: "current_user env rq st = (st1, Some w) \<Longrightarrow> signed_in rq st w"
  by (auto simp: current_user_def session_touch_def signed_in_def split: option.splits prod.splits if_splits dest!: map_of_SomeD)

lemma handle_account_change:
  assumes "rq_route rq = r"
  shows "account_change env rq st (wb_users (fst (handle r env rq st)))"
proof -
  note [simp] = account_change.Unchanged
  obtain st1 w where cu: "current_user env rq st = (st1, w)" by (cases "current_user env rq st")
  then have users: "wb_users st1 = wb_users st" using current_userD by blast
  have si: "signed_in rq st u" if "w = Some u" for u using current_user_signed_in cu that by simp
  have pw: "knows_password env st u p" if "password_ok env u p st1 = Inr True" for u p
    using password_ok_True [OF that] users by simp
  show ?thesis
  proof (cases r)
    case (PostSetup u p c)
    have "wb_users (fst (handle r env rq st)) = wb_users st \<or>
        us_rows (wb_users st) = [] \<and> wb_users (fst (handle r env rq st)) = fst (create_user (wv_accounts env) u p (wb_users st))"
      by (auto simp: PostSetup setup_submit_def Let_def user_count_def statement_def split: prod.splits option.splits sum.splits store_error.splits)
    then show ?thesis using Claimed [of rq u p c st env] assms PostSetup by auto
  next
    case (PostTotp c)
    have "wb_users (fst (handle r env rq st)) = wb_users st \<or>
        (\<exists>tok u. pending env rq st = Some (tok, u) \<and> wb_users (fst (handle r env rq st)) = fst (check_code env u c (wb_users st)))"
      by (auto simp: PostTotp totp_login_submit_def Let_def split: prod.splits option.splits sum.splits bool.splits)
    then show ?thesis using CodeTried [of rq c env st] assms PostTotp by auto
  next
    case (PostPassword p new confirm)
    have "wb_users (fst (handle r env rq st)) = wb_users st \<or>
        (\<exists>u. w = Some u \<and> new = confirm \<and> password_ok env u p st1 = Inr True \<and>
           wb_users (fst (handle r env rq st)) = fst (set_password (wv_accounts env) u new (wb_users st)))"
      by (auto simp: PostPassword change_password_def Let_def cu users password_rejection_def
          split: prod.splits option.splits sum.splits bool.splits store_error.splits if_splits)
    then show ?thesis using PasswordSet [of rq p new st _ env] assms PostPassword si pw by auto
  next
    case (PostAccountTotp secret c p)
    have "wb_users (fst (handle r env rq st)) = wb_users st \<or>
        (\<exists>u step. w = Some u \<and> is_valid_secret secret \<and> password_ok env u p st1 = Inr True \<and>
           totp_verify (wv_sha1 env) secret c (ac_now (wv_accounts env)) = Some step \<and>
           wb_users (fst (handle r env rq st)) =
             (case set_totp_secret (wv_accounts env) u (Some secret) (wb_users st) of
                (us, r) \<Rightarrow> if r = Inr True then fst (claim_totp_step (wv_accounts env) u step us) else us))"
      by (auto simp: PostAccountTotp enable_totp_def cu users split: prod.splits option.splits sum.splits bool.splits)
    then show ?thesis
    proof (elim disjE exE conjE)
      fix u step
      assume *: "w = Some u" "is_valid_secret secret" "password_ok env u p st1 = Inr True"
        "totp_verify (wv_sha1 env) secret c (ac_now (wv_accounts env)) = Some step"
        "wb_users (fst (handle r env rq st)) =
             (case set_totp_secret (wv_accounts env) u (Some secret) (wb_users st) of
                (us, r) \<Rightarrow> if r = Inr True then fst (claim_totp_step (wv_accounts env) u step us) else us)"
      obtain us q where q: "set_totp_secret (wv_accounts env) u (Some secret) (wb_users st) = (us, q)"
        by (cases "set_totp_secret (wv_accounts env) u (Some secret) (wb_users st)")
      show ?thesis
        by (rule FactorSet [OF _ si [OF *(1)] pw [OF *(3)] *(4) *(2) q]) (use assms PostAccountTotp *(5) q in simp_all)
    qed simp
  next
    case (PostTotpDisable c p)
    have "wb_users (fst (handle r env rq st)) = wb_users st \<or>
        (\<exists>u. w = Some u \<and> password_ok env u p st1 = Inr True \<and>
           wb_users (fst (handle r env rq st)) =
             (case check_code env u c (wb_users st) of
                (us, r) \<Rightarrow> if r = Inr True then fst (set_totp_secret (wv_accounts env) u None us) else us))"
      by (auto simp: PostTotpDisable disable_totp_def cu users split: prod.splits option.splits sum.splits bool.splits)
    then show ?thesis
    proof (elim disjE exE conjE)
      fix u
      assume *: "w = Some u" "password_ok env u p st1 = Inr True"
        "wb_users (fst (handle r env rq st)) =
             (case check_code env u c (wb_users st) of
                (us, r) \<Rightarrow> if r = Inr True then fst (set_totp_secret (wv_accounts env) u None us) else us)"
      obtain us q where q: "check_code env u c (wb_users st) = (us, q)" by (cases "check_code env u c (wb_users st)")
      show ?thesis
        by (rule FactorCleared [OF _ si [OF *(1)] pw [OF *(2)] q]) (use assms PostTotpDisable *(3) q in simp_all)
    qed simp
  next
    case (PostLogin u p)
    then show ?thesis by (auto simp: login_submit_def split: prod.splits option.split sum.split bool.split store_error.split)
  qed (auto simp: setup_page_def login_page_def totp_login_page_def logout_def account_page_def cu users split: option.split)
qed

lemma signed_in_kept: "kept_sessions (wb_sessions st) (wb_sessions st1) \<Longrightarrow> signed_in rq st1 w \<Longrightarrow> signed_in rq st w"
  by (fastforce simp: signed_in_def kept_sessions_def)

text \<open>Every request, whatever the layers around its handler do, makes one of these changes.\<close>

lemma web_step_account_change: "account_change env rq st (wb_users (fst (web_step env rq st)))"
proof -
  obtain st1 where st1: "wb_users st1 = wb_users st" "kept st st1" "is_public (rq_route rq) \<longrightarrow> wb_sessions st1 = wb_sessions st"
      "fst (web_step env rq st) = st1 \<or> fst (web_step env rq st) = fst (handle (rq_route rq) env rq st1)"
    by (rule web_step_handles [of st rq env])
  have si: "signed_in rq st1 w \<Longrightarrow> signed_in rq st w" for w using st1(2) signed_in_kept by blast
  have "account_change env rq st1 us \<Longrightarrow> account_change env rq st us" for us
  proof (induction rule: account_change.induct)
    case Unchanged
    then show ?case using account_change.Unchanged st1(1) by metis
  next
    case (Claimed u p c)
    then show ?case using account_change.Claimed [of rq u p c st env] st1(1) by simp
  next
    case (CodeTried c token w)
    then have "wb_sessions st1 = wb_sessions st" using st1(3) by simp
    then have "pending env rq st = Some (token, w)" using CodeTried(2) by (auto simp: pending_def split: option.splits)
    from account_change.CodeTried [OF CodeTried(1) this] show ?case using st1(1) by simp
  next
    case (PasswordSet pw new w)
    then show ?case using account_change.PasswordSet [of rq pw new st w env] st1(1) si by simp
  next
    case (FactorSet secret c pw w step us r us')
    then show ?case using account_change.FactorSet [of rq secret c pw st w env step us r us'] st1(1) si by simp
  next
    case (FactorCleared c pw w us r us')
    then show ?case using account_change.FactorCleared [of rq c pw st w env us r us'] st1(1) si by simp
  qed
  then show ?thesis using st1(1,4) handle_account_change [of rq "rq_route rq" env st1] account_change.Unchanged [of env rq st] by metis
qed

lemma users_ok_check_code: "users_ok us \<Longrightarrow> users_ok (fst (check_code env w c us))"
  by (auto simp: check_code_def users_ok_writes split: sum.split option.split)

lemma users_ok_change: "account_change env rq st us \<Longrightarrow> users_ok (wb_users st) \<Longrightarrow> users_ok us"
proof (induction rule: account_change.induct)
  case (FactorSet secret c pw w step us r us')
  then have "users_ok us" using users_ok_writes(3) by (metis fst_conv)
  then show ?case using FactorSet.hyps users_ok_writes(4) by simp
next
  case (FactorCleared c pw w us r us')
  then have "users_ok us" using users_ok_check_code by (metis fst_conv)
  then show ?case using FactorCleared.hyps users_ok_writes(3) by simp
qed (simp_all add: users_ok_writes users_ok_check_code)

section \<open>Accounts change only with their password\<close>

lemma find_user_name: "find_user w us = Some r \<Longrightarrow> ur_username r = w"
  by (auto simp: find_user_def find_Some_iff)

text \<open>What the store's updates do to one account.\<close>

lemma find_set_password:
  "\<exists>h at. find_user w (fst (set_password ae v p us)) =
     (if w = v then map_option (\<lambda>r. r\<lparr>ur_password_hash := h r, ur_updated_at := at r\<rparr>) (find_user w us) else find_user w us)"
proof (cases "and_then (validate_password p) (\<lambda>_. hash_password ae p)")
  case (Inl e)
  then show ?thesis by (intro exI [of _ ur_password_hash] exI [of _ ur_updated_at]) (simp add: set_password_def option.map_ident)
next
  case (Inr h)
  show ?thesis
  proof (cases "ac_fails ae SetPassword")
    case None
    show ?thesis
      by (intro exI [of _ "\<lambda>_. h"] exI [of _ "\<lambda>_. ac_now ae"])
        (auto simp: set_password_def Inr None case_prod_beta find_user_update option.map_ident)
  next
    case (Some e)
    then show ?thesis using Inr
      by (intro exI [of _ ur_password_hash] exI [of _ ur_updated_at]) (simp add: set_password_def option.map_ident)
  qed
qed

lemma find_set_totp:
  assumes "set_totp_secret ae v secret us = (us', q)"
  shows "find_user w us' =
    (if w = v \<and> ac_fails ae SetTotp = None
     then map_option (\<lambda>r. r\<lparr>ur_totp_secret := secret, ur_totp_last_step := None, ur_updated_at := ac_now ae\<rparr>) (find_user w us) else find_user w us)"
proof (cases "ac_fails ae SetTotp")
  case None
  then have "us' = fst (update_user (\<lambda>_. True) (\<lambda>r. r\<lparr>ur_totp_secret := secret, ur_totp_last_step := None, ur_updated_at := ac_now ae\<rparr>) v us)"
    using assms by (simp add: set_totp_secret_def case_prod_beta)
  then show ?thesis using None by (auto simp: find_user_update option.map_ident)
qed (use assms in \<open>simp add: set_totp_secret_def\<close>)

lemma find_claim:
  "find_user w (fst (claim_totp_step ae v step us)) =
    (if w = v \<and> ac_fails ae ClaimStep = None
     then map_option (\<lambda>r. if unspent step r then r\<lparr>ur_totp_last_step := Some step\<rparr> else r) (find_user w us) else find_user w us)"
  by (cases "ac_fails ae ClaimStep") (auto simp: claim_totp_step_def case_prod_beta find_user_update option.map_ident)

lemma claim_keeps:
  assumes "find_user w us = Some r"
  shows "\<exists>l. find_user w (fst (claim_totp_step ae v step us)) = Some (r\<lparr>ur_totp_last_step := l\<rparr>)"
proof (cases "w = v \<and> ac_fails ae ClaimStep = None \<and> unspent step r")
  case True
  then show ?thesis using assms by (auto simp: find_claim)
next
  case False
  then show ?thesis using assms by (intro exI [of _ "ur_totp_last_step r"]) (auto simp: find_claim)
qed

lemma find_check_code:
  assumes "find_user w us = Some r"
  shows "\<exists>l. find_user w (fst (check_code env v c us)) = Some (r\<lparr>ur_totp_last_step := l\<rparr>)"
proof -
  have "\<exists>l. find_user w us = Some (r\<lparr>ur_totp_last_step := l\<rparr>)"
    using assms by (intro exI [of _ "ur_totp_last_step r"]) simp
  then show ?thesis using claim_keeps [OF assms, of "wv_accounts env" v] by (auto simp: check_code_def split: sum.split option.split)
qed

fun form_password :: "route \<Rightarrow> string option" where
  "form_password (PostPassword pw _ _) = Some pw"
| "form_password (PostAccountTotp _ _ pw) = Some pw"
| "form_password (PostTotpDisable _ pw) = Some pw"
| "form_password _ = None"

text \<open>
  C25: A session alone does not own an account. Whatever a request is, an account that exists keeps its password and its second factor, unless
  the request comes with a session of that account and carries its current password; and a second factor is turned off only if it
  also carries a code the account accepts. No request removes an account.
\<close>

theorem account_changes_need_password:
  assumes "find_user w (wb_users st) = Some r"
  shows "\<exists>r'. find_user w (wb_users (fst (web_step env rq st))) = Some r' \<and>
    (ur_password_hash r' = ur_password_hash r \<and> ur_totp_secret r' = ur_totp_secret r \<or>
     signed_in rq st w \<and> (\<exists>pw. form_password (rq_route rq) = Some pw \<and> knows_password env st w pw) \<and>
     (ur_totp_secret r' = None \<longrightarrow> ur_totp_secret r = None \<or>
        (\<exists>c pw. rq_route rq = PostTotpDisable c pw \<and> snd (check_code env w c (wb_users st)) = Inr True)))"
  using web_step_account_change [of env rq st]
proof cases
  case Unchanged
  then show ?thesis using assms by simp
next
  case (Claimed u p c)
  then show ?thesis using assms by (simp add: find_user_def)
next
  case (CodeTried c token v)
  then show ?thesis using find_check_code [OF assms, of env v c] by auto
next
  case (PasswordSet pw new v)
  then show ?thesis using find_set_password [of w "wv_accounts env" v new "wb_users st"] assms by (auto split: if_splits)
next
  case (FactorSet secret c pw v step us q)
  let ?r = "r\<lparr>ur_totp_secret := Some secret, ur_totp_last_step := None, ur_updated_at := ac_now (wv_accounts env)\<rparr>"
  have "find_user w us = Some r \<or> w = v \<and> find_user w us = Some ?r"
    using find_set_totp [OF FactorSet(6), of w] assms by (auto split: if_splits)
  then show ?thesis using FactorSet claim_keeps [of w us r "wv_accounts env" v step] claim_keeps [of w us ?r "wv_accounts env" v step]
    by (auto split: if_splits)
next
  case (FactorCleared c pw v us q)
  obtain l where l: "find_user w us = Some (r\<lparr>ur_totp_last_step := l\<rparr>)"
    using find_check_code [OF assms, of env v c] FactorCleared(4) by auto
  obtain us2 q2 where s: "set_totp_secret (wv_accounts env) v None us = (us2, q2)"
    by (cases "set_totp_secret (wv_accounts env) v None us")
  show ?thesis using find_set_totp [OF s, of w] l FactorCleared s by (auto split: if_splits)
qed

section \<open>A code is good once\<close>

fun changes_factor :: "route \<Rightarrow> bool" where
  "changes_factor (PostAccountTotp _ _ _) = True"
| "changes_factor (PostTotpDisable _ _) = True"
| "changes_factor _ = False"

definition not_before :: "int option \<Rightarrow> int option \<Rightarrow> bool" where
  "not_before a b \<longleftrightarrow> (\<forall>x \<in> set_option a. \<exists>y \<in> set_option b. x \<le> y)"

lemma not_before_refl [simp]: "not_before a a"
  by (auto simp: not_before_def)

lemma not_before_trans: "not_before a b \<Longrightarrow> not_before b c \<Longrightarrow> not_before a c"
  by (fastforce simp: not_before_def)

lemma claim_not_before:
  "users_ok us \<Longrightarrow> not_before (last_step u us) (last_step u (fst (claim_totp_step ae w step us)))"
proof -
  assume ok: "users_ok us"
  obtain us' r where c: "claim_totp_step ae w step us = (us', r)" by (cases "claim_totp_step ae w step us")
  show ?thesis using claim_result(2) [OF ok c, of u] claim_result(3,4) [OF ok c]
    by (cases "u = w"; cases "r = Inr True") (auto simp: not_before_def c intro: less_imp_le)
qed

lemma check_code_not_before: "users_ok us \<Longrightarrow> not_before (last_step u us) (last_step u (fst (check_code env w c us)))"
  by (auto simp: check_code_def claim_not_before split: sum.split option.split)

lemma step_not_before:
  assumes "users_ok (wb_users st)" "\<not> changes_factor (rq_route rq)"
  shows "not_before (last_step u (wb_users st)) (last_step u (wb_users (fst (web_step env rq st))))"
  using web_step_account_change [of env rq st]
proof cases
  case (Claimed v p c)
  then show ?thesis by (simp add: last_step_def find_user_def not_before_def)
next
  case (PasswordSet pw new v)
  then show ?thesis using find_set_password [of u "wv_accounts env" v new "wb_users st"]
    by (cases "find_user u (wb_users st)") (auto simp: last_step_def not_before_def split: if_splits)
qed (use assms check_code_not_before in auto)

lemma run_users_ok: "users_ok (wb_users st) \<Longrightarrow> users_ok (wb_users (web_run steps st))"
proof (induction steps st rule: web_run.induct)
  case (2 env rq rest st)
  then show ?case using users_ok_change [OF web_step_account_change [of env rq st]] by simp
qed simp

lemma run_not_before:
  "users_ok (wb_users st) \<Longrightarrow> list_all (\<lambda>(_, rq). \<not> changes_factor (rq_route rq)) steps \<Longrightarrow>
   not_before (last_step u (wb_users st)) (last_step u (wb_users (web_run steps st)))"
proof (induction steps st rule: web_run.induct)
  case (2 env rq rest st)
  then show ?case using users_ok_change [OF web_step_account_change [of env rq st]] step_not_before [of st rq u env] not_before_trans by simp
qed simp

text \<open>A request spends a step: its code signs an account in, or confirms the secret the account is given.\<close>

definition code_signs_in :: "web_env \<Rightarrow> request \<Rightarrow> web_state \<Rightarrow> string \<Rightarrow> int \<Rightarrow> bool" where
  "code_signs_in env rq st u step \<longleftrightarrow>
     (\<exists>c token secret. rq_route rq = PostTotp c \<and> pending env rq st = Some (token, u) \<and> secret_of u (wb_users st) = Some secret \<and>
        totp_verify (wv_sha1 env) secret c (ac_now (wv_accounts env)) = Some step \<and>
        rp_answer (snd (web_step env rq st)) = Redirects ''/'')"

definition code_enrols :: "web_env \<Rightarrow> request \<Rightarrow> web_state \<Rightarrow> string \<Rightarrow> int \<Rightarrow> bool" where
  "code_enrols env rq st u step \<longleftrightarrow>
     (\<exists>c secret pw. rq_route rq = PostAccountTotp secret c pw \<and> snd (current_user env rq st) = Some u \<and>
        totp_verify (wv_sha1 env) secret c (ac_now (wv_accounts env)) = Some step \<and>
        rp_answer (snd (web_step env rq st)) = Redirects ''/settings/account/totp?saved=on'')"

lemma sign_in_with_code:
  assumes "code_signs_in env rq st u step" "users_ok (wb_users st)"
  shows "\<forall>used \<in> set_option (last_step u (wb_users st)). used < step" "last_step u (wb_users (fst (web_step env rq st))) = Some step"
proof -
  obtain c token secret where c: "rq_route rq = PostTotp c" "pending env rq st = Some (token, u)" "secret_of u (wb_users st) = Some secret"
      "totp_verify (wv_sha1 env) secret c (ac_now (wv_accounts env)) = Some step" "rp_answer (snd (web_step env rq st)) = Redirects ''/''"
    using assms(1) by (auto simp: code_signs_in_def)
  have same: "rp_answer (add_security_headers r) = rp_answer r" for r by (simp add: add_security_headers_def)
  have not: "rp_answer (refusal_response r) \<noteq> Redirects d" for r d
    by (auto simp: refusal_response_def plain_def internal_def split: origin_refusal.split)
  have p: "pending env rq (st\<lparr>wb_throttle := t\<rparr>) = Some (token, u)" for t using c(2) by (auto simp: pending_def split: option.splits)
  have "\<exists>t. rp_answer (snd (totp_login_submit c env rq (st\<lparr>wb_throttle := t\<rparr>))) = Redirects ''/'' \<and>
      fst (web_step env rq st) = fst (totp_login_submit c env rq (st\<lparr>wb_throttle := t\<rparr>))"
    using c(5) by (auto simp: web_step_def security_headers_def deny_cross_origin_def throttle_unauthenticated_posts_def c(1) case_prod_beta same not
        split: option.splits if_splits sum.splits intro: exI [of _ "wb_throttle st"])
  then obtain t where t: "rp_answer (snd (totp_login_submit c env rq (st\<lparr>wb_throttle := t\<rparr>))) = Redirects ''/''"
      "fst (web_step env rq st) = fst (totp_login_submit c env rq (st\<lparr>wb_throttle := t\<rparr>))" by blast
  obtain us r where claim: "claim_totp_step (wv_accounts env) u step (wb_users st) = (us, r)"
    by (cases "claim_totp_step (wv_accounts env) u step (wb_users st)")
  have "r = Inr True \<and> wb_users (fst (totp_login_submit c env rq (st\<lparr>wb_throttle := t\<rparr>))) = us"
    using t(1) c(3,4)
    by (auto simp: totp_login_submit_def p check_code_def totp_secret_def statement_def secret_of_def claim plain_def internal_def unavailable_def Let_def
        split: option.splits sum.splits bool.splits prod.splits if_splits)
  then show "\<forall>used \<in> set_option (last_step u (wb_users st)). used < step" "last_step u (wb_users (fst (web_step env rq st))) = Some step"
    using claim_result(3) [OF assms(2) claim] t(2) by simp_all
qed

lemma enrol_with_code:
  assumes "code_enrols env rq st u step" "users_ok (wb_users st)"
  shows "last_step u (wb_users (fst (web_step env rq st))) = Some step"
proof -
  obtain c secret pw where c: "rq_route rq = PostAccountTotp secret c pw" "snd (current_user env rq st) = Some u"
      "totp_verify (wv_sha1 env) secret c (ac_now (wv_accounts env)) = Some step"
      "rp_answer (snd (web_step env rq st)) = Redirects ''/settings/account/totp?saved=on''"
    using assms(1) by (auto simp: code_enrols_def)
  have same: "rp_answer (add_security_headers r) = rp_answer r" for r by (simp add: add_security_headers_def)
  have not: "rp_answer (refusal_response r) \<noteq> Redirects d" for r d
    by (auto simp: refusal_response_def plain_def internal_def split: origin_refusal.split)
  obtain st1 where cu: "current_user env rq st = (st1, Some u)" using c(2) by (cases "current_user env rq st") auto
  have again: "\<exists>st2. current_user env rq st1 = (st2, Some u)"
    using cu by (auto simp: current_user_def session_touch_def SESSION_TTL_def secs_def split: option.splits prod.splits if_splits)
  then obtain st2 where cu2: "current_user env rq st1 = (st2, Some u)" by blast
  have users: "wb_users st2 = wb_users st" using current_userD [OF cu] current_userD [OF cu2] by simp
  have t: "rp_answer (snd (enable_totp secret c pw env rq st1)) = Redirects ''/settings/account/totp?saved=on''"
      "fst (web_step env rq st) = fst (enable_totp secret c pw env rq st1)"
    using c(4) by (auto simp: web_step_def security_headers_def deny_cross_origin_def require_auth_def cu c(1) case_prod_beta same not
        split: option.splits if_splits)
  obtain us r where set: "set_totp_secret (wv_accounts env) u (Some secret) (wb_users st) = (us, r)"
    by (cases "set_totp_secret (wv_accounts env) u (Some secret) (wb_users st)")
  obtain us' r' where claim: "claim_totp_step (wv_accounts env) u step us = (us', r')" by (cases "claim_totp_step (wv_accounts env) u step us")
  have enrol: "rp_answer (enrol_page env x y z w) \<noteq> Redirects d" for x y z w d
    by (auto simp: plain_def internal_def enrol_page_def Let_def split: sum.split)
  have password: "password_ok env x p st = Inl q \<Longrightarrow> rp_answer q \<noteq> Redirects d" for x p st q d
    by (auto simp: password_ok_def plain_def internal_def too_busy_def split: sum.splits store_error.splits)
  have open_store: "wv_store env = None" "is_valid_secret secret"
    using t(1) by (auto simp: enable_totp_def cu2 plain_def unavailable_def split: option.splits if_splits)
  have "password_ok env u pw st2 = Inr True"
  proof (cases "password_ok env u pw st2")
    case (Inl q)
    then show ?thesis using t(1) password [OF Inl] by (simp add: enable_totp_def cu2 open_store)
  next
    case (Inr b)
    then show ?thesis using t(1) enrol by (cases b) (simp_all add: enable_totp_def cu2 open_store)
  qed
  then have r: "r = Inr True" "\<exists>b. r' = Inr b" "wb_users (fst (enable_totp secret c pw env rq st1)) = us'"
    using t(1) c(3)
    by (cases r; cases r'; cases "projr r"; simp add: enable_totp_def cu2 open_store users set claim plain_def internal_def)+
  have set_ok: "ac_fails (wv_accounts env) SetTotp = None"
    using r(1) set by (auto simp: set_totp_secret_def split: option.splits)
  have claim_ok: "ac_fails (wv_accounts env) ClaimStep = None"
    using r(2) claim by (auto simp: claim_totp_step_def split: option.splits)
  obtain q where "find_user u (wb_users st) = Some q"
    using r(1) set set_ok updated_iff [OF assms(2)] by (auto simp: set_totp_secret_def case_prod_beta)
  then have "find_user u us = Some (q\<lparr>ur_totp_secret := Some secret, ur_totp_last_step := None, ur_updated_at := ac_now (wv_accounts env)\<rparr>)"
    using find_set_totp [OF set, of u] set_ok by simp
  then have "last_step u us' = Some step"
    using find_claim [of u "wv_accounts env" u step us] claim_ok by (simp add: claim last_step_def unspent_def)
  then show ?thesis using t(2) r(3) by simp
qed

text \<open>
  C26: A code is good once. A code that signed an account in, or confirmed its second factor, was of some thirty-second step; whatever
  requests follow, as long as none of them turns a second factor on or off, a code that signs the account in later is of a later step.
\<close>

theorem code_is_good_once:
  assumes "users_ok (wb_users st)" "code_signs_in env1 rq1 st u step1 \<or> code_enrols env1 rq1 st u step1"
    and "list_all (\<lambda>(_, rq). \<not> changes_factor (rq_route rq)) between"
    and "code_signs_in env2 rq2 (web_run ((env1, rq1) # between) st) u step2"
  shows "step1 < step2"
proof -
  let ?st1 = "fst (web_step env1 rq1 st)"
  have ok: "users_ok (wb_users ?st1)" using users_ok_change [OF web_step_account_change assms(1)] .
  have "last_step u (wb_users ?st1) = Some step1" using assms(1,2) sign_in_with_code(2) enrol_with_code by blast
  then obtain used where "last_step u (wb_users (web_run between ?st1)) = Some used" "step1 \<le> used"
    using run_not_before [OF ok assms(3), of u] by (auto simp: not_before_def)
  then show ?thesis using sign_in_with_code(1) [OF assms(4)] run_users_ok [OF ok, of between] by auto
qed

section \<open>Examples\<close>

definition zero_secret :: string where
  "zero_secret = replicate 32 CHR ''A''"

definition factor_state :: web_state where
  "factor_state =
     (web_start \<lparr>us_rows = [\<lparr>ur_id = 1, ur_username = ''me'', ur_password_hash = ''password'', ur_created_at = 0, ur_updated_at = 0,
        ur_totp_secret = Some zero_secret, ur_totp_last_step = None\<rparr>], us_last_id = 1\<rparr>)
     \<lparr>wb_sessions := \<lparr>ss_inner = [(''s'', \<lparr>sn_username = ''me'', sn_last_seen = 0\<rparr>), (''other'', \<lparr>sn_username = ''me'', sn_last_seen = 0\<rparr>)],
        ss_pending = [(''p1'', \<lparr>pg_username = ''me'', pg_created = 0, pg_failures = 0\<rparr>), (''p2'', \<lparr>pg_username = ''me'', pg_created = 0, pg_failures = 0\<rparr>)]\<rparr>\<rparr>"

definition env_at :: "int \<Rightarrow> web_env" where
  "env_at now = (open_env ''t'' 1)\<lparr>wv_accounts := (wv_accounts closed_env)\<lparr>ac_now := now\<rparr>\<rparr>"

text \<open>Witness of C25: the password is changed with the old one.\<close>

theorem account_changes_need_password_witness:
  "\<exists>r'. find_user ''me'' (wb_users (fst (web_step (env_at 59) (visit (PostPassword ''password'' ''longer password'' ''longer password'')
       [COOKIE_NAME \<mapsto> ''s'']) factor_state))) = Some r' \<and> ur_password_hash r' \<noteq> ''password'' \<and>
     signed_in (visit (PostPassword ''password'' ''longer password'' ''longer password'') [COOKIE_NAME \<mapsto> ''s'']) factor_state ''me''"
proof -
  let ?rq = "visit (PostPassword ''password'' ''longer password'' ''longer password'') [COOKIE_NAME \<mapsto> ''s'']"
  let ?r = "\<lparr>ur_id = 1, ur_username = ''me'', ur_password_hash = ''password'', ur_created_at = 0, ur_updated_at = 0,
        ur_totp_secret = Some zero_secret, ur_totp_last_step = None\<rparr>"
  have found: "find_user ''me'' (wb_users factor_state) = Some ?r" by (simp add: factor_state_def web_start_def find_user_def)
  have "map_option ur_password_hash (find_user ''me'' (wb_users (fst (web_step (env_at 59) ?rq factor_state)))) = Some ''longer password''"
    by code_simp
  then show ?thesis using account_changes_need_password [OF found, of "env_at 59" ?rq] by auto
qed

text \<open>Witness of C26: a code signs in, and a code two steps later signs in again.\<close>

theorem code_is_good_once_witness:
  "let rq1 = visit (PostTotp ''000 000'') [PENDING_COOKIE \<mapsto> ''p1'']; rq2 = visit (PostTotp ''000000'') [PENDING_COOKIE \<mapsto> ''p2''] in
   code_signs_in (env_at 59) rq1 factor_state ''me'' 0 \<and> code_signs_in (env_at 119) rq2 (web_run [(env_at 59, rq1)] factor_state) ''me'' 2 \<and>
   (0 :: int) < 2"
proof -
  let ?rq1 = "visit (PostTotp ''000 000'') [PENDING_COOKIE \<mapsto> ''p1'']" and ?rq2 = "visit (PostTotp ''000000'') [PENDING_COOKIE \<mapsto> ''p2'']"
  let ?st2 = "web_run [(env_at 59, ?rq1)] factor_state"
  have route: "rq_route ?rq1 = PostTotp ''000 000''" "rq_route ?rq2 = PostTotp ''000000''" by (simp_all add: visit_def)
  have "pending (env_at 59) ?rq1 factor_state = Some (''p1'', ''me'')" "secret_of ''me'' (wb_users factor_state) = Some zero_secret"
    "totp_verify (wv_sha1 (env_at 59)) zero_secret ''000 000'' (ac_now (wv_accounts (env_at 59))) = Some 0"
    "rp_answer (snd (web_step (env_at 59) ?rq1 factor_state)) = Redirects ''/''" by code_simp+
  then have 1: "code_signs_in (env_at 59) ?rq1 factor_state ''me'' 0" unfolding code_signs_in_def using route by blast
  have "pending (env_at 119) ?rq2 ?st2 = Some (''p2'', ''me'')" "secret_of ''me'' (wb_users ?st2) = Some zero_secret"
    "totp_verify (wv_sha1 (env_at 119)) zero_secret ''000000'' (ac_now (wv_accounts (env_at 119))) = Some 2"
    "rp_answer (snd (web_step (env_at 119) ?rq2 ?st2)) = Redirects ''/''" by code_simp+
  then have 2: "code_signs_in (env_at 119) ?rq2 ?st2 ''me'' 2" unfolding code_signs_in_def using route by blast
  have "users_ok (wb_users factor_state)" by (simp add: factor_state_def web_start_def users_ok_def)
  from code_is_good_once [OF this, of "env_at 59" ?rq1 "''me''" 0 "[]" "env_at 119" ?rq2 2] 1 2 show ?thesis by simp
qed

text \<open>
  What the code does and was not meant to. With a session and the password, the second factor is replaced by another without a code of
  the one in force, though turning it off asks for one.
\<close>

lemma factor_is_replaced_without_code:
  "let st = fst (web_step (env_at 59) (visit (PostAccountTotp (replicate 31 CHR ''A'' @ ''B'') ''000000'' ''password'') [COOKIE_NAME \<mapsto> ''s'']) factor_state)
   in secret_of ''me'' (wb_users st) = Some (replicate 31 CHR ''A'' @ ''B'')"
  by code_simp

text \<open>A sign-in that waits for its code outlives a change of the password it was begun with.\<close>

lemma waiting_sign_in_outlives_password:
  "let st = fst (web_step (env_at 59) (visit (PostPassword ''password'' ''longer password'' ''longer password'') [COOKIE_NAME \<mapsto> ''s'']) factor_state)
   in map fst (ss_inner (wb_sessions st)) = [''s''] \<and>
      rp_answer (snd (web_step (env_at 59) (visit (PostTotp ''000000'') [PENDING_COOKIE \<mapsto> ''p1'']) st)) = Redirects ''/''"
  by code_simp

text \<open>The first session of an account claimed under a name with blanks around it is for the name as typed, which no account has.\<close>

lemma claimed_with_blanks_cannot_change_password:
  "let st = fst (web_step (open_env ''t'' 0) (visit (PostSetup '' me'' ''password'' ''password'') Map.empty) (web_start no_users))
   in map ur_username (us_rows (wb_users st)) = [''me''] \<and>
      rp_answer (snd (web_step (open_env ''u'' 1) (visit (PostPassword ''password'' ''longer password'' ''longer password'') [COOKIE_NAME \<mapsto> ''t'']) st)) =
        Renders 400 (SettingsRejected ''That is not your current password.'')"
  by code_simp

text \<open>Two claims that both counted no accounts both make one, unless they chose the same name.\<close>

lemma racing_claims_both_win:
  "let ae = wv_accounts closed_env; (us1, r1) = create_user ae ''me'' ''password'' no_users; (us2, r2) = create_user ae ''you'' ''password'' us1
   in user_count ae no_users = Inr 0 \<and> r1 = Inr 1 \<and> r2 = Inr 2 \<and> map ur_username (us_rows us2) = [''me'', ''you'']"
  by code_simp

end
