(* ===== verification/Pairing.thy ===== *)
theory Pairing
  imports Gossip Tracker_Http Secrets
begin

text \<open>
  Becoming friends: \<^verbatim>\<open>sharerr/src/pairing.rs\<close>, the writing handlers of \<^verbatim>\<open>sharerr/src/web/peers.rs\<close>, and the authentication of
  \<^verbatim>\<open>torznab/mod.rs\<close> the pairing route stands behind. An instance is its serving state and the disk its vault lies on. The JSON and
  base64 of an invite, \<^verbatim>\<open>url::Url::parse\<close>, the identity and the clock are parameters; so are the statements the database refuses.
  The call to the friend's instance is a function on a world, which a theorem instantiates with the friend's own instance.
\<close>

section \<open>Invites\<close>

record invite =
  iv_v :: nat
  iv_url :: string
  iv_key :: string
  iv_issued_at :: int
  iv_pubkey :: "string option"
  iv_in_reply_to :: "string option"

definition PREFIX :: string where "PREFIX = ''sharerr-invite:''"

abbreviation (input) INVITE_VERSION :: nat where "INVITE_VERSION \<equiv> 1"
abbreviation (input) INVITE_TTL_SECS :: int where "INVITE_TTL_SECS \<equiv> 7 * 24 * 60 * 60"
abbreviation (input) MAX_KEY_LEN :: nat where "MAX_KEY_LEN \<equiv> 256"

record invite_codec =
  ic_to_json :: "invite \<Rightarrow> bytes"
  ic_from_json :: "bytes \<Rightarrow> invite option"
  ic_base64 :: "bytes \<Rightarrow> string"
  ic_unbase64 :: "string \<Rightarrow> bytes option"

text \<open>What was wrong with a pasted string, one constructor per message.\<close>

datatype invite_error =
    NotAnInvite
  | DidNotPaste
  | DoesNotParse
  | NewerFormat nat
  | DatedInFuture
  | TooOld
  | BadAddress string string
  | NotHttp string
  | NoKey
  | KeyTooLong
  | BadIdentity
  | BadReplyHash

definition invite_new :: "int \<Rightarrow> string \<Rightarrow> string \<Rightarrow> string option \<Rightarrow> invite" where
  "invite_new now url key pubkey =
     \<lparr>iv_v = INVITE_VERSION, iv_url = url, iv_key = key, iv_issued_at = now, iv_pubkey = pubkey, iv_in_reply_to = None\<rparr>"

definition invite_encode :: "invite_codec \<Rightarrow> invite \<Rightarrow> string" where
  "invite_encode ic i = PREFIX @ ic_base64 ic (ic_to_json ic i)"

text \<open>\<^verbatim>\<open>url::Url::parse\<close> answers the scheme and the address as it is written, or why it does not parse.\<close>

type_synonym url_reader = "string \<Rightarrow> (string, string \<times> string) result"

definition validate_url :: "url_reader \<Rightarrow> string \<Rightarrow> (invite_error, unit) result" where
  "validate_url parse url =
     (case parse url of
        Inl err \<Rightarrow> Inl (BadAddress url err)
      | Inr (scheme, _) \<Rightarrow> if scheme = ''http'' \<or> scheme = ''https'' then Inr () else Inl (NotHttp url))"

definition validate_key :: "string \<Rightarrow> (invite_error, unit) result" where
  "validate_key key =
     (if trim key = [] then Inl NoKey else if length key > MAX_KEY_LEN then Inl KeyTooLong else Inr ())"

definition invite_decode :: "invite_codec \<Rightarrow> url_reader \<Rightarrow> int \<Rightarrow> string \<Rightarrow> (invite_error, invite) result" where
  "invite_decode ic parse now text =
     (let text = trim text in
      if \<not> prefix PREFIX text then Inl NotAnInvite
      else
        and_then (ok_or (ic_unbase64 ic (trim (drop (length PREFIX) text))) DidNotPaste) (\<lambda>json.
        and_then (ok_or (ic_from_json ic json) DoesNotParse) (\<lambda>i.
          if iv_v i \<noteq> INVITE_VERSION then Inl (NewerFormat (iv_v i))
          else if iv_issued_at i > saturating_add_i64 now MAX_FUTURE_SKEW_SECS then Inl DatedInFuture
          else if saturating_sub_i64 now (iv_issued_at i) > INVITE_TTL_SECS then Inl TooOld
          else
            and_then (validate_url parse (iv_url i)) (\<lambda>_.
            and_then (validate_key (iv_key i)) (\<lambda>_.
              if (case iv_pubkey i of None \<Rightarrow> False | Some k \<Rightarrow> \<not> is_hex_32_bytes k) then Inl BadIdentity
              else if (case iv_in_reply_to i of None \<Rightarrow> False | Some h \<Rightarrow> \<not> is_hex_32_bytes h) then Inl BadReplyHash
              else Inr i)))))"

section \<open>Instances\<close>

record node =
  nd_serve :: serve_state
  nd_disk :: disk

abbreviation nd_db :: "node \<Rightarrow> database" where
  "nd_db nd \<equiv> sv_db (nd_serve nd)"

definition with_db :: "database \<Rightarrow> node \<Rightarrow> node" where
  "with_db db nd = nd\<lparr>nd_serve := (nd_serve nd)\<lparr>sv_db := db\<rparr>\<rparr>"

record pair_request =
  rq_url :: string
  rq_key :: string
  rq_record :: "endpoint_record option"

datatype pair_statement = ReadPeer | BindKey | SaveUrl | InsertPeer | LookUpHash | RemovePeer | RevokeKey | WriteScope

record 'k pair_env =
  pv_crypto :: "'k crypto"
  pv_codec :: invite_codec
  pv_parse :: url_reader
  pv_request :: request_env
  pv_refused :: "pair_statement \<Rightarrow> store_error option"
  pv_vault :: vault_env
  pv_io :: vault_io
  pv_master :: "(string, string) result"
  pv_gap_of :: "database \<Rightarrow> nat"
  pv_minted :: "(string, string) result"
  pv_base :: string
  pv_pubkey :: "string option"
  pv_self :: "endpoint_record option"
  pv_gossip_fails :: "gossip_statement \<Rightarrow> bool"
  pv_to_json :: "endpoint_record \<Rightarrow> string option"
  pv_signed_at_of :: "string \<Rightarrow> int option"

abbreviation pv_now :: "'k pair_env \<Rightarrow> int" where
  "pv_now env \<equiv> env_now (pv_request env)"

definition url_text :: "url_reader \<Rightarrow> string \<Rightarrow> string option" where
  "url_text parse raw = map_option snd (ok (parse raw))"

definition refusing :: "'k pair_env \<Rightarrow> pair_statement \<Rightarrow> (store_error, 'a) result \<Rightarrow> (store_error, 'a) result" where
  "refusing env s r = (case pv_refused env s of Some e \<Rightarrow> Inl e | None \<Rightarrow> r)"

definition peer_gossip_key :: "int \<Rightarrow> string" where
  "peer_gossip_key i = ''peer.gossip.'' @ show_int i"

datatype vault_problem = NoMasterKey string | VaultProblem vault_error

definition open_vault :: "'k pair_env \<Rightarrow> node \<Rightarrow> (vault_problem, vault) result" where
  "open_vault env nd =
     (case pv_master env of
        Inl e \<Rightarrow> Inl (NoMasterKey e)
      | Inr master \<Rightarrow> (case vault_open (pv_vault env) (pv_io env) master (nd_disk nd) of Inl e \<Rightarrow> Inl (VaultProblem e) | Inr v \<Rightarrow> Inr v))"

section \<open>Applying an invite\<close>

datatype apply_error = CannotPin store_error | OtherIdentity | NoSuchFriend | CannotSave store_error | CannotStore vault_error

definition pin_identity :: "'k pair_env \<Rightarrow> int \<Rightarrow> string option \<Rightarrow> database \<Rightarrow> database \<times> (apply_error, unit) result" where
  "pin_identity env i pubkey db =
     (case pubkey of
        None \<Rightarrow> (db, Inr ())
      | Some k \<Rightarrow>
          (case pv_refused env BindKey of
             Some e \<Rightarrow> (db, Inl (CannotPin e))
           | None \<Rightarrow> (case bind_peer_pubkey i k db of (db', bound) \<Rightarrow> (db', if bound then Inr () else Inl OtherIdentity))))"

definition apply_invite :: "'k pair_env \<Rightarrow> vault \<Rightarrow> int \<Rightarrow> invite \<Rightarrow> node \<Rightarrow> node \<times> (apply_error, unit) result" where
  "apply_invite env v i ivt nd =
     (case pin_identity env i (iv_pubkey ivt) (nd_db nd) of
        (db1, Inl e) \<Rightarrow> (with_db db1 nd, Inl e)
      | (db1, Inr _) \<Rightarrow>
          (case refusing env SaveUrl (set_peer_gossip_url (url_text (pv_parse env)) i (Some (iv_url ivt)) db1) of
             Inl e \<Rightarrow> (with_db db1 nd, Inl (CannotSave e))
           | Inr (db2, saved) \<Rightarrow>
               if \<not> saved then (with_db db2 nd, Inl NoSuchFriend)
               else
                 (case vault_put (pv_vault env) (pv_io env) (peer_gossip_key i) (iv_key ivt) v (nd_disk nd) of
                    (_, d, Inl e) \<Rightarrow> ((with_db db2 nd)\<lparr>nd_disk := d\<rparr>, Inl (CannotStore e))
                  | (_, d, Inr _) \<Rightarrow> ((with_db db2 nd)\<lparr>nd_disk := d\<rparr>, Inr ()))))"

section \<open>The pairing route\<close>

datatype pair_answer =
    Unauthorized
  | CannotCheck
  | NoContent
  | BadRequest invite_error
  | BadRecord string
  | OtherPinned
  | AlreadyPaired
  | NoSuchPeer
  | NotReady string

text \<open>\<^verbatim>\<open>check_api_key\<close>: who a key belongs to, and the sighting of its holder.\<close>

definition check_api_key :: "'k pair_env \<Rightarrow> string option \<Rightarrow> string option \<Rightarrow> node \<Rightarrow> node \<times> (pair_answer, Peers.peer) result" where
  "check_api_key env supplied remote nd =
     (case supplied of
        None \<Rightarrow> (nd, Inl Unauthorized)
      | Some key \<Rightarrow>
          if key = [] \<or> \<not> env_store (pv_request env) then (nd, Inl Unauthorized)
          else
            (case peer_by_key (lh_hash_key (pv_crypto env)) key (nd_db nd) of
               Inl _ \<Rightarrow> (nd, Inl CannotCheck)
             | Inr None \<Rightarrow> (nd, Inl Unauthorized)
             | Inr (Some p) \<Rightarrow> (nd\<lparr>nd_serve := record_sighting (pv_request env) (p_id p) ApiKind remote (nd_serve nd)\<rparr>, Inr p)))"

definition refuse_record :: "'k pair_env \<Rightarrow> Peers.peer \<Rightarrow> endpoint_record \<Rightarrow> pair_answer option" where
  "refuse_record env p r =
     (case verify (pv_crypto env) r of
        Inl reason \<Rightarrow> Some (BadRecord reason)
      | Inr _ \<Rightarrow> if (case p_pubkey p of None \<Rightarrow> False | Some pinned \<Rightarrow> pinned \<noteq> ep_pubkey r) then Some OtherPinned else None)"

definition refuse_pair :: "'k pair_env \<Rightarrow> Peers.peer \<Rightarrow> pair_request \<Rightarrow> pair_answer option" where
  "refuse_pair env p rq =
     (case and_then (validate_url (pv_parse env) (rq_url rq)) (\<lambda>_. validate_key (rq_key rq)) of
        Inl reason \<Rightarrow> Some (BadRequest reason)
      | Inr _ \<Rightarrow> (case rq_record rq of None \<Rightarrow> None | Some r \<Rightarrow> refuse_record env p r))"

definition store_half :: "'k pair_env \<Rightarrow> Peers.peer \<Rightarrow> vault \<Rightarrow> pair_request \<Rightarrow> node \<Rightarrow> node \<times> pair_answer" where
  "store_half env p v rq nd =
     (case vault_put (pv_vault env) (pv_io env) (peer_gossip_key (p_id p)) (rq_key rq) v (nd_disk nd) of
        (_, d, Inl _) \<Rightarrow> (nd\<lparr>nd_disk := d\<rparr>, NotReady ''could not store the key'')
      | (_, d, Inr _) \<Rightarrow>
          (let nd1 = nd\<lparr>nd_disk := d\<rparr> in
           case refusing env SaveUrl (set_peer_gossip_url (url_text (pv_parse env)) (p_id p) (Some (rq_url rq)) (nd_db nd1)) of
             Inl _ \<Rightarrow> (nd1, NotReady ''could not store the address'')
           | Inr (db, saved) \<Rightarrow>
               if \<not> saved then (with_db db nd1, NoSuchPeer)
               else
                 (case rq_record rq of
                    None \<Rightarrow> (with_db db nd1, NoContent)
                  | Some r \<Rightarrow>
                      (with_db (fst (ingest (pv_gossip_fails env) (pv_crypto env) (pv_to_json env) (pv_signed_at_of env) (pv_gap_of env) (pv_now env) (p_id p) [r] db)) nd1,
                       NoContent))))"

definition key_stored :: "'k pair_env \<Rightarrow> vault \<Rightarrow> int \<Rightarrow> bool" where
  "key_stored env v i = (case vault_get (pv_vault env) v (peer_gossip_key i) of Inr (Some _) \<Rightarrow> True | _ \<Rightarrow> False)"

definition pair_handler :: "'k pair_env \<Rightarrow> int \<Rightarrow> pair_request \<Rightarrow> node \<Rightarrow> node \<times> pair_answer" where
  "pair_handler env caller rq nd =
     (if \<not> env_store (pv_request env) then (nd, NotReady ''not ready'')
      else
        (case refusing env ReadPeer (get_peer caller (nd_db nd)) of
           Inr (Some p) \<Rightarrow>
             (case refuse_pair env p rq of
                Some answer \<Rightarrow> (nd, answer)
              | None \<Rightarrow>
                  (case open_vault env nd of
                     Inl _ \<Rightarrow> (nd, NotReady ''the vault is not open'')
                   | Inr v \<Rightarrow>
                       if p_gossip_url p \<noteq> None \<or> key_stored env v (p_id p)
                       then (nd, AlreadyPaired)
                       else store_half env p v rq nd))
         | _ \<Rightarrow> (nd, NotReady ''not ready'')))"

definition pair_route :: "'k pair_env \<Rightarrow> string option \<Rightarrow> string option \<Rightarrow> pair_request \<Rightarrow> node \<Rightarrow> node \<times> pair_answer" where
  "pair_route env supplied remote rq nd =
     (case check_api_key env supplied remote nd of
        (nd1, Inl answer) \<Rightarrow> (nd1, answer)
      | (nd1, Inr p) \<Rightarrow> pair_handler env (p_id p) rq nd1)"

section \<open>The Friends page\<close>

datatype pair_failure = Unreachable string | Answered nat string

record revealed =
  rv_id :: int
  rv_label :: string
  rv_key :: string
  rv_invite :: string

datatype friends_page =
    StoreClosed
  | InvalidInvite invite_error
  | VaultClosed vault_problem
  | UnknownReply
  | LookUpFailed store_error
  | NotApplied apply_error
  | NameMissing
  | NotMintedPeer string
  | NameTaken string
  | NameInvalid string
  | NotAdded store_error
  | NotChanged string store_error
  | FriendGone
  | AddressNotSaved store_error
  | NoVault vault_problem
  | KeyNotStored vault_error
  | Added revealed
  | PairedPage string "pair_failure option" "revealed option"
  | BackToList

definition mint_peer :: "'k pair_env \<Rightarrow> string \<Rightarrow> peer_scope \<Rightarrow> node \<Rightarrow> node \<times> (friends_page, Peers.peer \<times> string) result" where
  "mint_peer env label scope nd =
     (case pv_minted env of
        Inl reason \<Rightarrow> (nd, Inl (NotMintedPeer reason))
      | Inr key \<Rightarrow>
          (case refusing env InsertPeer
                  (create_peer (lh_hash_key (pv_crypto env)) (pv_gap_of env (nd_db nd)) (pv_now env) label key scope (nd_db nd)) of
             Inr (db, p) \<Rightarrow> (with_db db nd, Inr (p, key))
           | Inl (UserExists name) \<Rightarrow> (nd, Inl (NameTaken name))
           | Inl (InvalidUser message) \<Rightarrow> (nd, Inl (NameInvalid message))
           | Inl err \<Rightarrow> (nd, Inl (NotAdded err))))"

definition own_invite :: "'k pair_env \<Rightarrow> string \<Rightarrow> string option \<Rightarrow> string" where
  "own_invite env key in_reply_to =
     invite_encode (pv_codec env) ((invite_new (pv_now env) (pv_base env) key (pv_pubkey env))\<lparr>iv_in_reply_to := in_reply_to\<rparr>)"

definition add_friend :: "'k pair_env \<Rightarrow> string \<Rightarrow> peer_scope \<Rightarrow> node \<Rightarrow> node \<times> friends_page" where
  "add_friend env label scope nd =
     (if \<not> env_store (pv_request env) then (nd, StoreClosed)
      else
        (case mint_peer env (trim label) scope nd of
           (nd1, Inl page) \<Rightarrow> (nd1, page)
         | (nd1, Inr (p, key)) \<Rightarrow>
             (nd1, Added \<lparr>rv_id = p_id p, rv_label = p_label p, rv_key = key, rv_invite = own_invite env key None\<rparr>)))"

text \<open>The call to the inviter's \<^verbatim>\<open>/api/gossip/pair\<close>: the address called, the key, and the body; what comes back is a status and a text.\<close>

type_synonym 'w caller = "string \<Rightarrow> string \<Rightarrow> pair_request \<Rightarrow> 'w \<Rightarrow> 'w \<times> (string, nat \<times> string) result"

definition send_pair :: "'w caller \<Rightarrow> invite \<Rightarrow> pair_request \<Rightarrow> 'w \<Rightarrow> 'w \<times> (pair_failure, unit) result" where
  "send_pair post ivt rq w =
     (case post (trim_end_matches CHR ''/'' (iv_url ivt) @ ''/api/gossip/pair'') (iv_key ivt) rq w of
        (w', Inl err) \<Rightarrow> (w', Inl (Unreachable err))
      | (w', Inr (status, body)) \<Rightarrow> (w', if 200 \<le> status \<and> status < 300 then Inr () else Inl (Answered status (trim body))))"

definition pair_reply :: "'k pair_env \<Rightarrow> vault \<Rightarrow> invite \<Rightarrow> string \<Rightarrow> node \<Rightarrow> node \<times> friends_page" where
  "pair_reply env v ivt h nd =
     (case refusing env LookUpHash (peer_by_key_hash h (nd_db nd)) of
        Inl err \<Rightarrow> (nd, LookUpFailed err)
      | Inr None \<Rightarrow> (nd, UnknownReply)
      | Inr (Some p) \<Rightarrow>
          (case apply_invite env v (p_id p) ivt nd of
             (nd1, Inl e) \<Rightarrow> (nd1, NotApplied e)
           | (nd1, Inr _) \<Rightarrow> (nd1, PairedPage (p_label p) None None)))"

definition pair_fresh :: "'k pair_env \<Rightarrow> 'w caller \<Rightarrow> vault \<Rightarrow> invite \<Rightarrow> string \<Rightarrow> peer_scope \<Rightarrow> node \<Rightarrow> 'w \<Rightarrow> node \<times> 'w \<times> friends_page" where
  "pair_fresh env post v ivt label scope nd w =
     (if trim label = [] then (nd, w, NameMissing)
      else
        (case mint_peer env (trim label) scope nd of
           (nd1, Inl page) \<Rightarrow> (nd1, w, page)
         | (nd1, Inr (p, key)) \<Rightarrow>
             (case apply_invite env v (p_id p) ivt nd1 of
                (nd2, Inl e) \<Rightarrow> (nd2, w, NotApplied e)
              | (nd2, Inr _) \<Rightarrow>
                  (case send_pair post ivt \<lparr>rq_url = pv_base env, rq_key = key, rq_record = pv_self env\<rparr> w of
                     (w', Inr _) \<Rightarrow> (nd2, w', PairedPage (p_label p) None None)
                   | (w', Inl failure) \<Rightarrow>
                       (nd2, w', PairedPage (p_label p) (Some failure)
                          (Some \<lparr>rv_id = p_id p, rv_label = p_label p, rv_key = key,
                                 rv_invite = own_invite env key (Some (lh_hash_key (pv_crypto env) (iv_key ivt)))\<rparr>))))))"

definition paste_invite :: "'k pair_env \<Rightarrow> 'w caller \<Rightarrow> string \<Rightarrow> string \<Rightarrow> peer_scope \<Rightarrow> node \<Rightarrow> 'w \<Rightarrow> node \<times> 'w \<times> friends_page" where
  "paste_invite env post text label scope nd w =
     (if \<not> env_store (pv_request env) then (nd, w, StoreClosed)
      else
        (case invite_decode (pv_codec env) (pv_parse env) (pv_now env) text of
           Inl e \<Rightarrow> (nd, w, InvalidInvite e)
         | Inr ivt \<Rightarrow>
             (case open_vault env nd of
                Inl e \<Rightarrow> (nd, w, VaultClosed e)
              | Inr v \<Rightarrow>
                  (case iv_in_reply_to ivt of
                     Some h \<Rightarrow> (case pair_reply env v ivt h nd of (nd', page) \<Rightarrow> (nd', w, page))
                   | None \<Rightarrow> pair_fresh env post v ivt label scope nd w))))"

definition delete_friend :: "'k pair_env \<Rightarrow> int \<Rightarrow> node \<Rightarrow> node \<times> friends_page" where
  "delete_friend env i nd =
     (if \<not> env_store (pv_request env) then (nd, StoreClosed)
      else
        (case refusing env RemovePeer (Inr (delete_peer i (nd_db nd))) of
           Inl err \<Rightarrow> (nd, NotChanged ''delete that friend'' err)
         | Inr (db, _) \<Rightarrow>
             (let nd1 = with_db db nd in
              (case open_vault env nd1 of
                 Inl _ \<Rightarrow> nd1
               | Inr v \<Rightarrow> (case vault_remove (pv_io env) (peer_gossip_key i) v (nd_disk nd1) of (_, d, _) \<Rightarrow> nd1\<lparr>nd_disk := d\<rparr>), BackToList))))"

definition revoke_friend :: "'k pair_env \<Rightarrow> int \<Rightarrow> node \<Rightarrow> node \<times> friends_page" where
  "revoke_friend env i nd =
     (if \<not> env_store (pv_request env) then (nd, StoreClosed)
      else
        (case refusing env RevokeKey (Inr (revoke_peer (pv_now env) i (nd_db nd))) of
           Inl err \<Rightarrow> (nd, NotChanged ''revoke that key'' err)
         | Inr (db, _) \<Rightarrow> (with_db db nd, BackToList)))"

definition set_friend_scope :: "'k pair_env \<Rightarrow> int \<Rightarrow> peer_scope \<Rightarrow> node \<Rightarrow> node \<times> friends_page" where
  "set_friend_scope env i scope nd =
     (if \<not> env_store (pv_request env) then (nd, StoreClosed)
      else
        (case refusing env WriteScope (Inr (set_peer_scope i scope (nd_db nd))) of
           Inl err \<Rightarrow> (nd, NotChanged ''change that'' err)
         | Inr (db, _) \<Rightarrow> (with_db db nd, BackToList)))"

record gossip_form =
  gf_url :: string
  gf_key :: string
  gf_clear_key :: "string option"

definition write_gossip_key :: "'k pair_env \<Rightarrow> int \<Rightarrow> gossip_form \<Rightarrow> node \<Rightarrow> node \<times> friends_page" where
  "write_gossip_key env i form nd =
     (let key = trim (gf_key form) in
      if key = [] \<and> gf_clear_key form = None then (nd, BackToList)
      else
        (case open_vault env nd of
           Inl e \<Rightarrow> (nd, NoVault e)
         | Inr v \<Rightarrow>
             (case vault_step (pv_vault env) (pv_io env)
                     (if gf_clear_key form \<noteq> None then Remove (peer_gossip_key i) else Put (peer_gossip_key i) key) v (nd_disk nd) of
                (_, d, Inl e) \<Rightarrow> (nd\<lparr>nd_disk := d\<rparr>, KeyNotStored e)
              | (_, d, Inr _) \<Rightarrow> (nd\<lparr>nd_disk := d\<rparr>, BackToList))))"

definition set_gossip :: "'k pair_env \<Rightarrow> int \<Rightarrow> gossip_form \<Rightarrow> node \<Rightarrow> node \<times> friends_page" where
  "set_gossip env i form nd =
     (if \<not> env_store (pv_request env) then (nd, StoreClosed)
      else
        (case refusing env SaveUrl (set_peer_gossip_url (url_text (pv_parse env)) i (Some (gf_url form)) (nd_db nd)) of
           Inl err \<Rightarrow> (nd, AddressNotSaved err)
         | Inr (db, saved) \<Rightarrow> if \<not> saved then (with_db db nd, FriendGone) else write_gossip_key env i form (with_db db nd)))"

section \<open>What the row proves of a friend's setup\<close>

definition latest_endpoint :: "peer_endpoint list \<Rightarrow> endpoint_kind \<Rightarrow> peer_endpoint option" where
  "latest_endpoint endpoints kind = find (\<lambda>e. pe_kind e = kind) endpoints"

record setup_step =
  st_label :: string
  st_done :: bool
  st_hint :: string
  st_href :: string

definition setup_steps :: "Peers.peer \<Rightarrow> peer_endpoint list \<Rightarrow> setup_step list" where
  "setup_steps p endpoints =
     (let announced = list_ex (\<lambda>e. pe_kind e = ClientKind \<and> pe_via e = ViaDirect) endpoints;
          step = (\<lambda>label reached hint. \<lparr>st_label = label, st_done = reached, st_hint = hint, st_href = []\<rparr>)
      in [step ''Key issued'' True [],
          step ''Feed pulled'' (p_last_seen_at p \<noteq> None)
            ''Their Prowlarr has not used the key yet: the indexer is not added, or its test failed.'',
          step ''First announce'' announced
            (''Their torrent client has not reached the tracker yet: nothing grabbed from the feed, '' @
             ''or the advertised address is not reachable from their side.''),
          step ''Runs sharerr (optional)'' (p_pubkey p \<noteq> None)
            ''Only for a friend who runs sharerr: their instance has not introduced itself yet.''])"

section \<open>What stays of a friend\<close>

text \<open>The columns authentication and pairing rest on.\<close>

definition ident :: "peer_row \<Rightarrow> int \<times> string \<times> int option \<times> string option \<times> sql_num \<times> sql_num" where
  "ident r = (pr_id r, pr_key_hash r, pr_revoked_at r, pr_gossip_url r, pr_downloaded r, pr_uploaded r)"

abbreviation idents :: "database \<Rightarrow> (int \<times> string \<times> int option \<times> string option \<times> sql_num \<times> sql_num) list" where
  "idents db \<equiv> map ident (db_peers db)"

text \<open>A column of the friends' rows that sightings and identities do not touch stays through them, and no id is given out.\<close>

definition unmoved :: "(peer_row \<Rightarrow> 'a) \<Rightarrow> database \<Rightarrow> database \<Rightarrow> bool" where
  "unmoved f db db' \<longleftrightarrow> map f (db_peers db') = map f (db_peers db) \<and> db_last_peer db' = db_last_peer db"

definition blind :: "(peer_row \<Rightarrow> 'a) \<Rightarrow> bool" where
  "blind f \<longleftrightarrow> (\<forall>r x. f (r\<lparr>pr_last_seen_at := x\<rparr>) = f r) \<and> (\<forall>r x. f (r\<lparr>pr_pubkey := x\<rparr>) = f r) \<and> (\<forall>r x. f (r\<lparr>pr_gossip_record := x\<rparr>) = f r)"

lemma unmoved_refl [simp]: "unmoved f db db"
  by (simp add: unmoved_def)

lemma unmoved_trans: "unmoved f db db1 \<Longrightarrow> unmoved f db1 db2 \<Longrightarrow> unmoved f db db2"
  by (simp add: unmoved_def)

lemma unmoved_update: "(\<And>r. cond r \<Longrightarrow> f (assign r) = f r) \<Longrightarrow> unmoved f db (fst (update_peers cond assign db))"
  by (simp add: unmoved_def update_peers_def sql_update_def)

lemma unmoved_bind: "blind f \<Longrightarrow> unmoved f db (fst (bind_peer_pubkey i k db))"
  unfolding bind_peer_pubkey_def by (rule unmoved_update) (simp add: blind_def)

lemma unmoved_record: "blind f \<Longrightarrow> unmoved f db (set_peer_gossip_record i raw db)"
  unfolding set_peer_gossip_record_def by (rule unmoved_update) (simp add: blind_def)

lemma unmoved_touch: "blind f \<Longrightarrow> unmoved f db (fst (touch_peer now i db))"
  by (auto simp: touch_peer_def touch_write_def case_prod_beta blind_def intro!: unmoved_update split: touch.split)

lemma unmoved_endpoint: "unmoved f db db1 \<Longrightarrow> unmoved f db (or_keep db1 (record_peer_endpoint gap now i k x t v db1))"
  by (auto simp: unmoved_def or_keep_def record_peer_endpoint_def upsert_endpoint_def Let_def case_prod_beta split: sum.split option.split)

lemma unmoved_endpoints: "unmoved f db (record_endpoints fails_at gap_of now i es via db)"
proof -
  have "unmoved f db (foldl (\<lambda>db (k, e). case endpoint_kind_parse (re_kind e) of None \<Rightarrow> db | Some kind \<Rightarrow>
      if fails_at k then db else or_keep db (record_peer_endpoint (gap_of db) now i kind (re_addr e) (Some (re_observed_at e)) via db))
      db kes)" for kes
  proof (induction kes arbitrary: db)
    case (Cons ke kes)
    obtain k e where ke: "ke = (k, e)" by (cases ke)
    show ?case
    proof (cases "endpoint_kind_parse (re_kind e)")
      case (Some kind)
      then show ?thesis using Cons.IH unmoved_trans [OF unmoved_endpoint [OF unmoved_refl] Cons.IH] by (simp add: ke)
    qed (use Cons.IH in \<open>simp add: ke\<close>)
  qed simp
  then show ?thesis by (simp add: record_endpoints_def)
qed

lemma unmoved_sighting: "blind f \<Longrightarrow> unmoved f (sv_db st) (sv_db (record_sighting env i kind a st))"
  using unmoved_touch [of f "sv_db st" "env_now env" i]
  by (auto simp: record_sighting_def case_prod_beta Let_def intro!: unmoved_endpoint split: option.split)

lemma unmoved_ingest:
  assumes "blind f"
  shows "unmoved f db (fst (ingest fails c to_json signed_at_of gap_of now i rs db))"
proof -
  have subject: "unmoved f db (fst (subject_of b ps i r db))" for b ps r db
    using unmoved_bind [OF assms, of db i "ep_pubkey r"] by (auto simp: subject_of_def Let_def case_prod_beta split: option.split)
  have one: "unmoved f (is_db st) (is_db (ingest_one fails c to_json gap_of now ps i st nr))" for ps st nr
  proof -
    obtain n r where nr: "nr = (n, r)" by (cases nr)
    obtain db1 sub where s: "subject_of (fails (BindPresenter n)) ps i r (is_db st) = (db1, sub)"
      by (cases "subject_of (fails (BindPresenter n)) ps i r (is_db st)")
    have "unmoved f (is_db st) db1" using subject [of "is_db st" "fails (BindPresenter n)" ps r] by (simp add: s)
    then show ?thesis
      by (auto simp: nr ingest_one_def Let_def s intro!: unmoved_trans [OF _ unmoved_record [OF assms]] unmoved_trans [OF _ unmoved_endpoints] split: option.split)
  qed
  have batch: "unmoved f (is_db st) (is_db (foldl (ingest_one fails c to_json gap_of now ps i) st rs))" for ps st rs
  proof (induction rs arbitrary: st)
    case (Cons r rs)
    then show ?case using unmoved_trans [OF one Cons.IH] by simp
  qed simp
  show ?thesis
  proof (cases "list_peers db")
    case (Inr ps)
    then show ?thesis using batch [of "\<lparr>is_db = db, is_signed = stored_signed_at (fails ReadRecords) signed_at_of ps db, is_summary = empty_summary\<rparr>" ps]
      by (simp add: ingest_def Let_def)
  qed (simp add: ingest_def)
qed

lemma blind_ident: "blind ident"
  by (simp add: blind_def ident_def)

lemma idents_sighting: "idents (sv_db (record_sighting env i kind a st)) = idents (sv_db st)"
  using unmoved_sighting [OF blind_ident] by (simp add: unmoved_def)

lemma idents_bind: "idents (fst (bind_peer_pubkey i k db)) = idents db"
  using unmoved_bind [OF blind_ident] by (simp add: unmoved_def)

lemma idents_ingest: "idents (fst (ingest fails c to_json signed_at_of gap_of now i rs db)) = idents db"
  using unmoved_ingest [OF blind_ident, of db fails c to_json signed_at_of gap_of now i rs] by (simp add: unmoved_def)

lemma found_by_key:
  assumes "distinct (map pr_key_hash (db_peers db))" "(i, h, None, u, SqlInt x, SqlInt y) \<in> set (idents db)"
  shows "\<exists>p. peer_by_key_hash h db = Inr (Some p) \<and> p_id p = i \<and> p_gossip_url p = u"
proof -
  obtain r where r: "r \<in> set (db_peers db)" "ident r = (i, h, None, u, SqlInt x, SqlInt y)" using assms(2) by auto
  have "find (\<lambda>q. pr_key_hash q = h \<and> pr_revoked_at q = None) rs = Some r" if "distinct (map pr_key_hash rs)" "r \<in> set rs" for rs
    using that r(2) by (induction rs) (auto simp: ident_def image_iff)
  then show ?thesis using assms(1) r by (simp add: peer_by_key_hash_def optional_row_def row_to_peer_def read_i64_def ident_def)
qed

lemma get_peer_row:
  assumes "get_peer i db = Inr (Some p)"
  shows "\<exists>r \<in> set (db_peers db). pr_id r = i \<and> p_id p = i \<and> p_gossip_url p = pr_gossip_url r"
proof -
  obtain r where r: "find (\<lambda>r. pr_id r = i) (db_peers db) = Some r" "row_to_peer r = Inr p"
    using assms by (auto simp: get_peer_def optional_row_def split: option.splits)
  moreover have "p_gossip_url p = pr_gossip_url r" using r(2) by (auto simp: row_to_peer_def)
  ultimately show ?thesis using row_to_peer_fields [OF r(2)] by (auto simp: find_Some_iff intro!: bexI [of _ r])
qed

section \<open>Steps of the handshake\<close>

lemma utf8_gossip_key: "utf8_valid (peer_gossip_key i)"
  using utf8_valid_digits [OF show_nat_all_digits] by (simp add: peer_gossip_key_def show_int_def)

text \<open>A friend made here is found by the key made for them.\<close>

lemma minted:
  assumes "mint_peer env label scope nd = (nd', Inr (p, key))" "peers_ok (nd_db nd)"
  shows "pv_minted env = Inr key \<and> nd_disk nd' = nd_disk nd \<and> p_id p \<notin> pr_id ` set (db_peers (nd_db nd)) \<and>
    distinct (map pr_key_hash (db_peers (nd_db nd'))) \<and> distinct (map pr_id (db_peers (nd_db nd'))) \<and>
    idents (nd_db nd') = idents (nd_db nd) @ [(p_id p, lh_hash_key (pv_crypto env) key, None, None, SqlInt 0, SqlInt 0)]"
proof -
  obtain db where c: "create_peer (lh_hash_key (pv_crypto env)) (pv_gap_of env (nd_db nd)) (pv_now env) label key scope (nd_db nd) = Inr (db, p)"
      "pv_minted env = Inr key" "nd' = with_db db nd"
    using assms(1) by (auto simp: mint_peer_def refusing_def split: sum.splits option.splits store_error.splits prod.splits)
  have fresh: "db_last_peer (nd_db nd) + 1 + int g \<noteq> pr_id r" if "r \<in> set (db_peers (nd_db nd))" for g r
    using assms(2) that by (fastforce simp: peers_ok_def list_all_iff)
  show ?thesis using assms(2) c fresh
    by (fastforce simp: create_peer_def Let_def with_db_def new_peer_row_def row_to_peer_def read_i64_def ident_def peers_ok_def list_ex_iff
        split: if_splits)
qed

lemma idents_url:
  assumes "set_peer_gossip_url parse i (Some url) db = Inr (db', saved)" "trim url \<noteq> []"
  shows "\<exists>u. parse (trim url) = Some u \<and>
    idents db' = map (\<lambda>(j, h, v, w, x, y). if j = i then (j, h, v, Some u, x, y) else (j, h, v, w, x, y)) (idents db)"
  using assms by (auto simp: set_peer_gossip_url_def update_peers_def sql_update_def ident_def split: if_splits)

text \<open>The rows of an instance, with the address of one friend set.\<close>

definition with_url :: "int \<Rightarrow> string \<Rightarrow> int \<times> string \<times> int option \<times> string option \<times> sql_num \<times> sql_num \<Rightarrow> int \<times> string \<times> int option \<times> string option \<times> sql_num \<times> sql_num" where
  "with_url i u = (\<lambda>(j, h, v, w, x, y). if j = i then (j, h, v, Some u, x, y) else (j, h, v, w, x, y))"

lemma key_lands:
  assumes law: "\<And>c n a m ct. vx_encrypt (pv_vault env) c n a m = Some ct \<Longrightarrow> vx_decrypt (pv_vault env) c n a ct = Some m"
    and "file_records (nd_disk nd) = Some (salt, rs)" "pv_master env = Inr master" "vx_derive (pv_vault env) master salt = Inr cipher"
    and "io_sane (pv_io env)" "open_vault env nd = Inr v"
    and put: "vault_put (pv_vault env) (pv_io env) (peer_gossip_key i) key v (nd_disk nd) = (v', d', Inr ())"
  shows "contents (pv_vault env) cipher d' (peer_gossip_key i) = Some key"
proof -
  have "vault_open (pv_vault env) (pv_io env) master (nd_disk nd) = Inr v"
    using assms(3,6) by (auto simp: open_vault_def split: sum.splits)
  then have "va_salt v = salt \<and> va_cipher v = cipher" using opened_reads_contents [OF assms(2) _ assms(4)] by blast
  then show ?thesis
    using put_result [OF law assms(2) _ assms(5) utf8_gossip_key put, of cipher] by (simp add: step_result_def)
qed

lemma applied:
  assumes "apply_invite env v i ivt nd = (nd', Inr ())" "trim (iv_url ivt) \<noteq> []"
  shows "\<exists>u v' d'. url_text (pv_parse env) (trim (iv_url ivt)) = Some u \<and> idents (nd_db nd') = map (with_url i u) (idents (nd_db nd)) \<and>
    nd_disk nd' = d' \<and> vault_put (pv_vault env) (pv_io env) (peer_gossip_key i) (iv_key ivt) v (nd_disk nd) = (v', d', Inr ())"
proof -
  obtain db1 where pin: "pin_identity env i (iv_pubkey ivt) (nd_db nd) = (db1, Inr ())"
    using assms(1) by (auto simp: apply_invite_def split: prod.splits sum.splits)
  have "idents db1 = idents (nd_db nd)"
  proof (cases "iv_pubkey ivt")
    case (Some k)
    then show ?thesis using pin idents_bind [of i k "nd_db nd"] by (auto simp: pin_identity_def case_prod_beta split: option.splits)
  qed (use pin in \<open>simp add: pin_identity_def\<close>)
  moreover obtain db2 v' d' where s: "set_peer_gossip_url (url_text (pv_parse env)) i (Some (iv_url ivt)) db1 = Inr (db2, True)"
      "vault_put (pv_vault env) (pv_io env) (peer_gossip_key i) (iv_key ivt) v (nd_disk nd) = (v', d', Inr ())" "nd' = (with_db db2 nd)\<lparr>nd_disk := d'\<rparr>"
    using assms(1) pin by (auto simp: apply_invite_def refusing_def split: prod.splits sum.splits option.splits if_splits)
  ultimately show ?thesis using idents_url [OF s(1) assms(2)] by (auto simp: with_db_def with_url_def)
qed

lemma half_stored:
  assumes "store_half env p v rq nd = (nd', NoContent)" "trim (rq_url rq) \<noteq> []"
  shows "\<exists>u v' d'. url_text (pv_parse env) (trim (rq_url rq)) = Some u \<and> idents (nd_db nd') = map (with_url (p_id p) u) (idents (nd_db nd)) \<and>
    nd_disk nd' = d' \<and> vault_put (pv_vault env) (pv_io env) (peer_gossip_key (p_id p)) (rq_key rq) v (nd_disk nd) = (v', d', Inr ())"
proof -
  obtain db v' d' where s: "vault_put (pv_vault env) (pv_io env) (peer_gossip_key (p_id p)) (rq_key rq) v (nd_disk nd) = (v', d', Inr ())"
      "set_peer_gossip_url (url_text (pv_parse env)) (p_id p) (Some (rq_url rq)) (nd_db nd) = Inr (db, True)" "nd_disk nd' = d'"
      "idents (nd_db nd') = idents db"
    using assms(1) by (auto simp: store_half_def refusing_def Let_def with_db_def idents_ingest split: prod.splits sum.splits option.splits if_splits)
  then show ?thesis using idents_url [OF s(2) assms(2)] by (auto simp: with_url_def)
qed

lemma route_stores:
  assumes "pair_route env (Some key) remote rq nd = (nd', NoContent)" "distinct (map pr_key_hash (db_peers (nd_db nd)))"
    and "(i, lh_hash_key (pv_crypto env) key, None, w, SqlInt x, SqlInt y) \<in> set (idents (nd_db nd))"
  shows "\<exists>nd1 p v. idents (nd_db nd1) = idents (nd_db nd) \<and> nd_disk nd1 = nd_disk nd \<and> open_vault env nd1 = Inr v \<and> p_id p = i \<and>
    store_half env p v rq nd1 = (nd', NoContent)"
proof -
  obtain p where p: "peer_by_key_hash (lh_hash_key (pv_crypto env) key) (nd_db nd) = Inr (Some p)" "p_id p = i"
    using found_by_key [OF assms(2,3)] by blast
  let ?nd1 = "nd\<lparr>nd_serve := record_sighting (pv_request env) i ApiKind remote (nd_serve nd)\<rparr>"
  have check: "check_api_key env (Some key) remote nd = (?nd1, Inr p)"
    using assms(1) p by (auto simp: pair_route_def check_api_key_def peer_by_key_def split: if_splits)
  then have handled: "pair_handler env i rq ?nd1 = (nd', NoContent)" using assms(1) p(2) by (simp add: pair_route_def)
  have not: "refuse_pair env q rq \<noteq> Some NoContent" for q
    by (auto simp: refuse_pair_def refuse_record_def split: sum.splits option.splits)
  obtain q v where "get_peer i (nd_db ?nd1) = Inr (Some q)" "open_vault env ?nd1 = Inr v" "store_half env q v rq ?nd1 = (nd', NoContent)"
    using handled not by (auto simp: pair_handler_def refusing_def split: if_splits sum.splits option.splits)
  moreover from this(1) have "p_id q = i" using get_peer_row by blast
  ultimately show ?thesis using idents_sighting [of "pv_request env" i ApiKind remote "nd_serve nd"]
    by (intro exI [of _ ?nd1] exI [of _ q] exI [of _ v]) simp
qed

lemma idents_after:
  assumes "idents db' = map (with_url i u) (idents db)" "(i, h, None, w, SqlInt x, SqlInt y) \<in> set (idents db)"
    and "distinct (map pr_key_hash (db_peers db))"
  shows "\<exists>p. peer_by_key_hash h db' = Inr (Some p) \<and> p_id p = i \<and> p_gossip_url p = Some u"
proof (rule found_by_key)
  have hashes: "map pr_key_hash (db_peers d) = map (fst \<circ> snd) (idents d)" for d by (simp add: ident_def comp_def)
  have "map (fst \<circ> snd) (map (with_url i u) xs) = map (fst \<circ> snd) xs" for xs by (auto simp: with_url_def split: prod.split)
  then show "distinct (map pr_key_hash (db_peers db'))" using assms(1,3) hashes by metis
  show "(i, h, None, Some u, SqlInt x, SqlInt y) \<in> set (idents db')"
    using imageI [OF assms(2), of "with_url i u"] unfolding assms(1) by (simp add: with_url_def image_image)
qed

section \<open>Two instances\<close>

definition status_of :: "pair_answer \<Rightarrow> nat" where
  "status_of a =
     (case a of
        NoContent \<Rightarrow> 204 | Unauthorized \<Rightarrow> 401 | CannotCheck \<Rightarrow> 503 | BadRequest _ \<Rightarrow> 400 | BadRecord _ \<Rightarrow> 400 | OtherPinned \<Rightarrow> 409
      | AlreadyPaired \<Rightarrow> 409 | NoSuchPeer \<Rightarrow> 409 | NotReady _ \<Rightarrow> 503)"

text \<open>Calling a friend's instance: its pairing route, on its state.\<close>

definition reach :: "'k pair_env \<Rightarrow> string option \<Rightarrow> node caller" where
  "reach env remote url key rq nd = (case pair_route env (Some key) remote rq nd of (nd', a) \<Rightarrow> (nd', Inr (status_of a, [])))"

lemma send_reaches:
  assumes "send_pair (reach env remote) ivt rq nd = (nd', Inr ())"
  shows "pair_route env (Some (iv_key ivt)) remote rq nd = (nd', NoContent)"
proof -
  obtain a where a: "pair_route env (Some (iv_key ivt)) remote rq nd = (nd', a)" "200 \<le> status_of a" "status_of a < 300"
    using assms by (auto simp: send_pair_def reach_def split: prod.splits if_splits)
  then show ?thesis by (cases a) (auto simp: status_of_def)
qed

text \<open>What the library code promises of an invite: what is written reads back, and the written form has no blanks at its ends.\<close>

definition codec_ok :: "invite_codec \<Rightarrow> invite \<Rightarrow> bool" where
  "codec_ok ic i \<longleftrightarrow>
     (let json = ic_to_json ic i; text = ic_base64 ic json in
      ic_from_json ic json = Some i \<and> ic_unbase64 ic text = Some json \<and> trim text = text \<and> trim (PREFIX @ text) = PREFIX @ text)"

lemma invite_reads_back:
  assumes "codec_ok ic i" "invite_decode ic parse now (invite_encode ic i) = Inr i'"
  shows "i' = i"
  using assms by (auto simp: codec_ok_def invite_decode_def invite_encode_def Let_def split: if_splits option.splits)

text \<open>A vault that is there and opens with its master key, on a disk and a cipher that keep their word.\<close>

definition vault_ready :: "'k pair_env \<Rightarrow> node \<Rightarrow> bytes \<Rightarrow> bool" where
  "vault_ready env nd cipher \<longleftrightarrow>
     (\<forall>c n a m ct. vx_encrypt (pv_vault env) c n a m = Some ct \<longrightarrow> vx_decrypt (pv_vault env) c n a ct = Some m) \<and> io_sane (pv_io env) \<and>
     (\<exists>salt rs master. file_records (nd_disk nd) = Some (salt, rs) \<and> pv_master env = Inr master \<and> vx_derive (pv_vault env) master salt = Inr cipher)"

lemma ready_key_lands:
  assumes "vault_ready env nd cipher" "open_vault env nd' = Inr v" "nd_disk nd' = nd_disk nd"
    and "vault_put (pv_vault env) (pv_io env) (peer_gossip_key i) key v (nd_disk nd) = (v', d', Inr ())"
  shows "contents (pv_vault env) cipher d' (peer_gossip_key i) = Some key"
proof -
  have "open_vault env nd = Inr v" using assms(2,3) by (auto simp: open_vault_def split: sum.splits)
  then show ?thesis using assms(1,4) unfolding vault_ready_def by (elim conjE exE) (rule key_lands, blast+)
qed

lemma minting_shows_nothing:
  assumes "mint_peer env label scope nd = (nd', Inl page)"
  shows "page \<noteq> Added given" "page \<noteq> PairedPage name sent shown2"
  using assms by (auto simp: mint_peer_def split: sum.splits store_error.splits)

text \<open>
  C21: A reported pairing is complete on both sides. An operator adds a friend and sends the invite that is shown; the friend pastes it, and
  their instance reports success, having called back. Then each side keeps, in its vault under the row it made for the other, a key
  that the other side accepts as that friend's, and the address of the other side in that row.
\<close>

theorem reported_pairing_is_complete:
  assumes "add_friend envA label scope a = (a1, Added given)" "peers_ok (nd_db a)" "peers_ok (nd_db b)"
    and "paste_invite envB (reach envA' remote) (rv_invite given) labelB scopeB b a1 = (b', a', PairedPage name None shown2)"
    and "pv_codec envB = pv_codec envA" "codec_ok (pv_codec envA) (invite_new (pv_now envA) (pv_base envA) (rv_key given) (pv_pubkey envA))"
    and "pv_crypto envA' = pv_crypto envA"
    and "vault_ready envA' a cipherA" "vault_ready envB b cipherB" "trim (pv_base envA) \<noteq> []" "trim (pv_base envB) \<noteq> []"
  shows "\<exists>p q keyB.
    peer_by_key (lh_hash_key (pv_crypto envA')) (rv_key given) (nd_db a') = Inr (Some p) \<and> p_id p = rv_id given \<and>
    p_gossip_url p = url_text (pv_parse envA') (trim (pv_base envB)) \<and>
    contents (pv_vault envA') cipherA (nd_disk a') (peer_gossip_key (p_id p)) = Some keyB \<and>
    peer_by_key (lh_hash_key (pv_crypto envB)) keyB (nd_db b') = Inr (Some q) \<and>
    p_gossip_url q = url_text (pv_parse envB) (trim (pv_base envA)) \<and>
    contents (pv_vault envB) cipherB (nd_disk b') (peer_gossip_key (p_id q)) = Some (rv_key given)"
proof -
  obtain pA where A: "mint_peer envA (trim label) scope a = (a1, Inr (pA, rv_key given))" "rv_id given = p_id pA"
      "rv_invite given = own_invite envA (rv_key given) None"
    using assms(1) minting_shows_nothing(1) by (fastforce simp: add_friend_def split: if_splits prod.splits sum.splits)
  note mA = minted [OF A(1) assms(2)]
  let ?i = "invite_new (pv_now envA) (pv_base envA) (rv_key given) (pv_pubkey envA)"
  have sent: "rv_invite given = invite_encode (pv_codec envB) ?i" using A(3) assms(5) by (simp add: own_invite_def invite_new_def)
  obtain ivt v where dec: "invite_decode (pv_codec envB) (pv_parse envB) (pv_now envB) (rv_invite given) = Inr ivt" "open_vault envB b = Inr v"
    using assms(4) by (auto simp: paste_invite_def split: if_splits sum.splits)
  then have ivt: "ivt = ?i" using invite_reads_back assms(5,6) sent by metis
  then have "pair_fresh envB (reach envA' remote) v ?i labelB scopeB b a1 = (b', a', PairedPage name None shown2)"
    using assms(4) dec by (auto simp: paste_invite_def invite_new_def split: if_splits)
  then obtain pB keyB b1 where B: "mint_peer envB (trim labelB) scopeB b = (b1, Inr (pB, keyB))" "apply_invite envB v (p_id pB) ?i b1 = (b', Inr ())"
      "send_pair (reach envA' remote) ?i \<lparr>rq_url = pv_base envB, rq_key = keyB, rq_record = pv_self envB\<rparr> a1 = (a', Inr ())"
    using minting_shows_nothing(2) by (fastforce simp: pair_fresh_def split: if_splits prod.splits sum.splits)
  note mB = minted [OF B(1) assms(3)]
  obtain uB vB dB where ap: "url_text (pv_parse envB) (trim (pv_base envA)) = Some uB" "idents (nd_db b') = map (with_url (p_id pB) uB) (idents (nd_db b1))"
      "nd_disk b' = dB" "vault_put (pv_vault envB) (pv_io envB) (peer_gossip_key (p_id pB)) (rv_key given) v (nd_disk b) = (vB, dB, Inr ())"
    using applied [OF B(2)] assms(10) mB by (auto simp: invite_new_def)
  have inA: "(p_id pA, lh_hash_key (pv_crypto envA') (rv_key given), None, None, SqlInt 0, SqlInt 0) \<in> set (idents (nd_db a1))"
    using mA assms(7) by simp
  have distA: "distinct (map pr_key_hash (db_peers (nd_db a1)))" using mA by simp
  have route: "pair_route envA' (Some (rv_key given)) remote \<lparr>rq_url = pv_base envB, rq_key = keyB, rq_record = pv_self envB\<rparr> a1 = (a', NoContent)"
    using send_reaches [OF B(3)] by (simp add: invite_new_def)
  obtain a2 p vA where st: "idents (nd_db a2) = idents (nd_db a1)" "nd_disk a2 = nd_disk a1" "open_vault envA' a2 = Inr vA" "p_id p = p_id pA"
      "store_half envA' p vA \<lparr>rq_url = pv_base envB, rq_key = keyB, rq_record = pv_self envB\<rparr> a2 = (a', NoContent)"
    using route_stores [OF route distA inA] by blast
  obtain uA vA' dA where hf: "url_text (pv_parse envA') (trim (pv_base envB)) = Some uA" "idents (nd_db a') = map (with_url (p_id pA) uA) (idents (nd_db a1))"
      "nd_disk a' = dA" "vault_put (pv_vault envA') (pv_io envA') (peer_gossip_key (p_id pA)) keyB vA (nd_disk a) = (vA', dA, Inr ())"
    using half_stored [OF st(5)] assms(11) st mA by auto
  have keys: "contents (pv_vault envB) cipherB dB (peer_gossip_key (p_id pB)) = Some (rv_key given)"
      "contents (pv_vault envA') cipherA dA (peer_gossip_key (p_id pA)) = Some keyB"
    using ready_key_lands [OF assms(9) dec(2) refl ap(4)] ready_key_lands [OF assms(8) st(3) _ hf(4)] st(2) mA by auto
  have inB: "(p_id pB, lh_hash_key (pv_crypto envB) keyB, None, None, SqlInt 0, SqlInt 0) \<in> set (idents (nd_db b1))"
      "distinct (map pr_key_hash (db_peers (nd_db b1)))" using mB by simp_all
  obtain p' q where "peer_by_key (lh_hash_key (pv_crypto envA')) (rv_key given) (nd_db a') = Inr (Some p')" "p_id p' = p_id pA" "p_gossip_url p' = Some uA"
      "peer_by_key (lh_hash_key (pv_crypto envB)) keyB (nd_db b') = Inr (Some q)" "p_id q = p_id pB" "p_gossip_url q = Some uB"
    unfolding peer_by_key_def using idents_after [OF hf(2) inA distA] idents_after [OF ap(2) inB] by blast
  then show ?thesis using keys ap(1,3) hf(1,3) A(2) by (intro exI [of _ p'] exI [of _ q] exI [of _ keyB]) simp
qed

text \<open>Two instances with empty databases and vaults. The written form of an invite is its key; the rest is the same for every invite.\<close>

definition sample_side :: "string \<Rightarrow> string \<Rightarrow> unit pair_env" where
  "sample_side home key =
     \<lparr>pv_crypto = sample_crypto,
      pv_codec = \<lparr>ic_to_json = iv_key, ic_from_json = (\<lambda>k. Some (invite_new 50 ''http://a.example'' k None)), ic_base64 = id, ic_unbase64 = Some\<rparr>,
      pv_parse = (\<lambda>url. Inr (''http'', url @ ''/'')), pv_request = sample_env, pv_refused = (\<lambda>_. None), pv_vault = clear_env, pv_io = calm_io,
      pv_master = Inr ''master'', pv_gap_of = (\<lambda>_. 0), pv_minted = Inr key, pv_base = home, pv_pubkey = None, pv_self = None, pv_gossip_fails = (\<lambda>_. False),
      pv_to_json = (\<lambda>_. None), pv_signed_at_of = (\<lambda>_. None)\<rparr>"

definition sample_node :: node where
  "sample_node = \<lparr>nd_serve = serving (empty_db (retention_from 3 2 0)), nd_disk = empty_disk\<rparr>"

abbreviation sideA :: "unit pair_env" where "sideA \<equiv> sample_side ''http://a.example'' ''aa11''"
abbreviation sideB :: "unit pair_env" where "sideB \<equiv> sample_side ''http://b.example'' ''bb22''"

definition sample_handshake :: "node \<times> node \<times> friends_page" where
  "sample_handshake =
     (case add_friend sideA ''Sam'' ScopeAll sample_node of
        (a1, Added given) \<Rightarrow> paste_invite sideB (reach sideA None) (rv_invite given) ''Alex'' ScopeTv sample_node a1
      | (a1, page) \<Rightarrow> (sample_node, a1, page))"

lemma sample_side_ready: "vault_ready (sample_side home key) sample_node ''master''"
proof -
  have "file_records empty_disk = Some (replicate 16 CHR ''s'', [])" by code_simp
  then show ?thesis by (auto simp: vault_ready_def sample_side_def clear_env_def calm_io_def io_sane_def sample_node_def)
qed

text \<open>Witness of C21: two instances that never met pair in one paste.\<close>

theorem reported_pairing_is_complete_witness:
  "\<exists>p q keyB.
    peer_by_key id ''aa11'' (nd_db (fst (snd sample_handshake))) = Inr (Some p) \<and> p_gossip_url p = Some ''http://b.example/'' \<and>
    contents clear_env ''master'' (nd_disk (fst (snd sample_handshake))) (peer_gossip_key (p_id p)) = Some keyB \<and>
    peer_by_key id keyB (nd_db (fst sample_handshake)) = Inr (Some q) \<and> p_gossip_url q = Some ''http://a.example/'' \<and>
    contents clear_env ''master'' (nd_disk (fst sample_handshake)) (peer_gossip_key (p_id q)) = Some ''aa11''"
proof -
  have "snd (add_friend sideA ''Sam'' ScopeAll sample_node) =
      Added \<lparr>rv_id = 1, rv_label = ''Sam'', rv_key = ''aa11'', rv_invite = ''sharerr-invite:aa11''\<rparr>" by code_simp
  then obtain a1 where add: "add_friend sideA ''Sam'' ScopeAll sample_node =
      (a1, Added \<lparr>rv_id = 1, rv_label = ''Sam'', rv_key = ''aa11'', rv_invite = ''sharerr-invite:aa11''\<rparr>)"
    by (cases "add_friend sideA ''Sam'' ScopeAll sample_node") simp
  have "snd (snd sample_handshake) = PairedPage ''Alex'' None None" by code_simp
  then obtain b' a' where run: "sample_handshake = (b', a', PairedPage ''Alex'' None None)" by (metis prod.collapse)
  have ok: "peers_ok (nd_db sample_node)" by (simp add: sample_node_def serving_def empty_db_def peers_ok_def)
  have codec: "codec_ok (pv_codec sideA) (invite_new (pv_now sideA) (pv_base sideA) ''aa11'' (pv_pubkey sideA))" by code_simp
  have hash: "lh_hash_key (pv_crypto sideA) = id" "lh_hash_key (pv_crypto sideB) = id"
    by (auto simp: sample_side_def sample_crypto_def lh_hash_key_def fun_eq_iff)
  have rest: "pv_vault sideA = clear_env" "pv_vault sideB = clear_env" "trim (pv_base sideA) = ''http://a.example''"
      "trim (pv_base sideB) = ''http://b.example''" "url_text (pv_parse sideA) ''http://b.example'' = Some ''http://b.example/''"
      "url_text (pv_parse sideB) ''http://a.example'' = Some ''http://a.example/''" "pv_codec sideB = pv_codec sideA"
    by (simp_all add: sample_side_def) code_simp+
  have paste: "paste_invite sideB (reach sideA None) (rv_invite \<lparr>rv_id = 1, rv_label = ''Sam'', rv_key = ''aa11'', rv_invite = ''sharerr-invite:aa11''\<rparr>)
      ''Alex'' ScopeTv sample_node a1 = (b', a', PairedPage ''Alex'' None None)" using run add by (simp add: sample_handshake_def)
  have "trim (pv_base sideA) \<noteq> []" "trim (pv_base sideB) \<noteq> []" using rest by simp_all
  from reported_pairing_is_complete [OF add ok ok paste rest(7) _ _ sample_side_ready sample_side_ready this] codec hash
  have "\<exists>p q keyB. peer_by_key id ''aa11'' (nd_db a') = Inr (Some p) \<and> p_id p = 1 \<and> p_gossip_url p = Some ''http://b.example/'' \<and>
      contents clear_env ''master'' (nd_disk a') (peer_gossip_key (p_id p)) = Some keyB \<and>
      peer_by_key id keyB (nd_db b') = Inr (Some q) \<and> p_gossip_url q = Some ''http://a.example/'' \<and>
      contents clear_env ''master'' (nd_disk b') (peer_gossip_key (p_id q)) = Some ''aa11''"
    by (simp add: rest)
  then show ?thesis unfolding run fst_conv snd_conv by blast
qed

text \<open>
  The key goes into the vault before the address goes into the row. When the second write fails, the comment in \<^verbatim>\<open>pair\<close> has the pairing
  \<^verbatim>\<open>a retry away from consistent\<close>; but the check before the writes takes the stored key for a finished pairing, and every retry
  is refused.
\<close>

lemma retry_after_failed_address_is_refused:
  "let nd = fst (add_friend sideA ''Sam'' ScopeAll sample_node);
       rq = \<lparr>rq_url = ''http://b.example'', rq_key = ''bb22'', rq_record = None\<rparr>;
       (nd1, first) = pair_route (sideA\<lparr>pv_refused := (\<lambda>s. if s = SaveUrl then Some TooBusy else None)\<rparr>) (Some ''aa11'') None rq nd;
       (nd2, second) = pair_route sideA (Some ''aa11'') None rq nd1
   in first = NotReady ''could not store the address'' \<and> second = AlreadyPaired \<and>
      map_option p_gossip_url (Option.bind (ok (peer_by_key id ''aa11'' (nd_db nd2))) id) = Some None"
  by code_simp

end
