(* ===== verification/Friends.thy ===== *)
theory Friends
  imports Pairing
begin

text \<open>
  The Friends page and the pairing route over time: a step relation on an instance, each of whose steps is one of the handlers of
  \<^verbatim>\<open>web/peers.rs\<close> and \<^verbatim>\<open>pairing.rs\<close> or any other write to the database. A row's id is never given out twice, so what a deleted
  friend leaves in the vault never becomes another friend's.
\<close>

section \<open>Growing the friends table\<close>

text \<open>The table stays well formed and no id comes back.\<close>

definition grows :: "database \<Rightarrow> database \<Rightarrow> bool" where
  "grows db db' \<longleftrightarrow> (peers_ok db \<longrightarrow> peers_ok db') \<and> db_last_peer db \<le> db_last_peer db'"

definition keyed :: "peer_row \<Rightarrow> int \<times> string \<times> string" where
  "keyed r = (pr_id r, pr_label r, pr_key_hash r)"

lemma blind_keyed: "blind keyed"
  by (simp add: blind_def keyed_def)

lemma grows_refl [simp]: "grows db db"
  by (simp add: grows_def)

lemma grows_trans: "grows db db1 \<Longrightarrow> grows db1 db2 \<Longrightarrow> grows db db2"
  by (auto simp: grows_def)

lemma grows_unmoved:
  assumes "unmoved keyed db db'"
  shows "grows db db'"
proof -
  have cols: "map pr_id (db_peers d) = map fst (map keyed (db_peers d))" "map pr_label (db_peers d) = map (fst \<circ> snd) (map keyed (db_peers d))"
      "map pr_key_hash (db_peers d) = map (snd \<circ> snd) (map keyed (db_peers d))" for d
    by (simp_all add: keyed_def comp_def)
  have ids: "list_all (\<lambda>r. pr_id r \<le> n) (db_peers d) \<longleftrightarrow> list_all (\<lambda>i. i \<le> n) (map pr_id (db_peers d))" for n d
    by (simp add: list_all_iff)
  show ?thesis using assms unfolding grows_def unmoved_def peers_ok_def ids cols by simp
qed

lemma grows_step: "grows db (db_step hash_key url_parse db e)"
  unfolding grows_def
proof (intro conjI impI)
  show "db_last_peer db \<le> db_last_peer (db_step hash_key url_parse db e)"
    by (cases rule: step_cases [of db hash_key url_parse e]) (simp_all add: peers_rewritten_def delete_peer_def)
qed (rule peers_ok_step)

lemma grows_url:
  assumes "set_peer_gossip_url parse i url db = Inr (db', saved)"
  shows "grows db db'" "saved \<Longrightarrow> peers_ok db \<Longrightarrow> i \<le> db_last_peer db'"
proof -
  show "grows db db'" using grows_step [of db undefined parse "SetGossipUrl i url"] assms by (simp add: db_step_def or_keep_def)
  show "saved \<Longrightarrow> peers_ok db \<Longrightarrow> i \<le> db_last_peer db'"
    using assms by (auto simp: set_peer_gossip_url_def and_then_eq_Inr update_peers_def sql_update_def peers_ok_def list_all_iff list_ex_iff)
qed

lemma grows_mint:
  assumes "mint_peer env label scope nd = (nd', r)"
  shows "grows (nd_db nd) (nd_db nd') \<and> nd_disk nd' = nd_disk nd"
proof -
  have create: "grows db db'" if "create_peer hash_key gap now l key s db = Inr (db', p)" for hash_key gap now l key s db db' p
    using grows_step [of db hash_key undefined "CreatePeer gap now l key s"] that by (simp add: db_step_def or_keep_def)
  show ?thesis using assms create
    by (auto simp: mint_peer_def refusing_def with_db_def split: sum.splits option.splits store_error.splits)
qed

lemma mint_gives_new_id:
  assumes "mint_peer env label scope nd = (nd', Inr (p, key))"
  shows "db_last_peer (nd_db nd) < p_id p \<and> p_id p = db_last_peer (nd_db nd')"
  using assms by (auto simp: mint_peer_def refusing_def with_db_def create_peer_def Let_def new_peer_row_def row_to_peer_def read_i64_def
      split: sum.splits option.splits store_error.splits if_splits)

section \<open>Keys in the vault\<close>

lemma peer_gossip_key_inj: "peer_gossip_key i = peer_gossip_key j \<longleftrightarrow> i = j"
proof
  have nat: "show_nat m = show_nat n \<Longrightarrow> m = n" for m n by (metis digits_val_show_nat)
  have sign: "CHR ''-'' # xs \<noteq> show_nat n" for xs n by (metis show_nat_Cons digit_not_sign(1) list.inject)
  assume "peer_gossip_key i = peer_gossip_key j"
  then show "i = j" using nat [of "nat (- i)" "nat (- j)"] nat [of "nat i" "nat j"] sign sign [symmetric]
    by (auto simp: peer_gossip_key_def show_int_def split: if_splits)
qed simp

text \<open>A vault file with its salt, in which every key a friend gave is kept under an id up to \<^term>\<open>n\<close>.\<close>

definition below :: "vault_env \<Rightarrow> bytes \<Rightarrow> bytes \<Rightarrow> int \<Rightarrow> disk \<Rightarrow> bool" where
  "below ve cipher salt n d \<longleftrightarrow>
     (\<exists>rs. file_records d = Some (salt, rs)) \<and> (\<forall>j. contents ve cipher d (peer_gossip_key j) \<noteq> None \<longrightarrow> j \<le> n)"

lemma below_mono: "below ve cipher salt m d \<Longrightarrow> m \<le> n \<Longrightarrow> below ve cipher salt n d"
  unfolding below_def by force

fun op_below :: "int \<Rightarrow> vault_op \<Rightarrow> bool" where
  "op_below n (Put key val) = (\<exists>i \<le> n. key = peer_gossip_key i)"
| "op_below n (Remove key) = True"

lemma below_step:
  assumes law: "\<And>c n a m ct. vx_encrypt ve c n a m = Some ct \<Longrightarrow> vx_decrypt ve c n a ct = Some m"
    and d: "below ve cipher salt n d" and v: "va_salt v = salt \<longrightarrow> va_cipher v = cipher" and io: "io_sane io" and op: "op_below n op"
    and st: "vault_step ve io op v d = (v', d', r)"
  shows "below ve cipher salt n d'"
proof -
  obtain rs where rs: "file_records d = Some (salt, rs)" using d unfolding below_def by blast
  have "op_ok op" using op utf8_gossip_key by (cases op) auto
  then have res: "step_result ve cipher salt op d d' r" using step_is_map_step [OF law rs v io _ st] by blast
  show ?thesis
  proof (cases r)
    case (Inl e)
    then have "file_records d' = file_records d" "contents ve cipher d' = contents ve cipher d"
      using res by (auto simp: step_result_def file_records_def contents_def fun_eq_iff)
    then show ?thesis using d unfolding below_def by simp
  next
    case (Inr u)
    have "map_step op (contents ve cipher d) (peer_gossip_key j) \<noteq> None \<Longrightarrow> j \<le> n" for j
      using d op by (cases op) (auto simp: below_def peer_gossip_key_inj split: if_splits)
    then show ?thesis using res Inr by (auto simp: step_result_def below_def)
  qed
qed

lemma below_put:
  assumes "\<And>c n a m ct. vx_encrypt ve c n a m = Some ct \<Longrightarrow> vx_decrypt ve c n a ct = Some m"
    and "below ve cipher salt n d" "va_salt v = salt \<longrightarrow> va_cipher v = cipher" "io_sane io" "i \<le> n"
    and "vault_put ve io (peer_gossip_key i) key v d = (v', d', r)"
  shows "below ve cipher salt n d'"
  using below_step [OF assms(1-4), of "Put (peer_gossip_key i) key" v' d' r] assms(5,6) by (auto simp: vault_step_def)

lemma below_remove:
  assumes "\<And>c n a m ct. vx_encrypt ve c n a m = Some ct \<Longrightarrow> vx_decrypt ve c n a ct = Some m"
    and "below ve cipher salt n d" "va_salt v = salt \<longrightarrow> va_cipher v = cipher" "io_sane io" "vault_remove io key v d = (v', d', r)"
  shows "below ve cipher salt n d'"
  using below_step [OF assms(1-4), of "Remove key" v' d'] assms(5) by (simp add: vault_step_def)

section \<open>The handlers\<close>

text \<open>A cipher that decrypts what it encrypted, derived from a master key and the salt of the file.\<close>

definition site_ok :: "vault_env \<Rightarrow> bytes \<Rightarrow> string \<Rightarrow> bytes \<Rightarrow> bool" where
  "site_ok ve salt master cipher \<longleftrightarrow>
     (\<forall>c n a m ct. vx_encrypt ve c n a m = Some ct \<longrightarrow> vx_decrypt ve c n a ct = Some m) \<and> vx_derive ve master salt = Inr cipher"

text \<open>A request to that instance: it reads that master key or none, and its disk writes what it is given.\<close>

definition belongs :: "vault_env \<Rightarrow> string \<Rightarrow> 'k pair_env \<Rightarrow> bool" where
  "belongs ve master env \<longleftrightarrow> pv_vault env = ve \<and> io_sane (pv_io env) \<and> (\<forall>m. pv_master env = Inr m \<longrightarrow> m = master)"

definition keys_ok :: "vault_env \<Rightarrow> bytes \<Rightarrow> bytes \<Rightarrow> node \<Rightarrow> bool" where
  "keys_ok ve cipher salt nd \<longleftrightarrow> peers_ok (nd_db nd) \<and> below ve cipher salt (db_last_peer (nd_db nd)) (nd_disk nd)"

lemma keys_ok_db:
  assumes "keys_ok ve cipher salt nd" "grows (nd_db nd) (nd_db nd')" "nd_disk nd' = nd_disk nd"
  shows "keys_ok ve cipher salt nd'"
  using assms below_mono by (auto simp: keys_ok_def grows_def)

lemma opened_handle:
  assumes "site_ok ve salt master cipher" "belongs ve master env" "keys_ok ve cipher salt nd" "open_vault env nd = Inr v"
  shows "va_salt v = salt \<and> va_cipher v = cipher"
proof -
  obtain rs where rs: "file_records (nd_disk nd) = Some (salt, rs)" using assms(3) by (auto simp: keys_ok_def below_def)
  have "vault_open ve (pv_io env) master (nd_disk nd) = Inr v"
    using assms(2,4) by (auto simp: open_vault_def belongs_def split: sum.splits)
  then show ?thesis using opened_reads_contents [OF rs] assms(1) by (auto simp: site_ok_def)
qed

lemma keys_ok_put:
  assumes "site_ok ve salt master cipher" "belongs ve master env" "keys_ok ve cipher salt nd" "va_salt v = salt \<longrightarrow> va_cipher v = cipher"
    and "i \<le> db_last_peer (nd_db nd)" "vault_put (pv_vault env) (pv_io env) (peer_gossip_key i) key v (nd_disk nd) = (v', d', r)"
  shows "keys_ok ve cipher salt (nd\<lparr>nd_disk := d'\<rparr>)"
  using assms below_put [of ve cipher salt "db_last_peer (nd_db nd)" "nd_disk nd" v "pv_io env" i key v' d' r]
  by (simp add: keys_ok_def site_ok_def belongs_def)

lemma keys_ok_apply:
  assumes site: "site_ok ve salt master cipher" "belongs ve master env" and ok: "keys_ok ve cipher salt nd"
    and v: "va_salt v = salt \<longrightarrow> va_cipher v = cipher"
  shows "keys_ok ve cipher salt (fst (apply_invite env v i ivt nd))"
proof -
  obtain db1 r1 where pin: "pin_identity env i (iv_pubkey ivt) (nd_db nd) = (db1, r1)" by (cases "pin_identity env i (iv_pubkey ivt) (nd_db nd)")
  have "unmoved keyed (nd_db nd) db1"
    using pin unmoved_bind [OF blind_keyed, of "nd_db nd" i] by (auto simp: pin_identity_def case_prod_beta split: option.splits)
  then have ok1: "keys_ok ve cipher salt (with_db db1 nd)" using keys_ok_db [OF ok] grows_unmoved by (simp add: with_db_def)
  show ?thesis
  proof (cases r1)
    case (Inl e)
    then show ?thesis using pin ok1 by (simp add: apply_invite_def)
  next
    case (Inr u)
    show ?thesis
    proof (cases "refusing env SaveUrl (set_peer_gossip_url (url_text (pv_parse env)) i (Some (iv_url ivt)) db1)")
      case (Inl e)
      then show ?thesis using pin Inr ok1 by (simp add: apply_invite_def)
    next
      case (Inr y)
      obtain db2 saved where y: "y = (db2, saved)" by (cases y)
      then have url: "set_peer_gossip_url (url_text (pv_parse env)) i (Some (iv_url ivt)) db1 = Inr (db2, saved)"
        using Inr by (simp add: refusing_def split: option.splits)
      have ok2: "keys_ok ve cipher salt (with_db db2 nd)" using keys_ok_db [OF ok1] grows_url(1) [OF url] by (simp add: with_db_def)
      have last: "saved \<Longrightarrow> i \<le> db_last_peer db2" using grows_url(2) [OF url] ok1 by (simp add: keys_ok_def with_db_def)
      obtain v' d' r where put: "vault_put (pv_vault env) (pv_io env) (peer_gossip_key i) (iv_key ivt) v (nd_disk nd) = (v', d', r)"
        by (cases "vault_put (pv_vault env) (pv_io env) (peer_gossip_key i) (iv_key ivt) v (nd_disk nd)")
      have "saved \<Longrightarrow> keys_ok ve cipher salt ((with_db db2 nd)\<lparr>nd_disk := d'\<rparr>)"
        using keys_ok_put [OF site ok2 v, of i "iv_key ivt" v' d' r] last put by (simp add: with_db_def)
      then show ?thesis using pin \<open>r1 = Inr u\<close> Inr y ok2 put by (cases r) (auto simp: apply_invite_def)
    qed
  qed
qed

lemma keys_ok_half:
  assumes site: "site_ok ve salt master cipher" "belongs ve master env" and ok: "keys_ok ve cipher salt nd"
    and v: "va_salt v = salt \<longrightarrow> va_cipher v = cipher" and p: "p_id p \<le> db_last_peer (nd_db nd)"
  shows "keys_ok ve cipher salt (fst (store_half env p v rq nd))"
proof -
  obtain v' d' r where put: "vault_put (pv_vault env) (pv_io env) (peer_gossip_key (p_id p)) (rq_key rq) v (nd_disk nd) = (v', d', r)"
    by (cases "vault_put (pv_vault env) (pv_io env) (peer_gossip_key (p_id p)) (rq_key rq) v (nd_disk nd)")
  have ok1: "keys_ok ve cipher salt (nd\<lparr>nd_disk := d'\<rparr>)" by (rule keys_ok_put [OF site ok v p put])
  have url: "grows (nd_db nd) db \<and> grows (nd_db nd) (fst (ingest fails c to_json signed_at_of gap_of now i rs db))"
    if "set_peer_gossip_url (url_text (pv_parse env)) (p_id p) (Some (rq_url rq)) (nd_db nd) = Inr (db, saved)"
    for db saved i rs and c :: "'a crypto" and fails to_json signed_at_of gap_of now
    using grows_url(1) [OF that] grows_trans grows_unmoved [OF unmoved_ingest [OF blind_keyed]] by blast
  show ?thesis using put ok1 url
    by (auto simp: store_half_def Let_def refusing_def with_db_def intro!: keys_ok_db [OF ok1] split: sum.splits option.splits if_splits)
qed

lemma keys_ok_route:
  assumes site: "site_ok ve salt master cipher" "belongs ve master env" and ok: "keys_ok ve cipher salt nd"
  shows "keys_ok ve cipher salt (fst (pair_route env supplied remote rq nd))"
proof -
  obtain nd1 r where check: "check_api_key env supplied remote nd = (nd1, r)" by (cases "check_api_key env supplied remote nd")
  have "grows (nd_db nd) (nd_db nd1) \<and> nd_disk nd1 = nd_disk nd"
    using check grows_unmoved [OF unmoved_sighting [OF blind_keyed]] by (auto simp: check_api_key_def split: option.splits sum.splits if_splits)
  then have ok1: "keys_ok ve cipher salt nd1" using keys_ok_db [OF ok] by blast
  have "keys_ok ve cipher salt (fst (pair_handler env i rq nd1))" for i
  proof -
    have id: "p_id p \<le> db_last_peer (nd_db nd1)" if "get_peer i (nd_db nd1) = Inr (Some p)" for p
      using get_peer_row [OF that] ok1 by (auto simp: keys_ok_def peers_ok_def list_all_iff)
    show ?thesis using ok1 id keys_ok_half [OF site ok1] opened_handle [OF site ok1]
      by (auto simp: pair_handler_def refusing_def split: option.splits sum.splits)
  qed
  then show ?thesis using check ok1 by (cases r) (simp_all add: pair_route_def)
qed

lemma keys_ok_add:
  assumes "keys_ok ve cipher salt nd"
  shows "keys_ok ve cipher salt (fst (add_friend env label scope nd))"
proof -
  obtain nd1 r where mint: "mint_peer env (trim label) scope nd = (nd1, r)" by (cases "mint_peer env (trim label) scope nd")
  then have "keys_ok ve cipher salt nd1" using keys_ok_db [OF assms] grows_mint by blast
  then show ?thesis using assms mint by (cases r) (auto simp: add_friend_def)
qed

lemma keys_ok_paste:
  assumes site: "site_ok ve salt master cipher" "belongs ve master env" and ok: "keys_ok ve cipher salt nd"
  shows "keys_ok ve cipher salt (fst (paste_invite env post text label scope nd w))"
proof -
  have reply: "keys_ok ve cipher salt (fst (pair_reply env v ivt h nd))" if "open_vault env nd = Inr v" for v ivt h
  proof -
    have "keys_ok ve cipher salt (fst (apply_invite env v i ivt nd))" for i
      using keys_ok_apply [OF site ok] opened_handle [OF site ok that] by blast
    then show ?thesis using ok by (auto simp: pair_reply_def case_prod_beta split: sum.splits option.splits)
  qed
  have fresh: "keys_ok ve cipher salt (fst (pair_fresh env post v ivt label scope nd w))" if "open_vault env nd = Inr v" for v ivt
  proof -
    obtain nd1 r where mint: "mint_peer env (trim label) scope nd = (nd1, r)" by (cases "mint_peer env (trim label) scope nd")
    then have ok1: "keys_ok ve cipher salt nd1" using keys_ok_db [OF ok] grows_mint by blast
    have "keys_ok ve cipher salt (fst (apply_invite env v i ivt nd1))" for i
      using keys_ok_apply [OF site ok1] opened_handle [OF site ok that] by blast
    then show ?thesis using ok ok1 mint by (auto simp: pair_fresh_def case_prod_beta split: sum.splits)
  qed
  show ?thesis using ok reply fresh by (auto simp: paste_invite_def case_prod_beta split: sum.splits option.splits)
qed

lemma keys_ok_delete:
  assumes site: "site_ok ve salt master cipher" "belongs ve master env" and ok: "keys_ok ve cipher salt nd"
  shows "keys_ok ve cipher salt (fst (delete_friend env i nd))"
proof -
  let ?nd = "with_db (fst (delete_peer i (nd_db nd))) nd"
  have ok1: "keys_ok ve cipher salt ?nd"
    using keys_ok_db [OF ok] grows_step [of "nd_db nd" undefined undefined "DeletePeer i"] by (simp add: with_db_def db_step_def)
  have removed: "keys_ok ve cipher salt (?nd\<lparr>nd_disk := d\<rparr>)"
    if "open_vault env ?nd = Inr v" "vault_remove (pv_io env) (peer_gossip_key i) v (nd_disk ?nd) = (v', d, r)" for v v' d r
    using ok1 opened_handle [OF site ok1 that(1)] site that(2)
      below_remove [of ve cipher salt "db_last_peer (nd_db ?nd)" "nd_disk ?nd" v "pv_io env" "peer_gossip_key i" v' d r]
    by (simp add: keys_ok_def site_ok_def belongs_def)
  then have "keys_ok ve cipher salt (?nd\<lparr>nd_disk := fst (snd (vault_remove (pv_io env) (peer_gossip_key i) v (nd_disk ?nd)))\<rparr>)"
    if "open_vault env ?nd = Inr v" for v using that by (metis prod.collapse)
  then show ?thesis using ok ok1
    by (auto simp: delete_friend_def refusing_def case_prod_beta Let_def split: option.splits sum.splits)
qed

lemma keys_ok_gossip:
  assumes site: "site_ok ve salt master cipher" "belongs ve master env" and ok: "keys_ok ve cipher salt nd"
  shows "keys_ok ve cipher salt (fst (set_gossip env i form nd))"
proof -
  have key: "keys_ok ve cipher salt (fst (write_gossip_key env i form nd1))"
    if ok1: "keys_ok ve cipher salt nd1" and i: "i \<le> db_last_peer (nd_db nd1)" for nd1
  proof -
    let ?op = "if gf_clear_key form \<noteq> None then Remove (peer_gossip_key i) else Put (peer_gossip_key i) (trim (gf_key form))"
    have "op_below (db_last_peer (nd_db nd1)) ?op" using i by auto
    then have "keys_ok ve cipher salt (nd1\<lparr>nd_disk := d\<rparr>)"
      if "open_vault env nd1 = Inr v" "vault_step (pv_vault env) (pv_io env) ?op v (nd_disk nd1) = (v', d, r)" for v v' d r
      using ok1 opened_handle [OF site ok1 that(1)] site that(2)
        below_step [of ve cipher salt "db_last_peer (nd_db nd1)" "nd_disk nd1" v "pv_io env" ?op v' d r]
      by (simp add: keys_ok_def site_ok_def belongs_def)
    then show ?thesis using ok1 by (auto simp: write_gossip_key_def Let_def split: sum.splits prod.splits)
  qed
  have "keys_ok ve cipher salt (with_db db nd) \<and> (saved \<longrightarrow> i \<le> db_last_peer db)"
    if "set_peer_gossip_url (url_text (pv_parse env)) i (Some (gf_url form)) (nd_db nd) = Inr (db, saved)" for db saved
    using grows_url [OF that] ok keys_ok_db [OF ok, of "with_db db nd"] by (auto simp: with_db_def keys_ok_def)
  then show ?thesis using ok key
    by (auto simp: set_gossip_def refusing_def with_db_def split: option.splits sum.splits)
qed

section \<open>An instance over time\<close>

text \<open>One step: a handler of the Friends page, the pairing route, or a write to the database from elsewhere.\<close>

inductive friends_step :: "'k crypto \<Rightarrow> vault_env \<Rightarrow> string \<Rightarrow> node \<Rightarrow> node \<Rightarrow> bool" for c ve master where
  added: "belongs ve master env \<Longrightarrow> pv_crypto env = c \<Longrightarrow> friends_step c ve master nd (fst (add_friend env label scope nd))"
| pasted: "belongs ve master env \<Longrightarrow> pv_crypto env = c \<Longrightarrow>
    friends_step c ve master nd (fst (paste_invite env (post :: unit caller) text label scope nd ()))"
| paired: "belongs ve master env \<Longrightarrow> pv_crypto env = c \<Longrightarrow> friends_step c ve master nd (fst (pair_route env supplied remote rq nd))"
| deleted: "belongs ve master env \<Longrightarrow> pv_crypto env = c \<Longrightarrow> friends_step c ve master nd (fst (delete_friend env i nd))"
| revoked: "belongs ve master env \<Longrightarrow> pv_crypto env = c \<Longrightarrow> friends_step c ve master nd (fst (revoke_friend env i nd))"
| scoped: "belongs ve master env \<Longrightarrow> pv_crypto env = c \<Longrightarrow> friends_step c ve master nd (fst (set_friend_scope env i scope nd))"
| gossiping: "belongs ve master env \<Longrightarrow> pv_crypto env = c \<Longrightarrow> friends_step c ve master nd (fst (set_gossip env i form nd))"
| elsewhere: "friends_step c ve master nd (with_db (db_step (lh_hash_key c) url_parse (nd_db nd) e) nd)"

lemma keys_ok_step:
  assumes "friends_step c ve master nd nd'" "site_ok ve salt master cipher" "keys_ok ve cipher salt nd"
  shows "keys_ok ve cipher salt nd'"
  using assms(1)
proof cases
  case (elsewhere url_parse e)
  then show ?thesis using keys_ok_db [OF assms(3)] grows_step by (simp add: with_db_def)
next
  case (revoked env i)
  have "grows (nd_db nd) (fst (revoke_peer now i (nd_db nd)))" for now
    using grows_step [of "nd_db nd" undefined undefined "RevokePeer now i"] by (simp add: db_step_def)
  then show ?thesis using revoked keys_ok_db [OF assms(3)] assms(3)
    by (auto simp: revoke_friend_def refusing_def with_db_def case_prod_beta split: option.splits)
next
  case (scoped env i scope)
  have "grows (nd_db nd) (fst (set_peer_scope i scope (nd_db nd)))"
    using grows_step [of "nd_db nd" undefined undefined "SetPeerScope i scope"] by (simp add: db_step_def)
  then show ?thesis using scoped keys_ok_db [OF assms(3)] assms(3)
    by (auto simp: set_friend_scope_def refusing_def with_db_def case_prod_beta split: option.splits)
qed (use assms(2,3) in \<open>auto intro: keys_ok_add keys_ok_paste keys_ok_route keys_ok_delete keys_ok_gossip\<close>)

text \<open>
  C23: A friend who has just been added has no key of another in the vault. Whatever the Friends page, the pairing route and the rest of the
  program did before, in any order and with any write failing, and whatever deleted friends left behind in the vault, the name under
  which the new friend's key will be kept holds nothing.
\<close>

theorem new_friend_inherits_no_key:
  assumes "(friends_step c ve master)\<^sup>*\<^sup>* start nd" "peers_ok (nd_db start)" "file_records (nd_disk start) = Some (salt, rs)"
    and "\<forall>j. contents ve cipher (nd_disk start) (peer_gossip_key j) = None"
    and "site_ok ve salt master cipher" "add_friend env label scope nd = (nd', Added given)"
  shows "contents ve cipher (nd_disk nd') (peer_gossip_key (rv_id given)) = None"
proof -
  have "keys_ok ve cipher salt start" using assms(2-4) by (auto simp: keys_ok_def below_def)
  with assms(1) have ok: "keys_ok ve cipher salt nd"
    by (induction rule: rtranclp_induct) (use assms(5) keys_ok_step in blast)+
  obtain p key where mint: "mint_peer env (trim label) scope nd = (nd', Inr (p, key))" "rv_id given = p_id p"
    using assms(6) minting_shows_nothing(1) by (fastforce simp: add_friend_def split: if_splits prod.splits sum.splits)
  then show ?thesis using mint_gives_new_id [OF mint(1)] grows_mint [OF mint(1)] ok by (force simp: keys_ok_def below_def)
qed

text \<open>Witness of C23: Sam pairs, is deleted while the vault is locked, and the next friend does not get what Sam left behind.\<close>

definition sam_deleted :: node where
  "sam_deleted =
     (let a1 = fst (add_friend sideA ''Sam'' ScopeAll sample_node);
          a2 = fst (pair_route sideA (Some ''aa11'') None \<lparr>rq_url = ''http://b.example'', rq_key = ''bb22'', rq_record = None\<rparr> a1)
      in fst (delete_friend (sideA\<lparr>pv_master := Inl ''locked''\<rparr>) 1 a2))"

theorem new_friend_inherits_no_key_witness:
  "contents clear_env ''master'' (nd_disk sam_deleted) (peer_gossip_key 1) = Some ''bb22'' \<and>
   contents clear_env ''master'' (nd_disk (fst (add_friend (sample_side ''http://a.example'' ''cc33'') ''Kim'' ScopeAll sam_deleted))) (peer_gossip_key 2) = None"
proof
  show "contents clear_env ''master'' (nd_disk sam_deleted) (peer_gossip_key 1) = Some ''bb22''" by code_simp
  have site: "site_ok clear_env (replicate 16 CHR ''s'') ''master'' ''master''" by (simp add: site_ok_def clear_env_def)
  have env: "belongs clear_env ''master'' (sample_side home key)" "belongs clear_env ''master'' (sideA\<lparr>pv_master := Inl e\<rparr>)" for home key e
    by (auto simp: belongs_def sample_side_def io_sane_def calm_io_def)
  have crypto: "pv_crypto (sample_side home key) = sample_crypto" "pv_crypto (sideA\<lparr>pv_master := Inl e\<rparr>) = sample_crypto" for home key e
    by (simp_all add: sample_side_def)
  have steps: "(friends_step sample_crypto clear_env ''master'')\<^sup>*\<^sup>* sample_node sam_deleted"
    unfolding sam_deleted_def Let_def
    by (rule rtranclp.rtrancl_into_rtrancl, rule rtranclp.rtrancl_into_rtrancl, rule r_into_rtranclp) (rule added paired deleted, rule env, rule crypto)+
  have ok: "peers_ok (nd_db sample_node)" by (simp add: sample_node_def serving_def empty_db_def peers_ok_def)
  have disk: "file_records (nd_disk sample_node) = Some (replicate 16 CHR ''s'', [])" by code_simp
  then have none: "\<forall>j. contents clear_env ''master'' (nd_disk sample_node) (peer_gossip_key j) = None" by (simp add: contents_def)
  let ?kim = "add_friend (sample_side ''http://a.example'' ''cc33'') ''Kim'' ScopeAll sam_deleted"
  have "snd ?kim = Added \<lparr>rv_id = 2, rv_label = ''Kim'', rv_key = ''cc33'', rv_invite = ''sharerr-invite:cc33''\<rparr>" by code_simp
  then have kim: "?kim = (fst ?kim, Added \<lparr>rv_id = 2, rv_label = ''Kim'', rv_key = ''cc33'', rv_invite = ''sharerr-invite:cc33''\<rparr>)" by (metis prod.collapse)
  show "contents clear_env ''master'' (nd_disk (fst ?kim)) (peer_gossip_key 2) = None"
    using new_friend_inherits_no_key [OF steps ok disk none site kim] by simp
qed

section \<open>The pairing route fills what is empty\<close>

definition addressed :: "peer_row \<Rightarrow> int \<times> string option" where
  "addressed r = (pr_id r, pr_gossip_url r)"

lemma blind_addressed: "blind addressed"
  by (simp add: blind_def addressed_def)

text \<open>Every address a row has stays, but those of one friend.\<close>

definition addresses_stay :: "int option \<Rightarrow> database \<Rightarrow> database \<Rightarrow> bool" where
  "addresses_stay i db db' \<longleftrightarrow>
     (\<forall>r \<in> set (db_peers db). Some (pr_id r) \<noteq> i \<longrightarrow> addressed r \<in> addressed ` set (db_peers db'))"

lemma addresses_unmoved: "unmoved addressed db db' \<Longrightarrow> addresses_stay i db db'"
  unfolding unmoved_def addresses_stay_def by (metis image_eqI list.set_map)

lemma addresses_trans: "addresses_stay i db db1 \<Longrightarrow> unmoved addressed db1 db2 \<Longrightarrow> addresses_stay i db db2"
  unfolding unmoved_def addresses_stay_def by (metis list.set_map)

lemma addresses_url:
  assumes "set_peer_gossip_url parse i url db = Inr (db', saved)"
  shows "addresses_stay (Some i) db db'"
  using assms by (force simp: set_peer_gossip_url_def and_then_eq_Inr update_peers_def sql_update_def addresses_stay_def addressed_def)

lemma half_fills:
  assumes site: "site_ok ve salt master cipher" "belongs ve master env" and disk: "file_records (nd_disk nd) = Some (salt, rs)"
    and v: "va_salt v = salt \<longrightarrow> va_cipher v = cipher"
  shows "addresses_stay (Some (p_id p)) (nd_db nd) (nd_db (fst (store_half env p v rq nd))) \<and>
    (\<forall>name. name \<noteq> peer_gossip_key (p_id p) \<longrightarrow>
       contents ve cipher (nd_disk (fst (store_half env p v rq nd))) name = contents ve cipher (nd_disk nd) name)"
proof -
  obtain v' d' r where put: "vault_put (pv_vault env) (pv_io env) (peer_gossip_key (p_id p)) (rq_key rq) v (nd_disk nd) = (v', d', r)"
    by (cases "vault_put (pv_vault env) (pv_io env) (peer_gossip_key (p_id p)) (rq_key rq) v (nd_disk nd)")
  have "step_result ve cipher salt (Put (peer_gossip_key (p_id p)) (rq_key rq)) (nd_disk nd) d' r"
    using put_result [OF _ disk v _ utf8_gossip_key, of ve "pv_io env"] put site by (auto simp: site_ok_def belongs_def)
  then have others: "contents ve cipher d' name = contents ve cipher (nd_disk nd) name" if "name \<noteq> peer_gossip_key (p_id p)" for name
    using that by (cases r) (auto simp: step_result_def contents_def file_records_def fun_eq_iff)
  have url: "addresses_stay (Some (p_id p)) (nd_db nd) db \<and>
      addresses_stay (Some (p_id p)) (nd_db nd) (fst (ingest fails c to_json signed_at_of gap_of now i rs' db))"
    if "set_peer_gossip_url (url_text (pv_parse env)) (p_id p) (Some (rq_url rq)) (nd_db nd) = Inr (db, saved)"
    for db saved i rs' and c :: "'a crypto" and fails to_json signed_at_of gap_of now
    using addresses_url [OF that] addresses_trans [OF _ unmoved_ingest [OF blind_addressed]] by blast
  have "nd_disk (fst (store_half env p v rq nd)) = d'"
    using put by (auto simp: store_half_def Let_def with_db_def split: sum.splits option.splits)
  moreover have "addresses_stay (Some (p_id p)) (nd_db nd) (nd_db (fst (store_half env p v rq nd)))"
    using put url addresses_unmoved [OF unmoved_refl]
    by (auto simp: store_half_def Let_def refusing_def with_db_def split: sum.splits option.splits)
  ultimately show ?thesis using others by simp
qed

lemma route_cases:
  assumes "check_api_key env supplied remote nd = (nd1, c)" "pair_route env supplied remote rq nd = (nd', answer)"
  obtains (same) "nd' = nd1"
  | (half) p v where "get_peer (p_id p) (nd_db nd1) = Inr (Some p)" "open_vault env nd1 = Inr v" "p_gossip_url p = None"
      "\<not> key_stored env v (p_id p)" "nd' = fst (store_half env p v rq nd1)"
proof -
  have id: "p_id p = i" if "get_peer i db = Inr (Some p)" for p i db using get_peer_row [OF that] by blast
  show thesis
  proof (cases "nd' = nd1")
    case False
    then obtain q where q: "c = Inr q" using assms by (cases c) (simp_all add: pair_route_def)
    then have "pair_handler env (p_id q) rq nd1 = (nd', answer)" using assms by (simp add: pair_route_def)
    then obtain p v where "get_peer (p_id q) (nd_db nd1) = Inr (Some p)" "open_vault env nd1 = Inr v" "p_gossip_url p = None"
        "\<not> key_stored env v (p_id p)" "store_half env p v rq nd1 = (nd', answer)"
      using False by (auto simp: pair_handler_def refusing_def split: if_splits sum.splits option.splits)
    then show thesis using half [of p v] id by simp
  qed (rule same)
qed

lemma stays_row:
  assumes "addresses_stay i db db'" "r \<in> set (db_peers db)" "Some (pr_id r) \<noteq> i"
  shows "\<exists>r' \<in> set (db_peers db'). pr_id r' = pr_id r \<and> pr_gossip_url r' = pr_gossip_url r"
  using assms by (fastforce simp: addresses_stay_def addressed_def)

text \<open>
  C22: The pairing route only ever fills an empty half. Whoever calls it, with whatever key, address and record, and whatever fails on the
  way, every address a friend's row had is still there afterwards, and every secret the vault held reads as it did.
\<close>

theorem pairing_never_overwrites:
  assumes "site_ok ve salt master cipher" "belongs ve master env" "peers_ok (nd_db nd)" "file_records (nd_disk nd) = Some (salt, rs)"
    and "pair_route env supplied remote rq nd = (nd', answer)"
  shows "(\<forall>r \<in> set (db_peers (nd_db nd)). pr_gossip_url r \<noteq> None \<longrightarrow>
            (\<exists>r' \<in> set (db_peers (nd_db nd')). pr_id r' = pr_id r \<and> pr_gossip_url r' = pr_gossip_url r)) \<and>
         (\<forall>name secret. contents ve cipher (nd_disk nd) name = Some secret \<longrightarrow> utf8_valid secret \<longrightarrow>
            contents ve cipher (nd_disk nd') name = Some secret)"
proof -
  obtain nd1 c where check: "check_api_key env supplied remote nd = (nd1, c)" by (cases "check_api_key env supplied remote nd")
  have nd1: "unmoved addressed (nd_db nd) (nd_db nd1) \<and> unmoved keyed (nd_db nd) (nd_db nd1) \<and> nd_disk nd1 = nd_disk nd"
    using check unmoved_sighting [OF blind_addressed] unmoved_sighting [OF blind_keyed]
    by (auto simp: check_api_key_def split: option.splits sum.splits if_splits)
  have ok1: "peers_ok (nd_db nd1)" using grows_unmoved nd1 assms(3) by (auto simp: grows_def)
  show ?thesis using check assms(5)
  proof (cases rule: route_cases)
    case same
    then show ?thesis using nd1 stays_row [OF addresses_unmoved [of "nd_db nd" "nd_db nd1" None]] by simp
  next
    case (half p v)
    have disk: "file_records (nd_disk nd1) = Some (salt, rs)" using nd1 assms(4) by simp
    have "vault_open ve (pv_io env) master (nd_disk nd1) = Inr v"
      using half(2) assms(2) by (auto simp: open_vault_def belongs_def split: sum.splits)
    note opened = opened_reads_contents [OF disk this, of cipher "peer_gossip_key (p_id p)"]
    have v: "va_salt v = salt \<longrightarrow> va_cipher v = cipher" using opened assms(1) by (simp add: site_ok_def)
    have empty: "contents ve cipher (nd_disk nd1) (peer_gossip_key (p_id p)) \<noteq> Some secret" if "utf8_valid secret" for secret
      using opened assms(1,2) half(4) that by (auto simp: site_ok_def belongs_def key_stored_def split: option.splits)
    note fills = half_fills [OF assms(1,2) disk v, of p rq, folded half(5)]
    obtain r0 where r0: "r0 \<in> set (db_peers (nd_db nd1))" "pr_id r0 = p_id p" "pr_gossip_url r0 = None"
      using get_peer_row [OF half(1)] half(3) by auto
    have stay: "\<exists>r' \<in> set (db_peers (nd_db nd')). pr_id r' = pr_id r \<and> pr_gossip_url r' = pr_gossip_url r"
      if r: "r \<in> set (db_peers (nd_db nd))" "pr_gossip_url r \<noteq> None" for r
    proof -
      obtain r1 where r1: "r1 \<in> set (db_peers (nd_db nd1))" "pr_id r1 = pr_id r" "pr_gossip_url r1 = pr_gossip_url r"
        using stays_row [OF addresses_unmoved [of "nd_db nd" "nd_db nd1" None] r(1)] nd1 by auto
      have "pr_id r1 \<noteq> p_id p" using unique_row [of pr_id "db_peers (nd_db nd1)" r1 r0] ok1 r0 r1 r(2) by (auto simp: peers_ok_def)
      then show ?thesis using stays_row [of "Some (p_id p)" "nd_db nd1" "nd_db nd'" r1] fills r1 by simp
    qed
    show ?thesis using stay fills empty nd1 by metis
  qed
qed

text \<open>Witness of C22: Sam's address and key stay when somebody calls again with Sam's key.\<close>

abbreviation sam_paired :: node where
  "sam_paired \<equiv> fst (pair_route sideA (Some ''aa11'') None \<lparr>rq_url = ''http://b.example'', rq_key = ''bb22'', rq_record = None\<rparr>
     (fst (add_friend sideA ''Sam'' ScopeAll sample_node)))"

theorem pairing_never_overwrites_witness:
  "let (nd', answer) = pair_route sideA (Some ''aa11'') None \<lparr>rq_url = ''http://evil.example'', rq_key = ''ee55'', rq_record = None\<rparr> sam_paired in
   answer = AlreadyPaired \<and> (\<exists>r \<in> set (db_peers (nd_db nd')). pr_id r = 1 \<and> pr_gossip_url r = Some ''http://b.example/'') \<and>
   contents clear_env ''master'' (nd_disk nd') (peer_gossip_key 1) = Some ''bb22''"
proof -
  let ?rq = "\<lparr>rq_url = ''http://evil.example'', rq_key = ''ee55'', rq_record = None\<rparr>"
  obtain nd' answer where run: "pair_route sideA (Some ''aa11'') None ?rq sam_paired = (nd', answer)" by fastforce
  have "snd (pair_route sideA (Some ''aa11'') None ?rq sam_paired) = AlreadyPaired" by code_simp
  then have answer: "answer = AlreadyPaired" using run by simp
  have site: "site_ok clear_env (replicate 16 CHR ''s'') ''master'' ''master''" by (simp add: site_ok_def clear_env_def)
  have env: "belongs clear_env ''master'' sideA" by (auto simp: belongs_def sample_side_def io_sane_def calm_io_def)
  have ok: "peers_ok (nd_db sam_paired)" by code_simp
  have "map_option fst (file_records (nd_disk sam_paired)) = Some (replicate 16 CHR ''s'')" by code_simp
  then obtain rs where disk: "file_records (nd_disk sam_paired) = Some (replicate 16 CHR ''s'', rs)" by auto
  have "contents clear_env ''master'' (nd_disk sam_paired) (peer_gossip_key 1) = Some ''bb22''" "utf8_valid ''bb22''" by code_simp+
  moreover have "map addressed (db_peers (nd_db sam_paired)) = [(1, Some ''http://b.example/'')]" by code_simp
  then obtain r where "r \<in> set (db_peers (nd_db sam_paired))" "pr_id r = 1" "pr_gossip_url r = Some ''http://b.example/''"
    by (auto simp: addressed_def)
  ultimately have "\<exists>r' \<in> set (db_peers (nd_db nd')). pr_id r' = 1 \<and> pr_gossip_url r' = Some ''http://b.example/''"
      "contents clear_env ''master'' (nd_disk nd') (peer_gossip_key 1) = Some ''bb22''"
    using pairing_never_overwrites [OF site env ok disk run] by fastforce+
  then show ?thesis using run answer by simp
qed

end
