(* ===== verification/Spec2Isabelle.thy ===== *)
theory Spec2Isabelle
  imports Announce Paths Factory Store Tracker_Http Lighthouse Gossip Sync_Report Web_Accounts Friends
begin

text \<open>
  \<^bold>\<open>sharerr-rs\<close>: a daemon that shares files of a media library with friends over BitTorrent. Files
  that carry a tag in the library managers (Sonarr, Radarr and the like), or lie in configured directories, become private
  torrents announced to the instance's own tracker; friends hold a key, read a feed, fetch \<^verbatim>\<open>.torrent\<close> files and announce.
  Instances tell one another where they can be reached by signed records, directly (gossip) or through a lighthouse.

  \<^bold>\<open>The parts and how they interact.\<close> A reconciliation pass (\<^verbatim>\<open>sync/mod.rs\<close>) asks the library sources what is tagged, the store
  (\<^verbatim>\<open>sharerr-store\<close>) what is recorded and the torrent client what it holds. What is new goes through the seeder
  (\<^verbatim>\<open>sync/seed.rs\<close>): reuse what the client has, join a friend's torrent, or build one (\<^verbatim>\<open>factory.rs\<close>) under a release title
  (\<^verbatim>\<open>title.rs\<close>), with paths translated between the views of the containers (\<^verbatim>\<open>paths.rs\<close>) and announce URLs made from the
  advertised endpoint (\<^verbatim>\<open>endpoint.rs\<close>, \<^verbatim>\<open>sharerr-torrent/src/tracker.rs\<close>). What is no longer tagged is withdrawn. The tracker
  routes (\<^verbatim>\<open>sharerr/src/tracker.rs\<close>) admit a friend by token or key, keep the swarms (\<^verbatim>\<open>announce.rs\<close>), account transfers in the
  store and serve cached torrents. The lighthouse and gossip keep endpoint records that are newer and verified. The operator signs
  in to a web interface (\<^verbatim>\<open>web/auth.rs\<close>) with a password and an optional one-time code; credentials for other programs are kept
  in an encrypted vault (\<^verbatim>\<open>vault.rs\<close>). Two operators become friends by one pasted invite (\<^verbatim>\<open>pairing.rs\<close>, \<^verbatim>\<open>web/peers.rs\<close>), which leaves on
  each side a row in the store and a key in the vault.

  \<^bold>\<open>Conventions.\<close> Bytes and Rust strings are HOL strings of 8-bit characters, a string being its UTF-8 bytes. Signed
  integers are \<^typ>\<open>int\<close> and unsigned ones \<^typ>\<open>nat\<close>, with saturation, wrap-around, checked arithmetic and SQLite's overflow
  to floating point written out where the code can reach them. \<^verbatim>\<open>BTreeMap\<close> is a sorted association list, \<^verbatim>\<open>HashMap\<close> an
  association list with distinct keys whose iteration order is a parameter. A fallible function answers \<^typ>\<open>'e + 'a\<close>; a
  stateful one takes and returns its state record, also on its error paths. A table is the list of its rows in order of
  id, and a statement a function on it. Third-party code (SHA-1, SHA-256, Ed25519, hex, the url crate, Unicode tables,
  SQLite's choice of ids), other programs (the torrent client, the library managers, a friend's web server), the file
  system and the clocks are arguments of the definitions that use them; what a theorem needs of them is a hypothesis
  of that theorem, with a witness that instantiates it.

  \<^bold>\<open>Theories and sources.\<close>
  \<^item> \<^verbatim>\<open>Prelude\<close>: the interfaces as locales (a codec and a strict codec, a spelled enumeration, a finite map, a component with an
    invariant, an evolution of states), each interpreted on the definitions of the components that provide it.
    \<^verbatim>\<open>Rust_Std\<close>, \<^verbatim>\<open>Rust_Text\<close>, \<^verbatim>\<open>Rust_Path\<close>, \<^verbatim>\<open>Net\<close>: what is used of the standard library.
  \<^item> \<^verbatim>\<open>Bencode\<close> (\<^verbatim>\<open>sharerr-torrent/src/bencode.rs\<close>), \<^verbatim>\<open>Metainfo\<close> (\<^verbatim>\<open>metainfo.rs\<close>): writing then reading is the identity, the reader
    accepts exactly a stated grammar, rewriting announce fields keeps the info hash.
  \<^item> \<^verbatim>\<open>Endpoint\<close> (\<^verbatim>\<open>sharerr-core/src/endpoint.rs\<close>), \<^verbatim>\<open>Announce_Url\<close> (\<^verbatim>\<open>sharerr-torrent/src/tracker.rs\<close>), \<^verbatim>\<open>Announce\<close> (\<^verbatim>\<open>announce.rs\<close>):
    the bounded history of addresses, announce sets and tokens, the swarms as a refinement of a map of peers with expiry, what
    an announce answers, and exact accounting of transfers under resets and saturation.
  \<^item> \<^verbatim>\<open>Paths\<close> (\<^verbatim>\<open>sharerr-core/src/paths.rs\<close>), \<^verbatim>\<open>Media_Model\<close> (\<^verbatim>\<open>model.rs\<close>, \<^verbatim>\<open>macros.rs\<close>), \<^verbatim>\<open>Seeding_Config\<close> (parts of \<^verbatim>\<open>config.rs\<close>),
    \<^verbatim>\<open>Title\<close> (\<^verbatim>\<open>title.rs\<close>): longest-prefix translation, the domain types, the upload cap by the hour, and which titles read back
    as the work they are for.
  \<^item> \<^verbatim>\<open>Factory\<close> (\<^verbatim>\<open>factory.rs\<close>, \<^verbatim>\<open>error.rs\<close>): files are streams of reads; piece hashes, the v2 block tree, verification and
    retargeting. A built torrent describes the bytes of its file, however the reads were cut.
  \<^item> \<^verbatim>\<open>Items\<close> (\<^verbatim>\<open>sharerr-store/src/db.rs\<close>), \<^verbatim>\<open>Database\<close>, \<^verbatim>\<open>Peer_Scope\<close>, \<^verbatim>\<open>Peers\<close> (\<^verbatim>\<open>peers.rs\<close>, \<^verbatim>\<open>transfers.rs\<close>), \<^verbatim>\<open>Peer_Endpoints\<close>
    (\<^verbatim>\<open>endpoints.rs\<close>), \<^verbatim>\<open>Store_Catalog\<close> (\<^verbatim>\<open>catalog.rs\<close>), \<^verbatim>\<open>Store_History\<close> (\<^verbatim>\<open>swarm.rs\<close>, \<^verbatim>\<open>runs.rs\<close>, \<^verbatim>\<open>retention.rs\<close>), \<^verbatim>\<open>Store\<close>: the database,
    statement by statement, and every write as an event. Over any history of writes the schema's invariant holds,
    revocation and identity binding are final, first contact happens once, sightings never rewind; SQL clauses
    agree with the pure access rules. A JSON column is what reading it can tell, so that a row another version damaged fails the read
    that meets it, or is skipped, as in the code; on a table the store wrote itself no read fails.
  \<^item> \<^verbatim>\<open>Tracker_Http\<close> (\<^verbatim>\<open>sharerr/src/tracker.rs\<close>): the routes, over the swarms and the store. Who is admitted and what is refused,
    on every branch; where a token is required, a revoked friend is out whatever follows.
  \<^item> \<^verbatim>\<open>Lighthouse\<close> (\<^verbatim>\<open>sharerr-lighthouse/src/lib.rs\<close>), \<^verbatim>\<open>Gossip\<close> (\<^verbatim>\<open>gossip.rs\<close>): the table stays bounded and verified, a report displaces
    only its own keypair's older record, a batch adds nobody and forges nothing whichever statements the database refuses, a pull
    answers the intersection.
  \<^item> \<^verbatim>\<open>Client\<close> (\<^verbatim>\<open>sharerr-client/src/lib.rs\<close>), \<^verbatim>\<open>Seeder\<close> (\<^verbatim>\<open>sync/seed.rs\<close>): a client is a record of operations on its own state, and
    what is asked of it is recorded as a list of calls, so that theorems can say what is never asked. Fallible steps
    compose by \<^verbatim>\<open>run_then\<close>; the locale \<^verbatim>\<open>step_order\<close> carries a reflexive and transitive relation between states through them
    and is interpreted for every frame property.
  \<^item> \<^verbatim>\<open>Syncer\<close> (\<^verbatim>\<open>sync/mod.rs\<close>), \<^verbatim>\<open>Sync_Pass\<close>, \<^verbatim>\<open>Sync_Report\<close>: the whole pass over the seeder, the store and the client, with every
    statement of the database allowed to fail. A dry run changes nothing; a pass takes away only what a complete scan no
    longer lists or what has ended; every file still shared is counted once; a settled library is left alone.
  \<^item> \<^verbatim>\<open>Vault\<close> (\<^verbatim>\<open>sharerr-store/src/vault.rs\<close>), \<^verbatim>\<open>Secrets\<close> (\<^verbatim>\<open>sharerr/src/secrets.rs\<close>): the encrypted file of secrets, byte for byte, with the
    cipher and each failure of the file system as arguments. Once the file exists, however several handles of it interleave and
    whatever fails, it refines a map from names to values changed by exactly the mutations that reported success; a lemma
    shows what a failed first write does before there is a file.
  \<^item> \<^verbatim>\<open>Accounts\<close> (\<^verbatim>\<open>sharerr-store/src/users.rs\<close>), \<^verbatim>\<open>Totp\<close> (\<^verbatim>\<open>totp.rs\<close>): the accounts of the web interface, and the codes of their second factor.
  \<^item> \<^verbatim>\<open>Web_Proxy\<close>, \<^verbatim>\<open>Web_Sessions\<close>, \<^verbatim>\<open>Web_Auth\<close> (\<^verbatim>\<open>web/auth.rs\<close>, \<^verbatim>\<open>web/two_factor.rs\<close>, the layers of \<^verbatim>\<open>web/mod.rs\<close>, \<^verbatim>\<open>IpRange\<close> of \<^verbatim>\<open>config.rs\<close>),
    \<^verbatim>\<open>Web_Guard\<close>, \<^verbatim>\<open>Web_Accounts\<close>: a request to the web interface is one step on the accounts, the sessions and the throttle, and a
    history of requests is a run. Sessions are earned, attempts are bounded, headers of strangers are read only behind trusted proxies, an account changes only
    with its password and a code is good once; the last two follow from an abstract relation of the changes a request may make.
  \<^item> \<^verbatim>\<open>Pairing\<close> (\<^verbatim>\<open>pairing.rs\<close>, the writing handlers of \<^verbatim>\<open>web/peers.rs\<close>, \<^verbatim>\<open>check_api_key\<close> of \<^verbatim>\<open>torznab/mod.rs\<close>), \<^verbatim>\<open>Friends\<close>: an instance is its
    serving state and its vault's disk, and two instances are composed by taking the one's pairing route as the network of the other. A
    pairing that is reported is complete on both sides, the pairing route overwrites nothing, and over any history of these handlers a
    new friend never finds the key of another under its name.

  \<^bold>\<open>Fuel and bounds.\<close> No definition uses fuel: every loop of the code is a structural recursion or has a termination proof with
  a measure (the bencode reader by the unread input, the readers of digits by the number, the block tree by its width), so
  every modelled function is total. Bounds that appear are the code's own (ten thousand lighthouse records, five
  announce tiers, 64 gossip records, the depth of bencode nesting).

  \<^bold>\<open>Not modelled.\<close> HTTP clients and servers as such (the routing and form decoding of axum, the *arr, qBittorrent, Deluge, Transmission
  and rTorrent clients, the VPN poller, notifications), encryption and password hashing, the schema migrations, reading and
  writing of the settings file, the web pages other than signing in and the friends page, and the command line: these are I/O, other programs, or
  text for people. The text of JSON is not modelled, only what decoding it gives. Concurrency appears where the code interleaves: store writes as arbitrary
  sequences of events, the handles of the vault as arbitrary sequences of mutations under its lock, the requests of the web
  interface as sequences of whole requests, the reads of a pass as one snapshot; a lock poisoned by a panic does not occur.
\<close>

end
